(* ===== verification/Polycode_Prelude.thy ===== *)
theory Polycode_Prelude
  imports Complex_Main "HOL-Library.Word" "HOL-Library.Sublist"
begin

text \<open>
  Shared vocabulary of the development: the result type of fallible Rust functions and
  the \<open>?\<close> operator, saturating arithmetic on \<open>u64\<close>, the durations and instants of
  \<open>std::time\<close>, and the generic list lemmas the components use.  Nothing here models a
  particular source file; it models the parts of the Rust standard library that the
  modelled sources call.
\<close>

named_theorems sat_simps "saturating u64 arithmetic, read as natural numbers"
named_theorems queue_laws "laws of first-in-first-out buffers"
named_theorems patch_simps "facts on patch parsing and application"
named_theorems policy_simps "facts on permission rules and decisions"

section \<open>Fallible computations\<close>

text \<open>
  \<open>Result<T, E>\<close> is the sum type \<open>'e + 't\<close> with \<open>Inl\<close> for \<open>Err\<close>.  The
  postfix operator \<open>?\<close> returns early with the error.
\<close>

type_synonym ('t, 'e) result = "'e + 't"

definition try_res :: "('t, 'e) result \<Rightarrow> ('t \<Rightarrow> ('u, 'e) result) \<Rightarrow> ('u, 'e) result" where
  "try_res r k = (case r of Inl e \<Rightarrow> Inl e | Inr t \<Rightarrow> k t)"

lemma try_res_simps [simp]:
  "try_res (Inl e) k = Inl e"
  "try_res (Inr t) k = k t"
  by (simp_all add: try_res_def)

lemma try_res_Inr_iff: "try_res r k = Inr u \<longleftrightarrow> (\<exists>t. r = Inr t \<and> k t = Inr u)"
  by (cases r) auto

lemma try_res_Inr_E [elim!]:
  assumes "try_res r k = Inr u"
  obtains t where "r = Inr t" and "k t = Inr u"
  using assms by (auto simp: try_res_Inr_iff)

section \<open>Unsigned 64-bit arithmetic\<close>

type_synonym u64 = "64 word"
type_synonym u8 = "8 word"

definition u64_max :: nat where
  "u64_max = 2 ^ 64 - 1"

definition saturating_mul :: "u64 \<Rightarrow> u64 \<Rightarrow> u64" where
  "saturating_mul a b = (if unat a * unat b \<le> u64_max then a * b else of_nat u64_max)"

definition saturating_sub :: "u64 \<Rightarrow> u64 \<Rightarrow> u64" where
  "saturating_sub a b = (if b \<le> a then a - b else 0)"

definition checked_div :: "u64 \<Rightarrow> u64 \<Rightarrow> u64 option" where
  "checked_div a b = (if b = 0 then None else Some (a div b))"

lemma unat_le_u64_max [simp]: "unat (w :: u64) \<le> u64_max"
  using unsigned_less [of w, where ?'a = nat] by (simp add: u64_max_def)

lemma unat_of_nat_u64: "n \<le> u64_max \<Longrightarrow> unat (of_nat n :: u64) = n"
  by (simp add: unat_of_nat u64_max_def)

lemma unat_saturating_mul [sat_simps]:
  "unat (saturating_mul a b) = min (unat a * unat b) u64_max"
proof (cases "unat a * unat b \<le> u64_max")
  case True
  then have "unat (a * b) = unat a * unat b"
    by (simp add: unat_word_ariths u64_max_def)
  with True show ?thesis by (simp add: saturating_mul_def)
next
  case False
  then show ?thesis by (simp add: saturating_mul_def unat_of_nat_u64)
qed

lemma unat_saturating_sub [sat_simps]: "unat (saturating_sub a b) = unat a - unat b"
proof (cases "b \<le> a")
  case True
  then show ?thesis by (simp add: saturating_sub_def unat_sub)
next
  case False
  then have "unat a < unat b" by (simp add: word_less_nat_alt not_le)
  with False show ?thesis by (simp add: saturating_sub_def)
qed

lemma u64_le_iff [sat_simps]: "(a :: u64) \<le> b \<longleftrightarrow> unat a \<le> unat b"
  by (rule word_le_nat_alt)

section \<open>Durations and instants\<close>

text \<open>
  \<open>std::time::Duration\<close> and \<open>std::time::Instant\<close> count nanoseconds; an instant is the
  number of nanoseconds since the platform's epoch.  Differences of instants saturate at
  zero and \<open>checked_sub\<close> fails below the epoch.
\<close>

type_synonym duration = nat
type_synonym instant = nat

definition from_millis :: "nat \<Rightarrow> duration" where
  "from_millis ms = ms * 1000000"

definition from_secs :: "nat \<Rightarrow> duration" where
  "from_secs s = s * 1000000000"

definition as_millis_u64 :: "duration \<Rightarrow> nat" where
  \<comment> \<open>\<open>as_millis()\<close> yields a \<open>u128\<close>; the cast \<open>as u64\<close> keeps the low 64 bits\<close>
  "as_millis_u64 d = (d div 1000000) mod 2 ^ 64"

definition instant_checked_sub :: "instant \<Rightarrow> duration \<Rightarrow> instant option" where
  "instant_checked_sub t d = (if d \<le> t then Some (t - d) else None)"

section \<open>Lists\<close>

text \<open>The first index from which a predicate on indices holds, below a bound.\<close>

fun find_from :: "(nat \<Rightarrow> bool) \<Rightarrow> nat \<Rightarrow> nat \<Rightarrow> nat option" where
  \<comment> \<open>the loop \<open>for i in start .. start + n { if p(i) { return Some(i) } }\<close>\<close>
  "find_from p start 0 = None"
| "find_from p start (Suc n) = (if p start then Some start else find_from p (Suc start) n)"

lemma find_from_Some_iff:
  "find_from p start n = Some i \<longleftrightarrow>
     start \<le> i \<and> i < start + n \<and> p i \<and> (\<forall>j. start \<le> j \<and> j < i \<longrightarrow> \<not> p j)"
proof (induction n arbitrary: start)
  case 0
  show ?case by simp
next
  case (Suc n)
  show ?case
  proof (cases "p start")
    case True
    then show ?thesis by (auto simp: le_less)
  next
    case False
    have "(\<forall>j. start \<le> j \<and> j < i \<longrightarrow> \<not> p j) \<longleftrightarrow> (\<forall>j. Suc start \<le> j \<and> j < i \<longrightarrow> \<not> p j)"
      using False by (metis Suc_le_eq le_less)
    moreover have "start \<le> i \<and> p i \<longleftrightarrow> Suc start \<le> i \<and> p i"
      using False by (metis Suc_le_eq le_less)
    ultimately show ?thesis using False Suc.IH [of "Suc start"] by auto
  qed
qed

lemma find_from_None_iff:
  "find_from p start n = None \<longleftrightarrow> (\<forall>i. start \<le> i \<and> i < start + n \<longrightarrow> \<not> p i)"
proof (induction n arbitrary: start)
  case 0
  show ?case by auto
next
  case (Suc n)
  have "(\<forall>i. start \<le> i \<and> i < start + Suc n \<longrightarrow> \<not> p i) \<longleftrightarrow>
        \<not> p start \<and> (\<forall>i. Suc start \<le> i \<and> i < Suc start + n \<longrightarrow> \<not> p i)"
    by (auto simp: Suc_le_eq) (metis add_Suc_right le_eq_less_or_eq)
  then show ?case using Suc.IH [of "Suc start"] by auto
qed

lemma filter_map_map_filter:
  "List.map_filter f xs = map (\<lambda>x. the (f x)) (filter (\<lambda>x. f x \<noteq> None) xs)"
  by (induction xs) (auto simp: List.map_filter_simps split: option.splits)

lemma distinct_map_filter_key:
  assumes "distinct (map f xs)"
  shows "distinct (map f (filter P xs))"
  using assms by (rule distinct_map_filter)

section \<open>Operations that keep an invariant\<close>

text \<open>
  The contract every stateful component offers its users: a step function on states, and
  an invariant that each step keeps.  Whatever follows for whole runs is proved here once.
\<close>

locale invariant_system =
  fixes step :: "'s \<Rightarrow> 'op \<Rightarrow> 's"
    and inv :: "'s \<Rightarrow> bool"
  assumes step_inv: "inv s \<Longrightarrow> inv (step s x)"
begin

lemma run_inv: "inv s \<Longrightarrow> inv (foldl step s xs)"
  by (induction xs arbitrary: s) (auto simp: step_inv)

lemma run_induct:
  assumes "inv s" and "Q s" and "\<And>s x. inv s \<Longrightarrow> Q s \<Longrightarrow> Q (step s x)"
  shows "Q (foldl step s xs)"
proof -
  have "inv (foldl step s xs) \<and> Q (foldl step s xs)"
    using assms(1,2) by (induction xs arbitrary: s) (auto simp: step_inv assms(3))
  then show ?thesis ..
qed

end

subsection \<open>Positions in a deque\<close>

fun position :: "('a \<Rightarrow> bool) \<Rightarrow> 'a list \<Rightarrow> nat option" where
  \<comment> \<open>\<open>Iterator::position\<close>\<close>
  "position P [] = None"
| "position P (x # xs) = (if P x then Some 0 else map_option Suc (position P xs))"

definition remove_at :: "nat \<Rightarrow> 'a list \<Rightarrow> 'a list" where
  \<comment> \<open>\<open>VecDeque::remove\<close>; out of range nothing changes\<close>
  "remove_at i xs = take i xs @ drop (Suc i) xs"

definition insert_at :: "nat \<Rightarrow> 'a \<Rightarrow> 'a list \<Rightarrow> 'a list" where
  \<comment> \<open>\<open>VecDeque::insert\<close>, which panics when the index exceeds the length\<close>
  "insert_at i x xs = take i xs @ x # drop i xs"

lemma position_None_iff: "position P xs = None \<longleftrightarrow> (\<forall>x \<in> set xs. \<not> P x)"
  by (induction xs) auto

lemma position_Some_split:
  assumes "position P xs = Some i"
  obtains ys x zs where "xs = ys @ x # zs" "length ys = i" "P x" "\<forall>y \<in> set ys. \<not> P y"
  using assms
proof (induction xs arbitrary: i thesis)
  case (Cons a xs)
  show ?case
  proof (cases "P a")
    case True
    with Cons.prems show ?thesis by (intro Cons.prems(1) [of "[]" a xs]) simp_all
  next
    case False
    with Cons.prems(2) obtain j where j: "position P xs = Some j" "i = Suc j" by auto
    show ?thesis
    proof (rule Cons.IH [OF _ j(1)])
      fix ys x zs
      assume "xs = ys @ x # zs" "length ys = j" "P x" "\<forall>y \<in> set ys. \<not> P y"
      with j False show thesis by (intro Cons.prems(1) [of "a # ys" x zs]) simp_all
    qed
  qed
qed simp

lemma remove_at_split [simp]: "length ys = i \<Longrightarrow> remove_at i (ys @ x # zs) = ys @ zs"
  by (auto simp: remove_at_def)

lemma insert_at_split [simp]: "length ys = i \<Longrightarrow> insert_at i x (ys @ zs) = ys @ x # zs"
  by (auto simp: insert_at_def)

lemma length_insert_at [simp]: "i \<le> length xs \<Longrightarrow> length (insert_at i x xs) = Suc (length xs)"
  by (simp add: insert_at_def)

lemma set_insert_at [simp]: "set (insert_at i x xs) = insert x (set xs)"
proof -
  have "set (insert_at i x xs) = insert x (set (take i xs @ drop i xs))"
    unfolding insert_at_def set_append by simp
  then show ?thesis by simp
qed

end
