(* ===== verification/Float64.thy ===== *)
theory Float64
  imports Polycode_Prelude "HOL-Library.Log_Nat"
begin

text \<open>
  The IEEE-754 binary64 arithmetic the sources use on non-negative values: an operation
  computes the exact rational result and rounds it to the nearest multiple of a power of
  two with 53 significant bits, ties to even.  Only values in the normal range occur in the
  modelled code (counts, quotients of counts, percentages), so subnormal numbers,
  infinities and NaN are left out.
\<close>

section \<open>Rounding to the nearest integer, ties to even\<close>

definition rne :: "rat \<Rightarrow> int" where
  "rne x = (let f = \<lfloor>x\<rfloor>; d = x - of_int f in
     if d < 1/2 then f else if 1/2 < d then f + 1 else if even f then f else f + 1)"

lemma rne_of_int [simp]: "rne (of_int n) = n"
  by (simp add: rne_def Let_def)

lemma rne_cases: "rne x = \<lfloor>x\<rfloor> \<or> rne x = \<lfloor>x\<rfloor> + 1"
  by (auto simp: rne_def Let_def)

lemma rne_mono:
  assumes "x \<le> y"
  shows "rne x \<le> rne y"
proof (cases "\<lfloor>x\<rfloor> = \<lfloor>y\<rfloor>")
  case True
  with assms show ?thesis by (auto simp: rne_def Let_def)
next
  case False
  with assms have "\<lfloor>x\<rfloor> + 1 \<le> \<lfloor>y\<rfloor>"
    using floor_mono [OF assms] by simp
  then show ?thesis using rne_cases [of x] rne_cases [of y] by linarith
qed

lemma rne_between:
  assumes "of_int a \<le> x" and "x \<le> of_int b"
  shows "a \<le> rne x" and "rne x \<le> b"
  using rne_mono [OF assms(1)] rne_mono [OF assms(2)] by simp_all

section \<open>The exponent of a positive rational\<close>

definition expo :: "rat \<Rightarrow> int" where
  "expo x = (let (p, q) = quotient_of x;
                 e = int (floorlog 2 (nat p)) - int (floorlog 2 (nat q)) - 53
             in if x < 2 powi (e + 53) then e else e + 1)"

lemma floorlog2_powi:
  assumes "0 < n"
  shows "(2 :: rat) powi (int (floorlog 2 n) - 1) \<le> of_nat n"
    and "of_nat n < (2 :: rat) powi int (floorlog 2 n)"
proof -
  have b: "2 ^ (floorlog 2 n - 1) \<le> n" "n < 2 ^ floorlog 2 n"
    using floorlog_bounds [of n 2] assms by auto
  have pos: "0 < floorlog 2 n"
    using assms by (simp add: floorlog_def)
  have "of_nat (2 ^ (floorlog 2 n - 1)) \<le> (of_nat n :: rat)"
    using b(1) by (rule of_nat_mono)
  moreover have "int (floorlog 2 n) - 1 = int (floorlog 2 n - 1)"
    using pos by simp
  ultimately show "(2 :: rat) powi (int (floorlog 2 n) - 1) \<le> of_nat n"
    by (simp only: power_int_of_nat) simp
  show "of_nat n < (2 :: rat) powi int (floorlog 2 n)"
    using b(2) by (simp only: power_int_of_nat) (metis of_nat_less_iff of_nat_numeral of_nat_power)
qed

lemma expo_bounds:
  assumes "0 < x"
  shows "2 powi (expo x + 52) \<le> x" and "x < 2 powi (expo x + 53)"
proof -
  obtain p q where pq: "quotient_of x = (p, q)" by force
  have q: "0 < q" using pq by (rule quotient_of_denom_pos)
  have x: "x = of_int p / of_int q" using pq by (rule quotient_of_div)
  have p: "0 < p" using assms q by (simp add: x zero_less_divide_iff)
  define lp lq where "lp = int (floorlog 2 (nat p))" and "lq = int (floorlog 2 (nat q))"
  define P Q :: rat where "P = of_int p" and "Q = of_int q"
  have Pb: "2 powi (lp - 1) \<le> P" "P < 2 powi lp" and Qb: "2 powi (lq - 1) \<le> Q" "Q < 2 powi lq"
    using floorlog2_powi [of "nat p"] floorlog2_powi [of "nat q"] p q
    by (simp_all add: lp_def lq_def P_def Q_def)
  have Q0: "0 < Q" and P0: "0 < P" using q p by (simp_all add: Q_def P_def)
  have lo: "2 powi (lp - lq - 1) \<le> x"
  proof -
    have "2 powi (lp - lq - 1) = 2 powi (lp - 1) / (2 powi lq :: rat)"
      by (simp add: power_int_diff)
    also have "\<dots> \<le> P / Q"
      using Pb(1) Qb(2) Q0 P0 by (intro frac_le) auto
    finally show ?thesis by (simp add: x P_def Q_def)
  qed
  have hi: "x < 2 powi (lp - lq + 1)"
  proof -
    have "P / Q < 2 powi lp / (2 powi (lq - 1) :: rat)"
      using Pb(2) Qb(1) Q0 by (intro frac_less) (auto simp: P_def p less_imp_le)
    also have "\<dots> = 2 powi (lp - (lq - 1))"
      by (simp add: power_int_diff)
    finally show ?thesis by (simp add: x P_def Q_def algebra_simps)
  qed
  have e: "expo x = (if x < 2 powi (lp - lq) then lp - lq - 53 else lp - lq - 52)"
    by (simp add: expo_def pq lp_def lq_def)
  show "2 powi (expo x + 52) \<le> x"
    using lo by (simp add: e not_less)
  show "x < 2 powi (expo x + 53)"
    using hi by (simp add: e algebra_simps)
qed

lemma powi2_le_iff: "(2 :: rat) powi a \<le> 2 powi b \<longleftrightarrow> a \<le> b"
  by (metis not_le one_less_numeral_iff order_less_imp_le power_int_increasing
      power_int_strict_increasing semiring_norm(76))

lemma expo_mono:
  assumes "0 < x" and "x \<le> y"
  shows "expo x \<le> expo y"
proof -
  have "2 powi (expo x + 52) < (2 :: rat) powi (expo y + 53)"
    using expo_bounds(1) [OF assms(1)] expo_bounds(2) [of y] assms by linarith
  then have "\<not> (2 :: rat) powi (expo y + 53) \<le> 2 powi (expo x + 52)" by simp
  then show ?thesis by (simp add: powi2_le_iff)
qed

section \<open>Rounding to binary64\<close>

definition round_f64 :: "rat \<Rightarrow> rat" where
  "round_f64 x = (if x \<le> 0 then 0 else of_int (rne (x / 2 powi expo x)) * 2 powi expo x)"

lemma round_f64_0 [simp]: "round_f64 0 = 0"
  by (simp add: round_f64_def)

lemma round_f64_bounds:
  assumes "0 < x"
  shows "2 powi (expo x + 52) \<le> round_f64 x" and "round_f64 x \<le> 2 powi (expo x + 53)"
proof -
  let ?u = "2 powi expo x :: rat"
  have u: "0 < ?u" by simp
  have lo: "(2 ^ 52 :: rat) \<le> x / ?u" and hi: "x / ?u \<le> (2 ^ 53 :: rat)"
    using expo_bounds [OF assms] by (simp_all add: power_int_add field_simps)
  have "2 ^ 52 \<le> rne (x / ?u)" and "rne (x / ?u) \<le> 2 ^ 53"
    using rne_between [of "2 ^ 52" "x / ?u" "2 ^ 53"] lo hi by simp_all
  then have "(2 ^ 52 :: rat) \<le> of_int (rne (x / ?u))" and "of_int (rne (x / ?u)) \<le> (2 ^ 53 :: rat)"
    by (metis of_int_le_iff of_int_numeral of_int_power)+
  then show "2 powi (expo x + 52) \<le> round_f64 x" and "round_f64 x \<le> 2 powi (expo x + 53)"
    using assms u by (simp_all add: round_f64_def power_int_add mult.commute)
qed

lemma round_f64_nonneg [simp]: "0 \<le> round_f64 x"
proof (cases "0 < x")
  case True
  then have "0 < (2 :: rat) powi (expo x + 52)" by simp
  with round_f64_bounds(1) [OF True] show ?thesis by linarith
next
  case False
  then show ?thesis by (simp add: round_f64_def)
qed

theorem round_f64_mono:
  assumes "x \<le> y"
  shows "round_f64 x \<le> round_f64 y"
proof (cases "0 < x")
  case False
  then have "round_f64 x = 0" by (simp add: round_f64_def)
  then show ?thesis by simp
next
  case True
  with assms have y: "0 < y" by simp
  consider "expo x = expo y" | "expo x + 53 \<le> expo y + 52"
    using expo_mono [OF True assms] by linarith
  then show ?thesis
  proof cases
    case 1
    then have "rne (x / 2 powi expo x) \<le> rne (y / 2 powi expo y)"
      using assms by (intro rne_mono) (simp add: divide_right_mono)
    with True y 1 show ?thesis by (simp add: round_f64_def)
  next
    case 2
    then have "(2 :: rat) powi (expo x + 53) \<le> 2 powi (expo y + 52)"
      by (simp add: powi2_le_iff)
    with round_f64_bounds(2) [OF True] round_f64_bounds(1) [OF y] show ?thesis by linarith
  qed
qed

lemma round_f64_of_nat [simp]:
  assumes "n < 2 ^ 53"
  shows "round_f64 (of_nat n) = of_nat n"
proof (cases "n = 0")
  case True
  then show ?thesis by simp
next
  case False
  then have n: "0 < (of_nat n :: rat)" by simp
  have "(of_nat n :: rat) < of_nat (2 ^ 53)"
    using assms by (simp only: of_nat_less_iff)
  then have "(of_nat n :: rat) < 2 powi 53" by simp
  with expo_bounds(1) [OF n] have "\<not> (2 :: rat) powi 53 \<le> 2 powi (expo (of_nat n) + 52)"
    by linarith
  then have e: "expo (of_nat n) \<le> 0" by (simp only: powi2_le_iff)
  define k where "k = nat (- expo (of_nat n))"
  with e have k: "expo (of_nat n) = - int k" by simp
  have "(of_nat n :: rat) / 2 powi expo (of_nat n) = of_int (int n * 2 ^ k)"
    by (simp add: k power_int_minus field_simps)
  then have "round_f64 (of_nat n) = of_int (int n * 2 ^ k) * 2 powi expo (of_nat n)"
    using n by (simp only: round_f64_def rne_of_int) simp
  then show ?thesis by (simp add: k power_int_minus field_simps)
qed

lemma round_f64_numeral [simp]:
  "(numeral k :: nat) < 2 ^ 53 \<Longrightarrow> round_f64 (numeral k) = numeral k"
  using round_f64_of_nat [of "numeral k"] by simp

lemma round_f64_1 [simp]: "round_f64 1 = 1"
  using round_f64_of_nat [of 1] by simp

lemma expo_unique:
  assumes "2 powi (e + 52) \<le> x" and "x < 2 powi (e + 53)"
  shows "expo x = e"
proof -
  have "0 < (2 :: rat) powi (e + 52)" by simp
  with assms(1) have x: "0 < x" by linarith
  have "\<not> (2 :: rat) powi (e + 53) \<le> 2 powi (expo x + 52)"
    using expo_bounds(1) [OF x] assms(2) by linarith
  moreover have "\<not> (2 :: rat) powi (expo x + 53) \<le> 2 powi (e + 52)"
    using expo_bounds(2) [OF x] assms(1) by linarith
  ultimately show ?thesis by (simp add: powi2_le_iff)
qed

lemma round_f64_powi: "round_f64 (2 powi k) = 2 powi k"
proof -
  have e: "expo (2 powi k) = k - 52"
    by (rule expo_unique) (simp_all add: power_int_add)
  have "(2 :: rat) powi k / 2 powi (k - 52) = of_int (2 ^ 52)"
    by (simp add: power_int_diff)
  then have "round_f64 (2 powi k) = of_int (2 ^ 52) * 2 powi (k - 52)"
    by (simp only: round_f64_def e rne_of_int) (simp add: not_le)
  then show ?thesis by (simp add: power_int_diff)
qed

lemma round_f64_half [simp]: "round_f64 (1/2) = 1/2"
  using round_f64_powi [of "- 1"] by (simp add: power_int_minus)

lemma rne_error: "\<bar>of_int (rne x) - x\<bar> \<le> 1/2"
proof -
  have f: "of_int \<lfloor>x\<rfloor> \<le> x" "x < of_int \<lfloor>x\<rfloor> + 1"
    using floor_correct [of x] by simp_all
  consider "x - of_int \<lfloor>x\<rfloor> \<le> 1/2" and "rne x = \<lfloor>x\<rfloor>"
    | "1/2 \<le> x - of_int \<lfloor>x\<rfloor>" and "rne x = \<lfloor>x\<rfloor> + 1"
    unfolding rne_def Let_def by (metis less_eq_rat_def linorder_less_linear)
  then show ?thesis using f by cases (auto simp: abs_le_iff)
qed

lemma round_f64_error:
  assumes "0 \<le> x"
  shows "\<bar>round_f64 x - x\<bar> \<le> x / 2 ^ 53"
proof (cases "x = 0")
  case True
  then show ?thesis by simp
next
  case False
  with assms have x: "0 < x" by simp
  let ?u = "2 powi expo x :: rat"
  have u: "0 < ?u" by simp
  have "round_f64 x - x = (of_int (rne (x / ?u)) - x / ?u) * ?u"
    using x by (simp add: round_f64_def algebra_simps)
  then have "\<bar>round_f64 x - x\<bar> = \<bar>of_int (rne (x / ?u)) - x / ?u\<bar> * ?u"
    using u by (simp add: abs_mult)
  also have "\<dots> \<le> 1/2 * ?u"
    using rne_error u by (intro mult_right_mono) auto
  also have "\<dots> \<le> x / 2 ^ 53"
    using expo_bounds(1) [OF x] by (simp add: power_int_add field_simps)
  finally show ?thesis .
qed

section \<open>The operations the sources use\<close>

definition f64_of_nat :: "nat \<Rightarrow> rat" where
  \<comment> \<open>\<open>n as f64\<close>\<close>
  "f64_of_nat n = round_f64 (of_nat n)"

definition f64_div :: "rat \<Rightarrow> rat \<Rightarrow> rat" where
  "f64_div a b = round_f64 (a / b)"

definition f64_mul :: "rat \<Rightarrow> rat \<Rightarrow> rat" where
  "f64_mul a b = round_f64 (a * b)"

definition f64_round :: "rat \<Rightarrow> int" where
  \<comment> \<open>\<open>f64::round\<close> on a non-negative value: half away from zero\<close>
  "f64_round x = \<lfloor>x + 1/2\<rfloor>"

lemma f64_of_nat_mono: "m \<le> n \<Longrightarrow> f64_of_nat m \<le> f64_of_nat n"
  by (simp add: f64_of_nat_def round_f64_mono)

lemma f64_of_nat_ge1: "0 < n \<Longrightarrow> 1 \<le> f64_of_nat n"
  using f64_of_nat_mono [of 1 n] by (simp add: f64_of_nat_def)

lemma f64_quotient_bounds:
  assumes "m \<le> n" and "0 < n"
  shows "0 \<le> f64_div (f64_of_nat m) (f64_of_nat n)"
    and "f64_div (f64_of_nat m) (f64_of_nat n) \<le> 1"
proof -
  have "f64_of_nat m / f64_of_nat n \<le> 1"
    using f64_of_nat_mono [OF assms(1)] f64_of_nat_ge1 [OF assms(2)] by simp
  then show "f64_div (f64_of_nat m) (f64_of_nat n) \<le> 1"
    using round_f64_mono [of _ 1] by (simp add: f64_div_def)
  show "0 \<le> f64_div (f64_of_nat m) (f64_of_nat n)" by (simp add: f64_div_def)
qed

lemma f64_quotient_self: "0 < n \<Longrightarrow> f64_div (f64_of_nat n) (f64_of_nat n) = 1"
  using f64_of_nat_ge1 [of n] by (simp add: f64_div_def)

lemma f64_quotient_ge:
  assumes "0 < n" and "n < 2 ^ 53" and "m < 2 ^ 53"
    and "round_f64 t = t" and "t * of_nat n \<le> of_nat m"
  shows "t \<le> f64_div (f64_of_nat m) (f64_of_nat n)"
proof -
  have "t \<le> of_nat m / of_nat n" using assms by (simp add: field_simps)
  then have "round_f64 t \<le> round_f64 (of_nat m / of_nat n)" by (rule round_f64_mono)
  with assms show ?thesis by (simp add: f64_div_def f64_of_nat_def)
qed

end
