(* ===== verification/Rust_Strings.thy ===== *)
theory Rust_Strings
  imports Polycode_Prelude
begin

text \<open>
  Rust's \<open>str\<close> and \<open>String\<close> as lists of Unicode scalar values, with the functions of the
  standard library that the modelled sources call.  A scalar value is a natural number;
  \<open>byte_len\<close> is \<open>str::len\<close>, which counts the bytes of the UTF-8 encoding.
  ASCII literals of the sources are written \<open>lit ''...''\<close>.
\<close>

type_synonym rchar = nat
type_synonym rstring = "rchar list"

definition lit :: "string \<Rightarrow> rstring" where
  "lit s = map of_char s"

abbreviation (input) NL :: rchar where "NL \<equiv> 10"
abbreviation (input) CR :: rchar where "CR \<equiv> 13"

section \<open>Lengths and characters\<close>

definition len_utf8 :: "rchar \<Rightarrow> nat" where
  "len_utf8 c = (if c < 128 then 1 else if c < 2048 then 2 else if c < 65536 then 3 else 4)"

definition byte_len :: "rstring \<Rightarrow> nat" where
  "byte_len s = sum_list (map len_utf8 s)"

definition is_whitespace :: "rchar \<Rightarrow> bool" where
  \<comment> \<open>\<open>char::is_whitespace\<close>: the Unicode property White\_Space\<close>
  "is_whitespace c \<longleftrightarrow> 9 \<le> c \<and> c \<le> 13 \<or> c = 32 \<or> c = 133 \<or> c = 160 \<or> c = 5760 \<or>
     8192 \<le> c \<and> c \<le> 8202 \<or> c = 8232 \<or> c = 8233 \<or> c = 8239 \<or> c = 8287 \<or> c = 12288"

definition is_ascii_digit :: "rchar \<Rightarrow> bool" where
  "is_ascii_digit c \<longleftrightarrow> 48 \<le> c \<and> c \<le> 57"

definition to_ascii_lowercase :: "rstring \<Rightarrow> rstring" where
  "to_ascii_lowercase s = map (\<lambda>c. if 65 \<le> c \<and> c \<le> 90 then c + 32 else c) s"

text \<open>An evaluation rule that decides the ASCII characters without the large constants.\<close>

lemma is_whitespace_code [code]:
  "is_whitespace c = (if c < 128 then (if c < 14 then 9 \<le> c else c = 32)
     else c = 133 \<or> c = 160 \<or> c = 5760 \<or> 8192 \<le> c \<and> c \<le> 8202 \<or> c = 8232 \<or> c = 8233 \<or>
       c = 8239 \<or> c = 8287 \<or> c = 12288)"
  by (auto simp: is_whitespace_def)

lemma byte_len_simps [simp]:
  "byte_len [] = 0"
  "byte_len (c # s) = len_utf8 c + byte_len s"
  "byte_len (s @ t) = byte_len s + byte_len t"
  by (simp_all add: byte_len_def)

lemma len_utf8_pos [simp]: "0 < len_utf8 c"
  by (simp add: len_utf8_def)

lemma len_utf8_le4: "len_utf8 c \<le> 4"
  by (simp add: len_utf8_def)

section \<open>Trimming\<close>

definition trim_start :: "rstring \<Rightarrow> rstring" where
  "trim_start s = dropWhile is_whitespace s"

definition trim_end :: "rstring \<Rightarrow> rstring" where
  "trim_end s = rev (dropWhile is_whitespace (rev s))"

definition trim :: "rstring \<Rightarrow> rstring" where
  "trim s = trim_end (trim_start s)"

lemma trim_end_append_nonws:
  "\<not> is_whitespace c \<Longrightarrow> trim_end (s @ [c]) = s @ [c]"
  by (simp add: trim_end_def)

lemma trim_end_idem [simp]: "trim_end (trim_end s) = trim_end s"
  by (simp add: trim_end_def)

lemma trim_start_idem [simp]: "trim_start (trim_start s) = trim_start s"
  by (simp add: trim_start_def)

lemma trim_end_trim_start: "trim_end (trim_start s) = trim_start (trim_end s)"
proof (cases "\<forall>c \<in> set s. is_whitespace c")
  case True
  then have "dropWhile is_whitespace s = []" and "dropWhile is_whitespace (rev s) = []"
    by (simp_all add: dropWhile_eq_Nil_conv)
  then show ?thesis by (simp only: trim_start_def trim_end_def rev.simps dropWhile.simps)
next
  case False
  then obtain xs c ys where s: "s = xs @ c # ys" and c: "\<not> is_whitespace c"
    by (metis split_list)
  have st: "dropWhile is_whitespace (us @ c # vs) = dropWhile is_whitespace us @ c # vs" for us vs
    using c by (induction us) auto
  show ?thesis
    by (simp add: s trim_start_def trim_end_def st)
qed

lemma trim_idem [simp]: "trim (trim s) = trim s"
  by (simp add: trim_def flip: trim_end_trim_start)

lemma trim_trim_end [simp]: "trim (trim_end s) = trim s"
  by (simp add: trim_def flip: trim_end_trim_start)

lemma trim_id:
  assumes "s \<noteq> []" and "\<not> is_whitespace (hd s)" and "\<not> is_whitespace (last s)"
  shows "trim s = s"
proof -
  have "trim_start s = s" using assms by (cases s) (auto simp: trim_start_def)
  moreover have "trim_end s = s"
    using assms trim_end_append_nonws [of "last s" "butlast s"] by simp
  ultimately show ?thesis by (simp add: trim_def)
qed

section \<open>Prefixes and suffixes\<close>

definition starts_with :: "rstring \<Rightarrow> rstring \<Rightarrow> bool" where
  "starts_with s p \<longleftrightarrow> take (length p) s = p"

definition ends_with :: "rstring \<Rightarrow> rstring \<Rightarrow> bool" where
  "ends_with s p \<longleftrightarrow> length p \<le> length s \<and> drop (length s - length p) s = p"

definition strip_prefix :: "rstring \<Rightarrow> rstring \<Rightarrow> rstring option" where
  "strip_prefix s p = (if starts_with s p then Some (drop (length p) s) else None)"

definition strip_suffix :: "rstring \<Rightarrow> rstring \<Rightarrow> rstring option" where
  "strip_suffix s p = (if ends_with s p then Some (take (length s - length p) s) else None)"

definition contains :: "rstring \<Rightarrow> rstring \<Rightarrow> bool" where
  "contains s pat \<longleftrightarrow> list_ex (\<lambda>i. starts_with (drop i s) pat) [0..<Suc (length s)]"

lemma starts_with_append [simp]: "starts_with (p @ s) p"
  by (simp add: starts_with_def)

lemma starts_with_iff: "starts_with s p \<longleftrightarrow> (\<exists>t. s = p @ t)"
  by (metis append_eq_conv_conj append_take_drop_id starts_with_def)

lemma strip_prefix_append [simp]: "strip_prefix (p @ s) p = Some s"
  by (simp add: strip_prefix_def)

lemma strip_prefix_Some_iff: "strip_prefix s p = Some t \<longleftrightarrow> s = p @ t"
  by (auto simp: strip_prefix_def starts_with_iff)

lemma ends_with_iff: "ends_with s p \<longleftrightarrow> (\<exists>t. s = t @ p)"
proof
  assume "ends_with s p"
  then show "\<exists>t. s = t @ p" by (metis append_take_drop_id ends_with_def)
next
  assume "\<exists>t. s = t @ p"
  then show "ends_with s p" by (auto simp: ends_with_def)
qed

section \<open>Splitting and joining\<close>

fun split_on :: "rchar \<Rightarrow> rstring \<Rightarrow> rstring list" where
  \<comment> \<open>\<open>s.split(c)\<close>: always at least one piece\<close>
  "split_on c [] = [[]]"
| "split_on c (x # s) =
     (if x = c then [] # split_on c s
      else (case split_on c s of [] \<Rightarrow> [[x]] | p # ps \<Rightarrow> (x # p) # ps))"

fun join :: "rstring \<Rightarrow> rstring list \<Rightarrow> rstring" where
  "join sep [] = []"
| "join sep [s] = s"
| "join sep (s # t # ts) = s @ sep @ join sep (t # ts)"

definition str_lines :: "rstring \<Rightarrow> rstring list" where
  \<comment> \<open>\<open>str::lines\<close>: pieces ended by a newline lose it and one carriage return before it;
      the last piece is kept as it is, and dropped when empty\<close>
  "str_lines s = (let ps = split_on NL s; init = butlast ps; l = last ps in
     map (\<lambda>p. case strip_suffix p [CR] of Some q \<Rightarrow> q | None \<Rightarrow> p) init @ (if l = [] then [] else [l]))"

lemma split_on_not_Nil [simp]: "split_on c s \<noteq> []"
  by (induction s) (auto split: list.splits)

lemma join_Cons: "ts \<noteq> [] \<Longrightarrow> join sep (s # ts) = s @ sep @ join sep ts"
  by (cases ts) auto

lemma join_snoc: "xs \<noteq> [] \<Longrightarrow> join sep (xs @ [e]) = join sep xs @ sep @ e"
  by (induction sep xs rule: join.induct) (auto simp: join_Cons)

lemma join_split_on [simp]: "join [c] (split_on c s) = s"
proof (induction s)
  case Nil
  show ?case by simp
next
  case (Cons x s)
  show ?case
  proof (cases "x = c")
    case True
    with Cons show ?thesis by (simp add: join_Cons)
  next
    case False
    obtain p ps where sp: "split_on c s = p # ps" by (metis split_on_not_Nil neq_Nil_conv)
    with Cons have "join [c] (p # ps) = s" by simp
    then show ?thesis using False sp by (cases ps) auto
  qed
qed

lemma split_on_no_sep: "c \<notin> set s \<Longrightarrow> split_on c s = [s]"
  by (induction s) auto

lemma split_on_append_sep:
  "c \<notin> set s \<Longrightarrow> split_on c (s @ c # t) = s # split_on c t"
  by (induction s) auto

lemma split_on_join:
  assumes "ts \<noteq> []" and "\<forall>t \<in> set ts. c \<notin> set t"
  shows "split_on c (join [c] ts) = ts"
  using assms
proof (induction ts)
  case Nil
  then show ?case by simp
next
  case (Cons t ts)
  show ?case
  proof (cases "ts = []")
    case True
    with Cons.prems show ?thesis by (simp add: split_on_no_sep)
  next
    case False
    with Cons show ?thesis by (simp add: join_Cons split_on_append_sep)
  qed
qed

lemma split_on_pieces: "p \<in> set (split_on c s) \<Longrightarrow> c \<notin> set p"
proof (induction s arbitrary: p)
  case Nil
  then show ?case by simp
next
  case (Cons x s)
  then show ?case by (auto split: if_splits list.splits)
qed

text \<open>
  Newline-terminated text: the lines of a file whose last character is a newline are
  recovered exactly.
\<close>

lemma split_on_join_newline:
  assumes "\<forall>t \<in> set ts. c \<notin> set t"
  shows "split_on c (join [c] (ts @ [[]])) = ts @ [[]]"
  using assms by (intro split_on_join) auto

section \<open>Parsing unsigned integers\<close>

fun parse_digits :: "nat \<Rightarrow> nat \<Rightarrow> rstring \<Rightarrow> nat option" where
  "parse_digits bound acc [] = Some acc"
| "parse_digits bound acc (c # s) =
     (if is_ascii_digit c \<and> acc * 10 + (c - 48) \<le> bound
      then parse_digits bound (acc * 10 + (c - 48)) s else None)"

definition parse_uint :: "nat \<Rightarrow> rstring \<Rightarrow> nat option" where
  \<comment> \<open>\<open>str::parse\<close> for an unsigned type with the given maximum: an optional plus sign, then
      at least one digit; overflow is an error\<close>
  "parse_uint bound s = (case s of [] \<Rightarrow> None
     | c # t \<Rightarrow> if c = 43 then (if t = [] then None else parse_digits bound 0 t)
                else parse_digits bound 0 s)"

lemma parse_digits_bound: "parse_digits bound acc s = Some n \<Longrightarrow> acc \<le> bound \<Longrightarrow> n \<le> bound"
  by (induction bound acc s rule: parse_digits.induct) (auto split: if_splits)

lemma parse_uint_bound: "parse_uint bound s = Some n \<Longrightarrow> n \<le> bound"
  by (auto simp: parse_uint_def split: list.splits if_splits dest: parse_digits_bound)

text \<open>Formatting an unsigned integer with \<open>{}\<close>.\<close>

fun show_nat :: "nat \<Rightarrow> rstring" where
  "show_nat n = (if n < 10 then [48 + n] else show_nat (n div 10) @ [48 + n mod 10])"

declare show_nat.simps [simp del]

lemma parse_digits_append:
  "parse_digits b acc (s @ t) = Option.bind (parse_digits b acc s) (\<lambda>a. parse_digits b a t)"
  by (induction b acc s rule: parse_digits.induct) auto

lemma parse_show_nat: "n \<le> b \<Longrightarrow> parse_digits b 0 (show_nat n) = Some n"
proof (induction n rule: show_nat.induct)
  case (1 n)
  show ?case
  proof (cases "n < 10")
    case True
    with "1.prems" show ?thesis by (subst show_nat.simps) (simp add: is_ascii_digit_def)
  next
    case False
    then have "parse_digits b 0 (show_nat (n div 10)) = Some (n div 10)"
      using 1 by (meson div_le_dividend le_trans)
    with False "1.prems" show ?thesis
      by (subst show_nat.simps) (simp add: parse_digits_append is_ascii_digit_def)
  qed
qed

definition parse_bool :: "rstring \<Rightarrow> bool option" where
  "parse_bool s = (if s = lit ''true'' then Some True else if s = lit ''false'' then Some False else None)"

section \<open>Byte offsets\<close>

fun char_indices :: "nat \<Rightarrow> rstring \<Rightarrow> (nat \<times> rchar) list" where
  \<comment> \<open>\<open>str::char_indices\<close> from byte offset \<open>i\<close> on\<close>
  "char_indices i [] = []"
| "char_indices i (c # s) = (i, c) # char_indices (i + len_utf8 c) s"

fun byte_prefix :: "nat \<Rightarrow> rstring \<Rightarrow> rstring" where
  \<comment> \<open>\<open>&text[..end]\<close> for an \<open>end\<close> on a character boundary\<close>
  "byte_prefix e [] = []"
| "byte_prefix e (c # s) = (if len_utf8 c \<le> e then c # byte_prefix (e - len_utf8 c) s else [])"

fun is_char_boundary :: "rstring \<Rightarrow> nat \<Rightarrow> bool" where
  "is_char_boundary [] i \<longleftrightarrow> i = 0"
| "is_char_boundary (c # s) i \<longleftrightarrow> i = 0 \<or> len_utf8 c \<le> i \<and> is_char_boundary s (i - len_utf8 c)"

lemma byte_prefix_append [simp]: "byte_prefix (byte_len s) (s @ t) = s"
proof (induction s)
  case Nil
  show ?case by (cases t) (simp_all add: not_le)
qed simp

section \<open>JSON values\<close>

text \<open>\<open>serde_json::Value\<close>; an object is an association list with distinct keys, as in \<open>AList\<close>.\<close>

datatype json = JNull | JBool bool | JNumber rstring | JString rstring | JArray "json list"
  | JObject "(rstring \<times> json) list"

definition as_str :: "json \<Rightarrow> rstring option" where
  "as_str j = (case j of JString s \<Rightarrow> Some s | _ \<Rightarrow> None)"

end
