(* ===== verification/Token_Estimation.thy ===== *)
theory Token_Estimation
  imports Float64 Rust_Strings
begin

text \<open>
  \<open>crates/codegen/xai-token-estimation/src/lib.rs\<close>: the bytes-per-token heuristic and the
  context-window arithmetic behind the auto-compaction gate and the usage displays.
  Token counts are \<open>u64\<close> words, so every saturation of the source is a branch here;
  percentages computed through \<open>f64\<close> use the rounding of \<open>Float64\<close>.
\<close>

section \<open>Definitions\<close>

definition BYTES_PER_TOKEN :: u64 where
  "BYTES_PER_TOKEN = 4"

definition IMAGE_TOKEN_ESTIMATE :: u64 where
  "IMAGE_TOKEN_ESTIMATE = 765"

definition estimate_tokens :: "rstring \<Rightarrow> u64" where
  "estimate_tokens s = of_nat (byte_len s) div BYTES_PER_TOKEN"

definition estimate_chars :: "u64 \<Rightarrow> u64" where
  "estimate_chars tokens = saturating_mul tokens BYTES_PER_TOKEN"

definition estimate_image_tokens :: "u64 \<Rightarrow> u64" where
  "estimate_image_tokens image_count = saturating_mul image_count IMAGE_TOKEN_ESTIMATE"

definition usage_percentage :: "u64 \<Rightarrow> u64 \<Rightarrow> rat" where
  "usage_percentage used tot =
     (if tot = 0 then 0
      else min (f64_mul (f64_div (f64_of_nat (unat used)) (f64_of_nat (unat tot))) 100) 100)"

definition f64_as_u8 :: "int \<Rightarrow> u8" where
  \<comment> \<open>the saturating cast \<open>as u8\<close> of an integral \<open>f64\<close>\<close>
  "f64_as_u8 r = (if r < 0 then 0 else if 255 < r then 255 else of_int r)"

definition usage_percentage_u8 :: "u64 \<Rightarrow> u64 \<Rightarrow> u8" where
  "usage_percentage_u8 used tot = f64_as_u8 (f64_round (usage_percentage used tot))"

definition usage_percentage_truncated_u8 :: "u64 \<Rightarrow> u64 \<Rightarrow> u8" where
  "usage_percentage_truncated_u8 used tot =
     (case checked_div (saturating_mul used 100) tot of
        None \<Rightarrow> 0
      | Some pct \<Rightarrow> ucast (min pct 100))"

definition free_tokens :: "u64 \<Rightarrow> u64 \<Rightarrow> u64" where
  "free_tokens tot used = saturating_sub tot used"

definition exceeds_threshold :: "u64 \<Rightarrow> u64 \<Rightarrow> u8 \<Rightarrow> bool" where
  "exceeds_threshold used context_window threshold_percent =
     (if context_window = 0 then False
      else saturating_mul context_window (ucast threshold_percent) \<le> saturating_mul used 100)"

definition exceeds_threshold_with_headroom :: "u64 \<Rightarrow> u64 \<Rightarrow> u8 \<Rightarrow> u64 \<Rightarrow> bool" where
  "exceeds_threshold_with_headroom used context_window threshold_percent headroom =
     (if context_window = 0 then False
      else saturating_sub (saturating_mul context_window (ucast threshold_percent))
             (saturating_mul headroom 100) \<le> saturating_mul used 100)"

section \<open>Reading the words as numbers\<close>

lemma unat_ucast_u8_u64 [sat_simps]: "unat (ucast (p :: u8) :: u64) = unat p"
  by (simp add: unsigned_ucast_eq take_bit_eq_mod) (use unsigned_less [of p, where ?'a = nat] in simp)

lemma unat_100 [sat_simps]: "unat (100 :: u64) = 100"
  by simp

lemma exceeds_threshold_unat:
  "exceeds_threshold used cw p \<longleftrightarrow>
     cw \<noteq> 0 \<and> min (unat cw * unat p) u64_max \<le> min (unat used * 100) u64_max"
  by (simp add: exceeds_threshold_def sat_simps)

lemma exceeds_threshold_with_headroom_unat:
  "exceeds_threshold_with_headroom used cw p h \<longleftrightarrow>
     cw \<noteq> 0 \<and> min (unat cw * unat p) u64_max - min (unat h * 100) u64_max
       \<le> min (unat used * 100) u64_max"
  by (simp add: exceeds_threshold_with_headroom_def sat_simps)

lemma unat_min_word: "unat (min a b :: u64) = min (unat a) (unat b)"
  by (simp add: min_def word_le_nat_alt)

lemma unat_usage_percentage_truncated_u8:
  "unat (usage_percentage_truncated_u8 used tot) =
     (if tot = 0 then 0 else min (min (unat used * 100) u64_max div unat tot) 100)"
proof (cases "tot = 0")
  case True
  then show ?thesis by (simp add: usage_percentage_truncated_u8_def checked_div_def)
next
  case False
  let ?q = "saturating_mul used 100 div tot"
  have le: "unat (min ?q 100) \<le> 100" by (simp add: unat_min_word)
  have "unat (ucast (min ?q 100) :: u8) = unat (min ?q 100)"
    using le by (simp add: unsigned_ucast_eq take_bit_eq_mod)
  with False show ?thesis
    by (simp add: usage_percentage_truncated_u8_def checked_div_def unat_min_word unat_div
        unat_saturating_mul)
qed

section \<open>The auto-compaction gate\<close>

lemma exceeds_threshold_exact:
  assumes "unat cw * unat p \<le> u64_max"
  shows "exceeds_threshold used cw p \<longleftrightarrow> cw \<noteq> 0 \<and> unat cw * unat p \<le> unat used * 100"
  using assms by (auto simp: exceeds_threshold_unat min_def)

text \<open>
  The auto-compaction gate and the integer usage percentage agree: for a percentage of at most
  100 and a window small enough that \<open>context_window * threshold_percent\<close> fits in
  64 bits, \<open>exceeds_threshold(used, cw, p)\<close> holds exactly when
  \<open>usage_percentage_truncated_u8(used, cw)\<close> has reached \<open>p\<close>.
\<close>

theorem threshold_agrees_with_percentage:
  assumes "cw \<noteq> 0" and "unat p \<le> 100" and "unat cw * unat p \<le> u64_max"
  shows "exceeds_threshold used cw p \<longleftrightarrow> p \<le> usage_percentage_truncated_u8 used cw"
proof -
  have cw: "0 < unat cw" using assms(1) by (simp add: unat_gt_0)
  have "p \<le> usage_percentage_truncated_u8 used cw \<longleftrightarrow>
        unat p \<le> min (unat used * 100) u64_max div unat cw"
    using assms(1,2) by (simp add: word_le_nat_alt unat_usage_percentage_truncated_u8)
  also have "\<dots> \<longleftrightarrow> unat cw * unat p \<le> min (unat used * 100) u64_max"
    using cw by (simp add: less_eq_div_iff_mult_less_eq mult.commute)
  also have "\<dots> \<longleftrightarrow> exceeds_threshold used cw p"
    using assms(1,3) by (simp add: exceeds_threshold_unat)
  finally show ?thesis by simp
qed

theorem threshold_agrees_with_percentage_witness:
  "exceeds_threshold 850 1000 85 \<longleftrightarrow> 85 \<le> usage_percentage_truncated_u8 850 1000"
  using threshold_agrees_with_percentage [of 1000 85 850] by (simp add: u64_max_def)

text \<open>
  The bound on the window is needed: where the product saturates, the gate fires although
  the percentage has not been reached.
\<close>

lemma threshold_saturation_gap:
  "exceeds_threshold (of_nat u64_max div 4) (of_nat u64_max) 85 \<and>
   \<not> 85 \<le> usage_percentage_truncated_u8 (of_nat u64_max div 4) (of_nat u64_max)"
proof -
  have u: "unat (of_nat u64_max :: u64) = u64_max" by (simp add: unat_of_nat_u64)
  have d: "unat (of_nat u64_max div 4 :: u64) = u64_max div 4" by (simp add: unat_div u)
  have nz: "(of_nat u64_max :: u64) \<noteq> 0" by (simp add: u64_max_def)
  show ?thesis
    by (simp add: exceeds_threshold_unat word_le_nat_alt unat_usage_percentage_truncated_u8 u d nz
        u64_max_def)
qed

lemma exceeds_threshold_mono:
  "used \<le> used' \<Longrightarrow> exceeds_threshold used cw p \<Longrightarrow> exceeds_threshold used' cw p"
  by (simp add: exceeds_threshold_unat word_le_nat_alt)

lemma headroom_0: "exceeds_threshold_with_headroom used cw p 0 = exceeds_threshold used cw p"
  by (simp add: exceeds_threshold_with_headroom_unat exceeds_threshold_unat)

lemma headroom_mono:
  "h \<le> h' \<Longrightarrow> exceeds_threshold_with_headroom used cw p h \<Longrightarrow>
     exceeds_threshold_with_headroom used cw p h'"
  by (simp add: exceeds_threshold_with_headroom_unat word_le_nat_alt) linarith

section \<open>The two percentages\<close>

lemma usage_percentage_bounds: "0 \<le> usage_percentage used tot \<and> usage_percentage used tot \<le> 100"
  by (simp add: usage_percentage_def f64_mul_def)

lemma unat_usage_percentage_u8:
  "int (unat (usage_percentage_u8 used tot)) = f64_round (usage_percentage used tot)"
proof -
  let ?r = "f64_round (usage_percentage used tot)"
  have r: "0 \<le> ?r" "?r \<le> 100"
    using usage_percentage_bounds [of used tot]
    by (simp_all add: f64_round_def le_floor_iff floor_le_iff)
  have "uint (word_of_int ?r :: u8) = ?r"
    using r by (simp add: uint_word_of_int)
  with r show ?thesis by (simp add: usage_percentage_u8_def f64_as_u8_def)
qed

text \<open>
  Two roundings move a percentage by less than half a point, so rounding the \<open>f64\<close>
  result can only add one to the truncated integer percentage.
\<close>

lemma f64_percentage_error:
  assumes "0 \<le> q" and "q \<le> 1"
  shows "\<bar>f64_mul (round_f64 q) 100 - q * 100\<bar> < 1/2"
proof -
  have q: "\<bar>round_f64 q - q\<bar> \<le> 1 / 2 ^ 53"
    using round_f64_error [OF assms(1)] assms(2) by (simp add: field_simps)
  have r1: "round_f64 q \<le> 1"
    using round_f64_mono [OF assms(2)] by simp
  have "\<bar>round_f64 (round_f64 q * 100) - round_f64 q * 100\<bar> \<le> (round_f64 q * 100) / 2 ^ 53"
    by (rule round_f64_error) simp
  also have "\<dots> \<le> 100 / 2 ^ 53"
    using r1 by (simp add: field_simps)
  finally have m: "\<bar>f64_mul (round_f64 q) 100 - round_f64 q * 100\<bar> \<le> 100 / 2 ^ 53"
    by (simp add: f64_mul_def)
  have "\<bar>f64_mul (round_f64 q) 100 - q * 100\<bar>
      \<le> \<bar>f64_mul (round_f64 q) 100 - round_f64 q * 100\<bar> + \<bar>(round_f64 q - q) * 100\<bar>"
    unfolding left_diff_distrib by linarith
  also have "\<dots> \<le> 100 / 2 ^ 53 + 1 / 2 ^ 53 * 100"
    using m q unfolding abs_mult by (intro add_mono mult_mono) simp_all
  also have "\<dots> < 1/2" by simp
  finally show ?thesis .
qed

lemma f64_percentage_window:
  assumes "0 < t" and "u < 2 ^ 53" and "t < 2 ^ 53"
  defines "k \<equiv> min (u * 100 div t) 100"
    and "pct \<equiv> min (f64_mul (f64_div (f64_of_nat u) (f64_of_nat t)) 100) 100"
  shows "of_nat k - 1/2 \<le> pct" and "pct < of_nat k + 3/2"
proof -
  let ?q = "of_nat u / of_nat t :: rat"
  have pct: "pct = min (f64_mul (round_f64 ?q) 100) 100"
    using assms(1-3) by (simp add: pct_def f64_div_def f64_of_nat_def)
  have "of_nat k - 1/2 \<le> pct \<and> pct < of_nat k + 3/2"
  proof (cases "t \<le> u")
    case True
    then have "1 \<le> ?q" using assms(1) by simp
    then have "1 \<le> round_f64 ?q" using round_f64_mono [of 1 ?q] by simp
    then have "100 \<le> f64_mul (round_f64 ?q) 100"
      using round_f64_mono [of 100 "round_f64 ?q * 100"] by (simp add: f64_mul_def)
    moreover have "100 \<le> u * 100 div t"
      using True assms(1) by (simp add: less_eq_div_iff_mult_less_eq)
    ultimately show ?thesis by (simp add: pct k_def)
  next
    case False
    then have q: "0 \<le> ?q" "?q \<le> 1" using assms(1) by (simp_all add: field_simps)
    have lt: "u * 100 div t < 100"
      using False assms(1) by (simp add: div_less_iff_less_mult)
    then have k: "k = u * 100 div t" by (simp add: k_def)
    have "k * t \<le> u * 100" by (simp add: k)
    then have "(of_nat (k * t) :: rat) \<le> of_nat (u * 100)" by (simp only: of_nat_le_iff)
    then have lo: "of_nat k \<le> ?q * 100" using assms(1) by (simp add: field_simps)
    have "u * 100 < (k + 1) * t"
      using assms(1) dividend_less_div_times [of t "u * 100"] by (simp add: k algebra_simps)
    then have "(of_nat (u * 100) :: rat) < of_nat ((k + 1) * t)" by (simp only: of_nat_less_iff)
    then have hi: "?q * 100 < of_nat k + 1" using assms(1) by (simp add: field_simps)
    have "of_nat k \<le> (99 :: rat)" using lt k by simp
    with f64_percentage_error [OF q] lo hi show ?thesis
      by (simp only: pct abs_less_iff min_def) (simp split: if_splits)
  qed
  then show "of_nat k - 1/2 \<le> pct" and "pct < of_nat k + 3/2" by simp_all
qed

text \<open>
  The displayed percentages are consistent: for token counts below \<open>2 ^ 53\<close> the rounded
  percentage computed through \<open>f64\<close> is the truncated integer percentage or one more,
  whatever the two binary64 roundings do.
\<close>

theorem rounded_percentage_near_truncated:
  assumes "tot \<noteq> 0" and "unat used < 2 ^ 53" and "unat tot < 2 ^ 53"
  shows "unat (usage_percentage_truncated_u8 used tot) \<le> unat (usage_percentage_u8 used tot) \<and>
         unat (usage_percentage_u8 used tot) \<le> unat (usage_percentage_truncated_u8 used tot) + 1"
proof -
  define k where "k = min (unat used * 100 div unat tot) 100"
  have "unat used * 100 \<le> u64_max" using assms(2) by (simp add: u64_max_def)
  then have tr: "unat (usage_percentage_truncated_u8 used tot) = k"
    using assms(1) by (simp add: unat_usage_percentage_truncated_u8 k_def)
  have t: "0 < unat tot" using assms(1) by (simp add: unat_gt_0)
  have up: "usage_percentage used tot =
      min (f64_mul (f64_div (f64_of_nat (unat used)) (f64_of_nat (unat tot))) 100) 100"
    using assms(1) by (simp only: usage_percentage_def if_False)
  have "int k \<le> f64_round (usage_percentage used tot)"
    and "f64_round (usage_percentage used tot) \<le> int k + 1"
    unfolding up using f64_percentage_window [OF t assms(2,3)]
    by (simp_all only: k_def [symmetric] f64_round_def le_floor_iff floor_le_iff)
  then show ?thesis
    unfolding unat_usage_percentage_u8 [symmetric] tr by linarith
qed

theorem rounded_percentage_near_truncated_witness:
  "unat (usage_percentage_truncated_u8 85 200) \<le> unat (usage_percentage_u8 85 200) \<and>
   unat (usage_percentage_u8 85 200) \<le> unat (usage_percentage_truncated_u8 85 200) + 1"
  using rounded_percentage_near_truncated [of 200 85] by simp

section \<open>Budgets\<close>

lemma unat_estimate_tokens:
  "byte_len s \<le> u64_max \<Longrightarrow> unat (estimate_tokens s) = byte_len s div 4"
  by (simp add: estimate_tokens_def BYTES_PER_TOKEN_def unat_div unat_of_nat_u64)

lemma estimate_within_budget:
  assumes "byte_len s \<le> unat (estimate_chars tokens)"
  shows "estimate_tokens s \<le> tokens"
proof -
  have "byte_len s \<le> u64_max"
    using assms unat_le_u64_max [of "estimate_chars tokens"] by linarith
  moreover have "byte_len s \<le> unat tokens * 4"
    using assms by (simp add: estimate_chars_def BYTES_PER_TOKEN_def unat_saturating_mul)
  ultimately show ?thesis
    by (simp add: word_le_nat_alt unat_estimate_tokens)
qed

lemma free_tokens_used: "used \<le> tot \<Longrightarrow> free_tokens tot used + used = tot"
  by (simp add: free_tokens_def saturating_sub_def)

end
