(* ===== verification/Sliding_Window.thy ===== *)
theory Sliding_Window
  imports Float64
begin

text \<open>
  \<open>crates/common/xai-circuit-breaker/src/window.rs\<close>: the bounded window of
  \<open>(timestamp, is_failure)\<close> samples with its incremental failure counter.
  The counter is a \<open>usize\<close>; its decrement is written with the wrap-around of a release
  build, and the invariant \<open>window_inv\<close> shows that it never wraps.
\<close>

section \<open>Definitions\<close>

definition MAX_WINDOW_ENTRIES :: nat where
  "MAX_WINDOW_ENTRIES = 10000"

record sliding_window =
  entries :: "(instant \<times> bool) list"
  failures :: nat

definition usize_dec :: "nat \<Rightarrow> nat" where
  "usize_dec n = (if n = 0 then 2 ^ 64 - 1 else n - 1)"

definition window_new :: sliding_window where
  "window_new = \<lparr>entries = [], failures = 0\<rparr>"

definition window_push :: "bool \<Rightarrow> instant \<Rightarrow> sliding_window \<Rightarrow> sliding_window" where
  "window_push is_failure t w =
     (let w1 = (if MAX_WINDOW_ENTRIES \<le> length (entries w)
                then (case entries w of
                        [] \<Rightarrow> w
                      | (_, was_failure) # rest \<Rightarrow>
                          \<lparr>entries = rest,
                           failures = (if was_failure then usize_dec (failures w) else failures w)\<rparr>)
                else w)
      in \<lparr>entries = entries w1 @ [(t, is_failure)],
          failures = (if is_failure then failures w1 + 1 else failures w1)\<rparr>)"

fun evict_loop :: "instant \<Rightarrow> (instant \<times> bool) list \<Rightarrow> nat \<Rightarrow> sliding_window" where
  "evict_loop cutoff [] n = \<lparr>entries = [], failures = n\<rparr>"
| "evict_loop cutoff ((ts, was_failure) # rest) n =
     (if ts < cutoff then evict_loop cutoff rest (if was_failure then usize_dec n else n)
      else \<lparr>entries = (ts, was_failure) # rest, failures = n\<rparr>)"

definition window_evict :: "duration \<Rightarrow> instant \<Rightarrow> sliding_window \<Rightarrow> sliding_window" where
  "window_evict window now w =
     (case instant_checked_sub now window of
        None \<Rightarrow> w
      | Some cutoff \<Rightarrow> evict_loop cutoff (entries w) (failures w))"

definition window_error_rate :: "sliding_window \<Rightarrow> rat" where
  "window_error_rate w =
     (if entries w = [] then 0
      else f64_div (f64_of_nat (failures w)) (f64_of_nat (length (entries w))))"

definition window_sample_count :: "sliding_window \<Rightarrow> nat" where
  "window_sample_count w = length (entries w)"

definition window_clear :: "sliding_window \<Rightarrow> sliding_window" where
  "window_clear w = \<lparr>entries = [], failures = 0\<rparr>"

section \<open>The invariant\<close>

definition n_failures :: "(instant \<times> bool) list \<Rightarrow> nat" where
  "n_failures xs = length (filter snd xs)"

definition window_inv :: "sliding_window \<Rightarrow> bool" where
  "window_inv w \<longleftrightarrow> failures w = n_failures (entries w) \<and> length (entries w) \<le> MAX_WINDOW_ENTRIES"

lemma n_failures_simps [simp]:
  "n_failures [] = 0"
  "n_failures (x # xs) = (if snd x then 1 else 0) + n_failures xs"
  "n_failures (xs @ ys) = n_failures xs + n_failures ys"
  by (simp_all add: n_failures_def)

lemma n_failures_le: "n_failures xs \<le> length xs"
  by (simp add: n_failures_def)

lemma usize_dec_Suc [simp]: "usize_dec (Suc n) = n"
  by (simp add: usize_dec_def)

lemma window_inv_new [simp]: "window_inv window_new"
  by (simp add: window_inv_def window_new_def)

lemma window_inv_clear [simp]: "window_inv (window_clear w)"
  by (simp add: window_inv_def window_clear_def)

lemma entries_push:
  "entries (window_push f t w) =
     (if MAX_WINDOW_ENTRIES \<le> length (entries w) then tl (entries w) else entries w) @ [(t, f)]"
  by (auto simp: window_push_def Let_def split: list.splits)

lemma window_inv_push [simp]: "window_inv w \<Longrightarrow> window_inv (window_push f t w)"
  by (cases "entries w")
     (auto simp: window_inv_def window_push_def Let_def MAX_WINDOW_ENTRIES_def)

lemma evict_loop_spec:
  "evict_loop c xs (n_failures xs) =
     \<lparr>entries = dropWhile (\<lambda>e. fst e < c) xs,
      failures = n_failures (dropWhile (\<lambda>e. fst e < c) xs)\<rparr>"
  by (induction xs) (auto simp: add.commute)

text \<open>
  Under the invariant, eviction removes exactly the leading samples older than the
  window and keeps the counter in step.
\<close>

lemma window_evict_spec:
  assumes "window_inv w"
  shows "window_evict d now w =
    (if d \<le> now
     then \<lparr>entries = dropWhile (\<lambda>e. fst e < now - d) (entries w),
           failures = n_failures (dropWhile (\<lambda>e. fst e < now - d) (entries w))\<rparr>
     else w)"
  using assms evict_loop_spec [of "now - d" "entries w"]
  by (simp add: window_evict_def instant_checked_sub_def window_inv_def)

lemma length_dropWhile_le': "length xs \<le> n \<Longrightarrow> length (dropWhile P xs) \<le> n"
  using length_dropWhile_le [of P xs] by linarith

lemma window_inv_evict [simp]: "window_inv w \<Longrightarrow> window_inv (window_evict d now w)"
  by (auto simp: window_evict_spec) (auto simp: window_inv_def length_dropWhile_le')

section \<open>The error rate\<close>

lemma window_error_rate_bounds:
  assumes "window_inv w"
  shows "0 \<le> window_error_rate w" and "window_error_rate w \<le> 1"
  using assms f64_quotient_bounds [of "failures w" "length (entries w)"]
    n_failures_le [of "entries w"]
  by (auto simp: window_error_rate_def window_inv_def)

text \<open>
  With samples recorded in time order, what remains after eviction is exactly the set of
  samples inside the window.
\<close>

lemma dropWhile_sorted_filter:
  "sorted (map fst xs) \<Longrightarrow> dropWhile (\<lambda>e. fst e < c) xs = filter (\<lambda>e. c \<le> fst e) xs"
  for c :: "'a :: linorder"
proof (induction xs)
  case Nil
  then show ?case by simp
next
  case (Cons x xs)
  show ?case
  proof (cases "fst x < c")
    case True
    with Cons show ?thesis by simp
  next
    case False
    with Cons.prems have "\<forall>e \<in> set xs. c \<le> fst e" by fastforce
    with False show ?thesis by (simp add: filter_id_conv)
  qed
qed

end
