(* ===== verification/Circuit_Breaker.thy ===== *)
theory Circuit_Breaker
  imports Sliding_Window Rust_Strings
begin

text \<open>
  \<open>crates/common/xai-circuit-breaker/src\<close>: \<open>state.rs\<close>, \<open>config.rs\<close>,
  \<open>breaker.rs\<close> and \<open>registry.rs\<close>.  A breaker is a record of its atomics; each
  public method is a function from the breaker to its result and the updated breaker.
  The methods read the injected clock; every reading is an argument, in the order the
  code takes them.  Calls to the observer are appended to the field \<open>events\<close>.  The
  methods are modelled as run by one thread at a time; \<open>Breaker_Race\<close> takes them apart
  into their atomic accesses.
\<close>

section \<open>State and configuration\<close>

datatype breaker_state = Closed | Open | HalfOpen

datatype outcome = Success | Failure

record breaker_open =
  retry_after :: duration

datatype observation =
    OnStateChange breaker_state breaker_state string
  | OnProbeAdmission bool
  | OnOutcome outcome breaker_state

fun state_code :: "breaker_state \<Rightarrow> nat" where
  "state_code Closed = 0"
| "state_code Open = 1"
| "state_code HalfOpen = 2"

definition state_from_u8 :: "nat \<Rightarrow> breaker_state" where
  "state_from_u8 v = (if v = 0 then Closed else if v = 1 then Open
                      else if v = 2 then HalfOpen else Closed)"

record breaker_config =
  window_duration :: duration
  min_samples :: nat
  error_rate_threshold :: rat
  open_duration :: duration
  half_open_max_probes :: nat
  failure_codes :: "nat list"
  enabled :: bool

definition default_failure_codes :: "nat list" where
  "default_failure_codes = [429, 500, 502, 503, 504]"

definition config_server :: breaker_config where
  "config_server = \<lparr>window_duration = from_secs 60, min_samples = 10,
     error_rate_threshold = 1/2, open_duration = from_secs 10, half_open_max_probes = 1,
     failure_codes = default_failure_codes, enabled = True\<rparr>"

definition config_client :: breaker_config where
  "config_client = \<lparr>window_duration = from_secs 60, min_samples = 5,
     error_rate_threshold = 1/2, open_duration = from_secs 60, half_open_max_probes = 1,
     failure_codes = [401], enabled = True\<rparr>"

definition parse_failure_codes :: "rstring \<Rightarrow> nat list" where
  "parse_failure_codes s = List.map_filter (\<lambda>c. parse_uint 65535 (trim c)) (split_on 44 s)"

definition lookup_or ::
  "(rstring \<Rightarrow> rstring option) \<Rightarrow> (rstring \<Rightarrow> 'a option) \<Rightarrow> rstring \<Rightarrow> 'a \<Rightarrow> 'a" where
  "lookup_or get parse key default_v =
     (case get key of
        Some v \<Rightarrow> (case parse v of Some parsed \<Rightarrow> parsed | None \<Rightarrow> default_v)
      | None \<Rightarrow> default_v)"

text \<open>
  \<open>from_lookup_with_prefix\<close>.  The decimal syntax of \<open>f64::from_str\<close> is the
  argument \<open>parse_f64\<close>.
\<close>

definition from_lookup_with_prefix ::
  "(rstring \<Rightarrow> rat option) \<Rightarrow> rstring \<Rightarrow> (rstring \<Rightarrow> rstring option) \<Rightarrow> breaker_config" where
  "from_lookup_with_prefix parse_f64 pre get =
     (let key = (\<lambda>k. pre @ lit k);
          u64 = parse_uint (2 ^ 64 - 1);
          codes = (case get (key ''FAILURE_CODES'') of
                     Some raw \<Rightarrow> (let codes = parse_failure_codes raw in
                                  if codes = [] then default_failure_codes else codes)
                   | None \<Rightarrow> default_failure_codes)
      in \<lparr>window_duration = from_secs (lookup_or get u64 (key ''WINDOW_SECS'') 60),
          min_samples = lookup_or get u64 (key ''MIN_SAMPLES'') 10,
          error_rate_threshold = lookup_or get parse_f64 (key ''ERROR_RATE_THRESHOLD'') (1/2),
          open_duration = from_secs (lookup_or get u64 (key ''OPEN_DURATION_SECS'') 10),
          half_open_max_probes = max (lookup_or get u64 (key ''HALF_OPEN_MAX_PROBES'') 1) 1,
          failure_codes = codes,
          enabled = lookup_or get parse_bool (key ''ENABLED'') True\<rparr>)"

definition is_failure_status :: "breaker_config \<Rightarrow> nat \<Rightarrow> bool" where
  "is_failure_status c status \<longleftrightarrow> status \<in> set (failure_codes c)"

section \<open>The breaker\<close>

record breaker =
  config :: breaker_config
  state_u8 :: nat
  baseline :: instant
  opened_at_millis :: nat
  half_open_probes :: nat
  probe_claimed_at_millis :: nat
  is_open_fast :: bool
  window :: sliding_window
  events :: "observation list"

definition with_clock :: "breaker_config \<Rightarrow> instant \<Rightarrow> breaker" where
  "with_clock c now =
     \<lparr>config = c\<lparr>half_open_max_probes := max (half_open_max_probes c) 1\<rparr>,
      state_u8 = state_code Closed, baseline = now, opened_at_millis = 0,
      half_open_probes = 0, probe_claimed_at_millis = 0, is_open_fast = False,
      window = window_new, events = []\<rparr>"

definition breaker_state_of :: "breaker \<Rightarrow> breaker_state" where
  "breaker_state_of b = state_from_u8 (state_u8 b)"

definition is_open :: "breaker \<Rightarrow> bool" where
  "is_open b = is_open_fast b"

definition elapsed_millis :: "breaker \<Rightarrow> instant \<Rightarrow> nat" where
  "elapsed_millis b now = as_millis_u64 (now - baseline b)"

definition observe :: "observation \<Rightarrow> breaker \<Rightarrow> breaker" where
  "observe ev b = b\<lparr>events := events b @ [ev]\<rparr>"

definition trip :: "breaker_state \<Rightarrow> string \<Rightarrow> instant \<Rightarrow> breaker \<Rightarrow> breaker" where
  "trip prev reason now b =
     (let b1 = b\<lparr>state_u8 := state_code Open,
                 opened_at_millis := elapsed_millis b now,
                 half_open_probes := 0,
                 is_open_fast := True\<rparr>
      in if prev \<noteq> Open then observe (OnStateChange prev Open reason) b1 else b1)"

definition close_breaker :: "breaker_state \<Rightarrow> string \<Rightarrow> breaker \<Rightarrow> breaker" where
  "close_breaker prev reason b =
     (let b1 = b\<lparr>state_u8 := state_code Closed,
                 window := window_clear (window b),
                 half_open_probes := 0,
                 is_open_fast := False\<rparr>
      in if prev \<noteq> Closed then observe (OnStateChange prev Closed reason) b1 else b1)"

definition HALF_OPEN_PROBE_BACKOFF :: duration where
  "HALF_OPEN_PROBE_BACKOFF = from_millis 50"

definition try_half_open_probe ::
  "instant \<Rightarrow> breaker \<Rightarrow> (unit, breaker_open) result \<times> breaker" where
  "try_half_open_probe t b =
     (let now = elapsed_millis b t;
          prev = half_open_probes b
      in if prev < half_open_max_probes (config b)
         then (Inr (), observe (OnProbeAdmission True)
                 (b\<lparr>half_open_probes := prev + 1, probe_claimed_at_millis := now\<rparr>))
         else (let lease_millis = as_millis_u64 (open_duration (config b));
                   claimed = probe_claimed_at_millis b
               in if lease_millis \<le> now - claimed
                  then (Inr (), observe (OnProbeAdmission True)
                          (b\<lparr>probe_claimed_at_millis := now\<rparr>))
                  else (Inl \<lparr>retry_after = min HALF_OPEN_PROBE_BACKOFF (open_duration (config b))\<rparr>,
                        observe (OnProbeAdmission False) b)))"

definition cas_state :: "breaker_state \<Rightarrow> breaker_state \<Rightarrow> breaker \<Rightarrow> bool \<times> breaker" where
  "cas_state from to b =
     (if state_u8 b = state_code from then (True, b\<lparr>state_u8 := state_code to\<rparr>) else (False, b))"

definition check_open ::
  "instant \<Rightarrow> instant \<Rightarrow> breaker \<Rightarrow> (unit, breaker_open) result \<times> breaker" where
  "check_open t1 t2 b =
     (let opened = opened_at_millis b;
          elapsed = from_millis (elapsed_millis b t1 - opened)
      in if open_duration (config b) \<le> elapsed
         then (case cas_state Open HalfOpen b of
                 (True, b1) \<Rightarrow>
                   try_half_open_probe t2
                     (observe (OnStateChange Open HalfOpen ''open_elapsed'')
                       (b1\<lparr>is_open_fast := False\<rparr>))
               | (False, b1) \<Rightarrow>
                   (case breaker_state_of b1 of
                      Closed \<Rightarrow> (Inr (), b1)
                    | HalfOpen \<Rightarrow> try_half_open_probe t2 b1
                    | Open \<Rightarrow>
                        (Inl \<lparr>retry_after = open_duration (config b1) -
                                from_millis (elapsed_millis b1 t2 - opened_at_millis b1)\<rparr>, b1)))
         else (Inl \<lparr>retry_after = open_duration (config b) - elapsed\<rparr>, b))"

definition check ::
  "instant \<Rightarrow> instant \<Rightarrow> breaker \<Rightarrow> (unit, breaker_open) result \<times> breaker" where
  "check t1 t2 b =
     (if \<not> enabled (config b) then (Inr (), b)
      else (case breaker_state_of b of
              Closed \<Rightarrow> (Inr (), b)
            | Open \<Rightarrow> check_open t1 t2 b
            | HalfOpen \<Rightarrow> try_half_open_probe t1 b))"

definition push_sample :: "bool \<Rightarrow> instant \<Rightarrow> breaker \<Rightarrow> breaker" where
  "push_sample is_failure now b =
     b\<lparr>window := window_evict (window_duration (config b)) now
                   (window_push is_failure now (window b))\<rparr>"

definition should_trip :: "breaker_config \<Rightarrow> sliding_window \<Rightarrow> bool" where
  "should_trip c w \<longleftrightarrow>
     min_samples c \<le> window_sample_count w \<and> error_rate_threshold c \<le> window_error_rate w"

definition record_outcome :: "outcome \<Rightarrow> instant \<Rightarrow> instant \<Rightarrow> breaker \<Rightarrow> breaker" where
  "record_outcome oc now t2 b =
     (if \<not> enabled (config b) then b
      else let is_failure = (oc = Failure);
               prev_state = breaker_state_of b;
               b1 = (case prev_state of
                       Closed \<Rightarrow>
                         (let b' = push_sample is_failure now b
                          in if should_trip (config b) (window b')
                             then trip prev_state ''trip'' t2 b' else b')
                     | HalfOpen \<Rightarrow>
                         (if is_failure then trip prev_state ''probe_failure'' t2 b
                          else close_breaker prev_state ''probe_success'' b)
                     | Open \<Rightarrow> push_sample is_failure now b)
           in observe (OnOutcome oc (breaker_state_of b1)) b1)"

definition breaker_error_rate :: "instant \<Rightarrow> breaker \<Rightarrow> rat \<times> breaker" where
  "breaker_error_rate now b =
     (let w = window_evict (window_duration (config b)) now (window b)
      in (window_error_rate w, b\<lparr>window := w\<rparr>))"

section \<open>The registry\<close>

record breaker_registry =
  reg_config :: breaker_config
  breakers :: "rstring \<rightharpoonup> breaker"

definition registry_new :: "breaker_config \<Rightarrow> breaker_registry" where
  "registry_new c = \<lparr>reg_config = c, breakers = Map.empty\<rparr>"

definition registry_get ::
  "instant \<Rightarrow> rstring \<Rightarrow> breaker_registry \<Rightarrow> breaker option \<times> breaker_registry" where
  "registry_get now key r =
     (if \<not> enabled (reg_config r) then (None, r)
      else (case breakers r key of
              Some cb \<Rightarrow> (Some cb, r)
            | None \<Rightarrow> (let cb = with_clock (reg_config r) now
                        in (Some cb, r\<lparr>breakers := (breakers r)(key \<mapsto> cb)\<rparr>))))"

section \<open>Runs of a breaker\<close>

datatype breaker_op =
    Check instant instant
  | Record outcome instant instant
  | ErrorRate instant

fun breaker_step :: "breaker \<Rightarrow> breaker_op \<Rightarrow> breaker" where
  "breaker_step b (Check t1 t2) = snd (check t1 t2 b)"
| "breaker_step b (Record oc t1 t2) = record_outcome oc t1 t2 b"
| "breaker_step b (ErrorRate t) = snd (breaker_error_rate t b)"

definition breaker_run :: "breaker_config \<Rightarrow> instant \<Rightarrow> breaker_op list \<Rightarrow> breaker" where
  "breaker_run c t0 ops = foldl breaker_step (with_clock c t0) ops"

definition breaker_inv :: "breaker \<Rightarrow> bool" where
  "breaker_inv b \<longleftrightarrow>
     state_u8 b \<le> 2 \<and>
     (is_open_fast b \<longleftrightarrow> breaker_state_of b = Open) \<and>
     1 \<le> half_open_max_probes (config b) \<and>
     half_open_probes b \<le> half_open_max_probes (config b) \<and>
     (breaker_state_of b \<noteq> HalfOpen \<longrightarrow> half_open_probes b = 0) \<and>
     window_inv (window b)"

lemma state_from_u8_code [simp]: "state_from_u8 (state_code s) = s"
  by (cases s) (simp_all add: state_from_u8_def)

lemma state_code_inj [simp]: "state_code s = state_code s' \<longleftrightarrow> s = s'"
  by (cases s; cases s') simp_all

lemma state_code_le2 [simp]: "state_code s \<le> 2"
  by (cases s) simp_all

lemma state_code_of: "state_u8 b \<le> 2 \<Longrightarrow> state_code (breaker_state_of b) = state_u8 b"
  by (auto simp: breaker_state_of_def state_from_u8_def)

lemmas breaker_defs = check_def check_open_def try_half_open_probe_def cas_state_def
  record_outcome_def trip_def close_breaker_def observe_def push_sample_def
  breaker_error_rate_def Let_def

text \<open>What each method does to the authoritative state.\<close>

lemma state_trip [simp]: "breaker_state_of (trip p r t b) = Open"
  by (simp add: trip_def observe_def Let_def breaker_state_of_def state_from_u8_def)

lemma state_close [simp]: "breaker_state_of (close_breaker p r b) = Closed"
  by (simp add: close_breaker_def observe_def Let_def breaker_state_of_def state_from_u8_def)

lemma state_observe [simp]: "breaker_state_of (observe ev b) = breaker_state_of b"
  by (simp add: observe_def breaker_state_of_def)

lemma state_push_sample [simp]: "breaker_state_of (push_sample f t b) = breaker_state_of b"
  by (simp add: push_sample_def breaker_state_of_def)

lemma state_probe [simp]: "breaker_state_of (snd (try_half_open_probe t b)) = breaker_state_of b"
  by (simp add: try_half_open_probe_def Let_def observe_def breaker_state_of_def)

lemma state_from_u8_simps [simp]:
  "state_from_u8 0 = Closed" "state_from_u8 (Suc 0) = Open" "state_from_u8 1 = Open"
  "state_from_u8 2 = HalfOpen"
  by (simp_all add: state_from_u8_def)

lemma state_set_code [simp]:
  "breaker_state_of (b\<lparr>state_u8 := n\<rparr>) = state_from_u8 n"
  "breaker_state_of (b\<lparr>state_u8 := n, is_open_fast := f\<rparr>) = state_from_u8 n"
  "breaker_state_of (b\<lparr>window := w\<rparr>) = breaker_state_of b"
  by (simp_all add: breaker_state_of_def)

lemma cas_state_open:
  "state_u8 b \<le> 2 \<Longrightarrow> breaker_state_of b = Open \<Longrightarrow>
     cas_state Open HalfOpen b = (True, b\<lparr>state_u8 := state_code HalfOpen\<rparr>)"
  using state_code_of [of b] by (simp add: cas_state_def)

lemma config_step [simp]: "config (breaker_step b x) = config b"
  by (cases x) (auto simp: breaker_defs split: breaker_state.splits prod.splits bool.splits if_splits)

lemma baseline_step [simp]: "baseline (breaker_step b x) = baseline b"
  by (cases x) (auto simp: breaker_defs split: breaker_state.splits prod.splits bool.splits if_splits)

section \<open>The invariant\<close>

lemma breaker_inv_new: "breaker_inv (with_clock c t)"
  by (simp add: breaker_inv_def with_clock_def breaker_state_of_def state_from_u8_def)

lemma breaker_inv_trip: "breaker_inv b \<Longrightarrow> breaker_inv (trip p r t b)"
  unfolding breaker_inv_def state_trip
  by (simp add: trip_def observe_def Let_def)

lemma breaker_inv_close: "breaker_inv b \<Longrightarrow> breaker_inv (close_breaker p r b)"
  unfolding breaker_inv_def state_close
  by (simp add: close_breaker_def observe_def Let_def)

lemma breaker_inv_observe [simp]: "breaker_inv (observe ev b) = breaker_inv b"
  unfolding breaker_inv_def state_observe by (simp add: observe_def)

lemma breaker_inv_push_sample: "breaker_inv b \<Longrightarrow> breaker_inv (push_sample f t b)"
  unfolding breaker_inv_def state_push_sample by (simp add: push_sample_def)

lemma breaker_inv_probe:
  "breaker_inv b \<Longrightarrow> breaker_state_of b = HalfOpen \<Longrightarrow> breaker_inv (snd (try_half_open_probe t b))"
  unfolding breaker_inv_def state_probe
  by (simp add: try_half_open_probe_def observe_def Let_def)

lemma breaker_inv_check: "breaker_inv b \<Longrightarrow> breaker_inv (snd (check t1 t2 b))"
proof (cases "breaker_state_of b")
  case Open
  assume inv: "breaker_inv b"
  let ?b = "b\<lparr>state_u8 := state_code HalfOpen, is_open_fast := False\<rparr>"
  have "breaker_inv ?b"
    using inv Open unfolding breaker_inv_def state_set_code by simp
  then have "breaker_inv (snd (try_half_open_probe t2
      (observe (OnStateChange Open HalfOpen ''open_elapsed'') ?b)))"
    by (intro breaker_inv_probe) simp_all
  then show ?thesis
    using inv Open cas_state_open [of b]
    by (simp add: check_def check_open_def Let_def breaker_inv_def)
qed (simp_all add: check_def breaker_inv_probe)

lemma breaker_inv_record: "breaker_inv b \<Longrightarrow> breaker_inv (record_outcome oc t1 t2 b)"
  by (cases "breaker_state_of b")
     (simp_all add: record_outcome_def Let_def breaker_inv_trip breaker_inv_close
       breaker_inv_push_sample)

lemma breaker_inv_error_rate: "breaker_inv b \<Longrightarrow> breaker_inv (snd (breaker_error_rate t b))"
  unfolding breaker_inv_def by (simp add: breaker_error_rate_def Let_def)

interpretation breaker_sys: invariant_system breaker_step breaker_inv
proof
  show "breaker_inv (breaker_step b x)" if "breaker_inv b" for b x
    using that by (cases x) (simp_all add: breaker_inv_check breaker_inv_record breaker_inv_error_rate)
qed

lemma breaker_run_inv: "breaker_inv (breaker_run c t0 ops)"
  unfolding breaker_run_def by (rule breaker_sys.run_inv) (rule breaker_inv_new)


lemma config_run [simp]:
  "config (breaker_run c t0 ops) = c\<lparr>half_open_max_probes := max (half_open_max_probes c) 1\<rparr>"
proof -
  have "config (foldl breaker_step b ops) = config b" for b
    by (induction ops arbitrary: b) simp_all
  then show ?thesis by (simp add: breaker_run_def with_clock_def)
qed

section \<open>What the observer sees\<close>

fun replay :: "breaker_state \<Rightarrow> observation list \<Rightarrow> breaker_state option" where
  "replay s [] = Some s"
| "replay s (OnStateChange old new reason # evs) =
     (if old = s \<and> old \<noteq> new then replay new evs else None)"
| "replay s (OnOutcome oc st # evs) = (if st = s then replay s evs else None)"
| "replay s (OnProbeAdmission a # evs) = (if s = HalfOpen then replay s evs else None)"

lemma replay_append: "replay s (xs @ ys) = Option.bind (replay s xs) (\<lambda>s'. replay s' ys)"
  by (induction s xs rule: replay.induct) auto

definition replays :: "breaker \<Rightarrow> bool" where
  "replays b \<longleftrightarrow> replay Closed (events b) = Some (breaker_state_of b)"

lemma replays_observe:
  "replays b \<Longrightarrow> replay (breaker_state_of b) [ev] = Some (breaker_state_of b) \<Longrightarrow> replays (observe ev b)"
  by (simp add: replays_def replay_append) (simp add: observe_def replay_append)

lemma replays_probe:
  assumes "replays b" and "breaker_state_of b = HalfOpen"
  shows "replays (snd (try_half_open_probe t b))"
  unfolding replays_def state_probe
  using assms by (simp add: replays_def try_half_open_probe_def Let_def observe_def replay_append)

lemma replays_trip: "replays b \<Longrightarrow> replays (trip (breaker_state_of b) r t b)"
  unfolding replays_def state_trip
  by (simp add: trip_def Let_def observe_def replay_append)

lemma replays_close: "replays b \<Longrightarrow> replays (close_breaker (breaker_state_of b) r b)"
  unfolding replays_def state_close
  by (simp add: close_breaker_def Let_def observe_def replay_append)

lemma replays_check:
  assumes "breaker_inv b" and "replays b"
  shows "replays (snd (check t1 t2 b))"
proof (cases "breaker_state_of b")
  case Open
  let ?b = "observe (OnStateChange Open HalfOpen ''open_elapsed'')
      (b\<lparr>state_u8 := state_code HalfOpen, is_open_fast := False\<rparr>)"
  have "replays ?b"
    using assms(2) Open unfolding replays_def state_observe state_set_code
    by (simp add: observe_def replay_append)
  then have "replays (snd (try_half_open_probe t2 ?b))"
    by (rule replays_probe) simp
  then show ?thesis
    using assms Open cas_state_open [of b]
    by (simp add: check_def check_open_def Let_def breaker_inv_def)
qed (use assms in \<open>simp_all add: check_def replays_probe\<close>)

lemma replays_push_sample: "replays b \<Longrightarrow> replays (push_sample f t b)"
  unfolding replays_def state_push_sample by (simp add: push_sample_def)

lemma replays_record: "replays b \<Longrightarrow> replays (record_outcome oc t1 t2 b)"
proof (cases "breaker_state_of b")
  case Closed
  assume "replays b"
  then have "replays (push_sample f t1 b)" and "replays (trip Closed r t2 (push_sample f t1 b))" for f r
    using replays_trip [of "push_sample f t1 b"] Closed by (simp_all add: replays_push_sample)
  then show ?thesis using \<open>replays b\<close> Closed
    by (auto simp: record_outcome_def Let_def intro!: replays_observe)
qed (use replays_trip [of b] replays_close [of b] in
      \<open>auto simp: record_outcome_def Let_def intro!: replays_observe replays_push_sample\<close>)

lemma replays_error_rate: "replays b \<Longrightarrow> replays (snd (breaker_error_rate t b))"
  unfolding replays_def by (simp add: breaker_error_rate_def Let_def)

text \<open>
  The telemetry is faithful: replaying the \<open>on_state_change\<close> callbacks from
  \<open>Closed\<close> always succeeds (each reports as its old state the state the previous one
  reported as new, and never a change to itself), every \<open>on_outcome\<close> carries the state
  of that moment, probe admissions are reported in \<open>HalfOpen\<close> only, and the replay ends
  in the breaker's actual state.
\<close>

theorem observer_replays_state:
  "replay Closed (events (breaker_run c t0 ops)) = Some (breaker_state_of (breaker_run c t0 ops))"
proof -
  have "replays (foldl breaker_step (with_clock c t0) ops)"
  proof (rule breaker_sys.run_induct)
    show "breaker_inv (with_clock c t0)" by (rule breaker_inv_new)
    show "replays (with_clock c t0)" by (simp add: replays_def with_clock_def breaker_state_of_def)
    show "replays (breaker_step b x)" if "breaker_inv b" and "replays b" for b x
      using that by (cases x) (simp_all add: replays_check replays_record replays_error_rate)
  qed
  then show ?thesis by (simp add: replays_def breaker_run_def)
qed

section \<open>Shedding load and recovering\<close>

definition cooled_down :: "breaker \<Rightarrow> instant \<Rightarrow> bool" where
  "cooled_down b t \<longleftrightarrow>
     open_duration (config b) \<le> from_millis (elapsed_millis b t - opened_at_millis b)"

lemma check_open_state:
  assumes "breaker_inv b" and "enabled (config b)" and "breaker_state_of b = Open"
  shows "check t1 t2 b =
    (if cooled_down b t1
     then (Inr (), b\<lparr>state_u8 := state_code HalfOpen, is_open_fast := False,
             half_open_probes := 1, probe_claimed_at_millis := elapsed_millis b t2,
             events := events b @ [OnStateChange Open HalfOpen ''open_elapsed'', OnProbeAdmission True]\<rparr>)
     else (Inl \<lparr>retry_after = open_duration (config b) -
                  from_millis (elapsed_millis b t1 - opened_at_millis b)\<rparr>, b))"
  using assms cas_state_open [of b]
  by (simp add: check_def check_open_def breaker_inv_def try_half_open_probe_def observe_def
      elapsed_millis_def cooled_down_def Let_def)

text \<open>
  While a reachable, enabled breaker is open it sheds: before the cool-down has passed
  \<open>check\<close> fails, advertises exactly the (positive) rest of the cool-down and changes
  nothing; once it has passed \<open>check\<close> admits the caller as the single probe of a new
  half-open phase.
\<close>

theorem open_breaker_check:
  assumes "b = breaker_run c t0 ops" and "enabled c" and "breaker_state_of b = Open"
  shows "if cooled_down b t1
         then fst (check t1 t2 b) = Inr () \<and> breaker_state_of (snd (check t1 t2 b)) = HalfOpen \<and>
              half_open_probes (snd (check t1 t2 b)) = 1
         else \<exists>r. check t1 t2 b = (Inl r, b) \<and> 0 < retry_after r \<and>
              retry_after r + from_millis (elapsed_millis b t1 - opened_at_millis b) = open_duration c"
proof -
  have inv: "breaker_inv b" and en: "enabled (config b)" and od: "open_duration (config b) = open_duration c"
    using assms(1,2) by (simp_all add: breaker_run_inv)
  note eq = check_open_state [OF inv en assms(3)]
  show ?thesis
  proof (cases "cooled_down b t1")
    case True
    then show ?thesis by (simp add: eq breaker_state_of_def)
  next
    case False
    with od show ?thesis by (simp add: eq) (simp add: cooled_down_def)
  qed
qed

text \<open>
  A small configuration for concrete runs: two samples suffice, a cool-down of 100
  milliseconds.
\<close>

definition tiny_config :: breaker_config where
  "tiny_config = config_server\<lparr>min_samples := 2, open_duration := from_millis 100\<rparr>"

lemmas breaker_eval = tiny_config_def config_server_def breaker_run_def with_clock_def
  breaker_state_of_def breaker_defs window_push_def window_new_def window_evict_def
  instant_checked_sub_def should_trip_def window_sample_count_def window_error_rate_def
  MAX_WINDOW_ENTRIES_def elapsed_millis_def as_millis_u64_def from_secs_def from_millis_def
  cooled_down_def f64_of_nat_def f64_div_def window_clear_def

lemma tiny_open: "breaker_state_of (breaker_run tiny_config 0
    [Record Failure 0 0, Record Failure 1000000 1000000]) = Open"
  by (simp add: breaker_eval)

theorem open_breaker_check_witness:
  "\<exists>r. check 2000000 2000000 (breaker_run tiny_config 0
      [Record Failure 0 0, Record Failure 1000000 1000000]) =
      (Inl r, breaker_run tiny_config 0 [Record Failure 0 0, Record Failure 1000000 1000000])
      \<and> 0 < retry_after r"
  using open_breaker_check [OF refl _ tiny_open, of 2000000 2000000]
  by (simp add: cooled_down_def) (simp add: breaker_eval)

section \<open>Tripping\<close>

text \<open>
  For the window sizes that can occur the comparison of the \<open>f64\<close> error rate with the
  default threshold one half is exact.
\<close>

lemma f64_rate_ge_half:
  assumes "0 < n" and "n \<le> 10000" and "m \<le> n"
  shows "1/2 \<le> f64_div (f64_of_nat m) (f64_of_nat n) \<longleftrightarrow> n \<le> 2 * m"
proof
  assume le: "n \<le> 2 * m"
  have "(of_nat n :: rat) \<le> of_nat (2 * m)" using le by (simp only: of_nat_le_iff)
  then show "1/2 \<le> f64_div (f64_of_nat m) (f64_of_nat n)"
    using assms by (intro f64_quotient_ge) simp_all
next
  assume ge: "1/2 \<le> f64_div (f64_of_nat m) (f64_of_nat n)"
  let ?q = "of_nat m / of_nat n :: rat"
  show "n \<le> 2 * m"
  proof (rule ccontr)
    assume "\<not> n \<le> 2 * m"
    then have "of_nat (2 * m + 1) \<le> (of_nat n :: rat)" by (simp only: of_nat_le_iff)
    then have q: "?q \<le> 1/2 - 1 / (2 * of_nat n)" using assms(1) by (simp add: field_simps)
    have "(1 :: rat) / 20000 \<le> 1 / (2 * of_nat n)"
      using assms(1,2) by (simp add: field_simps)
    with q have q': "?q \<le> 1/2 - 1/20000" by linarith
    have "\<bar>round_f64 ?q - ?q\<bar> \<le> ?q / 2 ^ 53" by (rule round_f64_error) simp
    moreover have "?q / 2 ^ 53 \<le> 1 / 2 ^ 53" using q' by (intro divide_right_mono) (linarith, simp)
    ultimately have "\<bar>round_f64 ?q - ?q\<bar> \<le> 1 / 2 ^ 53" by linarith
    then have "round_f64 ?q \<le> ?q + 1 / 2 ^ 53" by linarith
    also have "\<dots> \<le> 1/2 - 1/20000 + 1 / 2 ^ 53" using q' by (rule add_right_mono)
    also have "\<dots> < 1/2" by simp
    finally have "round_f64 ?q < 1/2" .
    with ge assms show False by (simp add: f64_div_def f64_of_nat_def)
  qed
qed

lemma error_rate_ge_half:
  assumes "window_inv w" and "entries w \<noteq> []"
  shows "1/2 \<le> window_error_rate w \<longleftrightarrow> length (entries w) \<le> 2 * n_failures (entries w)"
  using assms f64_rate_ge_half [of "length (entries w)" "n_failures (entries w)"]
    n_failures_le [of "entries w"]
  by (simp add: window_error_rate_def window_inv_def MAX_WINDOW_ENTRIES_def)

lemma record_closed_state:
  assumes "enabled (config b)" and "breaker_state_of b = Closed"
  shows "breaker_state_of (record_outcome oc t1 t2 b) =
    (if should_trip (config b) (window (push_sample (oc = Failure) t1 b)) then Open else Closed)"
  using assms by (simp add: record_outcome_def Let_def)

text \<open>
  A breaker with the server preset trips on exactly the documented condition: recording
  an outcome in the closed state opens it if and only if, after adding the sample and
  dropping the samples older than 60 seconds, at least 10 samples are left and at least
  half of them are failures.  (The comparison runs on \<open>f64\<close>; no rounding changes it.)
\<close>

theorem server_breaker_trips_iff:
  assumes "b = breaker_run config_server t0 ops" and "breaker_state_of b = Closed"
    and "from_secs 60 \<le> now"
    and "es = dropWhile (\<lambda>e. fst e < now - from_secs 60)
                (entries (window_push (oc = Failure) now (window b)))"
  shows "breaker_state_of (record_outcome oc now t2 b) =
    (if 10 \<le> length es \<and> length es \<le> 2 * length (filter snd es) then Open else Closed)"
proof -
  have inv: "breaker_inv b" by (simp add: assms(1) breaker_run_inv)
  have cfg: "config b = config_server" by (simp add: assms(1) config_server_def)
  let ?w = "window (push_sample (oc = Failure) now b)"
  have wi: "window_inv (window_push (oc = Failure) now (window b))"
    using inv by (simp add: breaker_inv_def)
  have w: "?w = \<lparr>entries = es, failures = n_failures es\<rparr>"
    using window_evict_spec [OF wi] assms(3,4) cfg
    by (simp add: push_sample_def config_server_def)
  have wi': "window_inv ?w" using inv by (simp add: push_sample_def breaker_inv_def)
  have "should_trip config_server ?w \<longleftrightarrow> 10 \<le> length es \<and> length es \<le> 2 * length (filter snd es)"
  proof (cases "es = []")
    case True
    then show ?thesis by (simp add: should_trip_def window_sample_count_def w config_server_def)
  next
    case False
    then show ?thesis
      using error_rate_ge_half [OF wi'] w
      by (simp add: should_trip_def window_sample_count_def config_server_def n_failures_def)
  qed
  then show ?thesis
    using record_closed_state [of b oc now t2] assms(2) cfg by (simp add: config_server_def)
qed

theorem server_breaker_trips_iff_witness:
  "breaker_state_of (record_outcome Failure (from_secs 60) (from_secs 60)
      (breaker_run config_server 0 [])) = Closed"
proof -
  have c: "breaker_state_of (breaker_run config_server 0 []) = Closed"
    by (simp add: breaker_run_def with_clock_def breaker_state_of_def)
  show ?thesis
    using server_breaker_trips_iff [OF refl c order.refl refl, of Failure "from_secs 60"]
    by (simp add: breaker_run_def with_clock_def entries_push window_new_def MAX_WINDOW_ENTRIES_def)
qed

section \<open>Half-open probing\<close>

definition lease_expired :: "breaker \<Rightarrow> instant \<Rightarrow> bool" where
  "lease_expired b t \<longleftrightarrow>
     as_millis_u64 (open_duration (config b)) \<le> elapsed_millis b t - probe_claimed_at_millis b"

lemma check_half_open:
  assumes "enabled (config b)" and "breaker_state_of b = HalfOpen"
  shows "check t1 t2 b = try_half_open_probe t1 b"
  using assms by (simp add: check_def)

lemma probe_admitted_iff:
  "fst (try_half_open_probe t b) = Inr () \<longleftrightarrow>
     half_open_probes b < half_open_max_probes (config b) \<or> lease_expired b t"
  by (simp add: try_half_open_probe_def Let_def lease_expired_def)



fun admitted :: "breaker \<Rightarrow> instant list \<Rightarrow> nat" where
  "admitted b [] = 0"
| "admitted b (t # ts) =
     (if fst (check t t b) = Inr () then 1 else 0) + admitted (snd (check t t b)) ts"

lemma admitted_half_open:
  assumes "enabled (config b)" and "breaker_state_of b = HalfOpen"
    and "half_open_probes b \<le> half_open_max_probes (config b)"
    and "m \<le> probe_claimed_at_millis b"
    and "\<forall>t \<in> set ts. m \<le> elapsed_millis b t \<and>
           elapsed_millis b t < m + as_millis_u64 (open_duration (config b))"
  shows "admitted b ts = min (length ts) (half_open_max_probes (config b) - half_open_probes b)"
  using assms
proof (induction ts arbitrary: b)
  case Nil
  then show ?case by simp
next
  case (Cons t ts)
  let ?b = "snd (try_half_open_probe t b)"
  have chk: "check t t b = try_half_open_probe t b"
    using Cons.prems(1,2) by (rule check_half_open)
  have alive: "\<not> lease_expired b t"
    using Cons.prems(4,5) by (auto simp: lease_expired_def)
  have el: "elapsed_millis ?b = elapsed_millis b" and cfg: "config ?b = config b"
    by (auto simp: elapsed_millis_def try_half_open_probe_def Let_def observe_def)
  show ?case
  proof (cases "half_open_probes b < half_open_max_probes (config b)")
    case True
    then have probes: "half_open_probes ?b = half_open_probes b + 1"
      and claim: "probe_claimed_at_millis ?b = elapsed_millis b t"
      by (simp_all add: try_half_open_probe_def Let_def observe_def)
    have "admitted ?b ts = min (length ts) (half_open_max_probes (config ?b) - half_open_probes ?b)"
      using Cons.prems True by (intro Cons.IH) (simp_all add: cfg el probes claim)
    with True show ?thesis by (simp add: chk probe_admitted_iff probes cfg)
  next
    case False
    then have same: "half_open_probes ?b = half_open_probes b"
        "probe_claimed_at_millis ?b = probe_claimed_at_millis b"
      using alive by (simp_all add: try_half_open_probe_def Let_def observe_def lease_expired_def)
    have "admitted ?b ts = min (length ts) (half_open_max_probes (config ?b) - half_open_probes ?b)"
      using Cons.prems by (intro Cons.IH) (simp_all add: cfg el same)
    with False alive show ?thesis by (simp add: chk probe_admitted_iff cfg same)
  qed
qed

text \<open>
  Half-open traffic is bounded: after an open breaker has cooled down and let its first
  caller through, however many further checks are made within one lease of that claim,
  exactly as many are admitted as there are probe slots left, so at most
  \<open>half_open_max_probes\<close> requests in all reach the recovering upstream.
\<close>

theorem half_open_admissions:
  assumes "b = breaker_run c t0 ops" and "enabled c" and "breaker_state_of b = Open"
    and "cooled_down b t1"
    and "\<forall>t \<in> set ts. elapsed_millis b t2 \<le> elapsed_millis b t \<and>
           elapsed_millis b t < elapsed_millis b t2 + as_millis_u64 (open_duration c)"
  shows "1 + admitted (snd (check t1 t2 b)) ts = min (1 + length ts) (max (half_open_max_probes c) 1)"
proof -
  have inv: "breaker_inv b" and en: "enabled (config b)"
    using assms(1,2) by (simp_all add: breaker_run_inv)
  let ?b = "snd (check t1 t2 b)"
  have b: "?b = b\<lparr>state_u8 := state_code HalfOpen, is_open_fast := False,
      half_open_probes := 1, probe_claimed_at_millis := elapsed_millis b t2,
      events := events b @ [OnStateChange Open HalfOpen ''open_elapsed'', OnProbeAdmission True]\<rparr>"
    using check_open_state [OF inv en assms(3)] assms(4) by simp
  have el: "elapsed_millis ?b = elapsed_millis b" and cfg: "config ?b = config b"
    by (auto simp: b elapsed_millis_def)
  have st: "breaker_state_of ?b = HalfOpen" and pr: "half_open_probes ?b = 1"
    and cl: "probe_claimed_at_millis ?b = elapsed_millis b t2"
    by (simp_all add: b breaker_state_of_def)
  have mp: "half_open_max_probes (config b) = max (half_open_max_probes c) 1"
    and od: "open_duration (config b) = open_duration c"
    by (simp_all add: assms(1))
  have "admitted ?b ts = min (length ts) (half_open_max_probes (config ?b) - half_open_probes ?b)"
    using en assms(5)
    by (intro admitted_half_open [where m = "elapsed_millis b t2"])
       (simp_all add: st pr cl cfg el mp od)
  then show ?thesis by (simp only: pr cfg mp)
qed

theorem half_open_admissions_witness:
  "1 + admitted (snd (check (from_millis 500) (from_millis 500) (breaker_run tiny_config 0
      [Record Failure 0 0, Record Failure 1000000 1000000]))) [from_millis 510, from_millis 520] = 1"
proof -
  have cd: "cooled_down (breaker_run tiny_config 0
      [Record Failure 0 0, Record Failure 1000000 1000000]) (from_millis 500)"
    by (simp add: breaker_eval)
  show ?thesis
    using half_open_admissions [OF refl _ tiny_open cd, of "[from_millis 510, from_millis 520]" "from_millis 500"]
    by (simp add: elapsed_millis_def) (simp add: breaker_eval)
qed

section \<open>The registry\<close>

lemma registry_get_same_key:
  assumes "enabled (reg_config r)"
  shows "fst (registry_get t' key (snd (registry_get t key r))) = fst (registry_get t key r)"
  using assms by (auto simp: registry_get_def Let_def split: option.splits)

lemma registry_get_other_key:
  "key' \<noteq> key \<Longrightarrow> breakers (snd (registry_get t key r)) key' = breakers r key'"
  by (auto simp: registry_get_def Let_def split: option.splits)

section \<open>Configuration from the environment\<close>

lemma from_lookup_max_probes: "1 \<le> half_open_max_probes (from_lookup_with_prefix pf pre get)"
  by (simp add: from_lookup_with_prefix_def Let_def)

lemma from_lookup_empty:
  "from_lookup_with_prefix pf pre (\<lambda>_. None) = config_server"
  by (simp add: from_lookup_with_prefix_def Let_def lookup_or_def config_server_def)

lemma from_lookup_failure_codes_nonempty: "failure_codes (from_lookup_with_prefix pf pre get) \<noteq> []"
  by (simp add: from_lookup_with_prefix_def Let_def default_failure_codes_def split: option.splits)

lemma parse_failure_codes_u16: "c \<in> set (parse_failure_codes s) \<Longrightarrow> c < 65536"
  by (auto simp: parse_failure_codes_def filter_map_map_filter dest: parse_uint_bound
      intro!: le_imp_less_Suc [where n = 65535, simplified])

end
