(* ===== verification/Retry_Policy.thy ===== *)
theory Retry_Policy
  imports Polycode_Prelude
begin

text \<open>
  \<open>crates/common/xai-circuit-breaker/src/retry_policy.rs\<close> and \<open>grpc.rs\<close>: what a
  caller does with a failed response, by HTTP status or gRPC code.  Status codes are
  \<open>u16\<close>; the model takes any natural number, a superset.
\<close>

section \<open>HTTP statuses\<close>

datatype disposition = Retryable | AuthRefresh | Terminal

record retry_policy =
  retryable :: "nat list"
  auth_refresh :: "nat list"
  terminal :: "nat list"
  default_disposition :: disposition

definition classify :: "retry_policy \<Rightarrow> nat \<Rightarrow> disposition option" where
  "classify p status =
     (if 200 \<le> status \<and> status < 300 then None
      else if status \<in> set (auth_refresh p) then Some AuthRefresh
      else if status \<in> set (terminal p) then Some Terminal
      else if status \<in> set (retryable p) \<or> (500 \<le> status \<and> status < 600) then Some Retryable
      else Some (default_disposition p))"

definition should_retry :: "retry_policy \<Rightarrow> nat \<Rightarrow> bool" where
  "should_retry p status \<longleftrightarrow> classify p status = Some Retryable"

definition policy_server :: retry_policy where
  "policy_server = \<lparr>retryable = [429], auth_refresh = [], terminal = [],
     default_disposition = Terminal\<rparr>"

definition policy_edge_client :: retry_policy where
  "policy_edge_client = \<lparr>retryable = [429], auth_refresh = [], terminal = [525, 526],
     default_disposition = Terminal\<rparr>"

definition policy_client_storage :: retry_policy where
  "policy_client_storage = \<lparr>retryable = [], auth_refresh = [401],
     terminal = [400, 403, 404, 525, 526], default_disposition = Retryable\<rparr>"

section \<open>gRPC codes\<close>

datatype grpc_code = GOk | Cancelled | Unknown | InvalidArgument | DeadlineExceeded | NotFound
  | AlreadyExists | PermissionDenied | ResourceExhausted | FailedPrecondition | Aborted
  | OutOfRange | Unimplemented | Internal | Unavailable | DataLoss | Unauthenticated

record grpc_retry_policy =
  grpc_retryable :: "grpc_code list"

definition grpc_default :: grpc_retry_policy where
  "grpc_default = \<lparr>grpc_retryable = [Unavailable, Unknown]\<rparr>"

definition grpc_permissive :: grpc_retry_policy where
  "grpc_permissive = \<lparr>grpc_retryable = [Unavailable, Unknown, Internal, DeadlineExceeded]\<rparr>"

definition grpc_is_retryable :: "grpc_retry_policy \<Rightarrow> grpc_code \<Rightarrow> bool" where
  "grpc_is_retryable p c \<longleftrightarrow> c \<in> set (grpc_retryable p)"

definition grpc_classify :: "grpc_retry_policy \<Rightarrow> grpc_code \<Rightarrow> disposition option" where
  "grpc_classify p code =
     (if code = GOk then None
      else if grpc_is_retryable p code then Some Retryable else Some Terminal)"

section \<open>Properties\<close>

lemma classify_None_iff: "classify p s = None \<longleftrightarrow> 200 \<le> s \<and> s < 300"
  by (simp add: classify_def)

lemma edge_client_refines_server:
  "should_retry policy_edge_client s \<longleftrightarrow> should_retry policy_server s \<and> s \<noteq> 525 \<and> s \<noteq> 526"
  by (auto simp: should_retry_def classify_def policy_edge_client_def policy_server_def)

text \<open>
  The three presets classify every status as documented: the server preset retries
  exactly 429 and the 5xx range; the edge client retries the same except the origin-TLS
  codes 525 and 526; client storage refreshes credentials on 401, drops 400, 403, 404, 525
  and 526, and retries every other non-2xx status.
\<close>

theorem retry_presets:
  "should_retry policy_server s = (s = 429 \<or> 500 \<le> s \<and> s < 600) \<and>
   should_retry policy_edge_client s =
     ((s = 429 \<or> 500 \<le> s \<and> s < 600) \<and> s \<noteq> 525 \<and> s \<noteq> 526) \<and>
   classify policy_client_storage s =
     (if 200 \<le> s \<and> s < 300 then None
      else if s = 401 then Some AuthRefresh
      else if s \<in> {400, 403, 404, 525, 526} then Some Terminal
      else Some Retryable)"
  by (auto simp: should_retry_def classify_def policy_server_def policy_edge_client_def
      policy_client_storage_def)

lemma grpc_default_le_permissive:
  "grpc_is_retryable grpc_default c \<Longrightarrow> grpc_is_retryable grpc_permissive c"
  by (auto simp: grpc_is_retryable_def grpc_default_def grpc_permissive_def)

end
