(* ===== verification/Message_Delivery.thy ===== *)
theory Message_Delivery
  imports Polycode_Prelude "HOL-Library.Multiset"
begin

unbundle bit_operations_syntax

text \<open>
  \<open>crates/common/xai-message-delivery-core/src\<close>: \<open>envelope.rs\<close> (who may send what) and
  \<open>lifecycle.rs\<close> (turn-bound ownership of messages until they are delivered, completed or
  handed back).  The type parameters of the Rust structs stay type variables:
  \<open>'i\<close> identity, \<open>'s\<close> source, \<open>'c\<close> content, \<open>'k\<close> completion, \<open>'p\<close> prompt id,
  \<open>'e\<close> epoch.
\<close>

section \<open>Envelopes\<close>

datatype principal = Human | Agent | Runtime

datatype operation = Queue | Steer | Interject | InterruptAndSend

record ('g, 'c, 'i) delivery_envelope =
  env_principal :: principal
  env_operation :: operation
  env_content :: 'c
  env_identity :: 'i
  env_grant :: 'g

definition from_human :: "operation \<Rightarrow> 'c \<Rightarrow> 'i \<Rightarrow> 'g \<Rightarrow> ('g, 'c, 'i) delivery_envelope" where
  "from_human op c i g = \<lparr>env_principal = Human, env_operation = op, env_content = c,
     env_identity = i, env_grant = g\<rparr>"

definition from_agent :: "operation \<Rightarrow> 'c \<Rightarrow> 'i \<Rightarrow> 'g \<Rightarrow> ('g, 'c, 'i) delivery_envelope" where
  "from_agent op c i g = \<lparr>env_principal = Agent, env_operation = op, env_content = c,
     env_identity = i, env_grant = g\<rparr>"

definition envelope_into_parts :: "('g, 'c, 'i) delivery_envelope \<Rightarrow> operation \<times> 'c \<times> 'i \<times> 'g" where
  "envelope_into_parts e = (env_operation e, env_content e, env_identity e, env_grant e)"

type_synonym operation_set = u8

definition OP_QUEUE :: operation_set where
  "OP_QUEUE = push_bit 0 1"

definition OP_QUEUE_AND_STEER :: operation_set where
  "OP_QUEUE_AND_STEER = push_bit 0 1 OR push_bit 1 1"

fun operation_flag :: "operation \<Rightarrow> u8" where
  "operation_flag Queue = push_bit 0 1"
| "operation_flag Steer = push_bit 1 1"
| "operation_flag Interject = push_bit 2 1"
| "operation_flag InterruptAndSend = push_bit 3 1"

definition operations_contain :: "operation_set \<Rightarrow> operation \<Rightarrow> bool" where
  "operations_contain ops op \<longleftrightarrow> ops AND operation_flag op \<noteq> 0"

datatype unsupported_operation = UnsupportedOperation operation
datatype authorized_operation = AuthorizedOperation operation

definition authorize_operation ::
  "operation_set \<Rightarrow> operation \<Rightarrow> (authorized_operation, unsupported_operation) result" where
  "authorize_operation allowed requested =
     (if operations_contain allowed requested then Inr (AuthorizedOperation requested)
      else Inl (UnsupportedOperation requested))"

section \<open>The lifecycle\<close>

record ('p, 'e) turn_binding =
  prompt_id :: 'p
  epoch :: 'e

record ('i, 's, 'c) delivery_message =
  identity :: 'i
  source :: 's
  content :: 'c

record ('i, 's, 'c, 'k, 'p, 'e) owned_delivery =
  binding :: "('p, 'e) turn_binding"
  message :: "('i, 's, 'c) delivery_message"
  completion :: 'k

datatype ('i, 's, 'c, 'k, 'p, 'e) delivery_slot =
    Pending "('i, 's, 'c, 'k, 'p, 'e) owned_delivery"
  | Projecting "('i, 's, 'c, 'k, 'p, 'e) owned_delivery"
  | Delivered "('i, 's, 'c, 'k, 'p, 'e) owned_delivery"

fun owned :: "('i, 's, 'c, 'k, 'p, 'e) delivery_slot \<Rightarrow> ('i, 's, 'c, 'k, 'p, 'e) owned_delivery" where
  "owned (Pending d) = d"
| "owned (Projecting d) = d"
| "owned (Delivered d) = d"

datatype terminal_cause = Completion | SoftCancel | Rewind | HardTeardown | ActorDrop

definition falls_back :: "terminal_cause \<Rightarrow> bool" where
  "falls_back cause \<longleftrightarrow> cause \<in> {Completion, SoftCancel, Rewind}"

datatype ('p, 'e) terminal_target = TurnTarget "('p, 'e) turn_binding" | AllTurns

record ('i, 's, 'c, 'k, 'p, 'e) terminal_transition =
  fallbacks :: "('i, 's, 'c, 'k, 'p, 'e) owned_delivery list"
  completions :: "('i, 's, 'c, 'k, 'p, 'e) owned_delivery list"

type_synonym ('i, 's, 'c, 'k, 'p, 'e) lifecycle = "('i, 's, 'c, 'k, 'p, 'e) delivery_slot list"

definition lifecycle_default :: "('i, 's, 'c, 'k, 'p, 'e) lifecycle" where
  "lifecycle_default = []"

definition contains_identity :: "'i \<Rightarrow> ('i, 's, 'c, 'k, 'p, 'e) lifecycle \<Rightarrow> bool" where
  "contains_identity i slots \<longleftrightarrow> list_ex (\<lambda>slot. identity (message (owned slot)) = i) slots"

definition admit_pending ::
  "('p, 'e) turn_binding \<Rightarrow> ('i, 's, 'c) delivery_message \<Rightarrow> 'k \<Rightarrow> ('i, 's, 'c, 'k, 'p, 'e) lifecycle \<Rightarrow>
   (unit, ('i, 's, 'c) delivery_message) result \<times> ('i, 's, 'c, 'k, 'p, 'e) lifecycle" where
  "admit_pending bd msg cmp slots =
     (if list_ex (\<lambda>slot. identity (message (owned slot)) = identity msg) slots then (Inl msg, slots)
      else (Inr (), slots @ [Pending \<lparr>binding = bd, message = msg, completion = cmp\<rparr>]))"

fun pending_message ::
  "('p, 'e) turn_binding \<Rightarrow> ('i, 's, 'c, 'k, 'p, 'e) delivery_slot \<Rightarrow> ('i, 's, 'c) delivery_message option" where
  "pending_message bd (Pending d) = (if binding d = bd then Some (message d) else None)"
| "pending_message bd (Projecting d) = None"
| "pending_message bd (Delivered d) = None"

definition pending_messages ::
  "('p, 'e) turn_binding \<Rightarrow> ('i, 's, 'c, 'k, 'p, 'e) lifecycle \<Rightarrow> ('i, 's, 'c) delivery_message list" where
  "pending_messages bd slots = List.map_filter (pending_message bd) slots"

fun start_projecting ::
  "('p, 'e) turn_binding \<Rightarrow> ('i, 's, 'c, 'k, 'p, 'e) delivery_slot \<Rightarrow> ('i, 's, 'c, 'k, 'p, 'e) delivery_slot" where
  "start_projecting bd (Pending d) = (if binding d = bd then Projecting d else Pending d)"
| "start_projecting bd slot = slot"

definition begin_delivery ::
  "('p, 'e) turn_binding \<Rightarrow> ('i, 's, 'c, 'k, 'p, 'e) lifecycle \<Rightarrow>
   ('i, 's, 'c) delivery_message list \<times> ('i, 's, 'c, 'k, 'p, 'e) lifecycle" where
  "begin_delivery bd slots =
     (let messages = pending_messages bd slots
      in if messages = [] then (messages, slots)
         else (messages, map (start_projecting bd) slots))"

fun projecting_message ::
  "('p, 'e) turn_binding \<Rightarrow> ('i, 's, 'c, 'k, 'p, 'e) delivery_slot \<Rightarrow> ('i, 's, 'c) delivery_message option" where
  "projecting_message bd (Projecting d) = (if binding d = bd then Some (message d) else None)"
| "projecting_message bd (Pending d) = None"
| "projecting_message bd (Delivered d) = None"

fun mark_delivered ::
  "('p, 'e) turn_binding \<Rightarrow> ('i, 's, 'c, 'k, 'p, 'e) delivery_slot \<Rightarrow> ('i, 's, 'c, 'k, 'p, 'e) delivery_slot" where
  "mark_delivered bd (Projecting d) = (if binding d = bd then Delivered d else Projecting d)"
| "mark_delivered bd slot = slot"

definition finish_delivery ::
  "('p, 'e) turn_binding \<Rightarrow> (('i, 's, 'c) delivery_message list \<Rightarrow> (unit, 'err) result) \<Rightarrow>
   ('i, 's, 'c, 'k, 'p, 'e) lifecycle \<Rightarrow>
   (('i, 's, 'c) delivery_message list, 'err) result \<times> ('i, 's, 'c, 'k, 'p, 'e) lifecycle" where
  "finish_delivery bd commit slots =
     (let messages = List.map_filter (projecting_message bd) slots
      in if messages = [] then (Inr messages, slots)
         else (case commit messages of
                 Inl e \<Rightarrow> (Inl e, slots)
               | Inr _ \<Rightarrow> (Inr messages, map (mark_delivered bd) slots)))"

definition target_matches ::
  "('p, 'e) terminal_target \<Rightarrow> ('i, 's, 'c, 'k, 'p, 'e) delivery_slot \<Rightarrow> bool" where
  "target_matches tgt slot =
     (case tgt of TurnTarget bd \<Rightarrow> binding (owned slot) = bd | AllTurns \<Rightarrow> True)"

fun transition_loop ::
  "('p, 'e) terminal_target \<Rightarrow> terminal_cause \<Rightarrow> ('i, 's, 'c, 'k, 'p, 'e) delivery_slot list \<Rightarrow>
   ('i, 's, 'c, 'k, 'p, 'e) delivery_slot list \<Rightarrow> ('i, 's, 'c, 'k, 'p, 'e) terminal_transition \<Rightarrow>
   ('i, 's, 'c, 'k, 'p, 'e) terminal_transition \<times> ('i, 's, 'c, 'k, 'p, 'e) lifecycle" where
  "transition_loop tgt cause [] kept tr = (tr, kept)"
| "transition_loop tgt cause (slot # slots) kept tr =
     (if \<not> target_matches tgt slot then transition_loop tgt cause slots (kept @ [slot]) tr
      else transition_loop tgt cause slots kept
        (case slot of
           Pending d \<Rightarrow>
             if falls_back cause then tr\<lparr>fallbacks := fallbacks tr @ [d]\<rparr>
             else tr\<lparr>completions := completions tr @ [d]\<rparr>
         | Projecting d \<Rightarrow> tr\<lparr>completions := completions tr @ [d]\<rparr>
         | Delivered d \<Rightarrow> tr\<lparr>completions := completions tr @ [d]\<rparr>))"

definition transition ::
  "('p, 'e) terminal_target \<Rightarrow> terminal_cause \<Rightarrow> ('i, 's, 'c, 'k, 'p, 'e) lifecycle \<Rightarrow>
   ('i, 's, 'c, 'k, 'p, 'e) terminal_transition \<times> ('i, 's, 'c, 'k, 'p, 'e) lifecycle" where
  "transition tgt cause slots =
     transition_loop tgt cause slots [] \<lparr>fallbacks = [], completions = []\<rparr>"

section \<open>Authorization\<close>

text \<open>
  Authorization is exactly membership: the queue-only set authorizes \<open>Queue\<close> alone,
  the queue-and-steer set \<open>Queue\<close> and \<open>Steer\<close>, and an operation that is not
  authorized comes back in the error.
\<close>

theorem authorize_operation_sets:
  "authorize_operation OP_QUEUE op =
     (if op = Queue then Inr (AuthorizedOperation op) else Inl (UnsupportedOperation op)) \<and>
   authorize_operation OP_QUEUE_AND_STEER op =
     (if op \<in> {Queue, Steer} then Inr (AuthorizedOperation op) else Inl (UnsupportedOperation op))"
  by (cases op)
     (simp_all add: authorize_operation_def operations_contain_def OP_QUEUE_def OP_QUEUE_AND_STEER_def)

section \<open>The transition, in closed form\<close>

definition is_pending :: "('i, 's, 'c, 'k, 'p, 'e) delivery_slot \<Rightarrow> bool" where
  "is_pending slot = (case slot of Pending _ \<Rightarrow> True | _ \<Rightarrow> False)"

definition is_delivered :: "('i, 's, 'c, 'k, 'p, 'e) delivery_slot \<Rightarrow> bool" where
  "is_delivered slot = (case slot of Delivered _ \<Rightarrow> True | _ \<Rightarrow> False)"

definition goes_back :: "('p, 'e) terminal_target \<Rightarrow> terminal_cause \<Rightarrow> ('i, 's, 'c, 'k, 'p, 'e) delivery_slot \<Rightarrow> bool" where
  "goes_back tgt cause slot \<longleftrightarrow> target_matches tgt slot \<and> is_pending slot \<and> falls_back cause"

lemma transition_loop_spec:
  "transition_loop tgt cause slots kept tr =
     (\<lparr>fallbacks = fallbacks tr @ map owned (filter (goes_back tgt cause) slots),
       completions = completions tr @
         map owned (filter (\<lambda>s. target_matches tgt s \<and> \<not> goes_back tgt cause s) slots)\<rparr>,
      kept @ filter (\<lambda>s. \<not> target_matches tgt s) slots)"
  by (induction tgt cause slots kept tr rule: transition_loop.induct)
     (auto simp: goes_back_def is_pending_def split: delivery_slot.splits)

lemma transition_spec:
  "transition tgt cause slots =
     (\<lparr>fallbacks = map owned (filter (goes_back tgt cause) slots),
       completions = map owned (filter (\<lambda>s. target_matches tgt s \<and> \<not> goes_back tgt cause s) slots)\<rparr>,
      filter (\<lambda>s. \<not> target_matches tgt s) slots)"
  by (simp add: transition_def transition_loop_spec)

lemma owned_start_projecting [simp]: "owned (start_projecting bd slot) = owned slot"
  by (cases slot) simp_all

lemma owned_mark_delivered [simp]: "owned (mark_delivered bd slot) = owned slot"
  by (cases slot) simp_all

lemma pending_messages_Nil_iff:
  "pending_messages bd slots = [] \<longleftrightarrow> (\<forall>slot \<in> set slots. pending_message bd slot = None)"
  by (induction slots) (auto simp: pending_messages_def List.map_filter_simps split: option.splits)

lemma map_filter_Nil_iff: "List.map_filter f xs = [] \<longleftrightarrow> (\<forall>x \<in> set xs. f x = None)"
  by (induction xs) (auto simp: List.map_filter_simps split: option.splits)

lemma start_projecting_id: "pending_message bd slot = None \<Longrightarrow> start_projecting bd slot = slot"
  by (cases slot) (auto split: if_splits)

lemma mark_delivered_id: "projecting_message bd slot = None \<Longrightarrow> mark_delivered bd slot = slot"
  by (cases slot) (auto split: if_splits)

lemma begin_delivery_eq:
  "begin_delivery bd slots = (pending_messages bd slots, map (start_projecting bd) slots)"
  by (auto simp: begin_delivery_def Let_def pending_messages_Nil_iff start_projecting_id map_idI)

lemma finish_delivery_eq:
  "finish_delivery bd commit slots =
     (let messages = List.map_filter (projecting_message bd) slots in
      if messages = [] then (Inr [], slots)
      else (case commit messages of
              Inl e \<Rightarrow> (Inl e, slots) | Inr _ \<Rightarrow> (Inr messages, map (mark_delivered bd) slots)))"
  by (simp add: finish_delivery_def Let_def)

lemma pending_start_projecting: "pending_message bd (start_projecting bd slot) = None"
  by (cases slot) simp_all

lemma begin_delivery_no_pending: "pending_messages bd (snd (begin_delivery bd slots)) = []"
  by (simp add: begin_delivery_eq pending_messages_Nil_iff pending_start_projecting)

section \<open>Runs of the lifecycle\<close>

text \<open>
  The host's use of a lifecycle: it admits messages, begins and finishes deliveries (the
  commit of a finish succeeds or fails), and ends turns.  The run state remembers what was
  admitted, what was committed, and what came out of the terminal transitions;
  \<open>rs_done\<close> collects the deliveries that were committed when their turn ended.
\<close>

datatype ('i, 's, 'c, 'k, 'p, 'e) delivery_op =
    Admit "('p, 'e) turn_binding" "('i, 's, 'c) delivery_message" 'k
  | Begin "('p, 'e) turn_binding"
  | Finish "('p, 'e) turn_binding" bool
  | Terminate "('p, 'e) terminal_target" terminal_cause

record ('i, 's, 'c, 'k, 'p, 'e) run_state =
  rs_slots :: "('i, 's, 'c, 'k, 'p, 'e) lifecycle"
  rs_admitted :: "('i, 's, 'c, 'k, 'p, 'e) owned_delivery list"
  rs_committed :: "('i, 's, 'c) delivery_message list"
  rs_fallbacks :: "('i, 's, 'c, 'k, 'p, 'e) owned_delivery list"
  rs_completions :: "('i, 's, 'c, 'k, 'p, 'e) owned_delivery list"
  rs_done :: "('i, 's, 'c, 'k, 'p, 'e) owned_delivery list"

fun delivery_step ::
  "('i, 's, 'c, 'k, 'p, 'e) run_state \<Rightarrow> ('i, 's, 'c, 'k, 'p, 'e) delivery_op \<Rightarrow>
   ('i, 's, 'c, 'k, 'p, 'e) run_state" where
  "delivery_step r (Admit bd msg k) =
     (case admit_pending bd msg k (rs_slots r) of
        (Inl _, slots) \<Rightarrow> r\<lparr>rs_slots := slots\<rparr>
      | (Inr _, slots) \<Rightarrow> r\<lparr>rs_slots := slots,
          rs_admitted := rs_admitted r @ [\<lparr>binding = bd, message = msg, completion = k\<rparr>]\<rparr>)"
| "delivery_step r (Begin bd) = r\<lparr>rs_slots := snd (begin_delivery bd (rs_slots r))\<rparr>"
| "delivery_step r (Finish bd ok) =
     (case finish_delivery bd (\<lambda>_. if ok then Inr () else Inl ()) (rs_slots r) of
        (Inl _, slots) \<Rightarrow> r\<lparr>rs_slots := slots\<rparr>
      | (Inr msgs, slots) \<Rightarrow> r\<lparr>rs_slots := slots, rs_committed := rs_committed r @ msgs\<rparr>)"
| "delivery_step r (Terminate tgt cause) =
     (case transition tgt cause (rs_slots r) of
        (tr, slots) \<Rightarrow> r\<lparr>rs_slots := slots,
          rs_fallbacks := rs_fallbacks r @ fallbacks tr,
          rs_completions := rs_completions r @ completions tr,
          rs_done := rs_done r @ map owned
            (filter (\<lambda>s. target_matches tgt s \<and> is_delivered s) (rs_slots r))\<rparr>)"

definition run_start :: "('i, 's, 'c, 'k, 'p, 'e) run_state" where
  "run_start = \<lparr>rs_slots = lifecycle_default, rs_admitted = [], rs_committed = [],
     rs_fallbacks = [], rs_completions = [], rs_done = []\<rparr>"

definition delivery_run ::
  "('i, 's, 'c, 'k, 'p, 'e) delivery_op list \<Rightarrow> ('i, 's, 'c, 'k, 'p, 'e) run_state" where
  "delivery_run ops = foldl delivery_step run_start ops"

definition owner_inv :: "('i, 's, 'c, 'k, 'p, 'e) run_state \<Rightarrow> bool" where
  "owner_inv r \<longleftrightarrow>
     mset (rs_admitted r) = mset (map owned (rs_slots r)) + mset (rs_fallbacks r) + mset (rs_completions r)"

definition commit_inv :: "('i, 's, 'c, 'k, 'p, 'e) run_state \<Rightarrow> bool" where
  "commit_inv r \<longleftrightarrow>
     mset (rs_committed r) =
       mset (map (message \<circ> owned) (filter is_delivered (rs_slots r))) + mset (map message (rs_done r)) \<and>
     mset (rs_done r) \<subseteq># mset (rs_completions r)"

definition ident_inv :: "('i, 's, 'c, 'k, 'p, 'e) run_state \<Rightarrow> bool" where
  "ident_inv r \<longleftrightarrow> distinct (map (identity \<circ> message \<circ> owned) (rs_slots r))"

text \<open>How each operation moves deliveries around.\<close>

lemma mset_partition: "mset xs = mset (filter P xs) + mset (filter (\<lambda>x. \<not> P x) xs)"
  by simp

lemma mset_transition:
  assumes "transition tgt cause slots = (tr, slots')"
  shows "mset (map owned slots) = mset (map owned slots') + mset (fallbacks tr) + mset (completions tr)"
proof -
  have f: "filter (\<lambda>s. target_matches tgt s \<and> goes_back tgt cause s) slots = filter (goes_back tgt cause) slots"
    by (rule filter_cong) (auto simp: goes_back_def)
  have "mset (map owned slots) =
        mset (map owned (filter (\<lambda>s. \<not> target_matches tgt s) slots)) +
        (mset (map owned (filter (\<lambda>s. target_matches tgt s \<and> goes_back tgt cause s) slots)) +
         mset (map owned (filter (\<lambda>s. target_matches tgt s \<and> \<not> goes_back tgt cause s) slots)))"
    by (induction slots) auto
  then show ?thesis using assms by (auto simp: transition_spec f)
qed

lemma admit_pending_cases:
  "admit_pending bd msg k slots =
     (if contains_identity (identity msg) slots then (Inl msg, slots)
      else (Inr (), slots @ [Pending \<lparr>binding = bd, message = msg, completion = k\<rparr>]))"
  by (simp add: admit_pending_def contains_identity_def)

lemma delivery_step_finish:
  "delivery_step r (Finish bd ok) =
     (if ok then r\<lparr>rs_slots := map (mark_delivered bd) (rs_slots r),
        rs_committed := rs_committed r @ List.map_filter (projecting_message bd) (rs_slots r)\<rparr>
      else r)"
  by (auto simp: finish_delivery_eq Let_def map_filter_Nil_iff mark_delivered_id map_idI)

lemma delivery_step_begin:
  "delivery_step r (Begin bd) = r\<lparr>rs_slots := map (start_projecting bd) (rs_slots r)\<rparr>"
  by (simp add: begin_delivery_eq)

lemma delivery_step_terminate:
  "delivery_step r (Terminate tgt cause) =
     r\<lparr>rs_slots := filter (\<lambda>s. \<not> target_matches tgt s) (rs_slots r),
       rs_fallbacks := rs_fallbacks r @ map owned (filter (goes_back tgt cause) (rs_slots r)),
       rs_completions := rs_completions r @
         map owned (filter (\<lambda>s. target_matches tgt s \<and> \<not> goes_back tgt cause s) (rs_slots r)),
       rs_done := rs_done r @
         map owned (filter (\<lambda>s. target_matches tgt s \<and> is_delivered s) (rs_slots r))\<rparr>"
  by (simp add: transition_spec)

lemma delivery_step_admit:
  "delivery_step r (Admit bd msg k) =
     (if contains_identity (identity msg) (rs_slots r) then r
      else r\<lparr>rs_slots := rs_slots r @ [Pending \<lparr>binding = bd, message = msg, completion = k\<rparr>],
             rs_admitted := rs_admitted r @ [\<lparr>binding = bd, message = msg, completion = k\<rparr>]\<rparr>)"
  by (simp add: admit_pending_cases)

lemmas delivery_steps = delivery_step_admit delivery_step_begin delivery_step_finish
  delivery_step_terminate

declare delivery_step.simps [simp del]

section \<open>Ownership\<close>

lemma owner_inv_step: "owner_inv r \<Longrightarrow> owner_inv (delivery_step r x)"
proof (cases x)
  case (Terminate tgt cause)
  assume inv: "owner_inv r"
  have "mset (map owned (rs_slots r)) =
      mset (map owned (filter (\<lambda>s. \<not> target_matches tgt s) (rs_slots r))) +
      mset (map owned (filter (goes_back tgt cause) (rs_slots r))) +
      mset (map owned (filter (\<lambda>s. target_matches tgt s \<and> \<not> goes_back tgt cause s) (rs_slots r)))"
    using mset_transition [OF transition_spec, of "rs_slots r" tgt cause] by simp
  with inv show ?thesis by (simp add: Terminate owner_inv_def delivery_steps)
qed (auto simp: owner_inv_def delivery_steps image_mset.compositionality comp_def)

lemma ident_inv_step: "ident_inv r \<Longrightarrow> ident_inv (delivery_step r x)"
  by (cases x)
     (auto simp: ident_inv_def delivery_steps contains_identity_def list_ex_iff comp_def
       distinct_map_filter)

lemma mark_delivered_committed:
  "mset (map (message \<circ> owned) (filter is_delivered (map (mark_delivered bd) slots))) =
     mset (map (message \<circ> owned) (filter is_delivered slots)) +
     mset (List.map_filter (projecting_message bd) slots)"
proof (induction slots)
  case Nil
  show ?case by (simp add: List.map_filter_simps)
next
  case (Cons slot slots)
  then show ?case by (cases slot) (auto simp: List.map_filter_simps is_delivered_def)
qed

lemma is_delivered_start_projecting [simp]: "is_delivered (start_projecting bd s) = is_delivered s"
  by (cases s) (simp_all add: is_delivered_def)

lemma filter_delivered_begin:
  "map (message \<circ> owned) (filter is_delivered (map (start_projecting bd) slots)) =
     map (message \<circ> owned) (filter is_delivered slots)"
  by (induction slots) auto

lemma mset_filter_split:
  "mset (map f (filter P xs)) =
     mset (map f (filter P (filter (\<lambda>x. \<not> Q x) xs))) + mset (map f (filter (\<lambda>x. Q x \<and> P x) xs))"
  by (induction xs) (auto simp: filter_filter_mset conj_commute)

lemma commit_inv_step: "commit_inv r \<Longrightarrow> commit_inv (delivery_step r x)"
proof (cases x)
  case (Terminate tgt cause)
  assume inv: "commit_inv r"
  let ?s = "rs_slots r"
  have sub: "mset (map owned (filter (\<lambda>s. target_matches tgt s \<and> is_delivered s) ?s)) \<subseteq>#
      mset (map owned (filter (\<lambda>s. target_matches tgt s \<and> \<not> goes_back tgt cause s) ?s))"
    unfolding mset_map mset_filter
    by (intro image_mset_subseteq_mono filter_mset_mono_strong)
       (auto simp: goes_back_def is_pending_def is_delivered_def split: delivery_slot.splits)
  have "mset (rs_committed r) =
      mset (map (message \<circ> owned) (filter is_delivered (filter (\<lambda>s. \<not> target_matches tgt s) ?s))) +
      mset (map (message \<circ> owned) (filter (\<lambda>s. target_matches tgt s \<and> is_delivered s) ?s)) +
      mset (map message (rs_done r))"
    using inv mset_filter_split [of "message \<circ> owned" is_delivered ?s "target_matches tgt"]
    by (simp only: commit_inv_def)
  moreover have "mset (rs_done r) \<subseteq># mset (rs_completions r)"
    using inv by (simp only: commit_inv_def)
  then have "mset (rs_done (delivery_step r x)) \<subseteq># mset (rs_completions (delivery_step r x))"
    using subset_mset.add_mono [OF _ sub] by (simp add: Terminate delivery_step_terminate)
  ultimately show ?thesis
    by (simp add: Terminate commit_inv_def delivery_step_terminate comp_def ac_simps)
next
  case (Finish bd ok)
  assume "commit_inv r"
  then show ?thesis
    using mark_delivered_committed [of bd "rs_slots r"]
    by (simp add: Finish commit_inv_def delivery_steps)
next
  case (Begin bd)
  assume "commit_inv r"
  then show ?thesis
    by (simp add: Begin commit_inv_def delivery_steps filter_delivered_begin del: map_map filter_map)
next
  case (Admit bd msg k)
  assume "commit_inv r"
  then show ?thesis by (simp add: Admit commit_inv_def delivery_steps is_delivered_def)
qed

definition delivery_inv :: "('i, 's, 'c, 'k, 'p, 'e) run_state \<Rightarrow> bool" where
  "delivery_inv r \<longleftrightarrow> owner_inv r \<and> commit_inv r \<and> ident_inv r"

interpretation delivery_sys: invariant_system delivery_step delivery_inv
  by unfold_locales (simp add: delivery_inv_def owner_inv_step commit_inv_step ident_inv_step)

lemma delivery_inv_start: "delivery_inv run_start"
  by (simp add: delivery_inv_def owner_inv_def commit_inv_def ident_inv_def run_start_def
      lifecycle_default_def)

lemma delivery_run_inv: "delivery_inv (delivery_run ops)"
  unfolding delivery_run_def by (rule delivery_sys.run_inv) (rule delivery_inv_start)

lemma distinct_subset_mset:
  assumes "mset xs \<subseteq># mset ys" and "distinct ys"
  shows "distinct xs"
proof -
  have "count (mset xs) a \<le> 1" for a
    using mset_subset_eq_count [OF assms(1), of a] assms(2)
    by (metis distinct_count_atmost_1 le_trans order.refl zero_le)
  then show ?thesis by (metis count_greater_zero_iff distinct_count_atmost_1 le_antisym less_one
        not_gr_zero not_less set_mset_mset)
qed

text \<open>
  C27. Ownership is conserved: whatever a host admits, begins, commits and terminates, every
  admitted delivery (message together with its completion handle) is at each moment in
  exactly one place: still owned by a slot, handed back as a fallback, or handed over for
  completion.  No slot identity occurs twice.
\<close>

theorem delivery_ownership:
  "mset (rs_admitted (delivery_run ops)) =
     mset (map owned (rs_slots (delivery_run ops))) + mset (rs_fallbacks (delivery_run ops)) +
     mset (rs_completions (delivery_run ops)) \<and>
   distinct (map (identity \<circ> message \<circ> owned) (rs_slots (delivery_run ops)))"
  using delivery_run_inv [of ops] by (simp add: delivery_inv_def owner_inv_def ident_inv_def)

text \<open>
  C33. Delivery is at most once, and never after a fallback: if the host does not reuse a
  message identity, the identities of all committed messages and of all messages handed
  back to be queued again are pairwise different, so no message is committed twice and no
  committed message is ever handed back.
\<close>

theorem delivery_at_most_once:
  assumes "distinct (map (identity \<circ> message) (rs_admitted (delivery_run ops)))"
  shows "distinct (map identity (rs_committed (delivery_run ops)
           @ map message (rs_fallbacks (delivery_run ops))))"
proof -
  let ?r = "delivery_run ops"
  let ?D = "filter is_delivered (rs_slots ?r)"
  have o: "owner_inv ?r" and c: "commit_inv ?r"
    using delivery_run_inv [of ops] by (simp_all add: delivery_inv_def)
  have "mset (map owned ?D @ rs_done ?r @ rs_fallbacks ?r) \<subseteq># mset (rs_admitted ?r)"
  proof -
    have "mset (map owned ?D) \<subseteq># mset (map owned (rs_slots ?r))"
      unfolding mset_map mset_filter by (intro image_mset_subseteq_mono multiset_filter_subset)
    moreover have "mset (rs_done ?r) \<subseteq># mset (rs_completions ?r)"
      using c by (simp add: commit_inv_def)
    ultimately have "mset (map owned ?D) + (mset (rs_done ?r) + mset (rs_fallbacks ?r)) \<subseteq>#
        mset (map owned (rs_slots ?r)) + (mset (rs_completions ?r) + mset (rs_fallbacks ?r))"
      by (intro subset_mset.add_mono) simp_all
    then show ?thesis using o by (simp add: owner_inv_def ac_simps)
  qed
  then have "mset (map (identity \<circ> message) (map owned ?D @ rs_done ?r @ rs_fallbacks ?r)) \<subseteq>#
      mset (map (identity \<circ> message) (rs_admitted ?r))"
    unfolding mset_map by (rule image_mset_subseteq_mono)
  then have d: "distinct (map (identity \<circ> message) (map owned ?D @ rs_done ?r @ rs_fallbacks ?r))"
    using assms by (rule distinct_subset_mset)
  have "mset (map identity (rs_committed ?r @ map message (rs_fallbacks ?r))) =
      mset (map (identity \<circ> message) (map owned ?D @ rs_done ?r @ rs_fallbacks ?r))"
    using c by (simp add: commit_inv_def image_mset.compositionality comp_def)
  then show ?thesis using d mset_eq_imp_distinct_iff by blast
qed

lemmas delivery_eval = delivery_run_def run_start_def lifecycle_default_def delivery_steps
  contains_identity_def goes_back_def is_pending_def is_delivered_def target_matches_def
  falls_back_def List.map_filter_simps

theorem delivery_at_most_once_witness:
  "distinct (map identity (rs_committed (delivery_run
       [Admit \<lparr>prompt_id = 1, epoch = 0\<rparr> \<lparr>identity = 7, source = (), content = ()\<rparr> (),
        Begin \<lparr>prompt_id = 1, epoch = 0\<rparr>, Finish \<lparr>prompt_id = 1, epoch = 0\<rparr> True,
        Admit \<lparr>prompt_id = 1, epoch = 0\<rparr> \<lparr>identity = 8, source = (), content = ()\<rparr> (),
        Terminate AllTurns SoftCancel :: (nat, unit, unit, unit, nat, nat) delivery_op]) @
     map message (rs_fallbacks (delivery_run
       [Admit \<lparr>prompt_id = 1, epoch = 0\<rparr> \<lparr>identity = 7, source = (), content = ()\<rparr> (),
        Begin \<lparr>prompt_id = 1, epoch = 0\<rparr>, Finish \<lparr>prompt_id = 1, epoch = 0\<rparr> True,
        Admit \<lparr>prompt_id = 1, epoch = 0\<rparr> \<lparr>identity = 8, source = (), content = ()\<rparr> (),
        Terminate AllTurns SoftCancel :: (nat, unit, unit, unit, nat, nat) delivery_op]))))"
  by (rule delivery_at_most_once) (simp add: delivery_eval)

text \<open>
  Ending all turns releases everything: afterwards the lifecycle is empty, so each
  admitted delivery has come back exactly once; what was already projecting or delivered,
  and everything on a teardown or actor drop, comes back for completion and never as a
  fallback.
\<close>

theorem terminate_all_releases:
  "rs_slots (delivery_run (ops @ [Terminate AllTurns cause])) = [] \<and>
   mset (rs_admitted (delivery_run ops)) =
     mset (rs_fallbacks (delivery_run (ops @ [Terminate AllTurns cause]))) +
     mset (rs_completions (delivery_run (ops @ [Terminate AllTurns cause]))) \<and>
   rs_fallbacks (delivery_run (ops @ [Terminate AllTurns cause])) =
     rs_fallbacks (delivery_run ops) @
     (if cause \<in> {HardTeardown, ActorDrop} then []
      else map owned (filter is_pending (rs_slots (delivery_run ops))))"
proof -
  let ?r = "delivery_run ops" and ?r' = "delivery_run (ops @ [Terminate AllTurns cause])"
  have r': "?r' = delivery_step ?r (Terminate AllTurns cause)"
    by (simp add: delivery_run_def)
  have slots: "rs_slots ?r' = []"
    by (simp add: r' delivery_steps target_matches_def)
  have adm: "rs_admitted ?r' = rs_admitted ?r"
    by (simp add: r' delivery_steps)
  have "owner_inv ?r'"
    using delivery_run_inv [of "ops @ [Terminate AllTurns cause]"] by (simp add: delivery_inv_def)
  then have "mset (rs_admitted ?r) = mset (rs_fallbacks ?r') + mset (rs_completions ?r')"
    by (simp add: owner_inv_def slots adm)
  moreover have "rs_fallbacks ?r' = rs_fallbacks ?r @
     (if cause \<in> {HardTeardown, ActorDrop} then [] else map owned (filter is_pending (rs_slots ?r)))"
    unfolding r' by (cases cause)
      (simp_all add: delivery_steps goes_back_def [abs_def] target_matches_def falls_back_def)
  ultimately show ?thesis by (simp add: slots)
qed

end
