(* ===== verification/Interjection.thy ===== *)
theory Interjection
  imports Rust_Strings
begin

text \<open>
  \<open>crates/common/xai-interjection-core/src\<close>: the shared event queue (\<open>events.rs\<close>), the
  envelope around user text that arrives while the agent works (\<open>format.rs\<close>) and the
  buffer of pending interjections (\<open>buffer.rs\<close>).  The queue's mutex makes each method
  atomic, so a method is a function on the queued events.
\<close>

section \<open>The event queue\<close>

record 'e event_queue =
  queued :: "'e list"

definition queue_new :: "'e event_queue" where
  "queue_new = \<lparr>queued = []\<rparr>"

definition queue_push :: "'e \<Rightarrow> 'e event_queue \<Rightarrow> 'e event_queue" where
  "queue_push ev q = q\<lparr>queued := queued q @ [ev]\<rparr>"

definition queue_push_capped :: "'e \<Rightarrow> nat \<Rightarrow> 'e event_queue \<Rightarrow> 'e event_queue" where
  "queue_push_capped ev mx q =
     (let q1 = q\<lparr>queued := queued q @ [ev]\<rparr>
      in if mx < length (queued q1)
         then q1\<lparr>queued := drop (length (queued q1) - mx) (queued q1)\<rparr> else q1)"

definition queue_len :: "'e event_queue \<Rightarrow> nat" where
  "queue_len q = length (queued q)"

definition queue_is_empty :: "'e event_queue \<Rightarrow> bool" where
  "queue_is_empty q \<longleftrightarrow> queued q = []"

definition queue_drain_matching :: "('e \<Rightarrow> bool) \<Rightarrow> 'e event_queue \<Rightarrow> 'e list \<times> 'e event_queue" where
  "queue_drain_matching tk q =
     (let (matched, kept) = partition tk (queued q) in (matched, q\<lparr>queued := kept\<rparr>))"

definition queue_drain_all :: "'e event_queue \<Rightarrow> 'e list \<times> 'e event_queue" where
  "queue_drain_all q = (queued q, q\<lparr>queued := []\<rparr>)"

definition queue_restore_front :: "'e list \<Rightarrow> 'e event_queue \<Rightarrow> 'e event_queue" where
  "queue_restore_front evs q = (if evs = [] then q else q\<lparr>queued := evs @ queued q\<rparr>)"

definition queue_clear :: "'e event_queue \<Rightarrow> 'e event_queue" where
  "queue_clear q = q\<lparr>queued := []\<rparr>"

definition queue_snapshot :: "'e event_queue \<Rightarrow> 'e list" where
  "queue_snapshot q = queued q"

section \<open>Framing\<close>

definition LARGE_PROMPT_THRESHOLD :: nat where
  "LARGE_PROMPT_THRESHOLD = 25000"

definition INTERJECTION_NOTE :: rstring where
  "INTERJECTION_NOTE = lit ''The user sent a message while you were working:''"

definition INTERRUPT_NOTE :: rstring where
  "INTERRUPT_NOTE = lit ''The user interrupted the previous turn:''"

definition UNFINISHED_TASKS_REMINDER :: rstring where
  "UNFINISHED_TASKS_REMINDER = lit ''Make sure to complete any unfinished tasks from previous turns.''"

definition user_query :: "rstring \<Rightarrow> rstring" where
  "user_query user_message =
     lit ''<user_query>'' @ [NL] @ user_message @ [NL] @ lit ''</user_query>''"

definition frame_user_turn :: "rstring \<Rightarrow> rstring \<Rightarrow> rstring" where
  "frame_user_turn note assembled = note @ [NL] @ assembled @ [NL] @ UNFINISHED_TASKS_REMINDER"

definition format_steered_query :: "rstring \<Rightarrow> rstring \<Rightarrow> rstring" where
  "format_steered_query note text =
     (let truncated =
        (if byte_len text \<le> LARGE_PROMPT_THRESHOLD then text
         else let below = takeWhile (\<lambda>(i, _). i < LARGE_PROMPT_THRESHOLD) (char_indices 0 text);
                  e = (if below = [] then byte_len text
                       else (case last below of (i, c) \<Rightarrow> i + len_utf8 c))
              in byte_prefix e text @ lit ''... [truncated]'')
      in frame_user_turn note (user_query truncated))"

definition format_interjection :: "rstring \<Rightarrow> rstring" where
  "format_interjection text = format_steered_query INTERJECTION_NOTE text"

definition format_interrupt :: "rstring \<Rightarrow> rstring" where
  "format_interrupt text = format_steered_query INTERRUPT_NOTE text"

section \<open>The interjection buffer\<close>

record 'a interjection =
  ij_text :: rstring
  ij_attachments :: "'a list"

definition drain_formatted ::
  "(rstring \<Rightarrow> rstring) \<Rightarrow> 'a interjection event_queue \<Rightarrow> 'a interjection list \<times> 'a interjection event_queue" where
  "drain_formatted sanitize buffer =
     (case queue_drain_all buffer of
        (es, q) \<Rightarrow>
          (map (\<lambda>e. \<lparr>ij_text = format_interjection (sanitize (ij_text e)), ij_attachments = ij_attachments e\<rparr>) es, q))"

section \<open>The queue as a first-in-first-out buffer\<close>

text \<open>
  What the readers of a queue rely on.  The client lemma is the cancel-safety of a reader
  that drains everything, handles a part, and puts the rest back while producers keep
  pushing.
\<close>

locale event_buffer =
  fixes contents :: "'q \<Rightarrow> 'e list"
    and push :: "'e \<Rightarrow> 'q \<Rightarrow> 'q"
    and drain_all :: "'q \<Rightarrow> 'e list \<times> 'q"
    and drain_matching :: "('e \<Rightarrow> bool) \<Rightarrow> 'q \<Rightarrow> 'e list \<times> 'q"
    and restore_front :: "'e list \<Rightarrow> 'q \<Rightarrow> 'q"
  assumes contents_push: "contents (push ev q) = contents q @ [ev]"
    and drain_all_result: "fst (drain_all q) = contents q"
    and contents_drain_all: "contents (snd (drain_all q)) = []"
    and drain_matching_result: "fst (drain_matching p q) = filter p (contents q)"
    and contents_drain_matching: "contents (snd (drain_matching p q)) = filter (\<lambda>ev. \<not> p ev) (contents q)"
    and contents_restore: "contents (restore_front evs q) = evs @ contents q"
begin

lemma contents_pushes: "contents (fold push evs q) = contents q @ evs"
  by (induction evs arbitrary: q) (simp_all add: contents_push)

lemma cancelled_reader:
  "contents (restore_front (drop n (fst (drain_all q))) (fold push evs (snd (drain_all q)))) =
     drop n (contents q) @ evs"
  by (simp add: contents_restore contents_pushes drain_all_result contents_drain_all)

lemma drain_matching_conserves:
  "length (fst (drain_matching p q)) + length (contents (snd (drain_matching p q))) = length (contents q)"
  by (simp add: drain_matching_result contents_drain_matching sum_length_filter_compl)

end

interpretation evq: event_buffer queued queue_push queue_drain_all queue_drain_matching queue_restore_front
  by unfold_locales
    (auto simp: queue_push_def queue_drain_all_def queue_drain_matching_def queue_restore_front_def
      partition_filter_conv comp_def)

text \<open>
  Draining is cancel-safe: if a reader drains the queue, handles the first \<open>n\<close>
  events, is cancelled and restores the rest while producers have pushed \<open>evs\<close>, the queue
  then holds exactly the unhandled events followed by the new ones, in arrival order;
  nothing is lost, duplicated or reordered.
\<close>

theorem cancelled_drain_restores:
  "queued (queue_restore_front (drop n (fst (queue_drain_all q)))
             (fold queue_push evs (snd (queue_drain_all q)))) = drop n (queued q) @ evs"
  by (rule evq.cancelled_reader)

text \<open>
  A capped push keeps the newest events: afterwards the queue holds the last
  \<open>mx\<close> of the old events and the new one, so at most \<open>mx\<close> events.
\<close>

theorem push_capped_keeps_newest:
  "queued (queue_push_capped ev mx q) =
     drop (length (queued q) + 1 - mx) (queued q @ [ev]) \<and>
   queue_len (queue_push_capped ev mx q) = min mx (queue_len q + 1)"
  by (auto simp: queue_push_capped_def queue_len_def Let_def)

section \<open>Bounds on framed text\<close>

text \<open>The prefix selected by the truncation, computed directly.\<close>

fun chars_below :: "nat \<Rightarrow> nat \<Rightarrow> rstring \<Rightarrow> rstring" where
  "chars_below limit i [] = []"
| "chars_below limit i (c # s) =
     (if i < limit then c # chars_below limit (i + len_utf8 c) s else [])"

lemma chars_below_prefix: "\<exists>t. s = chars_below limit i s @ t"
  by (induction limit i s rule: chars_below.induct) auto

lemma takeWhile_char_indices:
  "map snd (takeWhile (\<lambda>(i, _). i < limit) (char_indices i s)) = chars_below limit i s"
  by (induction limit i s rule: chars_below.induct) auto

lemma last_char_indices:
  assumes "chars_below limit i s \<noteq> []"
  shows "(case last (takeWhile (\<lambda>(i, _). i < limit) (char_indices i s)) of (j, c) \<Rightarrow> j + len_utf8 c) =
    i + byte_len (chars_below limit i s)"
  using assms
proof (induction limit i s rule: chars_below.induct)
  case (1 limit i)
  then show ?case by simp
next
  case (2 limit i c s)
  show ?case
  proof (cases "chars_below limit (i + len_utf8 c) s = []")
    case True
    then have "takeWhile (\<lambda>(i, _). i < limit) (char_indices (i + len_utf8 c) s) = []"
      using takeWhile_char_indices [of limit "i + len_utf8 c" s] by simp
    with True 2 show ?thesis by (simp split: if_splits)
  next
    case False
    then have "takeWhile (\<lambda>(i, _). i < limit) (char_indices (i + len_utf8 c) s) \<noteq> []"
      using takeWhile_char_indices [of limit "i + len_utf8 c" s] by auto
    with False 2 show ?thesis by (simp split: if_splits)
  qed
qed

lemma chars_below_bytes:
  "i + byte_len (chars_below limit i s) < limit + 4 \<or> limit + 4 \<le> i"
proof (induction limit i s rule: chars_below.induct)
  case (2 limit i c s)
  then show ?case using len_utf8_le4 [of c] by auto
qed auto

lemma format_steered_query_eq:
  "format_steered_query note msg =
     frame_user_turn note (user_query
       (if byte_len msg \<le> LARGE_PROMPT_THRESHOLD then msg
        else chars_below LARGE_PROMPT_THRESHOLD 0 msg @ lit ''... [truncated]''))"
proof (cases "byte_len msg \<le> LARGE_PROMPT_THRESHOLD")
  case True
  then show ?thesis by (simp add: format_steered_query_def)
next
  case False
  let ?below = "takeWhile (\<lambda>(i, _). i < LARGE_PROMPT_THRESHOLD) (char_indices 0 msg)"
  have ne: "chars_below LARGE_PROMPT_THRESHOLD 0 msg \<noteq> []"
    using False by (cases msg) (auto simp: LARGE_PROMPT_THRESHOLD_def)
  then have ne': "?below \<noteq> []"
    using takeWhile_char_indices [of LARGE_PROMPT_THRESHOLD 0 msg] by auto
  obtain t where t: "msg = chars_below LARGE_PROMPT_THRESHOLD 0 msg @ t"
    using chars_below_prefix by blast
  have "byte_prefix (byte_len (chars_below LARGE_PROMPT_THRESHOLD 0 msg)) msg =
      chars_below LARGE_PROMPT_THRESHOLD 0 msg"
    by (metis byte_prefix_append t)
  then show ?thesis
    using False ne' last_char_indices [OF ne] by (simp add: format_steered_query_def Let_def)
qed

lemma byte_len_lit:
  "\<forall>c \<in> set s. of_char c < (128 :: nat) \<Longrightarrow> byte_len (lit s) = length s"
  by (induction s) (simp_all add: lit_def len_utf8_def)

text \<open>
  A mid-turn message costs a bounded amount of context: however long the text, the
  framed interjection is at most 25157 bytes, text of up to 25000 bytes is carried over
  unchanged, and longer text is cut on a character boundary after its first 25000 bytes.
\<close>

theorem interjection_size_bound:
  "byte_len (format_interjection msg) \<le> 25157 \<and>
   (if byte_len msg \<le> 25000
    then format_interjection msg = frame_user_turn INTERJECTION_NOTE (user_query msg)
    else \<exists>p rest. msg = p @ rest \<and> byte_len p < 25004 \<and>
         format_interjection msg =
           frame_user_turn INTERJECTION_NOTE (user_query (p @ lit ''... [truncated]'')))"
proof -
  have frame: "byte_len (frame_user_turn INTERJECTION_NOTE (user_query t)) = byte_len t + 139" for t
    by (simp add: frame_user_turn_def user_query_def INTERJECTION_NOTE_def
        UNFINISHED_TASKS_REMINDER_def byte_len_lit len_utf8_def)
  have tr: "byte_len (lit ''... [truncated]'') = 15" by (simp add: byte_len_lit)
  let ?p = "chars_below LARGE_PROMPT_THRESHOLD 0 msg"
  have p: "byte_len ?p < 25004"
    using chars_below_bytes [of 0 LARGE_PROMPT_THRESHOLD msg] by (simp add: LARGE_PROMPT_THRESHOLD_def)
  obtain rest where "msg = ?p @ rest" using chars_below_prefix by blast
  then show ?thesis
    using p frame [of msg] frame [of "?p @ lit ''... [truncated]''"] tr
    by (auto simp: format_interjection_def format_steered_query_eq LARGE_PROMPT_THRESHOLD_def)
qed

lemma drain_formatted_spec:
  "queued (snd (drain_formatted f q)) = [] \<and>
   map ij_attachments (fst (drain_formatted f q)) = map ij_attachments (queued q) \<and>
   map ij_text (fst (drain_formatted f q)) = map (\<lambda>e. format_interjection (f (ij_text e))) (queued q)"
  by (simp add: drain_formatted_def queue_drain_all_def comp_def)

end
