(* ===== verification/Seek_Sequence.thy ===== *)
theory Seek_Sequence
  imports Rust_Strings
begin

text \<open>
  The fuzzy line matcher of the apply-patch engine
  (\<open>xai-grok-tools/src/implementations/codex/apply_patch/seek_sequence.rs\<close>).  The four
  passes of \<open>seek_sequence\<close> are the same loop over start positions with a looser key per
  line each time: the line itself, \<open>trim_end\<close>, \<open>trim\<close> and \<open>normalise\<close>.  The locale
  \<open>looser_key\<close> is what makes the order of the passes meaningful: each key is a function of
  the one before it, so a match of a pass is a match of every later pass.
\<close>

section \<open>The matcher\<close>

definition normalise_char :: "rchar \<Rightarrow> rchar" where
  "normalise_char c =
     (if c = 0x2010 \<or> c = 0x2011 \<or> c = 0x2012 \<or> c = 0x2013 \<or> c = 0x2014 \<or> c = 0x2015 \<or> c = 0x2212
      then 45
      else if c = 0x2018 \<or> c = 0x2019 \<or> c = 0x201A \<or> c = 0x201B then 39
      else if c = 0x201C \<or> c = 0x201D \<or> c = 0x201E \<or> c = 0x201F then 34
      else if c = 0x00A0 \<or> c = 0x2002 \<or> c = 0x2003 \<or> c = 0x2004 \<or> c = 0x2005 \<or> c = 0x2006 \<or>
              c = 0x2007 \<or> c = 0x2008 \<or> c = 0x2009 \<or> c = 0x200A \<or> c = 0x202F \<or> c = 0x205F \<or>
              c = 0x3000 then 32
      else c)"

lemma normalise_char_ascii [simp]: "c < 128 \<Longrightarrow> normalise_char c = c"
  by (simp add: normalise_char_def)

definition normalise :: "rstring \<Rightarrow> rstring" where
  "normalise s = map normalise_char (trim s)"

definition exact_at :: "rstring list \<Rightarrow> rstring list \<Rightarrow> nat \<Rightarrow> bool" where
  \<comment> \<open>\<open>lines[i..i + pattern.len()] == *pattern\<close>\<close>
  "exact_at lines pattern i \<longleftrightarrow> take (length pattern) (drop i lines) = pattern"

fun keys_match :: "(rstring \<Rightarrow> rstring) \<Rightarrow> rstring list \<Rightarrow> nat \<Rightarrow> rstring list \<Rightarrow> bool" where
  \<comment> \<open>the inner loop over \<open>pattern.iter().enumerate()\<close>, which stops at the first difference\<close>
  "keys_match key lines i [] = True"
| "keys_match key lines i (pat # pats) =
     (if key (lines ! i) \<noteq> key pat then False else keys_match key lines (Suc i) pats)"

definition seek_pass :: "(nat \<Rightarrow> bool) \<Rightarrow> nat \<Rightarrow> nat \<Rightarrow> nat option" where
  \<comment> \<open>\<open>for i in search_start..=last { if p(i) { return Some(i) } }\<close>\<close>
  "seek_pass p search_start last_idx = find_from p search_start (Suc last_idx - search_start)"

definition seek_sequence :: "rstring list \<Rightarrow> rstring list \<Rightarrow> nat \<Rightarrow> bool \<Rightarrow> nat option" where
  "seek_sequence lines pattern start eof =
     (if pattern = [] then Some start
      else if length pattern > length lines then None
      else let search_start = (if eof \<and> length lines \<ge> length pattern
                               then length lines - length pattern else start);
               last_idx = length lines - length pattern in
        case seek_pass (exact_at lines pattern) search_start last_idx of
          Some i \<Rightarrow> Some i
        | None \<Rightarrow> (case seek_pass (\<lambda>i. keys_match trim_end lines i pattern) search_start last_idx of
            Some i \<Rightarrow> Some i
          | None \<Rightarrow> (case seek_pass (\<lambda>i. keys_match trim lines i pattern) search_start last_idx of
              Some i \<Rightarrow> Some i
            | None \<Rightarrow> seek_pass (\<lambda>i. keys_match normalise lines i pattern) search_start last_idx)))"

section \<open>Matching under a key\<close>

definition matches_at :: "(rstring \<Rightarrow> rstring) \<Rightarrow> rstring list \<Rightarrow> rstring list \<Rightarrow> nat \<Rightarrow> bool" where
  \<comment> \<open>the block of the file at \<open>i\<close> equals the pattern, line by line, up to the key\<close>
  "matches_at key lines pattern i \<longleftrightarrow>
     i + length pattern \<le> length lines \<and> map key (take (length pattern) (drop i lines)) = map key pattern"

lemma exact_at_iff:
  "i + length pattern \<le> length lines \<Longrightarrow> exact_at lines pattern i \<longleftrightarrow> matches_at id lines pattern i"
  by (simp add: exact_at_def matches_at_def)

lemma keys_match_iff:
  "i + length pattern \<le> length lines \<Longrightarrow>
     keys_match key lines i pattern \<longleftrightarrow> matches_at key lines pattern i"
proof (induction pattern arbitrary: i)
  case Nil
  then show ?case by (simp add: matches_at_def)
next
  case (Cons p ps)
  then have "drop i lines = lines ! i # drop (Suc i) lines"
    by (simp add: Cons_nth_drop_Suc)
  with Cons show ?case by (auto simp: matches_at_def)
qed

lemma matches_at_bound: "matches_at key lines pattern i \<Longrightarrow> i + length pattern \<le> length lines"
  by (simp add: matches_at_def)

text \<open>A pass returns the first position of the range where the pattern matches under its key.\<close>

definition first_match ::
  "(rstring \<Rightarrow> rstring) \<Rightarrow> rstring list \<Rightarrow> rstring list \<Rightarrow> nat \<Rightarrow> nat option \<Rightarrow> bool" where
  "first_match key lines pattern s r \<longleftrightarrow> (case r of
     Some i \<Rightarrow> s \<le> i \<and> matches_at key lines pattern i \<and>
               (\<forall>j. s \<le> j \<and> j < i \<longrightarrow> \<not> matches_at key lines pattern j)
   | None \<Rightarrow> (\<forall>j. s \<le> j \<longrightarrow> \<not> matches_at key lines pattern j))"

lemma seek_pass_first_match:
  assumes len: "length pattern \<le> length lines"
    and p: "\<And>i. i + length pattern \<le> length lines \<Longrightarrow> p i \<longleftrightarrow> matches_at key lines pattern i"
  shows "first_match key lines pattern s (seek_pass p s (length lines - length pattern))"
proof -
  let ?n = "Suc (length lines - length pattern) - s"
  have range: "j + length pattern \<le> length lines \<longleftrightarrow> j \<le> length lines - length pattern" for j
    using len by auto
  show ?thesis
  proof (cases "find_from p s ?n")
    case None
    then have "\<not> p j" if "s \<le> j" "j \<le> length lines - length pattern" for j
      using that by (auto simp: find_from_None_iff)
    then show ?thesis
      using None p range by (auto simp: first_match_def seek_pass_def dest: matches_at_bound)
  next
    case (Some i)
    then have i: "s \<le> i" "i \<le> length lines - length pattern" "p i"
      and least: "\<And>j. s \<le> j \<Longrightarrow> j < i \<Longrightarrow> \<not> p j"
      by (auto simp: find_from_Some_iff)
    then show ?thesis using Some p range by (auto simp: first_match_def seek_pass_def)
  qed
qed

section \<open>Looser and looser keys\<close>

locale looser_key =
  fixes strict :: "rstring \<Rightarrow> rstring" and loose :: "rstring \<Rightarrow> rstring"
  assumes factors: "strict s = strict t \<Longrightarrow> loose s = loose t"
begin

lemma map_loosens: "map strict xs = map strict ys \<Longrightarrow> map loose xs = map loose ys"
proof (induction xs arbitrary: ys)
  case Nil
  then show ?case by simp
next
  case (Cons x xs)
  then obtain y ys' where ys: "ys = y # ys'" by (cases ys) auto
  with Cons.prems have "strict x = strict y" and "map strict xs = map strict ys'" by simp_all
  from factors [OF this(1)] Cons.IH [OF this(2)] show ?case by (simp add: ys)
qed

lemma match_loosens: "matches_at strict lines pattern i \<Longrightarrow> matches_at loose lines pattern i"
  by (auto simp: matches_at_def intro: map_loosens)

lemma first_match_loosens:
  "first_match loose lines pattern s None \<Longrightarrow> first_match strict lines pattern s None"
  by (auto simp: first_match_def dest: match_loosens)

end

interpretation exact_rstrip: looser_key id trim_end
  by unfold_locales simp

interpretation rstrip_trim: looser_key trim_end trim
  by unfold_locales (metis trim_trim_end)

interpretation trim_normalise: looser_key trim normalise
  by unfold_locales (simp add: normalise_def)

lemmas keys_loosen = exact_rstrip.match_loosens rstrip_trim.match_loosens trim_normalise.match_loosens

section \<open>What the matcher returns\<close>

text \<open>The strictness levels, in the order the passes try them.\<close>

definition level_key :: "nat \<Rightarrow> rstring \<Rightarrow> rstring" where
  "level_key k = [id, trim_end, trim, normalise] ! k"

definition search_from :: "rstring list \<Rightarrow> rstring list \<Rightarrow> nat \<Rightarrow> bool \<Rightarrow> nat" where
  "search_from lines pattern start eof = (if eof then length lines - length pattern else start)"

lemma level_key_simps [simp]:
  "level_key 0 = id" "level_key 1 = trim_end" "level_key (Suc 0) = trim_end"
  "level_key 2 = trim" "level_key 3 = normalise"
  by (simp_all add: level_key_def numeral_2_eq_2 numeral_3_eq_3)

lemma less_4_cases: "k < (4 :: nat) \<Longrightarrow> k = 0 \<or> k = 1 \<or> k = 2 \<or> k = 3"
  by auto

lemma less_3_cases: "k < (3 :: nat) \<Longrightarrow> k = 0 \<or> k = 1 \<or> k = 2"
  by auto

lemma first_match_level:
  assumes "length pattern \<le> length lines"
  shows "first_match id lines pattern s
           (seek_pass (exact_at lines pattern) s (length lines - length pattern))"
    and "first_match key lines pattern s
           (seek_pass (\<lambda>i. keys_match key lines i pattern) s (length lines - length pattern))"
  using assms by (simp_all add: seek_pass_first_match exact_at_iff keys_match_iff)

lemma seek_sequence_levels:
  fixes start :: nat and eof :: bool
  assumes "pattern \<noteq> []" and len: "length pattern \<le> length lines"
  defines "s \<equiv> search_from lines pattern start eof"
  shows "case seek_sequence lines pattern start eof of
           None \<Rightarrow> first_match normalise lines pattern s None
         | Some i \<Rightarrow> (\<exists>k < 4. first_match (level_key k) lines pattern s (Some i) \<and>
                      (\<forall>k' < k. first_match (level_key k') lines pattern s None))"
proof -
  let ?l = "length lines - length pattern"
  have s: "(if eof \<and> length lines \<ge> length pattern then ?l else start) = s"
    using len by (simp add: s_def search_from_def)
  define p0 where "p0 = seek_pass (exact_at lines pattern) s ?l"
  define p1 where "p1 = seek_pass (\<lambda>i. keys_match trim_end lines i pattern) s ?l"
  define p2 where "p2 = seek_pass (\<lambda>i. keys_match trim lines i pattern) s ?l"
  define p3 where "p3 = seek_pass (\<lambda>i. keys_match normalise lines i pattern) s ?l"
  have fm: "first_match id lines pattern s p0" "first_match trim_end lines pattern s p1"
    "first_match trim lines pattern s p2" "first_match normalise lines pattern s p3"
    using first_match_level [OF len] by (simp_all add: p0_def p1_def p2_def p3_def)
  have eq: "seek_sequence lines pattern start eof =
    (case p0 of Some i \<Rightarrow> Some i | None \<Rightarrow> (case p1 of Some i \<Rightarrow> Some i
       | None \<Rightarrow> (case p2 of Some i \<Rightarrow> Some i | None \<Rightarrow> p3)))"
    using assms(1) len unfolding seek_sequence_def Let_def s p0_def p1_def p2_def p3_def by simp
  show ?thesis
  proof (cases p0)
    case (Some i)
    then show ?thesis using fm(1) eq by (auto intro!: exI [of _ "0 :: nat"])
  next
    case n0: None
    show ?thesis
    proof (cases p1)
      case (Some i)
      then show ?thesis using fm(1,2) n0 eq by (auto intro!: exI [of _ "1 :: nat"])
    next
      case n1: None
      show ?thesis
      proof (cases p2)
        case (Some i)
        then show ?thesis using fm(1-3) n0 n1 eq
          by (auto intro!: exI [of _ "2 :: nat"] simp: less_2_cases_iff)
      next
        case n2: None
        have "\<forall>k' < 3. first_match (level_key k') lines pattern s None"
          using fm(1-3) n0 n1 n2 less_3_cases by fastforce
        then show ?thesis using fm(4) n0 n1 n2 eq
          by (cases p3) (auto intro!: exI [of _ "3 :: nat"] simp del: One_nat_def)
      qed
    qed
  qed
qed

text \<open>
  The matcher finds the best match: for a pattern that fits the file it returns a
  position where the pattern matches at some strictness level, no earlier position in the
  search range matches at that level, and no position matches at any stricter level; it fails
  only when no position of the range matches even after Unicode normalisation, and then none
  matches at any level.  The range starts at \<open>start\<close>, or at the only position that ends the
  file when \<open>eof\<close> is set.
\<close>

theorem seek_sequence_best_match:
  assumes "pattern \<noteq> []" and "length pattern \<le> length lines"
  shows "case seek_sequence lines pattern start eof of
      Some i \<Rightarrow> (\<exists>k < 4. search_from lines pattern start eof \<le> i \<and>
          matches_at (level_key k) lines pattern i \<and>
          (\<forall>j. search_from lines pattern start eof \<le> j \<and> j < i \<longrightarrow>
               \<not> matches_at (level_key k) lines pattern j) \<and>
          (\<forall>k' < k. \<forall>j \<ge> search_from lines pattern start eof.
               \<not> matches_at (level_key k') lines pattern j))
    | None \<Rightarrow> (\<forall>k < 4. \<forall>j \<ge> search_from lines pattern start eof.
               \<not> matches_at (level_key k) lines pattern j)"
proof (cases "seek_sequence lines pattern start eof")
  case None
  let ?s = "search_from lines pattern start eof"
  have fm: "\<forall>j \<ge> ?s. \<not> matches_at normalise lines pattern j"
    using seek_sequence_levels [OF assms, of start eof] None by (simp add: first_match_def)
  have "\<not> matches_at (level_key k) lines pattern j" if "k < 4" "j \<ge> ?s" for k j
    using less_4_cases [OF that(1)] fm that(2) by (auto dest!: keys_loosen)
  with None show ?thesis by simp
next
  case (Some i)
  then show ?thesis
    using seek_sequence_levels [OF assms, of start eof] by (auto simp: first_match_def)
qed

theorem seek_sequence_best_match_witness:
  "seek_sequence [lit ''a '', lit ''b''] [lit ''a''] 0 False = Some 0 \<and>
   (\<exists>k < 4. matches_at (level_key k) [lit ''a '', lit ''b''] [lit ''a''] 0)"
proof -
  have "seek_sequence [lit ''a '', lit ''b''] [lit ''a''] 0 False = Some 0"
    by code_simp
  with seek_sequence_best_match [of "[lit ''a'']" "[lit ''a '', lit ''b'']" 0 False]
  show ?thesis by auto
qed

text \<open>
  The facts the patch engine uses: a hit lies inside the file and not before the range, and the
  lines found equal the pattern after normalisation.
\<close>

lemma seek_sequence_hit:
  assumes "seek_sequence lines pattern start eof = Some i" and "pattern \<noteq> []"
  shows "i + length pattern \<le> length lines" and "\<not> eof \<Longrightarrow> start \<le> i"
    and "matches_at normalise lines pattern i"
proof -
  have len: "length pattern \<le> length lines"
    using assms by (auto simp: seek_sequence_def split: if_splits)
  from seek_sequence_levels [OF assms(2) len, of start eof] assms(1)
  obtain k where k: "k < 4" "first_match (level_key k) lines pattern (search_from lines pattern start eof) (Some i)"
    by auto
  then have m: "matches_at (level_key k) lines pattern i"
    and s: "search_from lines pattern start eof \<le> i"
    by (auto simp: first_match_def)
  show "i + length pattern \<le> length lines" using matches_at_bound [OF m] .
  show "start \<le> i" if "\<not> eof" using s that by (simp add: search_from_def)
  show "matches_at normalise lines pattern i"
    using less_4_cases [OF k(1)] m by (auto dest!: keys_loosen)
qed

lemma seek_sequence_empty [simp]: "seek_sequence lines [] start eof = Some start"
  by (simp add: seek_sequence_def)

lemma seek_sequence_exact:
  \<comment> \<open>an exact occurrence in the range is found, and nothing after it is\<close>
  assumes "pattern \<noteq> []" and "matches_at id lines pattern i" and "start \<le> i"
  shows "\<exists>j \<le> i. seek_sequence lines pattern start False = Some j \<and> matches_at id lines pattern j \<and> start \<le> j"
proof -
  have len: "length pattern \<le> length lines" using matches_at_bound [OF assms(2)] by simp
  let ?p = "seek_pass (exact_at lines pattern) start (length lines - length pattern)"
  have fm: "first_match id lines pattern start ?p" by (rule first_match_level(1) [OF len])
  with assms obtain j where j: "?p = Some j" by (cases ?p) (auto simp: first_match_def)
  with fm assms have "j \<le> i" "matches_at id lines pattern j" "start \<le> j"
    by (auto simp: first_match_def not_less [symmetric])
  moreover have "seek_sequence lines pattern start False = Some j"
    using assms(1) len j by (simp add: seek_sequence_def)
  ultimately show ?thesis by blast
qed

text \<open>
  With the end-of-file flag the only position tried is the one where the pattern ends the
  file: \<open>start\<close> is ignored, and there is no second search from \<open>start\<close> when that
  position does not match.
\<close>

theorem seek_sequence_eof:
  "seek_sequence lines pattern start True =
     (if pattern = [] then Some start
      else if length pattern \<le> length lines \<and>
              matches_at normalise lines pattern (length lines - length pattern)
      then Some (length lines - length pattern) else None)"
proof (cases "pattern = [] \<or> length lines < length pattern")
  case True
  then show ?thesis by (auto simp: seek_sequence_def)
next
  case False
  then have ne: "pattern \<noteq> []" and len: "length pattern \<le> length lines" by auto
  let ?i = "length lines - length pattern"
  show ?thesis
  proof (cases "seek_sequence lines pattern start True")
    case None
    then have "\<forall>j \<ge> ?i. \<not> matches_at normalise lines pattern j"
      using seek_sequence_levels [OF ne len, of start True]
      by (simp add: first_match_def search_from_def)
    with None ne show ?thesis by simp
  next
    case (Some j)
    have "?i \<le> j"
      using seek_sequence_levels [OF ne len, of start True] Some
      by (auto simp: first_match_def search_from_def)
    moreover have "j \<le> ?i" using seek_sequence_hit(1) [OF Some ne] by simp
    ultimately have "j = ?i" by simp
    with Some seek_sequence_hit(3) [OF Some ne] len ne show ?thesis by simp
  qed
qed

end
