(* ===== verification/Patch_Parser.thy ===== *)
theory Patch_Parser
  imports Rust_Strings
begin

text \<open>
  The parser of the apply-patch format
  (\<open>xai-grok-tools/src/implementations/codex/apply_patch/parser.rs\<close> and \<open>errors.rs\<close>):
  markers, hunks and chunks, the strict and lenient boundary checks, and the loops over
  hunks, chunks and chunk lines.  A slice \<open>&lines[n..]\<close> is \<open>drop n lines\<close>; a \<open>PathBuf\<close> is
  its string.  The loops over hunks and over chunks end because every call consumes a line.
\<close>

section \<open>Data\<close>

datatype parse_error =
    InvalidPatchError (pe_message: rstring)
  | InvalidHunkError (pe_message: rstring) (pe_line_number: nat)

definition BEGIN_PATCH_MARKER :: rstring where "BEGIN_PATCH_MARKER = lit ''*** Begin Patch''"
definition END_PATCH_MARKER :: rstring where "END_PATCH_MARKER = lit ''*** End Patch''"
definition ADD_FILE_MARKER :: rstring where "ADD_FILE_MARKER = lit ''*** Add File: ''"
definition DELETE_FILE_MARKER :: rstring where "DELETE_FILE_MARKER = lit ''*** Delete File: ''"
definition UPDATE_FILE_MARKER :: rstring where "UPDATE_FILE_MARKER = lit ''*** Update File: ''"
definition MOVE_TO_MARKER :: rstring where "MOVE_TO_MARKER = lit ''*** Move to: ''"
definition EOF_MARKER :: rstring where "EOF_MARKER = lit ''*** End of File''"
definition CHANGE_CONTEXT_MARKER :: rstring where "CHANGE_CONTEXT_MARKER = lit ''@@ ''"
definition EMPTY_CHANGE_CONTEXT_MARKER :: rstring where "EMPTY_CHANGE_CONTEXT_MARKER = lit ''@@''"
definition PARSE_IN_STRICT_MODE :: bool where "PARSE_IN_STRICT_MODE = False"

lemmas marker_defs = BEGIN_PATCH_MARKER_def END_PATCH_MARKER_def ADD_FILE_MARKER_def
  DELETE_FILE_MARKER_def UPDATE_FILE_MARKER_def MOVE_TO_MARKER_def EOF_MARKER_def
  CHANGE_CONTEXT_MARKER_def EMPTY_CHANGE_CONTEXT_MARKER_def

record update_file_chunk =
  change_context :: "rstring option"
  old_lines :: "rstring list"
  new_lines :: "rstring list"
  is_end_of_file :: bool

datatype hunk =
    AddFile rstring rstring
  | DeleteFile rstring
  | UpdateFile rstring "rstring option" "update_file_chunk list"

record parsed_patch =
  hunks :: "hunk list"
  patch :: rstring

datatype parse_mode = Strict | Lenient

definition quoted :: "rstring \<Rightarrow> rstring" where
  "quoted s = [39] @ s @ [39]"

section \<open>Chunks\<close>

definition no_lines_error :: "nat \<Rightarrow> parse_error" where
  "no_lines_error n = InvalidHunkError (lit ''Update hunk does not contain any lines'') n"

definition unexpected_line_error :: "rstring \<Rightarrow> nat \<Rightarrow> parse_error" where
  "unexpected_line_error l n = InvalidHunkError
     (lit ''Unexpected line found in update hunk: '' @ quoted l @
      lit ''. Every line should start with '' @ quoted (lit '' '') @ lit '' (context line), '' @
      quoted (lit ''+'') @ lit '' (added line), or '' @ quoted (lit ''-'') @ lit '' (removed line)'') n"

fun chunk_lines ::
  "nat \<Rightarrow> nat \<Rightarrow> update_file_chunk \<Rightarrow> rstring list \<Rightarrow> (update_file_chunk \<times> nat, parse_error) result" where
  \<comment> \<open>the loop over \<open>&lines[start_index..]\<close>; \<open>n\<close> is \<open>parsed_lines\<close>\<close>
  "chunk_lines line_number n chunk [] = Inr (chunk, n)"
| "chunk_lines line_number n chunk (l # ls) =
     (if l = EOF_MARKER then
        (if n = 0 then Inl (no_lines_error (line_number + 1))
         else Inr (chunk\<lparr>is_end_of_file := True\<rparr>, n + 1))
      else case l of
        [] \<Rightarrow> chunk_lines line_number (n + 1)
               (chunk\<lparr>old_lines := old_lines chunk @ [[]], new_lines := new_lines chunk @ [[]]\<rparr>) ls
      | c # t \<Rightarrow>
          if c = 32 then chunk_lines line_number (n + 1)
            (chunk\<lparr>old_lines := old_lines chunk @ [t], new_lines := new_lines chunk @ [t]\<rparr>) ls
          else if c = 43 then chunk_lines line_number (n + 1)
            (chunk\<lparr>new_lines := new_lines chunk @ [t]\<rparr>) ls
          else if c = 45 then chunk_lines line_number (n + 1)
            (chunk\<lparr>old_lines := old_lines chunk @ [t]\<rparr>) ls
          else if n = 0 then Inl (unexpected_line_error l (line_number + 1))
          else Inr (chunk, n))"

definition chunk_context :: "rstring \<Rightarrow> nat \<Rightarrow> bool \<Rightarrow> (rstring option \<times> nat, parse_error) result" where
  \<comment> \<open>\<open>(change_context, start_index)\<close> from the first line of the chunk\<close>
  "chunk_context l0 line_number allow_missing_context =
     (if l0 = EMPTY_CHANGE_CONTEXT_MARKER then Inr (None, 1)
      else case strip_prefix l0 CHANGE_CONTEXT_MARKER of
        Some context \<Rightarrow> Inr (Some context, 1)
      | None \<Rightarrow>
          if \<not> allow_missing_context then Inl (InvalidHunkError
            (lit ''Expected update hunk to start with a @@ context marker, got: '' @ quoted l0) line_number)
          else Inr (None, 0))"

definition parse_update_file_chunk ::
  "rstring list \<Rightarrow> nat \<Rightarrow> bool \<Rightarrow> (update_file_chunk \<times> nat, parse_error) result" where
  "parse_update_file_chunk lines line_number allow_missing_context =
     (if lines = [] then Inl (no_lines_error line_number)
      else try_res (chunk_context (hd lines) line_number allow_missing_context)
        (\<lambda>(ctx, start_index).
          if start_index \<ge> length lines then Inl (no_lines_error (line_number + 1))
          else try_res
            (chunk_lines line_number 0
               \<lparr>change_context = ctx, old_lines = [], new_lines = [], is_end_of_file = False\<rparr>
               (drop start_index lines))
            (\<lambda>(chunk, parsed_lines). Inr (chunk, parsed_lines + start_index))))"

text \<open>A chunk takes at least one line and no more than there are.\<close>

lemma chunk_lines_consumed:
  "chunk_lines lno n c ls = Inr (c', m) \<Longrightarrow> n \<le> m \<and> m \<le> n + length ls \<and> (ls \<noteq> [] \<longrightarrow> 0 < m)"
proof (induction lno n c ls rule: chunk_lines.induct)
  case (1 lno n c)
  then show ?case by simp
next
  case (2 lno n c l ls)
  show ?case
  proof (cases "l = EOF_MARKER")
    case True
    with "2.prems" show ?thesis by (auto split: if_splits)
  next
    case False
    with "2.prems" "2.IH" show ?thesis
      by (cases l) (fastforce split: if_splits)+
  qed
qed

lemma parse_update_file_chunk_consumed:
  assumes "parse_update_file_chunk lines lno allow = Inr (c, m)"
  shows "0 < m" and "m \<le> length lines"
proof -
  from assms obtain ctx si k where
    si: "si < length lines" and k: "chunk_lines lno 0 \<lparr>change_context = ctx, old_lines = [],
          new_lines = [], is_end_of_file = False\<rparr> (drop si lines) = Inr (c, k)" and m: "m = k + si"
    by (auto simp: parse_update_file_chunk_def not_le split: if_splits)
  have "drop si lines \<noteq> []" using si by simp
  with chunk_lines_consumed [OF k] have "0 < k" "k \<le> length lines - si" by auto
  then show "0 < m" and "m \<le> length lines" using si m by auto
qed

section \<open>Hunks\<close>

fun add_file_lines :: "rstring \<Rightarrow> nat \<Rightarrow> rstring list \<Rightarrow> rstring \<times> nat" where
  "add_file_lines contents parsed [] = (contents, parsed)"
| "add_file_lines contents parsed (l # ls) = (case strip_prefix l [43] of
     Some line_to_add \<Rightarrow> add_file_lines (contents @ line_to_add @ [NL]) (parsed + 1) ls
   | None \<Rightarrow> (contents, parsed))"

function update_chunks ::
  "nat \<Rightarrow> nat \<Rightarrow> update_file_chunk list \<Rightarrow> rstring list \<Rightarrow>
     (update_file_chunk list \<times> nat, parse_error) result" where
  \<comment> \<open>\<open>while !remaining_lines.is_empty()\<close> with \<open>parsed_lines\<close> and \<open>chunks\<close>\<close>
  "update_chunks line_number parsed chunks [] = Inr (chunks, parsed)"
| "update_chunks line_number parsed chunks (l # ls) =
     (if trim l = [] then update_chunks line_number (parsed + 1) chunks ls
      else if starts_with l (lit ''***'') then Inr (chunks, parsed)
      else case parse_update_file_chunk (l # ls) (line_number + parsed) (chunks = []) of
        Inl e \<Rightarrow> Inl e
      | Inr (chunk, k) \<Rightarrow>
          update_chunks line_number (parsed + k) (chunks @ [chunk]) (drop k (l # ls)))"
  by pat_completeness auto
termination
  by (relation "measure (\<lambda>(_, _, _, r). length r)")
     (auto dest: parse_update_file_chunk_consumed(1))

definition invalid_header_error :: "rstring \<Rightarrow> nat \<Rightarrow> parse_error" where
  "invalid_header_error first_line n = InvalidHunkError
     (quoted first_line @ lit '' is not a valid hunk header. Valid hunk headers: '' @
      quoted (lit ''*** Add File: {path}'') @ lit '', '' @
      quoted (lit ''*** Delete File: {path}'') @ lit '', '' @
      quoted (lit ''*** Update File: {path}'')) n"

definition parse_one_hunk :: "rstring list \<Rightarrow> nat \<Rightarrow> (hunk \<times> nat, parse_error) result" where
  \<comment> \<open>called with at least one line; \<open>lines[0]\<close> is its head\<close>
  "parse_one_hunk lines line_number =
     (let first_line = trim (hd lines) in
      case strip_prefix first_line ADD_FILE_MARKER of
        Some path \<Rightarrow>
          let (contents, parsed_lines) = add_file_lines [] 1 (tl lines) in
          Inr (AddFile path contents, parsed_lines)
      | None \<Rightarrow> (case strip_prefix first_line DELETE_FILE_MARKER of
          Some path \<Rightarrow> Inr (DeleteFile path, 1)
        | None \<Rightarrow> (case strip_prefix first_line UPDATE_FILE_MARKER of
            Some path \<Rightarrow>
              let remaining = tl lines;
                  move_path = (case remaining of [] \<Rightarrow> None | x # _ \<Rightarrow> strip_prefix x MOVE_TO_MARKER);
                  parsed = (if move_path \<noteq> None then 2 else 1);
                  remaining = (if move_path \<noteq> None then tl remaining else remaining) in
              try_res (update_chunks line_number parsed [] remaining)
                (\<lambda>(chunks, parsed_lines).
                  if chunks = [] then Inl (InvalidHunkError
                    (lit ''Update file hunk for path '' @ quoted path @ lit '' is empty'') line_number)
                  else Inr (UpdateFile path move_path chunks, parsed_lines))
          | None \<Rightarrow> Inl (invalid_header_error first_line line_number))))"

lemma add_file_lines_consumed:
  "add_file_lines c n ls = (c', m) \<Longrightarrow> n \<le> m \<and> m \<le> n + length ls"
  by (induction c n ls rule: add_file_lines.induct) (fastforce split: option.splits)+

lemma update_chunks_consumed:
  "update_chunks lno n cs r = Inr (cs', m) \<Longrightarrow> n \<le> m \<and> m \<le> n + length r"
proof (induction lno n cs r rule: update_chunks.induct)
  case (2 lno n cs l ls)
  consider "trim l = []" | "trim l \<noteq> []" "starts_with l (lit ''***'')"
    | "trim l \<noteq> []" "\<not> starts_with l (lit ''***'')" by blast
  then show ?case
  proof cases
    case 3
    with "2.prems" obtain c k where
      k: "parse_update_file_chunk (l # ls) (lno + n) (cs = []) = Inr (c, k)"
      and rec: "update_chunks lno (n + k) (cs @ [c]) (drop k (l # ls)) = Inr (cs', m)"
      by (auto split: sum.splits)
    show ?thesis
      using "2.IH"(2) [OF 3 k refl rec] parse_update_file_chunk_consumed [OF k] by auto
  qed (use 2 in auto)
qed simp

lemma parse_one_hunk_consumed:
  assumes "parse_one_hunk lines lno = Inr (h, m)" and "lines \<noteq> []"
  shows "0 < m" and "m \<le> length lines"
proof -
  obtain l ls where lines: "lines = l # ls" using assms(2) by (cases lines) auto
  have "0 < m \<and> m \<le> length lines"
  proof (cases "strip_prefix (trim l) ADD_FILE_MARKER")
    case (Some p)
    with assms(1) lines show ?thesis
      using add_file_lines_consumed [of "[]" 1 ls]
      by (auto simp: parse_one_hunk_def Let_def split: prod.splits)
  next
    case n1: None
    show ?thesis
    proof (cases "strip_prefix (trim l) DELETE_FILE_MARKER")
      case (Some p)
      with n1 assms(1) lines show ?thesis by (auto simp: parse_one_hunk_def Let_def)
    next
      case None
      with n1 assms(1) lines show ?thesis
        by (auto simp: parse_one_hunk_def Let_def simp del: update_chunks.simps(2)
              split: option.splits if_splits list.splits dest!: update_chunks_consumed)
    qed
  qed
  then show "0 < m" and "m \<le> length lines" by auto
qed

section \<open>Patches\<close>

definition first_line_error :: parse_error where
  "first_line_error = InvalidPatchError
     (lit ''The first line of the patch must be '' @ quoted (lit ''*** Begin Patch''))"

definition last_line_error :: parse_error where
  "last_line_error = InvalidPatchError
     (lit ''The last line of the patch must be '' @ quoted (lit ''*** End Patch''))"

definition check_start_and_end_lines_strict ::
  "rstring option \<Rightarrow> rstring option \<Rightarrow> (unit, parse_error) result" where
  "check_start_and_end_lines_strict first_line last_line =
     (case (map_option trim first_line, map_option trim last_line) of
        (Some f, Some l) \<Rightarrow>
          if f = BEGIN_PATCH_MARKER \<and> l = END_PATCH_MARKER then Inr ()
          else if f \<noteq> BEGIN_PATCH_MARKER then Inl first_line_error else Inl last_line_error
      | (Some f, None) \<Rightarrow>
          if f \<noteq> BEGIN_PATCH_MARKER then Inl first_line_error else Inl last_line_error
      | _ \<Rightarrow> Inl last_line_error)"

definition check_patch_boundaries_strict :: "rstring list \<Rightarrow> (unit, parse_error) result" where
  "check_patch_boundaries_strict lines = (case lines of
     [] \<Rightarrow> check_start_and_end_lines_strict None None
   | first # rest \<Rightarrow> check_start_and_end_lines_strict (Some first) (Some (last lines)))"

definition HEREDOC_OPENERS :: "rstring list" where
  "HEREDOC_OPENERS = [lit ''<<EOF'', lit ''<<'' @ quoted (lit ''EOF''), lit ''<<'' @ [34] @ lit ''EOF'' @ [34]]"

definition check_patch_boundaries_lenient ::
  "rstring list \<Rightarrow> parse_error \<Rightarrow> (rstring list, parse_error) result" where
  "check_patch_boundaries_lenient original_lines original_parse_error =
     (if length original_lines \<ge> 2 \<and> hd original_lines \<in> set HEREDOC_OPENERS \<and>
         ends_with (last original_lines) (lit ''EOF'') \<and> length original_lines \<ge> 4
      then let inner_lines = butlast (tl original_lines) in
        try_res (check_patch_boundaries_strict inner_lines) (\<lambda>_. Inr inner_lines)
      else Inl original_parse_error)"

function hunk_loop ::
  "nat \<Rightarrow> hunk list \<Rightarrow> rstring list \<Rightarrow> (hunk list, parse_error) result" where
  "hunk_loop line_number hs [] = Inr hs"
| "hunk_loop line_number hs (l # ls) = (case parse_one_hunk (l # ls) line_number of
     Inl e \<Rightarrow> Inl e
   | Inr (h, hunk_lines) \<Rightarrow> hunk_loop (line_number + hunk_lines) (hs @ [h]) (drop hunk_lines (l # ls)))"
  by pat_completeness auto
termination
  by (relation "measure (\<lambda>(_, _, r). length r)")
     (auto dest: parse_one_hunk_consumed(1))

definition parse_patch_text :: "rstring \<Rightarrow> parse_mode \<Rightarrow> (parsed_patch, parse_error) result" where
  "parse_patch_text txt mode =
     (let lines = str_lines (trim txt) in
      try_res
        (case check_patch_boundaries_strict lines of
           Inr _ \<Rightarrow> Inr lines
         | Inl e \<Rightarrow> (case mode of Strict \<Rightarrow> Inl e | Lenient \<Rightarrow> check_patch_boundaries_lenient lines e))
        (\<lambda>lines. let last_line_index = length lines - 1 in
          try_res (hunk_loop 2 [] (drop 1 (take last_line_index lines)))
            (\<lambda>hs. Inr \<lparr>hunks = hs, patch = join [NL] lines\<rparr>)))"

definition parse_patch :: "rstring \<Rightarrow> (parsed_patch, parse_error) result" where
  "parse_patch txt = parse_patch_text txt (if PARSE_IN_STRICT_MODE then Strict else Lenient)"

end
