(* ===== verification/Patch_Printing.thy ===== *)
theory Patch_Printing
  imports Patch_Parser
begin

text \<open>
  The round trip of the apply-patch format: a canonical printer for the grammar documented at
  the top of \<open>parser.rs\<close>, and the proof that the parser of \<open>Patch_Parser\<close> reads every
  printed patch back as it was, heredoc wrappers included.
\<close>

section \<open>Printing a patch\<close>

text \<open>
  A canonical printer, used to state that the parser accepts every patch of the documented
  grammar and reads it as it was written.  A chunk is printed with all its removed lines
  before all its added lines; a line is printable when splitting the text into lines gives it
  back, so it has no newline and does not end in a carriage return.
\<close>

definition wf_line :: "rstring \<Rightarrow> bool" where
  "wf_line s \<longleftrightarrow> NL \<notin> set s \<and> (s = [] \<or> last s \<noteq> CR)"

definition wf_path :: "rstring \<Rightarrow> bool" where
  "wf_path p \<longleftrightarrow> p \<noteq> [] \<and> \<not> is_whitespace (last p) \<and> NL \<notin> set p"

definition wf_chunk :: "update_file_chunk \<Rightarrow> bool" where
  "wf_chunk c \<longleftrightarrow> (old_lines c \<noteq> [] \<or> new_lines c \<noteq> []) \<and> list_all wf_line (old_lines c) \<and>
     list_all wf_line (new_lines c) \<and> (case change_context c of None \<Rightarrow> True | Some x \<Rightarrow> wf_line x)"

fun wf_hunk :: "hunk \<Rightarrow> bool" where
  "wf_hunk (AddFile p c) \<longleftrightarrow> wf_path p \<and> list_all wf_line (split_on NL c) \<and> last (split_on NL c) = []"
| "wf_hunk (DeleteFile p) \<longleftrightarrow> wf_path p"
| "wf_hunk (UpdateFile p m cs) \<longleftrightarrow> wf_path p \<and> (case m of None \<Rightarrow> True | Some q \<Rightarrow> wf_line q) \<and>
     cs \<noteq> [] \<and> list_all wf_chunk cs"

definition print_chunk :: "update_file_chunk \<Rightarrow> rstring list" where
  "print_chunk c =
     (case change_context c of None \<Rightarrow> EMPTY_CHANGE_CONTEXT_MARKER | Some x \<Rightarrow> CHANGE_CONTEXT_MARKER @ x) #
     map (Cons 45) (old_lines c) @ map (Cons 43) (new_lines c) @
     (if is_end_of_file c then [EOF_MARKER] else [])"

fun print_hunk :: "hunk \<Rightarrow> rstring list" where
  "print_hunk (AddFile p c) = (ADD_FILE_MARKER @ p) # map (Cons 43) (butlast (split_on NL c))"
| "print_hunk (DeleteFile p) = [DELETE_FILE_MARKER @ p]"
| "print_hunk (UpdateFile p m cs) = (UPDATE_FILE_MARKER @ p) #
     (case m of None \<Rightarrow> [] | Some q \<Rightarrow> [MOVE_TO_MARKER @ q]) @ concat (map print_chunk cs)"

definition print_patch :: "hunk list \<Rightarrow> rstring" where
  "print_patch hs =
     join [NL] (BEGIN_PATCH_MARKER # concat (map print_hunk hs) @ [END_PATCH_MARKER])"

section \<open>Reading back what was printed\<close>

lemma starts_with_Cons [simp]:
  "starts_with s []" "\<not> starts_with [] (y # p)"
  "starts_with (x # s) (y # p) \<longleftrightarrow> x = y \<and> starts_with s p"
  by (simp_all add: starts_with_def)

lemma strip_prefix_Cons [simp]:
  "strip_prefix s [] = Some s" "strip_prefix [] (y # p) = None"
  "strip_prefix (x # s) (y # p) = (if x = y then strip_prefix s p else None)"
  by (simp_all add: strip_prefix_def)

lemma marker_codes:
  "BEGIN_PATCH_MARKER = [42,42,42,32,66,101,103,105,110,32,80,97,116,99,104]"
  "END_PATCH_MARKER = [42,42,42,32,69,110,100,32,80,97,116,99,104]"
  "ADD_FILE_MARKER = [42,42,42,32,65,100,100,32,70,105,108,101,58,32]"
  "DELETE_FILE_MARKER = [42,42,42,32,68,101,108,101,116,101,32,70,105,108,101,58,32]"
  "UPDATE_FILE_MARKER = [42,42,42,32,85,112,100,97,116,101,32,70,105,108,101,58,32]"
  "MOVE_TO_MARKER = [42,42,42,32,77,111,118,101,32,116,111,58,32]"
  "EOF_MARKER = [42,42,42,32,69,110,100,32,111,102,32,70,105,108,101]"
  "CHANGE_CONTEXT_MARKER = [64,64,32]"
  "EMPTY_CHANGE_CONTEXT_MARKER = [64,64]"
  "lit ''***'' = [42,42,42]"
  by code_simp+

lemma not_whitespace_star [simp]: "\<not> is_whitespace 42" "\<not> is_whitespace 64" "\<not> is_whitespace 104"
  by (simp_all add: is_whitespace_def)

lemma trim_not_Nil: "\<not> is_whitespace c \<Longrightarrow> trim (c # s) \<noteq> []"
  by (simp add: trim_def trim_start_def trim_end_def dropWhile_eq_Nil_conv)

text \<open>What may follow a printed hunk: nothing, or the header of another one.\<close>

definition header_first :: "rstring list \<Rightarrow> bool" where
  "header_first r \<longleftrightarrow> r = [] \<or> (\<exists>p. hd r = ADD_FILE_MARKER @ p \<or> hd r = DELETE_FILE_MARKER @ p \<or>
     hd r = UPDATE_FILE_MARKER @ p)"

lemma header_first_cases:
  assumes "header_first r"
  obtains "r = []" | l ls where "r = l # ls" "starts_with l (lit ''***'')" "l \<noteq> EOF_MARKER"
      "\<exists>t. l = 42 # t" "trim l \<noteq> []"
  using assms by (cases r) (auto simp: header_first_def marker_codes trim_not_Nil)

lemma header_first_print: "header_first (concat (map print_hunk hs))"
proof (cases hs)
  case (Cons h hs')
  then show ?thesis by (cases h) (auto simp: header_first_def)
qed (simp add: header_first_def)

subsection \<open>Added files\<close>

lemma add_file_lines_print:
  assumes "header_first rest"
  shows "add_file_lines c n (map (Cons 43) ls @ rest) =
           (c @ concat (map (\<lambda>l. l @ [NL]) ls), n + length ls)"
  using assms
proof (induction ls arbitrary: c n)
  case Nil
  then show ?case by (auto elim!: header_first_cases)
qed simp

lemma concat_split_on:
  "concat (map (\<lambda>l. l @ [c]) (butlast (split_on c s))) @ last (split_on c s) = s"
proof (induction s)
  case (Cons x s)
  obtain p ps where sp: "split_on c s = p # ps" by (metis split_on_not_Nil neq_Nil_conv)
  with Cons show ?case by (auto split: if_splits)
qed simp

subsection \<open>Chunks\<close>

lemma chunk_lines_old:
  "chunk_lines lno n c (map (Cons 45) os @ rest) =
     chunk_lines lno (n + length os) (c\<lparr>old_lines := old_lines c @ os\<rparr>) rest"
  by (induction os arbitrary: n c) (simp_all add: marker_codes)

lemma chunk_lines_new:
  "chunk_lines lno n c (map (Cons 43) ns @ rest) =
     chunk_lines lno (n + length ns) (c\<lparr>new_lines := new_lines c @ ns\<rparr>) rest"
  by (induction ns arbitrary: n c) (simp_all add: marker_codes)

definition chunk_end :: "rstring list \<Rightarrow> bool" where
  "chunk_end r \<longleftrightarrow> header_first r \<or> (\<exists>t. hd r = 64 # t)"

lemma chunk_lines_stop: "chunk_end r \<Longrightarrow> 0 < n \<Longrightarrow> chunk_lines lno n c r = Inr (c, n)"
  by (cases r) (auto simp: chunk_end_def marker_codes elim!: header_first_cases)

lemma parse_print_chunk:
  assumes wf: "wf_chunk c" and rest: "chunk_end rest"
  shows "parse_update_file_chunk (print_chunk c @ rest) lno allow = Inr (c, length (print_chunk c))"
proof -
  let ?os = "old_lines c" and ?ns = "new_lines c"
  let ?body = "map (Cons 45) ?os @ map (Cons 43) ?ns @ (if is_end_of_file c then [EOF_MARKER] else []) @ rest"
  obtain l0 where pc: "print_chunk c @ rest = l0 # ?body"
    and ctx: "chunk_context l0 lno allow = Inr (change_context c, 1)"
    by (cases "change_context c") (auto simp: print_chunk_def chunk_context_def marker_codes)
  have ne: "?os \<noteq> [] \<or> ?ns \<noteq> []" using wf by (simp add: wf_chunk_def)
  then have pos: "0 < length ?os + length ?ns" by auto
  have body: "chunk_lines lno 0 \<lparr>change_context = change_context c, old_lines = [], new_lines = [],
      is_end_of_file = False\<rparr> ?body = Inr (c, length (print_chunk c) - 1)"
    using pos ne chunk_lines_stop [OF rest, of "length ?os + length ?ns"]
    by (auto simp: chunk_lines_old chunk_lines_new print_chunk_def)
  have "length (print_chunk c) - 1 + 1 = length (print_chunk c)" by (simp add: print_chunk_def)
  moreover have "?body \<noteq> []" using ne by auto
  ultimately show ?thesis
    using ctx body unfolding pc parse_update_file_chunk_def by simp
qed

lemma print_chunk_hd: "\<exists>t ls. print_chunk c = (64 # t) # ls"
  by (cases "change_context c") (auto simp: print_chunk_def marker_codes)

lemma update_chunks_print:
  assumes "list_all wf_chunk cs" and rest: "header_first rest"
  shows "update_chunks lno n acc (concat (map print_chunk cs) @ rest) =
           Inr (acc @ cs, n + length (concat (map print_chunk cs)))"
  using assms(1)
proof (induction cs arbitrary: n acc)
  case Nil
  show ?case using rest
    by (auto elim!: header_first_cases)
next
  case (Cons c cs)
  let ?rest = "concat (map print_chunk cs) @ rest"
  have "chunk_end ?rest"
  proof (cases cs)
    case Nil
    with rest show ?thesis by (simp add: chunk_end_def)
  next
    case (Cons c' cs')
    with print_chunk_hd [of c'] show ?thesis by (auto simp: chunk_end_def)
  qed
  then have pp: "parse_update_file_chunk (print_chunk c @ ?rest) (lno + n) (acc = []) =
      Inr (c, length (print_chunk c))"
    using Cons.prems by (simp add: parse_print_chunk)
  obtain t ls where hd: "print_chunk c = (64 # t) # ls" using print_chunk_hd by blast
  then have "update_chunks lno n acc (print_chunk c @ ?rest) =
      update_chunks lno (n + length (print_chunk c)) (acc @ [c]) ?rest"
    using pp by (simp add: trim_not_Nil marker_codes)
  with Cons show ?case by simp
qed

subsection \<open>Hunks and patches\<close>

lemma trim_header:
  assumes "wf_path p"
  shows "trim (42 # t @ p) = 42 # t @ p"
  using assms by (intro trim_id) (auto simp: wf_path_def)

lemma wf_path_trim [patch_simps]:
  assumes "wf_path p"
  shows "trim (ADD_FILE_MARKER @ p) = ADD_FILE_MARKER @ p"
    and "trim (DELETE_FILE_MARKER @ p) = DELETE_FILE_MARKER @ p"
    and "trim (UPDATE_FILE_MARKER @ p) = UPDATE_FILE_MARKER @ p"
  using trim_header [OF assms] by (simp_all add: marker_codes) (metis append_Cons append_Nil)+

lemma markers_differ [patch_simps]:
  "strip_prefix (DELETE_FILE_MARKER @ p) ADD_FILE_MARKER = None"
  "strip_prefix (UPDATE_FILE_MARKER @ p) ADD_FILE_MARKER = None"
  "strip_prefix (UPDATE_FILE_MARKER @ p) DELETE_FILE_MARKER = None"
  by (simp_all add: marker_codes)

lemma no_move_line [patch_simps]:
  "cs \<noteq> [] \<Longrightarrow> (case concat (map print_chunk cs) @ rest of [] \<Rightarrow> None
     | x # _ \<Rightarrow> strip_prefix x MOVE_TO_MARKER) = None"
  using print_chunk_hd [of "hd cs"] by (cases cs) (auto simp: marker_codes)

lemma parse_print_hunk:
  assumes wf: "wf_hunk h" and rest: "header_first rest"
  shows "parse_one_hunk (print_hunk h @ rest) lno = Inr (h, length (print_hunk h))"
proof (cases h)
  case (AddFile p c)
  then have "concat (map (\<lambda>l. l @ [NL]) (butlast (split_on NL c))) = c"
    using wf concat_split_on [of NL c] by simp
  with AddFile wf show ?thesis
    by (simp add: parse_one_hunk_def patch_simps add_file_lines_print [OF rest])
next
  case (DeleteFile p)
  with wf show ?thesis by (simp add: parse_one_hunk_def patch_simps)
next
  case (UpdateFile p m cs)
  have cs: "list_all wf_chunk cs" "cs \<noteq> []" and p: "wf_path p" using wf UpdateFile by auto
  show ?thesis
  proof (cases m)
    case None
    with UpdateFile cs p show ?thesis
      by (simp add: parse_one_hunk_def Let_def patch_simps update_chunks_print [OF cs(1) rest])
  next
    case (Some q)
    with UpdateFile cs p show ?thesis
      by (simp add: parse_one_hunk_def Let_def patch_simps update_chunks_print [OF cs(1) rest])
  qed
qed

lemma print_hunk_not_Nil [simp]: "print_hunk h \<noteq> []"
  by (cases h) auto

lemma hunk_loop_print:
  "list_all wf_hunk hs \<Longrightarrow> hunk_loop lno acc (concat (map print_hunk hs)) = Inr (acc @ hs)"
proof (induction hs arbitrary: lno acc)
  case Nil
  show ?case by simp
next
  case (Cons h hs)
  have "parse_one_hunk (print_hunk h @ concat (map print_hunk hs)) lno = Inr (h, length (print_hunk h))"
    using Cons.prems header_first_print by (simp add: parse_print_hunk)
  moreover obtain l ls where "print_hunk h = l # ls" by (cases "print_hunk h") auto
  ultimately show ?case using Cons by simp
qed

lemma str_lines_join:
  assumes "ls \<noteq> []" and "list_all wf_line ls" and "last ls \<noteq> []"
  shows "str_lines (join [NL] ls) = ls"
proof -
  have sp: "split_on NL (join [NL] ls) = ls"
    using assms(1,2) by (intro split_on_join) (auto simp: list_all_iff wf_line_def)
  have cr: "(case strip_suffix p [CR] of Some q \<Rightarrow> q | None \<Rightarrow> p) = p" if "wf_line p" for p
    using that by (auto simp: strip_suffix_def ends_with_iff wf_line_def)
  have "map (\<lambda>p. case strip_suffix p [CR] of Some q \<Rightarrow> q | None \<Rightarrow> p) (butlast ls) = butlast ls"
    using assms(2) by (intro map_idI cr) (auto simp: list_all_iff dest: in_set_butlastD)
  with sp assms show ?thesis by (simp add: str_lines_def Let_def)
qed

lemma wf_line_Cons: "wf_line l \<Longrightarrow> c \<noteq> NL \<Longrightarrow> c \<noteq> CR \<Longrightarrow> wf_line (c # l)"
  by (auto simp: wf_line_def)

lemma wf_line_append: "wf_line s \<Longrightarrow> list_all (\<lambda>c. c \<noteq> NL \<and> c \<noteq> CR) m \<Longrightarrow> wf_line (m @ s)"
  by (induction m) (auto intro: wf_line_Cons)

lemma wf_line_marker:
  assumes "wf_line s"
  shows "wf_line (ADD_FILE_MARKER @ s)" "wf_line (DELETE_FILE_MARKER @ s)"
    "wf_line (UPDATE_FILE_MARKER @ s)" "wf_line (MOVE_TO_MARKER @ s)"
  by (intro wf_line_append [OF assms], simp add: marker_codes)+

lemma wf_path_line: "wf_path p \<Longrightarrow> wf_line p"
  by (auto simp: wf_path_def wf_line_def is_whitespace_def)

lemma wf_line_context:
  "wf_line EMPTY_CHANGE_CONTEXT_MARKER" "wf_line EOF_MARKER" "wf_line s \<Longrightarrow> wf_line (CHANGE_CONTEXT_MARKER @ s)"
  by (simp_all add: marker_codes wf_line_def) blast

lemma print_chunk_lines: "wf_chunk c \<Longrightarrow> list_all wf_line (print_chunk c)"
  by (simp add: print_chunk_def wf_chunk_def list_all_iff wf_line_context wf_line_Cons ball_Un split: option.splits)

lemma print_hunk_lines: "wf_hunk h \<Longrightarrow> list_all wf_line (print_hunk h)"
proof (cases h)
  case (AddFile p c)
  assume "wf_hunk h"
  with AddFile have "list_all wf_line (butlast (split_on NL c))" "wf_line p"
    by (auto simp: list_all_iff wf_path_line dest: in_set_butlastD)
  with AddFile show ?thesis
    by (auto simp: list_all_iff intro!: wf_line_Cons wf_line_marker)
next
  case (DeleteFile p)
  assume "wf_hunk h"
  with DeleteFile show ?thesis
    by (auto simp: wf_path_line intro!: wf_line_marker)
next
  case (UpdateFile p m cs)
  assume "wf_hunk h"
  with UpdateFile have "wf_line p" "\<forall>q. m = Some q \<longrightarrow> wf_line q" "\<forall>c \<in> set cs. wf_chunk c"
    by (auto simp: wf_path_line list_all_iff)
  then show ?thesis using UpdateFile
    by (cases m) (auto simp: list_all_iff [of wf_line] dest: print_chunk_lines [unfolded list_all_iff]
                       intro!: wf_line_marker)
qed

definition patch_lines :: "hunk list \<Rightarrow> rstring list" where
  "patch_lines hs = BEGIN_PATCH_MARKER # concat (map print_hunk hs) @ [END_PATCH_MARKER]"

lemma print_patch_lines: "print_patch hs = join [NL] (patch_lines hs)"
  by (simp add: print_patch_def patch_lines_def)

lemma patch_lines_wf:
  assumes "list_all wf_hunk hs"
  shows "list_all wf_line (patch_lines hs)"
proof -
  have "wf_line BEGIN_PATCH_MARKER" "wf_line END_PATCH_MARKER"
    by (simp_all add: wf_line_def marker_codes)
  with assms print_hunk_lines show ?thesis
    by (auto simp: patch_lines_def list_all_iff [of wf_line] list_all_iff [of wf_hunk])
qed

lemma patch_lines_boundaries: "check_patch_boundaries_strict (patch_lines hs) = Inr ()"
proof -
  have "trim BEGIN_PATCH_MARKER = BEGIN_PATCH_MARKER" "trim END_PATCH_MARKER = END_PATCH_MARKER"
    by (intro trim_id; simp add: marker_codes)+
  then show ?thesis
    by (simp add: patch_lines_def check_patch_boundaries_strict_def check_start_and_end_lines_strict_def)
qed

lemma patch_lines_hunks:
  "list_all wf_hunk hs \<Longrightarrow>
     hunk_loop 2 [] (drop 1 (take (length (patch_lines hs) - 1) (patch_lines hs))) = Inr hs"
  by (simp add: patch_lines_def hunk_loop_print)

lemma join_hd_last:
  assumes "xs \<noteq> []" and "hd xs \<noteq> []" and "last xs \<noteq> []"
  shows "join [NL] xs \<noteq> []" and "hd (join [NL] xs) = hd (hd xs)" and "last (join [NL] xs) = last (last xs)"
proof -
  have "join [NL] xs \<noteq> [] \<and> last (join [NL] xs) = last (last xs)"
    using assms(1,3)
  proof (induction xs)
    case (Cons x xs)
    then show ?case by (cases "xs = []") (auto simp: join_Cons)
  qed simp
  then show "join [NL] xs \<noteq> []" and "last (join [NL] xs) = last (last xs)" by auto
  show "hd (join [NL] xs) = hd (hd xs)"
    using assms(1,2) by (cases xs; cases "tl xs") auto
qed

lemma trimmed_lines:
  assumes "list_all wf_line ls" and "ls \<noteq> []" and "hd ls \<noteq> []" and "last ls \<noteq> []"
    and "\<not> is_whitespace (hd (hd ls))" and "\<not> is_whitespace (last (last ls))"
  shows "str_lines (trim (join [NL] ls)) = ls"
proof -
  have "trim (join [NL] ls) = join [NL] ls"
    using assms by (intro trim_id) (simp_all add: join_hd_last)
  with assms show ?thesis by (simp add: str_lines_join)
qed

lemma parse_patch_text_print:
  assumes "list_all wf_hunk hs"
  shows "parse_patch_text (print_patch hs) mode = Inr \<lparr>hunks = hs, patch = print_patch hs\<rparr>"
proof -
  have "str_lines (trim (print_patch hs)) = patch_lines hs"
    unfolding print_patch_lines
    by (rule trimmed_lines [OF patch_lines_wf [OF assms]]) (simp_all add: patch_lines_def marker_codes)
  then show ?thesis
    using patch_lines_boundaries patch_lines_hunks [OF assms]
    by (simp add: parse_patch_text_def print_patch_lines)
qed

definition heredoc :: "rstring \<Rightarrow> rstring \<Rightarrow> rstring" where
  "heredoc opener body = opener @ [NL] @ body @ [NL] @ lit ''EOF''"

lemma heredoc_codes:
  "HEREDOC_OPENERS = [[60,60,69,79,70], [60,60,39,69,79,70,39], [60,60,34,69,79,70,34]]"
  "lit ''EOF'' = [69,79,70]"
  by code_simp+

lemma parse_heredoc_print:
  assumes wf: "list_all wf_hunk hs" and opener: "opener \<in> set HEREDOC_OPENERS"
  shows "parse_patch_text (heredoc opener (print_patch hs)) Lenient =
           Inr \<lparr>hunks = hs, patch = print_patch hs\<rparr>"
proof -
  let ?ls = "opener # patch_lines hs @ [lit ''EOF'']"
  have pl: "patch_lines hs \<noteq> []" by (simp add: patch_lines_def)
  then have eq: "heredoc opener (print_patch hs) = join [NL] ?ls"
    by (simp add: heredoc_def print_patch_lines join_Cons join_snoc)
  have wo: "wf_line opener" "opener \<noteq> []" "\<not> is_whitespace (hd opener)" "trim opener \<noteq> BEGIN_PATCH_MARKER"
    using opener by (auto simp: heredoc_codes wf_line_def is_whitespace_def marker_codes
                       trim_def trim_end_def trim_start_def)
  have lines: "str_lines (trim (join [NL] ?ls)) = ?ls"
    using wo patch_lines_wf [OF wf]
    by (intro trimmed_lines) (simp_all add: heredoc_codes wf_line_def [of "[69,79,70]"] is_whitespace_def)
  have "check_patch_boundaries_strict ?ls = Inl first_line_error"
    using wo(4) by (simp add: check_patch_boundaries_strict_def check_start_and_end_lines_strict_def)
  moreover have "check_patch_boundaries_lenient ?ls first_line_error = Inr (patch_lines hs)"
    using opener patch_lines_boundaries [of hs]
    by (simp add: check_patch_boundaries_lenient_def ends_with_def patch_lines_def Let_def butlast_append)
  ultimately show ?thesis
    using lines patch_lines_hunks [OF wf]
    by (simp add: parse_patch_text_def eq) (simp add: print_patch_lines)
qed

text \<open>
  C35. Parsing inverts printing: every list of well-formed hunks (added files with complete lines,
  deletions, updates with at least one non-empty chunk, moves included) is read back exactly
  from its printed patch, and also when a caller wrapped the patch in a heredoc of one of the
  three accepted forms; the normalised text is then the patch without the wrapper.
\<close>

theorem parse_print_patch:
  assumes "list_all wf_hunk hs"
  shows "parse_patch (print_patch hs) = Inr \<lparr>hunks = hs, patch = print_patch hs\<rparr> \<and>
    list_all (\<lambda>opener. parse_patch (heredoc opener (print_patch hs)) =
       Inr \<lparr>hunks = hs, patch = print_patch hs\<rparr>) HEREDOC_OPENERS"
  using parse_patch_text_print [OF assms] parse_heredoc_print [OF assms]
  by (simp add: parse_patch_def PARSE_IN_STRICT_MODE_def list_all_iff)

definition sample_hunks :: "hunk list" where
  "sample_hunks = [AddFile (lit ''a.txt'') (lit ''hi'' @ [NL]), DeleteFile (lit ''b''),
     UpdateFile (lit ''c'') (Some (lit ''d''))
       [\<lparr>change_context = Some (lit ''fn f''), old_lines = [lit ''x''], new_lines = [lit ''y'', []],
         is_end_of_file = True\<rparr>]]"

theorem parse_print_patch_witness:
  "list_all wf_hunk sample_hunks \<and> parse_patch (print_patch sample_hunks) =
     Inr \<lparr>hunks = sample_hunks, patch = print_patch sample_hunks\<rparr>"
proof -
  have wf: "list_all wf_hunk sample_hunks" by code_simp
  with parse_print_patch [OF wf] show ?thesis by simp
qed

end
