(* ===== verification/Patch_Apply.thy ===== *)
theory Patch_Apply
  imports Patch_Parser Seek_Sequence
begin

text \<open>
  The I/O-free patch application
  (\<open>xai-grok-tools/src/implementations/codex/apply_patch/apply.rs\<close>): replacements
  \<open>(start_index, old_len, new_lines)\<close> are computed chunk by chunk with the fuzzy matcher, sorted
  by start and applied back to front.  \<open>Vec::insert\<close> panics beyond the end of the vector;
  the model returns \<open>None\<close> there, and \<open>derive_new_contents_total\<close> shows that it never
  happens.  The specification of the application is \<open>splice\<close>, a single left-to-right pass.
\<close>

section \<open>The engine\<close>

datatype apply_patch_error =
    ParseFailed parse_error
  | ComputeReplacements rstring
  | IoFailed rstring rstring "rstring option"

type_synonym replacement = "nat \<times> nat \<times> rstring list"

definition last_is_empty :: "rstring list \<Rightarrow> bool" where
  \<comment> \<open>\<open>v.last().is_some_and(String::is_empty)\<close>\<close>
  "last_is_empty v \<longleftrightarrow> v \<noteq> [] \<and> last v = []"

definition context_not_found :: "rstring \<Rightarrow> rstring \<Rightarrow> apply_patch_error" where
  "context_not_found ctx_line path = ComputeReplacements
     (lit ''Failed to find context '' @ quoted ctx_line @ lit '' in '' @ path)"

definition lines_not_found :: "rstring list \<Rightarrow> rstring \<Rightarrow> apply_patch_error" where
  "lines_not_found old path = ComputeReplacements
     (lit ''Failed to find expected lines in '' @ path @ lit '':'' @ [NL] @ join [NL] old)"

definition seek_context ::
  "rstring list \<Rightarrow> rstring \<Rightarrow> rstring option \<Rightarrow> nat \<Rightarrow> (nat, apply_patch_error) result" where
  "seek_context original path ctx line_index = (case ctx of
     None \<Rightarrow> Inr line_index
   | Some ctx_line \<Rightarrow> (case seek_sequence original [ctx_line] line_index False of
       Some idx \<Rightarrow> Inr (idx + 1)
     | None \<Rightarrow> Inl (context_not_found ctx_line path)))"

definition seek_old_lines ::
  "rstring list \<Rightarrow> update_file_chunk \<Rightarrow> nat \<Rightarrow> (nat option \<times> rstring list \<times> rstring list)" where
  \<comment> \<open>\<open>(found, pattern, new_slice)\<close>; a pattern ending in an empty line is retried without it\<close>
  "seek_old_lines original chunk line_index =
     (let pattern = old_lines chunk; new_slice = new_lines chunk;
          found = seek_sequence original pattern line_index (is_end_of_file chunk) in
      if found = None \<and> last_is_empty pattern then
        let pattern = butlast pattern;
            new_slice = (if last_is_empty new_slice then butlast new_slice else new_slice) in
        (seek_sequence original pattern line_index (is_end_of_file chunk), pattern, new_slice)
      else (found, pattern, new_slice))"

definition insertion_index :: "rstring list \<Rightarrow> nat" where
  "insertion_index original = (if last_is_empty original then length original - 1 else length original)"

fun replacement_loop ::
  "rstring list \<Rightarrow> rstring \<Rightarrow> nat \<Rightarrow> replacement list \<Rightarrow> update_file_chunk list \<Rightarrow>
     (replacement list, apply_patch_error) result" where
  "replacement_loop original path line_index reps [] = Inr reps"
| "replacement_loop original path line_index reps (chunk # chunks) =
     try_res (seek_context original path (change_context chunk) line_index) (\<lambda>line_index.
       if old_lines chunk = [] then
         replacement_loop original path line_index
           (reps @ [(insertion_index original, 0, new_lines chunk)]) chunks
       else (case seek_old_lines original chunk line_index of
           (Some start_idx, pattern, new_slice) \<Rightarrow>
             replacement_loop original path (start_idx + length pattern)
               (reps @ [(start_idx, length pattern, new_slice)]) chunks
         | (None, _, _) \<Rightarrow> Inl (lines_not_found (old_lines chunk) path)))"

definition compute_replacements ::
  "rstring list \<Rightarrow> rstring \<Rightarrow> update_file_chunk list \<Rightarrow> (replacement list, apply_patch_error) result" where
  "compute_replacements original path chunks =
     try_res (replacement_loop original path 0 [] chunks) (\<lambda>reps. Inr (sort_key fst reps))"

fun remove_lines :: "nat \<Rightarrow> nat \<Rightarrow> rstring list \<Rightarrow> rstring list" where
  \<comment> \<open>\<open>for _ in 0..old_len { if start_idx < lines.len() { lines.remove(start_idx); } }\<close>\<close>
  "remove_lines start_idx 0 lines = lines"
| "remove_lines start_idx (Suc n) lines = remove_lines start_idx n
     (if start_idx < length lines then take start_idx lines @ drop (Suc start_idx) lines else lines)"

definition vec_insert :: "nat \<Rightarrow> rstring \<Rightarrow> rstring list \<Rightarrow> rstring list option" where
  "vec_insert i x lines = (if i \<le> length lines then Some (take i lines @ x # drop i lines) else None)"

fun insert_lines :: "nat \<Rightarrow> rstring list \<Rightarrow> rstring list \<Rightarrow> rstring list option" where
  "insert_lines i [] lines = Some lines"
| "insert_lines i (x # xs) lines = Option.bind (vec_insert i x lines) (insert_lines (Suc i) xs)"

fun apply_back_to_front :: "rstring list \<Rightarrow> replacement list \<Rightarrow> rstring list option" where
  \<comment> \<open>the loop over \<open>replacements.iter().rev()\<close>, given the reversed list\<close>
  "apply_back_to_front lines [] = Some lines"
| "apply_back_to_front lines ((start_idx, old_len, new_segment) # reps) =
     Option.bind (insert_lines start_idx new_segment (remove_lines start_idx old_len lines))
       (\<lambda>lines. apply_back_to_front lines reps)"

definition apply_replacements :: "rstring list \<Rightarrow> replacement list \<Rightarrow> rstring list option" where
  "apply_replacements lines reps = apply_back_to_front lines (rev reps)"

definition content_lines :: "rstring \<Rightarrow> rstring list" where
  "content_lines content = (let ls = split_on NL content in if last_is_empty ls then butlast ls else ls)"

definition lines_content :: "rstring list \<Rightarrow> rstring" where
  "lines_content ls = join [NL] (if \<not> last_is_empty ls then ls @ [[]] else ls)"

definition derive_new_contents ::
  "rstring \<Rightarrow> rstring \<Rightarrow> update_file_chunk list \<Rightarrow> (rstring, apply_patch_error) result option" where
  "derive_new_contents original_content path chunks =
     (let original = content_lines original_content in
      case compute_replacements original path chunks of
        Inl e \<Rightarrow> Some (Inl e)
      | Inr reps \<Rightarrow> map_option (\<lambda>ls. Inr (lines_content ls)) (apply_replacements original reps))"

section \<open>Removing and inserting at one place\<close>

lemma remove_lines_eq: "remove_lines s n ls = take s ls @ drop (s + n) ls"
proof (induction s n ls rule: remove_lines.induct)
  case (2 s n ls)
  show ?case
  proof (cases "s < length ls")
    case True
    with 2 show ?thesis by (simp add: drop_append min_def add.commute)
  next
    case False
    with 2 show ?thesis by simp
  qed
qed simp

lemma insert_lines_eq:
  "i \<le> length ls \<Longrightarrow> insert_lines i xs ls = Some (take i ls @ xs @ drop i ls)"
proof (induction xs arbitrary: i ls)
  case (Cons x xs)
  then have "insert_lines (Suc i) xs (take i ls @ x # drop i ls) =
      Some (take i ls @ x # xs @ drop i ls)" by simp
  with Cons.prems show ?case by (simp add: vec_insert_def)
qed simp

lemma apply_one:
  assumes "s \<le> length ls"
  shows "insert_lines s new (remove_lines s n ls) = Some (take s ls @ new @ drop (s + n) ls)"
  using assms by (simp add: remove_lines_eq insert_lines_eq)

section \<open>No panic\<close>

text \<open>
  Going back to front, every replacement starts within the part of the file that the
  replacements after it left alone.
\<close>

lemma apply_back_to_front_total:
  assumes "sorted_wrt (\<lambda>a b. fst b \<le> fst a) reps" and "\<forall>r \<in> set reps. fst r \<le> length lines"
  shows "apply_back_to_front lines reps \<noteq> None"
  using assms
proof (induction lines reps rule: apply_back_to_front.induct)
  case (2 lines s n new reps)
  let ?ls = "take s lines @ new @ drop (s + n) lines"
  have s: "s \<le> length lines" using "2.prems" by simp
  have "\<forall>r \<in> set reps. fst r \<le> length ?ls" using "2.prems" s by fastforce
  then have "apply_back_to_front ?ls reps \<noteq> None"
    using "2.IH" [of ?ls] "2.prems"(1) s by (simp add: apply_one)
  with s show ?case by (simp add: apply_one)
qed simp

lemma seek_context_bound:
  "seek_context original path ctx i = Inr j \<Longrightarrow> i \<le> length original \<Longrightarrow> i \<le> j \<and> j \<le> length original"
  using seek_sequence_hit [of original "[the ctx]" i False]
  by (auto simp: seek_context_def split: option.splits)

lemma insertion_index_bound: "insertion_index original \<le> length original"
  by (simp add: insertion_index_def)

lemma seek_old_lines_bound:
  assumes "seek_old_lines original chunk i = (Some s, pattern, new)" and "i \<le> length original"
  shows "s + length pattern \<le> length original" and "\<not> is_end_of_file chunk \<Longrightarrow> i \<le> s"
proof -
  from assms(1) have "seek_sequence original pattern i (is_end_of_file chunk) = Some s"
    by (auto simp: seek_old_lines_def Let_def split: if_splits)
  then show "s + length pattern \<le> length original" and "\<not> is_end_of_file chunk \<Longrightarrow> i \<le> s"
    using assms(2) seek_sequence_hit [of original pattern i "is_end_of_file chunk" s]
    by (cases "pattern = []"; auto)+
qed

text \<open>One turn of the loop: a pure addition, or a block of old lines found in the file.\<close>

lemma replacement_loop_cases [consumes 1, case_names add edit]:
  assumes "replacement_loop original path i reps (chunk # chunks) = Inr out"
  obtains j where "seek_context original path (change_context chunk) i = Inr j" "old_lines chunk = []"
      "replacement_loop original path j (reps @ [(insertion_index original, 0, new_lines chunk)]) chunks = Inr out"
    | j s pat new where "seek_context original path (change_context chunk) i = Inr j" "old_lines chunk \<noteq> []"
      "seek_old_lines original chunk j = (Some s, pat, new)"
      "replacement_loop original path (s + length pat) (reps @ [(s, length pat, new)]) chunks = Inr out"
  using assms
  by (cases "seek_old_lines original chunk (projr (seek_context original path (change_context chunk) i))")
     (auto split: if_splits option.splits)

lemma replacement_loop_bound:
  assumes "replacement_loop original path i reps chunks = Inr out" and "i \<le> length original"
    and "\<forall>r \<in> set reps. fst r \<le> length original"
  shows "\<forall>r \<in> set out. fst r \<le> length original"
  using assms
proof (induction chunks arbitrary: i reps)
  case (Cons chunk chunks)
  from Cons.prems(1) show ?case
  proof (cases rule: replacement_loop_cases)
    case (add j)
    with Cons.prems(2,3) show ?thesis
      by (intro Cons.IH [OF add(3)]) (auto dest: seek_context_bound simp: insertion_index_bound)
  next
    case (edit j s pat new)
    then have "j \<le> length original" using Cons.prems(2) by (auto dest: seek_context_bound)
    from seek_old_lines_bound(1) [OF edit(3) this] Cons.prems(3) show ?thesis
      by (intro Cons.IH [OF edit(4)]) auto
  qed
qed simp

lemma compute_replacements_sorted:
  assumes "compute_replacements original path chunks = Inr reps"
  shows "sorted (map fst reps)" and "\<forall>r \<in> set reps. fst r \<le> length original"
proof -
  from assms obtain t where t: "replacement_loop original path 0 [] chunks = Inr t"
    and reps: "reps = sort_key fst t" by (auto simp: compute_replacements_def)
  show "sorted (map fst reps)" by (simp add: reps)
  show "\<forall>r \<in> set reps. fst r \<le> length original"
    using replacement_loop_bound [OF t] by (simp add: reps)
qed

lemma apply_computed:
  assumes "compute_replacements original path chunks = Inr reps"
  shows "apply_replacements original reps \<noteq> None"
proof -
  have "sorted_wrt (\<lambda>a b. fst b \<le> fst a) (rev reps)"
    using compute_replacements_sorted(1) [OF assms] by (simp add: sorted_wrt_rev sorted_wrt_map)
  then show ?thesis
    using compute_replacements_sorted(2) [OF assms]
    by (simp add: apply_replacements_def apply_back_to_front_total)
qed

lemma replacement_loop_error:
  "replacement_loop original path i reps chunks = Inl e \<Longrightarrow> \<exists>m. e = ComputeReplacements m"
proof (induction chunks arbitrary: i reps)
  case (Cons chunk chunks)
  show ?case
  proof (cases "seek_context original path (change_context chunk) i")
    case (Inl e')
    with Cons.prems show ?thesis
      by (auto simp: seek_context_def context_not_found_def split: option.splits)
  next
    case (Inr j)
    obtain f pat new where "seek_old_lines original chunk j = (f, pat, new)" by (metis prod_cases3)
    with Inr Cons.prems show ?thesis
      by (cases f) (auto simp: lines_not_found_def split: if_splits dest: Cons.IH)
  qed
qed simp

lemma compute_replacements_error:
  "compute_replacements original path chunks = Inl e \<Longrightarrow> \<exists>m. e = ComputeReplacements m"
  by (auto simp: compute_replacements_def try_res_def split: sum.splits dest: replacement_loop_error)

lemma lines_content_newline: "lines_content ls = [] \<or> last (lines_content ls) = NL"
proof -
  obtain xs where xs: "(if \<not> last_is_empty ls then ls @ [[]] else ls) = xs @ [[]]"
    by (metis append_butlast_last_id last_is_empty_def)
  have "xs = [] \<or> (\<exists>t. join [NL] (xs @ [[]]) = t @ [NL])"
    by (induction xs) (auto simp: join_Cons)
  then show ?thesis unfolding lines_content_def xs by auto
qed

text \<open>
  Applying chunks to any file content is total and well-behaved: it never panics, the only
  error is that a context line or a block of old lines was not found, and a result is empty or
  ends with a newline.
\<close>

theorem derive_new_contents_total:
  "case derive_new_contents content path chunks of
     None \<Rightarrow> False
   | Some (Inl e) \<Rightarrow> (\<exists>m. e = ComputeReplacements m)
   | Some (Inr t) \<Rightarrow> t = [] \<or> last t = NL"
proof (cases "compute_replacements (content_lines content) path chunks")
  case (Inl e)
  then show ?thesis using compute_replacements_error by (simp add: derive_new_contents_def Let_def)
next
  case (Inr reps)
  then show ?thesis
    using apply_computed lines_content_newline by (fastforce simp: derive_new_contents_def Let_def)
qed

section \<open>One pass from left to right\<close>

fun splice :: "nat \<Rightarrow> rstring list \<Rightarrow> replacement list \<Rightarrow> rstring list" where
  \<comment> \<open>copy up to the next replacement, emit its new lines, skip its old ones\<close>
  "splice pos lines [] = drop pos lines"
| "splice pos lines ((s, n, new) # reps) =
     take (s - pos) (drop pos lines) @ new @ splice (s + n) lines reps"

fun separated :: "nat \<Rightarrow> nat \<Rightarrow> replacement list \<Rightarrow> bool" where
  "separated pos len [] \<longleftrightarrow> pos \<le> len"
| "separated pos len ((s, n, new) # reps) \<longleftrightarrow> pos \<le> s \<and> separated (s + n) len reps"

lemma separated_le: "separated pos len reps \<Longrightarrow> pos \<le> len"
  by (induction pos len reps rule: separated.induct) auto

lemma separated_mono: "separated pos len reps \<Longrightarrow> len \<le> len' \<Longrightarrow> separated pos len' reps"
  by (induction pos len reps rule: separated.induct) auto

lemma separated_snoc:
  "separated pos i reps \<Longrightarrow> i \<le> s \<Longrightarrow> separated pos (s + n) (reps @ [(s, n, new)])"
  by (induction pos i reps rule: separated.induct) auto

lemma separated_starts: "separated pos len reps \<Longrightarrow> \<forall>r \<in> set reps. pos \<le> fst r"
  by (induction pos len reps rule: separated.induct) (auto intro: order_trans)

lemma separated_sorted: "separated pos len reps \<Longrightarrow> sorted (map fst reps)"
  by (induction pos len reps rule: separated.induct) (fastforce dest: separated_starts)+

lemma apply_back_to_front_append:
  "apply_back_to_front lines (xs @ ys) =
     Option.bind (apply_back_to_front lines xs) (\<lambda>ls. apply_back_to_front ls ys)"
proof (induction lines xs rule: apply_back_to_front.induct)
  case (2 lines s n new reps)
  then show ?case by (cases "insert_lines s new (remove_lines s n lines)") auto
qed simp

lemma apply_separated:
  "separated pos (length lines) reps \<Longrightarrow>
     apply_replacements lines reps = Some (take pos lines @ splice pos lines reps)"
proof (induction reps arbitrary: pos)
  case (Cons r reps)
  obtain s n new where r: "r = (s, n, new)" by (metis prod_cases3)
  with Cons.prems have pos: "pos \<le> s" and sep: "separated (s + n) (length lines) reps" by auto
  have sn: "s + n \<le> length lines" by (rule separated_le [OF sep])
  let ?ls = "take (s + n) lines @ splice (s + n) lines reps"
  have "apply_replacements lines (r # reps) =
      Option.bind (insert_lines s new (remove_lines s n ?ls)) Some"
    using Cons.IH [OF sep] by (simp add: r apply_replacements_def apply_back_to_front_append)
  also have "\<dots> = Some (take s lines @ new @ splice (s + n) lines reps)"
    using sn by (simp add: apply_one)
  also have "take s lines = take pos lines @ take (s - pos) (drop pos lines)"
    using pos by (metis le_add_diff_inverse take_add)
  finally show ?case by (simp add: r)
qed (simp add: apply_replacements_def)

text \<open>
  What one chunk asks for: its old lines, or its old lines without a trailing empty one, occur
  at the place, up to Unicode normalisation.
\<close>

definition edit_of :: "rstring list \<Rightarrow> update_file_chunk \<Rightarrow> replacement \<Rightarrow> bool" where
  "edit_of original chunk r = (case r of (s, n, new) \<Rightarrow>
     n = length (old_lines chunk) \<and> new = new_lines chunk \<and> matches_at normalise original (old_lines chunk) s \<or>
     last_is_empty (old_lines chunk) \<and> n = length (old_lines chunk) - 1 \<and>
     new = (if last_is_empty (new_lines chunk) then butlast (new_lines chunk) else new_lines chunk) \<and>
     matches_at normalise original (butlast (old_lines chunk)) s)"

lemma seek_old_lines_edit:
  assumes "seek_old_lines original chunk i = (Some s, pat, new)" and "old_lines chunk \<noteq> []"
    and "i \<le> length original"
  shows "edit_of original chunk (s, length pat, new)"
proof (cases "pat = []")
  case True
  with assms have "last_is_empty (old_lines chunk)" "butlast (old_lines chunk) = []" "s = i"
      "new = (if last_is_empty (new_lines chunk) then butlast (new_lines chunk) else new_lines chunk)"
    by (auto simp: seek_old_lines_def Let_def split: if_splits)
  moreover have "length (old_lines chunk) - 1 = 0"
    using calculation(2) by (metis length_butlast list.size(3))
  ultimately show ?thesis using assms(3) True by (simp add: edit_of_def matches_at_def)
next
  case False
  from assms(1) have "seek_sequence original pat i (is_end_of_file chunk) = Some s"
    by (auto simp: seek_old_lines_def Let_def split: if_splits)
  from seek_sequence_hit(3) [OF this False] assms(1) show ?thesis
    by (auto simp: seek_old_lines_def Let_def edit_of_def split: if_splits)
qed

definition in_place :: "update_file_chunk \<Rightarrow> bool" where
  \<comment> \<open>a chunk that replaces lines and is not tied to the end of the file\<close>
  "in_place chunk \<longleftrightarrow> old_lines chunk \<noteq> [] \<and> \<not> is_end_of_file chunk"

lemma replacement_loop_in_place:
  assumes "replacement_loop original path i reps chunks = Inr out" and "list_all in_place chunks"
    and "separated 0 i reps" and "i \<le> length original" and "list_all2 (edit_of original) done reps"
  shows "separated 0 (length original) out \<and> list_all2 (edit_of original) (done @ chunks) out"
  using assms
proof (induction chunks arbitrary: i reps "done")
  case (Cons chunk chunks)
  from Cons.prems(1) show ?case
  proof (cases rule: replacement_loop_cases)
    case (add j)
    with Cons.prems(2) show ?thesis by (simp add: in_place_def)
  next
    case (edit j s pat new)
    with Cons.prems(4) have j: "i \<le> j" "j \<le> length original" by (auto dest: seek_context_bound)
    have eof: "\<not> is_end_of_file chunk" using Cons.prems(2) by (simp add: in_place_def)
    have s: "s + length pat \<le> length original" "j \<le> s"
      using seek_old_lines_bound [OF edit(3) j(2)] eof by auto
    have "separated 0 (s + length pat) (reps @ [(s, length pat, new)])"
      using j s by (intro separated_snoc [OF Cons.prems(3)]) auto
    moreover have "list_all2 (edit_of original) (done @ [chunk]) (reps @ [(s, length pat, new)])"
      using Cons.prems(5) seek_old_lines_edit [OF edit(3,2) j(2)] by (simp add: list_all2_appendI)
    ultimately show ?thesis
      using Cons.IH [OF edit(4), of "done @ [chunk]"] Cons.prems(2) s by simp
  qed
qed (auto intro: separated_mono)

lemma compute_in_place:
  assumes "compute_replacements original path chunks = Inr reps" and "list_all in_place chunks"
  shows "separated 0 (length original) reps" and "list_all2 (edit_of original) chunks reps"
proof -
  from assms(1) obtain t where t: "replacement_loop original path 0 [] chunks = Inr t"
    and reps: "reps = sort_key fst t" by (auto simp: compute_replacements_def)
  have sep: "separated 0 (length original) t" and ed: "list_all2 (edit_of original) chunks t"
    using replacement_loop_in_place [OF t assms(2), of "[]"] by auto
  have "reps = t" using separated_sorted [OF sep] by (simp add: reps sort_key_id_if_sorted)
  with sep ed show "separated 0 (length original) reps" and "list_all2 (edit_of original) chunks reps"
    by auto
qed

text \<open>
  Editing is a single left-to-right pass: for chunks that replace lines and are not tied to
  the end of the file, a successful search gives one replacement per chunk, in chunk order and
  without overlaps, each at a place where the chunk's old lines occur up to Unicode
  normalisation, and applying them back to front yields exactly the file with those blocks
  replaced and every other line unchanged and in order.
\<close>

theorem in_place_chunks_splice:
  assumes "list_all in_place chunks"
    and "compute_replacements (content_lines content) path chunks = Inr reps"
  shows "separated 0 (length (content_lines content)) reps \<and>
    list_all2 (edit_of (content_lines content)) chunks reps \<and>
    derive_new_contents content path chunks =
      Some (Inr (lines_content (splice 0 (content_lines content) reps)))"
proof -
  have "separated 0 (length (content_lines content)) reps"
    and "list_all2 (edit_of (content_lines content)) chunks reps"
    using compute_in_place [OF assms(2,1)] by auto
  moreover from this have "apply_replacements (content_lines content) reps =
      Some (splice 0 (content_lines content) reps)" using apply_separated [of 0] by simp
  ultimately show ?thesis using assms(2) by (simp add: derive_new_contents_def Let_def)
qed

definition sample_chunk :: update_file_chunk where
  "sample_chunk = \<lparr>change_context = None, old_lines = [lit ''b''], new_lines = [lit ''x'', lit ''y''],
     is_end_of_file = False\<rparr>"

definition sample_content :: rstring where
  "sample_content = lit ''a'' @ [NL] @ lit ''b'' @ [NL] @ lit ''c'' @ [NL]"

theorem in_place_chunks_splice_witness:
  "list_all in_place [sample_chunk] \<and>
   derive_new_contents sample_content [] [sample_chunk] =
     Some (Inr (lit ''a'' @ [NL] @ lit ''x'' @ [NL] @ lit ''y'' @ [NL] @ lit ''c'' @ [NL]))"
proof -
  have ip: "list_all in_place [sample_chunk]" by code_simp
  have cr: "compute_replacements (content_lines sample_content) [] [sample_chunk] =
      Inr [(1, 1, [lit ''x'', lit ''y''])]" by code_simp
  have "lines_content (splice 0 (content_lines sample_content) [(1, 1, [lit ''x'', lit ''y''])]) =
      lit ''a'' @ [NL] @ lit ''x'' @ [NL] @ lit ''y'' @ [NL] @ lit ''c'' @ [NL]" by code_simp
  with in_place_chunks_splice [OF ip cr] ip show ?thesis by simp
qed

section \<open>The end of the file\<close>

lemma content_lines_append_NL: "content_lines (s @ [NL]) = split_on NL s"
proof -
  have "split_on c (s @ [c]) = split_on c s @ [[]]" for c :: rchar
    by (induction s) (auto split: list.splits)
  then show ?thesis by (simp add: content_lines_def last_is_empty_def)
qed

lemma last_split_on_empty: "last_is_empty (split_on c s) \<longleftrightarrow> s = [] \<or> last s = c"
proof (induction s)
  case (Cons x s)
  obtain p ps where "split_on c s = p # ps" by (metis split_on_not_Nil neq_Nil_conv)
  moreover have "split_on c s = [[]] \<longleftrightarrow> s = []"
    by (metis join.simps(2) join_split_on split_on.simps(1))
  ultimately show ?case using Cons by (auto simp: last_is_empty_def split: if_splits)
qed (simp add: last_is_empty_def)

lemma lines_content_split: "lines_content (split_on NL s) = (if s = [] \<or> last s = NL then s else s @ [NL])"
proof -
  show ?thesis by (simp add: lines_content_def last_split_on_empty join_snoc)
qed

text \<open>
  What a patch leaves of the end of a file it does not touch: with no replacement to make,
  the rewritten content is the old one exactly when the file is empty or ends with one newline
  after a non-empty last line.  A missing final newline is added, and of a file that
  ends with blank lines one newline is lost.
\<close>

theorem untouched_file_end:
  "derive_new_contents content path [] = Some (Inr
     (if content = [] then []
      else if last content \<noteq> NL then content @ [NL]
      else if butlast content = [] \<or> last (butlast content) = NL then butlast content
      else content))"
proof -
  have d: "derive_new_contents content path [] = Some (Inr (lines_content (content_lines content)))"
    by (simp add: derive_new_contents_def compute_replacements_def apply_replacements_def)
  show ?thesis
  proof (cases "content \<noteq> [] \<and> last content = NL")
    case True
    then have c: "content = butlast content @ [NL]" by (metis append_butlast_last_id)
    then have "lines_content (content_lines content) =
        (if butlast content = [] \<or> last (butlast content) = NL then butlast content else butlast content @ [NL])"
      by (metis content_lines_append_NL lines_content_split)
    with d c True show ?thesis by simp
  next
    case False
    have "lines_content (content_lines []) = []"
      by (simp add: content_lines_def lines_content_def last_is_empty_def)
    moreover have "content_lines content = split_on NL content" if "content \<noteq> []"
      using False that last_split_on_empty [of NL content] by (auto simp: content_lines_def)
    ultimately show ?thesis
      using False d lines_content_split [of content] by (cases "content = []") simp_all
  qed
qed

text \<open>
  A pure addition is placed before a trailing blank line even when another chunk of the same
  patch replaces that line: then the block of the other chunk is removed from the shifted file
  and takes the added line with it.
\<close>

lemma pure_addition_lost:
  "derive_new_contents (lit ''a'' @ [NL, NL]) []
     [\<lparr>change_context = None, old_lines = [[]], new_lines = [lit ''x''], is_end_of_file = False\<rparr>,
      \<lparr>change_context = None, old_lines = [], new_lines = [lit ''y''], is_end_of_file = False\<rparr>] =
   Some (Inr (lit ''a'' @ [NL] @ lit ''x'' @ [NL]))"
  by code_simp

end
