(* ===== verification/Paths.thy ===== *)
theory Paths
  imports Rust_Strings
begin

text \<open>
  Unix paths as \<open>std::path\<close> reads them: a string is split into components, where empty names
  and inner dots disappear, a leading dot is kept, and \<open>..\<close> is a component of its own.
  \<open>normalize_lexically\<close> is the function of \<open>xai-grok-paths/src/lib.rs\<close> that collapses dots
  without touching the file system.
\<close>

section \<open>Components\<close>

datatype component = RootDir | CurDir | ParentDir | Normal rstring

abbreviation (input) SLASH :: rchar where "SLASH \<equiv> 47"
abbreviation (input) DOT :: rchar where "DOT \<equiv> 46"

definition is_absolute :: "rstring \<Rightarrow> bool" where
  "is_absolute p = starts_with p [SLASH]"

definition path_names :: "rstring \<Rightarrow> rstring list" where
  "path_names p = filter (\<lambda>n. n \<noteq> []) (split_on SLASH p)"

definition name_component :: "rstring \<Rightarrow> component" where
  "name_component n = (if n = [DOT, DOT] then ParentDir else Normal n)"

definition components :: "rstring \<Rightarrow> component list" where
  "components p = (let names = path_names p in
     (if is_absolute p then [RootDir]
      else if names \<noteq> [] \<and> hd names = [DOT] then [CurDir] else []) @
     map name_component (filter (\<lambda>n. n \<noteq> [DOT]) names))"

definition path_join :: "rstring \<Rightarrow> rstring \<Rightarrow> rstring" where
  \<comment> \<open>\<open>Path::join\<close>: an absolute path replaces the base\<close>
  "path_join base p = (if is_absolute p then p
     else if base = [] \<or> ends_with base [SLASH] then base @ p else base @ [SLASH] @ p)"

fun component_name :: "component \<Rightarrow> rstring" where
  "component_name RootDir = [SLASH]"
| "component_name CurDir = [DOT]"
| "component_name ParentDir = [DOT, DOT]"
| "component_name (Normal n) = n"

definition path_of :: "component list \<Rightarrow> rstring" where
  \<comment> \<open>collecting components into a \<open>PathBuf\<close> pushes them one by one\<close>
  "path_of cs = foldl path_join [] (map component_name cs)"

definition path_parent :: "rstring \<Rightarrow> component list option" where
  \<comment> \<open>\<open>Path::parent\<close>: all but the last component, unless that is the root or there is none\<close>
  "path_parent p = (case rev (components p) of
     [] \<Rightarrow> None | RootDir # _ \<Rightarrow> None | _ # cs \<Rightarrow> Some (rev cs))"

definition path_file_name :: "rstring \<Rightarrow> rstring option" where
  \<comment> \<open>\<open>Path::file_name\<close>: the last component when it is a name\<close>
  "path_file_name p = (case rev (components p) of Normal n # _ \<Rightarrow> Some n | _ \<Rightarrow> None)"

definition path_strip_prefix :: "rstring \<Rightarrow> rstring \<Rightarrow> rstring option" where
  "path_strip_prefix p base =
     (if take (length (components base)) (components p) = components base
      then Some (path_of (drop (length (components base)) (components p))) else None)"

section \<open>Lexical normalisation\<close>

fun normalize_step :: "component list \<Rightarrow> component \<Rightarrow> component list" where
  "normalize_step acc CurDir = acc"
| "normalize_step acc ParentDir = (if acc = [] then acc @ [ParentDir] else (case last acc of
     Normal _ \<Rightarrow> butlast acc | RootDir \<Rightarrow> acc | _ \<Rightarrow> acc @ [ParentDir]))"
| "normalize_step acc c = acc @ [c]"

definition normalize_components :: "component list \<Rightarrow> component list" where
  "normalize_components cs = foldl normalize_step [] cs"

definition normalize_lexically :: "rstring \<Rightarrow> rstring" where
  "normalize_lexically p = (let cs = normalize_components (components p) in
     if cs = [] then [DOT] else path_of cs)"

section \<open>Writing components and reading them back\<close>

definition wf_name :: "rstring \<Rightarrow> bool" where
  "wf_name n \<longleftrightarrow> n \<noteq> [] \<and> SLASH \<notin> set n \<and> n \<noteq> [DOT] \<and> n \<noteq> [DOT, DOT]"

fun wf_inner :: "component \<Rightarrow> bool" where
  "wf_inner ParentDir = True"
| "wf_inner (Normal n) = wf_name n"
| "wf_inner _ = False"

lemma component_name_inner: "wf_inner c \<Longrightarrow> component_name c \<noteq> [] \<and> SLASH \<notin> set (component_name c) \<and>
    component_name c \<noteq> [DOT] \<and> name_component (component_name c) = c"
  by (cases c) (auto simp: wf_name_def name_component_def)

lemma path_names_wf: "n \<in> set (path_names p) \<Longrightarrow> n \<noteq> [] \<and> SLASH \<notin> set n"
  by (auto simp: path_names_def dest: split_on_pieces)

lemma components_wf:
  "list_all wf_inner (map name_component (filter (\<lambda>n. n \<noteq> [DOT]) (path_names p)))"
  using path_names_wf by (auto simp: list_all_iff name_component_def wf_name_def)

lemma foldl_path_join:
  assumes "\<forall>n \<in> set ns. n \<noteq> [] \<and> SLASH \<notin> set n" and "base \<noteq> []" and "last base \<noteq> SLASH"
  shows "foldl path_join base ns = join [SLASH] (base # ns)"
  using assms
proof (induction ns arbitrary: base)
  case (Cons n ns)
  have n: "n \<noteq> []" "SLASH \<notin> set n" using Cons.prems by auto
  have "path_join base n = base @ [SLASH] @ n"
    using Cons.prems n by (cases n) (auto simp: path_join_def is_absolute_def ends_with_iff starts_with_def)
  moreover have "last (base @ [SLASH] @ n) \<noteq> SLASH" using n by (metis append_is_Nil_conv last_appendR last_in_set not_Cons_self2)
  ultimately have "foldl path_join base (n # ns) = join [SLASH] ((base @ [SLASH] @ n) # ns)"
    using Cons by simp
  also have "\<dots> = join [SLASH] (base # n # ns)" by (cases ns) auto
  finally show ?case .
qed simp

lemma path_names_join:
  assumes "\<forall>n \<in> set ns. n \<noteq> [] \<and> SLASH \<notin> set n"
  shows "path_names (join [SLASH] ns) = ns"
proof (cases "ns = []")
  case False
  then show ?thesis
    using assms split_on_join [of ns SLASH] by (simp add: path_names_def)
qed (simp add: path_names_def)

lemma join_not_absolute:
  assumes "\<forall>n \<in> set ns. n \<noteq> [] \<and> SLASH \<notin> set n"
  shows "\<not> is_absolute (join [SLASH] ns)"
proof (cases ns)
  case (Cons n ns')
  with assms obtain c t where "n = c # t" "c \<noteq> SLASH" by (cases n) auto
  with Cons show ?thesis by (cases ns') (auto simp: is_absolute_def starts_with_def)
qed (simp add: is_absolute_def starts_with_def)

lemma path_of_relative:
  assumes "list_all wf_inner cs"
  shows "path_of cs = join [SLASH] (map component_name cs)"
proof (cases cs)
  case (Cons c cs')
  have all: "\<forall>n \<in> set (map component_name cs). n \<noteq> [] \<and> SLASH \<notin> set n"
    using assms component_name_inner by (auto simp: list_all_iff)
  then have c: "component_name c \<noteq> []" "SLASH \<notin> set (component_name c)" using Cons by auto
  then have "path_join [] (component_name c) = component_name c"
    by (simp add: path_join_def)
  moreover have "last (component_name c) \<noteq> SLASH" using c by (metis last_in_set)
  ultimately show ?thesis
    using Cons all c foldl_path_join [of "map component_name cs'" "component_name c"]
    by (simp add: path_of_def)
qed (simp add: path_of_def)

lemma path_of_absolute:
  assumes "list_all wf_inner cs"
  shows "path_of (RootDir # cs) = [SLASH] @ join [SLASH] (map component_name cs)"
proof (cases cs)
  case Nil
  then show ?thesis by (simp add: path_of_def path_join_def is_absolute_def)
next
  case (Cons c cs')
  have all: "\<forall>n \<in> set (map component_name cs). n \<noteq> [] \<and> SLASH \<notin> set n"
    using assms component_name_inner by (auto simp: list_all_iff)
  then have c: "component_name c \<noteq> []" "SLASH \<notin> set (component_name c)" using Cons by auto
  then have "path_join [SLASH] (component_name c) = SLASH # component_name c"
    by (cases "component_name c") (auto simp: path_join_def is_absolute_def starts_with_def ends_with_def)
  moreover have "last (SLASH # component_name c) \<noteq> SLASH" using c by (metis last.simps last_in_set)
  moreover have "join [SLASH] ((SLASH # n) # ns) = SLASH # join [SLASH] (n # ns)" for n ns
    by (cases ns) auto
  ultimately show ?thesis
    using Cons all foldl_path_join [of "map component_name cs'" "SLASH # component_name c"]
    by (simp add: path_of_def path_join_def [of "[]"] is_absolute_def)
qed

lemma components_path_of:
  assumes "list_all wf_inner cs"
  shows "components (path_of cs) = cs" and "components (path_of (RootDir # cs)) = RootDir # cs"
proof -
  let ?ns = "map component_name cs"
  have all: "\<forall>n \<in> set ?ns. n \<noteq> [] \<and> SLASH \<notin> set n" and nd: "\<forall>n \<in> set ?ns. n \<noteq> [DOT]"
    using assms component_name_inner by (auto simp: list_all_iff)
  have readback: "map name_component (filter (\<lambda>n. n \<noteq> [DOT]) ?ns) = cs"
  proof -
    have "filter (\<lambda>n. n \<noteq> [DOT]) ?ns = ?ns" using nd by (simp add: filter_id_conv)
    moreover have "map name_component ?ns = cs"
      using assms component_name_inner by (auto simp: list_all_iff intro!: map_idI)
    ultimately show ?thesis by simp
  qed
  have "\<not> (?ns \<noteq> [] \<and> hd ?ns = [DOT])" using nd by (cases ?ns) auto
  then show "components (path_of cs) = cs"
    using path_names_join [OF all] join_not_absolute [OF all] readback
    by (simp add: components_def path_of_relative [OF assms] Let_def)
  have "path_names (SLASH # join [SLASH] ?ns) = ?ns"
    using path_names_join [OF all] by (simp add: path_names_def)
  then show "components (path_of (RootDir # cs)) = RootDir # cs"
    using readback by (simp add: components_def path_of_absolute [OF assms] is_absolute_def Let_def starts_with_def)
qed

section \<open>What normalisation leaves\<close>

text \<open>
  The normal form: an absolute path has plain names only, a relative one a run of \<open>..\<close>
  followed by plain names.
\<close>

definition abs_normal :: "component list \<Rightarrow> bool" where
  "abs_normal cs \<longleftrightarrow> (\<exists>ns. list_all wf_name ns \<and> cs = RootDir # map Normal ns)"

definition rel_normal :: "component list \<Rightarrow> bool" where
  "rel_normal cs \<longleftrightarrow> (\<exists>k ns. list_all wf_name ns \<and> cs = replicate k ParentDir @ map Normal ns)"

lemma abs_normal_step:
  assumes "abs_normal acc" and "wf_inner c"
  shows "abs_normal (normalize_step acc c)"
proof -
  obtain ns where ns: "list_all wf_name ns" "acc = RootDir # map Normal ns"
    using assms(1) by (auto simp: abs_normal_def)
  consider (up) "c = ParentDir" | (down) n where "c = Normal n" "wf_name n"
    using assms(2) by (cases c) auto
  then show ?thesis
  proof cases
    case down
    then have "normalize_step acc c = RootDir # map Normal (ns @ [n])" "list_all wf_name (ns @ [n])"
      using ns by auto
    then show ?thesis unfolding abs_normal_def by blast
  next
    case up
    then have "normalize_step acc c = RootDir # map Normal (butlast ns)"
      using ns by (cases ns rule: rev_cases) (auto simp: butlast_append)
    moreover have "list_all wf_name (butlast ns)"
      using ns by (auto simp: list_all_iff dest: in_set_butlastD)
    ultimately show ?thesis unfolding abs_normal_def by blast
  qed
qed

lemma rel_normal_step:
  assumes "rel_normal acc" and "wf_inner c"
  shows "rel_normal (normalize_step acc c)"
proof -
  obtain k ns where ns: "list_all wf_name ns" "acc = replicate k ParentDir @ map Normal ns"
    using assms(1) by (auto simp: rel_normal_def)
  consider (up) "c = ParentDir" | (down) n where "c = Normal n" "wf_name n"
    using assms(2) by (cases c) auto
  then show ?thesis
  proof cases
    case down
    then have "normalize_step acc c = replicate k ParentDir @ map Normal (ns @ [n])"
      "list_all wf_name (ns @ [n])" using ns by auto
    then show ?thesis unfolding rel_normal_def by blast
  next
    case up
    have r: "replicate k ParentDir @ [ParentDir] = replicate (Suc k) ParentDir @ map Normal []"
      by (simp add: replicate_append_same)
    have "\<exists>k' ms. list_all wf_name ms \<and> normalize_step acc c = replicate k' ParentDir @ map Normal ms"
    proof (cases ns rule: rev_cases)
      case Nil
      then have "normalize_step acc c = replicate k ParentDir @ [ParentDir]"
        using ns up by (cases k) (auto simp: replicate_append_same [symmetric] simp del: replicate.simps(2))
      with r show ?thesis by (intro exI [of _ "Suc k"] exI [of _ "[]"]) simp
    next
      case (snoc ms n)
      then have "normalize_step acc c = replicate k ParentDir @ map Normal ms" "list_all wf_name ms"
        using ns up by (auto simp: butlast_append)
      then show ?thesis by blast
    qed
    then show ?thesis unfolding rel_normal_def by blast
  qed
qed

lemma foldl_step_normal:
  assumes "list_all wf_inner cs"
  shows "abs_normal acc \<Longrightarrow> abs_normal (foldl normalize_step acc cs)"
    and "rel_normal acc \<Longrightarrow> rel_normal (foldl normalize_step acc cs)"
  using assms by (induction cs arbitrary: acc) (auto simp: abs_normal_step rel_normal_step)

lemma normalize_components_normal:
  "if is_absolute p then abs_normal (normalize_components (components p))
   else rel_normal (normalize_components (components p))"
proof -
  let ?cs = "map name_component (filter (\<lambda>n. n \<noteq> [DOT]) (path_names p))"
  have "abs_normal [RootDir]" by (auto simp: abs_normal_def intro: exI [of _ "[]"])
  moreover have "rel_normal []" by (auto simp: rel_normal_def intro: exI [of _ "[]"])
  ultimately show ?thesis
    using foldl_step_normal [OF components_wf [of p]]
    by (simp add: normalize_components_def components_def Let_def)
qed

lemma normal_inner:
  "abs_normal cs \<Longrightarrow> \<exists>ds. cs = RootDir # ds \<and> list_all wf_inner ds \<and> ParentDir \<notin> set ds"
  "rel_normal cs \<Longrightarrow> list_all wf_inner cs"
  by (auto simp: abs_normal_def rel_normal_def list_all_iff)

lemma normalize_lexically_components:
  "components (normalize_lexically p) =
     (let cs = normalize_components (components p) in if cs = [] then [CurDir] else cs)"
proof -
  have dot: "components [DOT] = [CurDir]"
    by (simp add: components_def path_names_def is_absolute_def starts_with_def)
  have "components (path_of (normalize_components (components p))) = normalize_components (components p)"
    using normalize_components_normal [of p] normal_inner components_path_of
    by (metis (full_types))
  then show ?thesis by (simp add: normalize_lexically_def Let_def dot)
qed

text \<open>Normal components are a fixed point.\<close>

lemma foldl_step_normals:
  "foldl normalize_step acc (map Normal ns) = acc @ map Normal ns"
  by (induction ns arbitrary: acc) auto

lemma foldl_step_parents:
  "foldl normalize_step (replicate j ParentDir) (replicate k ParentDir) = replicate (j + k) ParentDir"
proof (induction k arbitrary: j)
  case (Suc k)
  have "normalize_step (replicate j ParentDir) ParentDir = replicate (Suc j) ParentDir"
    by (cases j) (auto simp: replicate_append_same)
  with Suc [of "Suc j"] show ?case by simp
qed simp

lemma normalize_components_fixed:
  "abs_normal cs \<or> rel_normal cs \<Longrightarrow> normalize_components cs = cs"
  using foldl_step_parents [of 0]
  by (auto simp: normalize_components_def abs_normal_def rel_normal_def foldl_step_normals)

text \<open>
  Lexical normalisation is idempotent, keeps a path absolute or relative, and leaves no dot
  and no inner \<open>..\<close>: an absolute result has no \<open>..\<close> at all, so it names no place above the
  root, and a relative one has them only in front.
\<close>

theorem normalize_lexically_normal_form:
  "normalize_lexically (normalize_lexically p) = normalize_lexically p \<and>
   (if is_absolute p then abs_normal (components (normalize_lexically p))
    else components (normalize_lexically p) = [CurDir] \<or> rel_normal (components (normalize_lexically p)))"
proof -
  let ?cs = "normalize_components (components p)"
  have n: "if is_absolute p then abs_normal ?cs else rel_normal ?cs"
    by (rule normalize_components_normal)
  then have fp: "normalize_components ?cs = ?cs"
    by (intro normalize_components_fixed) (auto split: if_splits)
  have form: "if is_absolute p then abs_normal (components (normalize_lexically p))
    else components (normalize_lexically p) = [CurDir] \<or> rel_normal (components (normalize_lexically p))"
    using n by (auto simp: normalize_lexically_components Let_def abs_normal_def split: if_splits)
  have "normalize_lexically (normalize_lexically p) = normalize_lexically p"
  proof (cases "?cs = []")
    case True
    then have "components (normalize_lexically p) = [CurDir]"
      by (simp add: normalize_lexically_components)
    moreover have "normalize_lexically p = [DOT]" using True by (simp add: normalize_lexically_def)
    ultimately show ?thesis
      by (simp add: normalize_lexically_def [of "[DOT]"] normalize_components_def)
  next
    case False
    then have "components (normalize_lexically p) = ?cs"
      by (simp add: normalize_lexically_components)
    with fp show ?thesis
      by (simp add: normalize_lexically_def [of "normalize_lexically p"])
         (simp add: normalize_lexically_def [of p])
  qed
  with form show ?thesis by blast
qed

end
