(* ===== verification/Patch_Tool.thy ===== *)
theory Patch_Tool
  imports Patch_Apply Paths
begin

text \<open>
  The \<open>apply_patch\<close> tool
  (\<open>xai-grok-tools/src/implementations/codex/apply_patch/tool.rs\<close>): parse, compute every change
  in memory, write, report.  The file system behind \<open>AsyncFileSystem\<close> is a record of its
  operations on a state; the locale \<open>file_store\<close> states what the tool relies on, and the
  in-memory \<open>MockFs\<close> of \<open>computer/local/mock_fs.rs\<close> satisfies it.  File contents are valid
  UTF-8, so bytes and text are identified; paths are Unix paths.
\<close>

section \<open>File systems\<close>

record 's async_fs =
  read_file :: "'s \<Rightarrow> rstring \<Rightarrow> (rstring, rstring) result"
  write_file :: "rstring \<Rightarrow> rstring \<Rightarrow> 's \<Rightarrow> (unit, rstring) result \<times> 's"
  delete_file :: "rstring \<Rightarrow> 's \<Rightarrow> (unit, rstring) result \<times> 's"
  create_dir_all :: "component list \<Rightarrow> 's \<Rightarrow> (unit, rstring) result \<times> 's"

type_synonym disk = "rstring \<rightharpoonup> rstring"

definition mock_read_file :: "disk \<Rightarrow> rstring \<Rightarrow> (rstring, rstring) result" where
  "mock_read_file files path = (case files path of
     Some data \<Rightarrow> Inr data
   | None \<Rightarrow> Inl (lit ''File not found: '' @ path))"

definition mock_write_file :: "rstring \<Rightarrow> rstring \<Rightarrow> disk \<Rightarrow> (unit, rstring) result \<times> disk" where
  "mock_write_file path data files = (Inr (), files(path \<mapsto> data))"

definition mock_delete_file :: "rstring \<Rightarrow> disk \<Rightarrow> (unit, rstring) result \<times> disk" where
  "mock_delete_file path files = (Inr (), files(path := None))"

definition mock_fs :: "disk async_fs" where
  "mock_fs = \<lparr>read_file = mock_read_file, write_file = mock_write_file,
     delete_file = mock_delete_file, create_dir_all = (\<lambda>_ files. (Inr (), files))\<rparr>"

definition ensure_parent_dirs :: "'s async_fs \<Rightarrow> rstring \<Rightarrow> 's \<Rightarrow> (unit, rstring) result \<times> 's" where
  "ensure_parent_dirs fs path s = (case path_parent path of
     Some parent \<Rightarrow> if parent \<noteq> [] then create_dir_all fs parent s else (Inr (), s)
   | None \<Rightarrow> (Inr (), s))"

section \<open>The tool\<close>

datatype file_change =
    ChangeAdd rstring rstring
  | ChangeDelete rstring rstring
  | ChangeUpdate rstring rstring rstring
  | ChangeMove rstring rstring rstring rstring

record file_written =
  fw_tool_call_id :: rstring
  fw_absolute_path :: rstring
  fw_content :: rstring
  fw_previous_content :: "rstring option"
  fw_is_new_file :: bool

record file_result =
  fr_path :: rstring
  fr_action :: rstring
  fr_old_text :: "rstring option"
  fr_new_text :: rstring
  fr_move_to :: "rstring option"

datatype apply_patch_output =
    PatchSuccess "file_result list" rstring
  | PatchParseError rstring
  | PatchApplicationError rstring
  | PatchEmpty rstring

fun show_parse_error :: "parse_error \<Rightarrow> rstring" where
  "show_parse_error (InvalidPatchError m) = lit ''invalid patch: '' @ m"
| "show_parse_error (InvalidHunkError m n) = lit ''invalid hunk at line '' @ show_nat n @ lit '', '' @ m"

fun apply_error_message :: "apply_patch_error \<Rightarrow> rstring" where
  \<comment> \<open>the message itself for \<open>ComputeReplacements\<close>, \<open>to_string()\<close> for the others\<close>
  "apply_error_message (ComputeReplacements msg) = msg"
| "apply_error_message (ParseFailed e) = show_parse_error e"
| "apply_error_message (IoFailed context message _) = context @ lit '': '' @ message"

definition read_file_as_string :: "'s async_fs \<Rightarrow> 's \<Rightarrow> rstring \<Rightarrow> (rstring, rstring) result" where
  "read_file_as_string fs s path = read_file fs s path"

definition change_of :: "rstring \<Rightarrow> 's async_fs \<Rightarrow> 's \<Rightarrow> hunk \<Rightarrow> (file_change, rstring) result option" where
  \<comment> \<open>one turn of the loop of \<open>compute_all_changes\<close>; \<open>None\<close> is a panic\<close>
  "change_of cwd fs s h = (case h of
     AddFile path contents \<Rightarrow> Some (Inr (ChangeAdd (path_join cwd path) contents))
   | DeleteFile path \<Rightarrow>
       let resolved = path_join cwd path in
       (case read_file_as_string fs s resolved of
          Inl e \<Rightarrow> Some (Inl (lit ''Failed to read file: '' @ resolved @ lit '', '' @ e))
        | Inr original_content \<Rightarrow> Some (Inr (ChangeDelete resolved original_content)))
   | UpdateFile path move_path chunks \<Rightarrow>
       let resolved = path_join cwd path in
       (case read_file_as_string fs s resolved of
          Inl e \<Rightarrow> Some (Inl (lit ''Failed to read file to update: '' @ resolved @ lit '', '' @ e))
        | Inr original_content \<Rightarrow>
            (case derive_new_contents original_content resolved chunks of
               None \<Rightarrow> None
             | Some (Inl e) \<Rightarrow> Some (Inl (apply_error_message e))
             | Some (Inr new_content) \<Rightarrow> Some (Inr (case move_path of
                   Some dest \<Rightarrow> ChangeMove resolved (path_join cwd dest) original_content new_content
                 | None \<Rightarrow> ChangeUpdate resolved original_content new_content)))))"

fun compute_all_changes ::
  "rstring \<Rightarrow> 's async_fs \<Rightarrow> 's \<Rightarrow> hunk list \<Rightarrow> (file_change list, rstring) result option" where
  "compute_all_changes cwd fs s [] = Some (Inr [])"
| "compute_all_changes cwd fs s (h # hs) = (case change_of cwd fs s h of
     None \<Rightarrow> None
   | Some (Inl e) \<Rightarrow> Some (Inl e)
   | Some (Inr c) \<Rightarrow> (case compute_all_changes cwd fs s hs of
       None \<Rightarrow> None
     | Some (Inl e) \<Rightarrow> Some (Inl e)
     | Some (Inr cs) \<Rightarrow> Some (Inr (c # cs))))"

definition action_letter :: "rstring \<Rightarrow> rstring" where
  "action_letter action = (if action = lit ''added'' then lit ''A''
     else if action = lit ''deleted'' then lit ''D''
     else if action = lit ''moved'' then lit ''M'' else lit ''M'')"

definition build_summary :: "file_result list \<Rightarrow> rstring" where
  "build_summary results = lit ''Success. Updated the following files:'' @ [NL] @
     concat (map (\<lambda>r. action_letter (fr_action r) @ lit '' '' @ fr_path r @ [NL]) results)"

definition written :: "rstring \<Rightarrow> rstring \<Rightarrow> rstring \<Rightarrow> rstring option \<Rightarrow> bool \<Rightarrow> file_written" where
  "written call_id path content previous is_new = \<lparr>fw_tool_call_id = call_id, fw_absolute_path = path,
     fw_content = content, fw_previous_content = previous, fw_is_new_file = is_new\<rparr>"

fun change_notes :: "rstring \<Rightarrow> file_change \<Rightarrow> file_written list" where
  "change_notes call_id (ChangeAdd path content) = [written call_id path content None True]"
| "change_notes call_id (ChangeDelete path original) = [written call_id path [] (Some original) False]"
| "change_notes call_id (ChangeUpdate path original new) = [written call_id path new (Some original) False]"
| "change_notes call_id (ChangeMove src dest original new) =
     [written call_id dest new None True, written call_id src [] (Some original) False]"

fun change_result :: "file_change \<Rightarrow> file_result" where
  "change_result (ChangeAdd path content) = \<lparr>fr_path = path, fr_action = lit ''added'',
     fr_old_text = None, fr_new_text = content, fr_move_to = None\<rparr>"
| "change_result (ChangeDelete path original) = \<lparr>fr_path = path, fr_action = lit ''deleted'',
     fr_old_text = Some original, fr_new_text = [], fr_move_to = None\<rparr>"
| "change_result (ChangeUpdate path original new) = \<lparr>fr_path = path, fr_action = lit ''modified'',
     fr_old_text = Some original, fr_new_text = new, fr_move_to = None\<rparr>"
| "change_result (ChangeMove src dest original new) = \<lparr>fr_path = src, fr_action = lit ''moved'',
     fr_old_text = Some original, fr_new_text = new, fr_move_to = Some dest\<rparr>"

definition and_then ::
  "(unit, rstring) result \<times> 's \<Rightarrow> ('s \<Rightarrow> (unit, rstring) result \<times> 's) \<Rightarrow> (unit, rstring) result \<times> 's" where
  \<comment> \<open>\<open>a.await?; b.await?\<close>\<close>
  "and_then a k = (case a of (Inl e, s) \<Rightarrow> (Inl e, s) | (Inr _, s) \<Rightarrow> k s)"

fun write_change :: "'s async_fs \<Rightarrow> file_change \<Rightarrow> 's \<Rightarrow> (unit, rstring) result \<times> 's" where
  "write_change fs (ChangeAdd path content) s =
     and_then (ensure_parent_dirs fs path s) (write_file fs path content)"
| "write_change fs (ChangeDelete path _) s = delete_file fs path s"
| "write_change fs (ChangeUpdate path _ new) s = write_file fs path new s"
| "write_change fs (ChangeMove src dest _ new) s =
     and_then (ensure_parent_dirs fs dest s) (\<lambda>s. and_then (write_file fs dest new s) (delete_file fs src))"

fun write_changes ::
  "'s async_fs \<Rightarrow> rstring \<Rightarrow> file_change list \<Rightarrow> file_written list \<Rightarrow> file_result list \<Rightarrow> 's \<Rightarrow>
     (file_result list, rstring) result \<times> file_written list \<times> 's" where
  \<comment> \<open>phase 3: a failing operation returns at once, with what was written so far left in place\<close>
  "write_changes fs call_id [] notes results s = (Inr results, notes, s)"
| "write_changes fs call_id (c # cs) notes results s = (case write_change fs c s of
     (Inl e, s') \<Rightarrow> (Inl e, notes, s')
   | (Inr _, s') \<Rightarrow>
       write_changes fs call_id cs (notes @ change_notes call_id c) (results @ [change_result c]) s')"

definition parse_error_output :: "parse_error \<Rightarrow> rstring" where
  "parse_error_output e = (case e of
     InvalidPatchError m \<Rightarrow> lit ''Invalid patch: '' @ m
   | InvalidHunkError message line_number \<Rightarrow>
       lit ''Invalid patch hunk on line '' @ show_nat line_number @ lit '': '' @ message)"

definition apply_patch_run ::
  "'s async_fs \<Rightarrow> rstring \<Rightarrow> rstring \<Rightarrow> rstring \<Rightarrow> 's \<Rightarrow>
     ((apply_patch_output, rstring) result \<times> file_written list \<times> 's) option" where
  \<comment> \<open>\<open>run\<close>: \<open>Inl\<close> is a \<open>ToolError\<close>, \<open>None\<close> a panic\<close>
  "apply_patch_run fs cwd call_id input s = (case parse_patch input of
     Inl e \<Rightarrow> Some (Inr (PatchParseError (parse_error_output e)), [], s)
   | Inr parsed \<Rightarrow>
       if hunks parsed = [] then Some (Inr (PatchEmpty (lit ''No files were modified.'')), [], s)
       else (case compute_all_changes cwd fs s (hunks parsed) of
         None \<Rightarrow> None
       | Some (Inl msg) \<Rightarrow> Some (Inr (PatchApplicationError msg), [], s)
       | Some (Inr changes) \<Rightarrow> (case write_changes fs call_id changes [] [] s of
           (Inl e, notes, s') \<Rightarrow> Some (Inl e, notes, s')
         | (Inr results, notes, s') \<Rightarrow>
             Some (Inr (PatchSuccess results (build_summary results)), notes, s'))))"

section \<open>What the tool relies on\<close>

text \<open>
  The contract of a file system as the tool sees it: \<open>view\<close> is the map from paths to contents;
  a read that succeeds reports it, a write or delete that succeeds updates it at one path, a
  failed write or delete is free to change that path only, and creating directories changes no file.
\<close>

locale file_store =
  fixes fs :: "'s async_fs" and view :: "'s \<Rightarrow> disk"
  assumes read_ok: "read_file fs s p = Inr t \<Longrightarrow> view s p = Some t"
    and write_ok: "write_file fs p t s = (Inr u, s') \<Longrightarrow> view s' = (view s)(p \<mapsto> t)"
    and delete_ok: "delete_file fs p s = (Inr u, s') \<Longrightarrow> view s' = (view s)(p := None)"
    and write_frame: "q \<noteq> p \<Longrightarrow> view (snd (write_file fs p t s)) q = view s q"
    and delete_frame: "q \<noteq> p \<Longrightarrow> view (snd (delete_file fs p s)) q = view s q"
    and mkdir_view: "view (snd (create_dir_all fs d s)) = view s"

interpretation mock: file_store mock_fs "\<lambda>files. files"
  by unfold_locales
     (auto simp: mock_fs_def mock_read_file_def mock_write_file_def mock_delete_file_def
           split: option.splits)

fun change_effect :: "file_change \<Rightarrow> disk \<Rightarrow> disk" where
  "change_effect (ChangeAdd p c) m = m(p \<mapsto> c)"
| "change_effect (ChangeDelete p _) m = m(p := None)"
| "change_effect (ChangeUpdate p _ n) m = m(p \<mapsto> n)"
| "change_effect (ChangeMove src dest _ n) m = (m(dest \<mapsto> n))(src := None)"

fun touched :: "file_change \<Rightarrow> rstring list" where
  "touched (ChangeAdd p _) = [p]"
| "touched (ChangeDelete p _) = [p]"
| "touched (ChangeUpdate p _ _) = [p]"
| "touched (ChangeMove src dest _ _) = [dest, src]"

fun originals :: "file_change \<Rightarrow> (rstring \<times> rstring) list" where
  \<comment> \<open>the contents the change claims to have read\<close>
  "originals (ChangeAdd _ _) = []"
| "originals (ChangeDelete p t) = [(p, t)]"
| "originals (ChangeUpdate p t _) = [(p, t)]"
| "originals (ChangeMove src _ t _) = [(src, t)]"

fun created :: "file_change \<Rightarrow> rstring list" where
  "created (ChangeAdd p _) = [p]"
| "created (ChangeMove _ dest _ _) = [dest]"
| "created _ = []"

lemma and_then_ok:
  assumes "and_then a k = (Inr u, s')"
  obtains v s where "a = (Inr v, s)" and "k s = (Inr u, s')"
  using assms by (auto simp: and_then_def split: prod.splits sum.splits)

lemma change_effect_frame: "q \<notin> set (touched c) \<Longrightarrow> change_effect c m q = m q"
  by (cases c) auto

lemma fold_effect_frame:
  "q \<notin> (\<Union>c \<in> set cs. set (touched c)) \<Longrightarrow> fold change_effect cs m q = m q"
  by (induction cs arbitrary: m) (auto simp: change_effect_frame)

context file_store
begin

lemma ensure_parent_dirs_view: "view (snd (ensure_parent_dirs fs p s)) = view s"
  by (auto simp: ensure_parent_dirs_def mkdir_view split: option.splits)

lemma ensure_parent_dirs_ok: "ensure_parent_dirs fs p s = (r, s') \<Longrightarrow> view s' = view s"
  using ensure_parent_dirs_view [of p s] by simp

lemma write_change_ok:
  "write_change fs c s = (Inr u, s') \<Longrightarrow> view s' = change_effect c (view s)"
  by (cases c) (auto dest!: write_ok delete_ok ensure_parent_dirs_ok elim!: and_then_ok)

lemma write_change_frame:
  "q \<notin> set (touched c) \<Longrightarrow> view (snd (write_change fs c s)) q = view s q"
proof (cases c)
  case (ChangeAdd p t)
  assume "q \<notin> set (touched c)"
  with ChangeAdd show ?thesis
    by (auto simp: and_then_def write_frame split: prod.splits sum.splits dest!: ensure_parent_dirs_ok)
next
  case (ChangeMove src dest t n)
  assume q: "q \<notin> set (touched c)"
  have "view (snd (and_then (write_file fs dest n s1) (delete_file fs src))) q = view s1 q" for s1
    using q ChangeMove write_frame [of q dest n s1] delete_frame [of q src]
    by (auto simp: and_then_def split: prod.splits sum.splits)
  with ChangeMove show ?thesis
    by (auto simp: and_then_def [of "ensure_parent_dirs fs dest s"] split: prod.splits sum.splits
        dest!: ensure_parent_dirs_ok)
qed (auto simp: write_frame delete_frame)

lemma write_changes_ok:
  assumes "write_changes fs call_id cs notes results s = (Inr out, notes', s')"
  shows "out = results @ map change_result cs \<and> notes' = notes @ concat (map (change_notes call_id) cs) \<and>
         view s' = fold change_effect cs (view s)"
  using assms
proof (induction cs arbitrary: "notes" results s)
  case (Cons c cs)
  then obtain u s1 where c: "write_change fs c s = (Inr u, s1)"
    by (auto split: prod.splits sum.splits)
  with Cons show ?case by (fastforce simp: write_change_ok)
qed simp

text \<open>A failure while writing leaves the earlier changes in place and touches no later file.\<close>

lemma write_changes_failed:
  assumes "write_changes fs call_id cs notes results s = (Inl e, notes', s')"
  shows "\<exists>pre c post. cs = pre @ c # post \<and> notes' = notes @ concat (map (change_notes call_id) pre) \<and>
     (\<forall>q. q \<notin> set (touched c) \<longrightarrow> view s' q = fold change_effect pre (view s) q)"
  using assms
proof (induction cs arbitrary: "notes" results s)
  case (Cons c cs)
  show ?case
  proof (cases "write_change fs c s")
    case (Pair r s1)
    show ?thesis
    proof (cases r)
      case (Inl e')
      with Pair Cons.prems have "notes' = notes" and "s' = s1" by auto
      moreover have "view s1 q = view s q" if "q \<notin> set (touched c)" for q
        using write_change_frame [OF that, of s] Pair by simp
      ultimately show ?thesis by (auto intro!: exI [of _ "[]"])
    next
      case (Inr u)
      with Pair Cons.prems have
        "write_changes fs call_id cs (notes @ change_notes call_id c) (results @ [change_result c]) s1 = (Inl e, notes', s')"
        by simp
      from Cons.IH [OF this] obtain pre d post where
        "cs = pre @ d # post" "notes' = (notes @ change_notes call_id c) @ concat (map (change_notes call_id) pre)"
        "\<forall>q. q \<notin> set (touched d) \<longrightarrow> view s' q = fold change_effect pre (view s1) q" by blast
      with write_change_ok [of c s u s1] Pair Inr show ?thesis
        by (intro exI [of _ "c # pre"] exI [of _ d] exI [of _ post]) simp
    qed
  qed
qed simp

lemma change_of_reads:
  assumes "change_of cwd fs s h = Some (Inr c)" and "(p, t) \<in> set (originals c)"
  shows "view s p = Some t"
  using assms
  by (cases h) (auto simp: change_of_def Let_def read_file_as_string_def read_ok
                     split: sum.splits option.splits)

lemma compute_all_changes_reads:
  assumes "compute_all_changes cwd fs s hs = Some (Inr cs)"
  shows "\<forall>c \<in> set cs. \<forall>(p, t) \<in> set (originals c). view s p = Some t"
  using assms
proof (induction hs arbitrary: cs)
  case (Cons h hs)
  from Cons.prems obtain c cs' where c: "change_of cwd fs s h = Some (Inr c)" "cs = c # cs'"
    "compute_all_changes cwd fs s hs = Some (Inr cs')"
    by (auto split: option.splits sum.splits)
  with Cons.IH [OF c(3)] change_of_reads [OF c(1)] show ?case by auto
qed simp

end

lemma change_of_total: "change_of cwd fs s h \<noteq> None"
proof -
  have derive: "derive_new_contents content path chunks \<noteq> None" for content path chunks
    using apply_computed by (auto simp: derive_new_contents_def Let_def split: sum.splits)
  show ?thesis
    by (simp add: change_of_def Let_def derive del: not_None_eq
        split: hunk.splits sum.splits option.splits)
qed

lemma compute_all_changes_total: "compute_all_changes cwd fs s hs \<noteq> None"
proof (induction hs)
  case (Cons h hs)
  then obtain r where "compute_all_changes cwd fs s hs = Some r" by auto
  with change_of_total [of cwd fs s h] show ?case by (auto split: sum.splits)
qed simp

section \<open>Properties of a run\<close>

text \<open>
  The cases of a run, for the properties below: nothing was written, or all changes were
  computed from the initial state and the write phase followed.
\<close>

lemma apply_patch_run_phases:
  obtains out where "apply_patch_run fs cwd call_id input s = Some (Inr out, [], s)"
      "\<And>results summary. out \<noteq> PatchSuccess results summary"
    | parsed changes r "notes" s' where "parse_patch input = Inr parsed"
      "compute_all_changes cwd fs s (hunks parsed) = Some (Inr changes)"
      "write_changes fs call_id changes [] [] s = (r, notes, s')"
      "apply_patch_run fs cwd call_id input s =
         Some (map_sum id (\<lambda>results. PatchSuccess results (build_summary results)) r, notes, s')"
proof (cases "parse_patch input")
  case (Inl e)
  then show ?thesis using that(1) by (simp add: apply_patch_run_def)
next
  case (Inr parsed)
  show ?thesis
  proof (cases "hunks parsed = []")
    case True
    with Inr show ?thesis using that(1) by (simp add: apply_patch_run_def)
  next
    case ne: False
    obtain c where c: "compute_all_changes cwd fs s (hunks parsed) = Some c"
      using compute_all_changes_total [of cwd fs s "hunks parsed"] by auto
    show ?thesis
    proof (cases c)
      case (Inl msg)
      with Inr ne c show ?thesis using that(1) by (simp add: apply_patch_run_def)
    next
      case ch: (Inr changes)
      obtain r "notes" s' where w: "write_changes fs call_id changes [] [] s = (r, notes, s')"
        by (metis prod_cases3)
      with Inr ne c ch have "apply_patch_run fs cwd call_id input s =
          Some (map_sum id (\<lambda>results. PatchSuccess results (build_summary results)) r, notes, s')"
        by (cases r) (simp_all add: apply_patch_run_def)
      with Inr c ch w show ?thesis using that(2) by blast
    qed
  qed
qed

lemma apply_patch_run_success:
  assumes "apply_patch_run fs cwd call_id input s = Some (Inr (PatchSuccess results summary), notes, s')"
  obtains parsed changes where "parse_patch input = Inr parsed"
    "compute_all_changes cwd fs s (hunks parsed) = Some (Inr changes)"
    "write_changes fs call_id changes [] [] s = (Inr results, notes, s')"
proof (rule apply_patch_run_phases [of fs cwd call_id input s])
  fix parsed changes r ns t
  assume p: "parse_patch input = Inr parsed"
    and c: "compute_all_changes cwd fs s (hunks parsed) = Some (Inr changes)"
    and w: "write_changes fs call_id changes [] [] s = (r, ns, t)"
    and "apply_patch_run fs cwd call_id input s =
         Some (map_sum id (\<lambda>results. PatchSuccess results (build_summary results)) r, ns, t)"
  with assms have "r = Inr results" "ns = notes" "t = s'" by (cases r; simp)+
  with p c w that show thesis by blast
qed (use assms in auto)


definition sample_patch :: rstring where
  "sample_patch = join [NL] (map lit [''*** Begin Patch'', ''*** Update File: a'', ''*** Move to: d/e'',
     ''@@'', ''-b'', ''+c'', ''*** End Patch''])"

definition sample_disk :: disk where
  "sample_disk = [lit ''/w/a'' \<mapsto> lit ''b'' @ [NL]]"

lemma sample_run:
  "case apply_patch_run mock_fs (lit ''/w'') [] sample_patch sample_disk of
     Some (Inr (PatchSuccess results summary), notes, s') \<Rightarrow>
       s' (lit ''/w/a'') = None \<and> s' (lit ''/w/d/e'') = Some (lit ''c'' @ [NL]) \<and>
       list_all (\<lambda>n. \<not> fw_is_new_file n \<or> sample_disk (fw_absolute_path n) = None) notes
   | _ \<Rightarrow> False"
  by code_simp

lemma sample_success:
  obtains results summary "notes" s' where
    "apply_patch_run mock_fs (lit ''/w'') [] sample_patch sample_disk =
       Some (Inr (PatchSuccess results summary), notes, s')"
    "s' (lit ''/w/a'') = None" "s' (lit ''/w/d/e'') = Some (lit ''c'' @ [NL])"
    "\<forall>n \<in> set notes. fw_is_new_file n \<longrightarrow> sample_disk (fw_absolute_path n) = None"
proof (cases "apply_patch_run mock_fs (lit ''/w'') [] sample_patch sample_disk")
  case None
  with sample_run show ?thesis by simp
next
  case (Some t)
  obtain r ns s' where t: "t = (r, ns, s')" by (metis prod_cases3)
  show ?thesis
  proof (cases r)
    case (Inr out)
    show ?thesis
    proof (cases out)
      case (PatchSuccess results summary)
      from sample_run [unfolded Some t Inr PatchSuccess] have
        a: "s' (lit ''/w/a'') = None" and b: "s' (lit ''/w/d/e'') = Some (lit ''c'' @ [NL])"
        and n: "list_all (\<lambda>n. \<not> fw_is_new_file n \<or> sample_disk (fw_absolute_path n) = None) ns"
        by simp_all
      have "\<forall>n \<in> set ns. fw_is_new_file n \<longrightarrow> sample_disk (fw_absolute_path n) = None"
        using n by (auto simp: list_all_iff)
      from that [OF Some [unfolded t Inr PatchSuccess] a b this] show ?thesis .
    qed (use sample_run [unfolded Some t Inr] in simp_all)
  qed (use sample_run [unfolded Some t] in simp)
qed


text \<open>
  Undoing a run from its notifications: \<open>FileWritten\<close> documents \<open>previous_content\<close> as what a
  consumer restores on rewind, with \<open>None\<close> for a file that did not exist.
\<close>

definition undo_note :: "file_written \<Rightarrow> disk \<Rightarrow> disk" where
  "undo_note n m = m(fw_absolute_path n := fw_previous_content n)"

lemma undo_notes_eq:
  assumes "\<forall>n \<in> set ns. fw_previous_content n = m0 (fw_absolute_path n)"
  shows "foldr undo_note ns m q = (if q \<in> fw_absolute_path ` set ns then m0 q else m q)"
  using assms by (induction ns) (auto simp: undo_note_def)

lemma change_notes_paths: "fw_absolute_path ` set (change_notes call_id c) = set (touched c)"
  by (cases c) (auto simp: written_def)

lemma change_notes_previous:
  assumes "n \<in> set (change_notes call_id c)" and "\<forall>p \<in> set (created c). m p = None"
    and "\<forall>(p, t) \<in> set (originals c). m p = Some t"
  shows "fw_previous_content n = m (fw_absolute_path n)"
  using assms by (cases c) (auto simp: written_def)



fun change_done :: "file_change \<Rightarrow> disk \<Rightarrow> bool" where
  "change_done (ChangeAdd p c) m \<longleftrightarrow> m p = Some c"
| "change_done (ChangeDelete p _) m \<longleftrightarrow> m p = None"
| "change_done (ChangeUpdate p _ n) m \<longleftrightarrow> m p = Some n"
| "change_done (ChangeMove src dest _ n) m \<longleftrightarrow> m src = None \<and> m dest = Some n"

lemma change_done_effect: "distinct (touched c) \<Longrightarrow> change_done c (change_effect c m)"
  by (cases c) auto

lemma change_done_cong: "(\<And>q. q \<in> set (touched c) \<Longrightarrow> m q = m' q) \<Longrightarrow> change_done c m = change_done c m'"
  by (cases c) auto

lemma fold_effect_done:
  assumes "distinct (concat (map touched cs))" and "c \<in> set cs"
  shows "change_done c (fold change_effect cs m)"
  using assms
proof (induction cs arbitrary: m)
  case (Cons d cs)
  show ?case
  proof (cases "c \<in> set cs")
    case True
    with Cons show ?thesis by simp
  next
    case False
    with Cons.prems have c: "c = d" by simp
    have "fold change_effect cs (change_effect c m) q = change_effect c m q" if "q \<in> set (touched c)" for q
      using Cons.prems(1) that c by (intro fold_effect_frame) auto
    from change_done_cong [OF this] have
      "change_done c (fold change_effect cs (change_effect c m)) = change_done c (change_effect c m)" .
    moreover have "change_done c (change_effect c m)"
      using Cons.prems(1) c by (intro change_done_effect) simp
    ultimately show ?thesis by (simp add: c)
  qed
qed simp

text \<open>
  Hunks that name distinct files do what they say: when no path is touched twice, after a
  success every added file has its contents, every deleted file is gone, every updated file has
  the contents derived from its old ones, every moved file is at its destination only, and every
  path no hunk names is as before.
\<close>

theorem apply_patch_distinct_files:
  assumes "file_store fs view"
    and "apply_patch_run fs cwd call_id input s = Some (Inr (PatchSuccess results summary), notes, s')"
    and "distinct (map fw_absolute_path notes)"
  shows "\<exists>parsed changes. parse_patch input = Inr parsed \<and>
    compute_all_changes cwd fs s (hunks parsed) = Some (Inr changes) \<and>
    (\<forall>c \<in> set changes. change_done c (view s') \<and> (\<forall>(p, t) \<in> set (originals c). view s p = Some t)) \<and>
    (\<forall>q. q \<in> fw_absolute_path ` set notes \<or> view s' q = view s q)"
proof -
  from assms(2) obtain parsed changes where
    p: "parse_patch input = Inr parsed" and
    c: "compute_all_changes cwd fs s (hunks parsed) = Some (Inr changes)" and
    w: "write_changes fs call_id changes [] [] s = (Inr results, notes, s')"
    by (rule apply_patch_run_success)
  from file_store.write_changes_ok [OF assms(1) w]
  have notes_eq: "notes = concat (map (change_notes call_id) changes)"
    and v: "view s' = fold change_effect changes (view s)" by auto
  have paths: "map fw_absolute_path (change_notes call_id x) = touched x" for x
    by (cases x) (simp_all add: written_def)
  then have m: "map fw_absolute_path notes = concat (map touched changes)"
    by (simp add: notes_eq map_concat o_def)
  have dist: "distinct (concat (map touched changes))"
    using assms(3) unfolding m .
  have img: "fw_absolute_path ` set notes = (\<Union>c \<in> set changes. set (touched c))"
    by (simp add: notes_eq image_UN change_notes_paths)
  have "\<forall>x \<in> set changes. change_done x (view s')"
    using fold_effect_done [OF dist] v by simp
  moreover have "\<forall>q. q \<in> fw_absolute_path ` set notes \<or> view s' q = view s q"
    unfolding img v using fold_effect_frame by blast
  moreover note file_store.compute_all_changes_reads [OF assms(1) c]
  ultimately show ?thesis using p c by blast
qed

theorem apply_patch_distinct_files_witness:
  "\<exists>results summary notes s'. apply_patch_run mock_fs (lit ''/w'') [] sample_patch sample_disk =
       Some (Inr (PatchSuccess results summary), notes, s') \<and> distinct (map fw_absolute_path notes) \<and>
     (\<forall>q. q \<in> fw_absolute_path ` set notes \<or> s' q = sample_disk q)"
proof -
  obtain results summary "notes" s' where
    run: "apply_patch_run mock_fs (lit ''/w'') [] sample_patch sample_disk =
       Some (Inr (PatchSuccess results summary), notes, s')"
    by (rule sample_success)
  have "case apply_patch_run mock_fs (lit ''/w'') [] sample_patch sample_disk of
      None \<Rightarrow> False | Some (_, ns, _) \<Rightarrow> distinct (map fw_absolute_path ns)" by code_simp
  with run have "distinct (map fw_absolute_path notes)" by simp
  with apply_patch_distinct_files [OF mock.file_store_axioms run] run show ?thesis by blast
qed

section \<open>Hunks that share a file\<close>

text \<open>
  Since every change is computed from the files before the run and written afterwards, hunks of
  one patch do not see each other.  A second update of the same file discards the first one, a
  file moved onto itself is written and then deleted, and a file added over an existing
  one is announced as new, without its previous contents.
\<close>

definition run_on_sample :: "string list \<Rightarrow> (file_written list \<times> disk) option" where
  "run_on_sample ls = (case apply_patch_run mock_fs (lit ''/w'') [] (join [NL] (map lit ls))
        [lit ''/w/a'' \<mapsto> lit ''b'' @ [NL] @ lit ''c'' @ [NL]] of
     Some (Inr (PatchSuccess _ _), notes, s') \<Rightarrow> Some (notes, s') | _ \<Rightarrow> None)"

lemma second_update_discards_first:
  "case run_on_sample [''*** Begin Patch'', ''*** Update File: a'', ''@@'', ''-b'', ''+x'',
     ''*** Update File: a'', ''@@'', ''-c'', ''+y'', ''*** End Patch''] of
     None \<Rightarrow> False | Some (notes, m) \<Rightarrow> m (lit ''/w/a'') = Some (lit ''b'' @ [NL] @ lit ''y'' @ [NL])"
  by code_simp

lemma self_move_deletes:
  "case run_on_sample [''*** Begin Patch'', ''*** Update File: a'', ''*** Move to: a'', ''@@'', ''-b'', ''+x'',
     ''*** End Patch''] of
     None \<Rightarrow> False | Some (notes, m) \<Rightarrow> m (lit ''/w/a'') = None"
  by code_simp

lemma add_over_existing_not_rewindable:
  "case run_on_sample [''*** Begin Patch'', ''*** Add File: a'', ''+x'', ''*** End Patch''] of
     None \<Rightarrow> False
   | Some (notes, m) \<Rightarrow> foldr undo_note notes m (lit ''/w/a'') = None \<and>
       list_all (\<lambda>n. fw_is_new_file n \<and> fw_previous_content n = None) notes"
  by code_simp

end
