(* ===== verification/Permission_Rules.thy ===== *)
theory Permission_Rules
  imports Rust_Strings
begin

text \<open>
  Permission rules (\<open>xai-grok-workspace/src/permission/types.rs\<close> and \<open>rules.rs\<close>): the rule
  data, the default modes, and the parser of rule strings such as \<open>Bash(git push:*)\<close> with its
  escape-aware parentheses.  Byte positions of the source are character positions here: every
  byte the parser looks for is an ASCII character.
\<close>

section \<open>Data\<close>

datatype rule_action = Allow | Deny | Ask

datatype tool_filter = AnyTool | BashTool | EditTool | ReadTool | GrepTool | McpTool | WebFetchTool
  | WebSearchTool | AgentMessageTool

datatype pattern_mode = Glob | Domain

record permission_rule =
  action :: rule_action
  tool :: tool_filter
  pattern :: "rstring option"
  pattern_mode :: pattern_mode

datatype prompt_policy = PromptAsk | PromptDeny | PromptAuto | PromptAllow

record permission_config =
  rules :: "permission_rule list"
  prompt_policy :: prompt_policy
  default_mode_configured :: bool

definition config_of_rules :: "permission_rule list \<Rightarrow> permission_config" where
  "config_of_rules rs = \<lparr>rules = rs, prompt_policy = PromptAsk, default_mode_configured = False\<rparr>"

datatype default_permission_mode = ModeDefault | AcceptEdits | Plan | Auto | DontAsk | BypassPermissions

definition mode_from_str :: "rstring \<Rightarrow> (default_permission_mode, rstring) result" where
  "mode_from_str s =
     (if s = lit ''default'' then Inr ModeDefault
      else if s = lit ''acceptEdits'' then Inr AcceptEdits
      else if s = lit ''plan'' then Inr Plan
      else if s = lit ''auto'' then Inr Auto
      else if s = lit ''dontAsk'' then Inr DontAsk
      else if s = lit ''bypassPermissions'' then Inr BypassPermissions
      else Inl s)"

record default_mode_effects =
  effect_prompt_policy :: prompt_policy
  accept_edits :: bool
  bypass_permissions :: bool

definition no_effects :: default_mode_effects where
  "no_effects = \<lparr>effect_prompt_policy = PromptAsk, accept_edits = False, bypass_permissions = False\<rparr>"

fun effects :: "default_permission_mode \<Rightarrow> default_mode_effects" where
  "effects AcceptEdits = no_effects\<lparr>accept_edits := True\<rparr>"
| "effects BypassPermissions = no_effects\<lparr>bypass_permissions := True\<rparr>"
| "effects DontAsk = no_effects\<lparr>effect_prompt_policy := PromptDeny\<rparr>"
| "effects Auto = no_effects\<lparr>effect_prompt_policy := PromptAuto\<rparr>"
| "effects ModeDefault = no_effects"
| "effects Plan = no_effects"

datatype rule_parse_error =
    UnsupportedToolPrefix rstring
  | UnknownToolPrefix rstring
  | MalformedRule rstring

section \<open>The rule parser\<close>

abbreviation (input) BACKSLASH :: rchar where "BACKSLASH \<equiv> 92"
abbreviation (input) LPAREN :: rchar where "LPAREN \<equiv> 40"
abbreviation (input) RPAREN :: rchar where "RPAREN \<equiv> 41"

primrec backslashes_before :: "rstring \<Rightarrow> nat \<Rightarrow> nat" where
  \<comment> \<open>\<open>while j > 0 && bytes[j - 1] == b'\\' { backslashes += 1; j -= 1; }\<close>\<close>
  "backslashes_before s 0 = 0"
| "backslashes_before s (Suc j) = (if s ! j = BACKSLASH then Suc (backslashes_before s j) else 0)"

definition is_unescaped :: "rstring \<Rightarrow> nat \<Rightarrow> bool" where
  "is_unescaped s pos = even (backslashes_before s pos)"

definition find_first_unescaped :: "rstring \<Rightarrow> rchar \<Rightarrow> nat option" where
  "find_first_unescaped s target = find_from (\<lambda>i. s ! i = target \<and> is_unescaped s i) 0 (length s)"

definition find_last_unescaped :: "rstring \<Rightarrow> rchar \<Rightarrow> nat option" where
  "find_last_unescaped s target = List.find (\<lambda>i. s ! i = target \<and> is_unescaped s i) (rev [0..<length s])"

fun replace_pair :: "rchar \<Rightarrow> rchar \<Rightarrow> rstring \<Rightarrow> rstring \<Rightarrow> rstring" where
  \<comment> \<open>\<open>s.replace(from, to)\<close> for a two-character \<open>from\<close>: left to right, without overlaps\<close>
  "replace_pair a b to (x # y # s) =
     (if x = a \<and> y = b then to @ replace_pair a b to s else x # replace_pair a b to (y # s))"
| "replace_pair a b to s = s"

definition unescape_rule_content :: "rstring \<Rightarrow> rstring" where
  "unescape_rule_content s =
     (if BACKSLASH \<notin> set s then s
      else replace_pair BACKSLASH BACKSLASH [BACKSLASH]
             (replace_pair BACKSLASH RPAREN [RPAREN] (replace_pair BACKSLASH LPAREN [LPAREN] s)))"

definition tool_name_to_filter :: "rstring \<Rightarrow> tool_filter option" where
  "tool_name_to_filter name =
     (if name = lit ''Bash'' then Some BashTool
      else if name = lit ''Read'' then Some ReadTool
      else if name = lit ''Edit'' \<or> name = lit ''Write'' then Some EditTool
      else if name = lit ''MCPTool'' then Some McpTool
      else if name = lit ''Grep'' \<or> name = lit ''Glob'' then Some GrepTool
      else if name = lit ''WebFetch'' then Some WebFetchTool
      else if name = lit ''WebSearch'' then Some WebSearchTool
      else if name = lit ''AgentMessage'' \<or> name = lit ''SendSubagentMessage'' \<or>
              name = lit ''SendAgentMessage'' then Some AgentMessageTool
      else None)"

definition is_unsupported_prefix :: "rstring \<Rightarrow> bool" where
  "is_unsupported_prefix name \<longleftrightarrow>
     name = lit ''EnterWorktree'' \<or> name = lit ''NotebookEdit'' \<or> name = lit ''NotebookRead''"

definition strip_domain_prefix :: "rstring \<Rightarrow> rstring \<times> pattern_mode" where
  "strip_domain_prefix p = (case strip_prefix p (lit ''domain:'') of
     Some domain \<Rightarrow> (domain, Domain) | None \<Rightarrow> (p, Glob))"

definition strip_bash_colon_wildcard :: "rstring \<Rightarrow> rstring" where
  "strip_bash_colon_wildcard p = (case strip_suffix p (lit '':*'') of Some q \<Rightarrow> q | None \<Rightarrow> p)"

fun contains_pair :: "rchar \<Rightarrow> rchar \<Rightarrow> rstring \<Rightarrow> bool" where
  "contains_pair a b (x # y # s) \<longleftrightarrow> x = a \<and> y = b \<or> contains_pair a b (y # s)"
| "contains_pair a b s \<longleftrightarrow> False"

definition mcp_rule_pattern :: "rstring \<Rightarrow> rstring option" where
  "mcp_rule_pattern rest = (if rest = lit ''*'' then None
     else if contains_pair 95 95 rest then Some rest else Some (rest @ lit ''__*''))"

definition parse_permission_rule ::
  "rstring \<Rightarrow> rule_action \<Rightarrow> (permission_rule, rule_parse_error) result" where
  "parse_permission_rule rule0 act =
     (let rule = trim rule0 in
      case find_first_unescaped rule LPAREN of
        Some open_paren \<Rightarrow>
          let prefix_trimmed = trim (take open_paren rule);
              content_and_close = drop (open_paren + 1) rule in
          (case find_last_unescaped content_and_close RPAREN of
             None \<Rightarrow> Inl (MalformedRule (lit ''missing closing parenthesis''))
           | Some close_paren \<Rightarrow>
               let raw_content = trim (take close_paren content_and_close);
                   pat = (if raw_content = [] \<or> raw_content = lit ''*'' then []
                          else unescape_rule_content raw_content) in
               (case tool_name_to_filter prefix_trimmed of
                  None \<Rightarrow> Inl (if is_unsupported_prefix prefix_trimmed
                               then UnsupportedToolPrefix prefix_trimmed
                               else UnknownToolPrefix prefix_trimmed)
                | Some t \<Rightarrow>
                    let pat = (if t = BashTool then strip_bash_colon_wildcard pat else pat);
                        (pat, mode) = strip_domain_prefix pat in
                    Inr \<lparr>action = act, tool = t, pattern = (if pat = [] then None else Some pat),
                         pattern_mode = mode\<rparr>))
      | None \<Rightarrow>
          if is_unsupported_prefix rule then Inl (UnsupportedToolPrefix rule)
          else (case tool_name_to_filter rule of
            Some t \<Rightarrow> Inr \<lparr>action = act, tool = t, pattern = None, pattern_mode = Glob\<rparr>
          | None \<Rightarrow>
              (case strip_prefix rule (lit ''mcp__'') of
                 Some (c # rest) \<Rightarrow> Inr \<lparr>action = act, tool = McpTool,
                   pattern = mcp_rule_pattern (c # rest), pattern_mode = Glob\<rparr>
               | _ \<Rightarrow> Inr \<lparr>action = act, tool = AnyTool,
                   pattern = (if rule = [] then None else Some rule), pattern_mode = Glob\<rparr>)))"

section \<open>Escaping\<close>

text \<open>The escaping that the parser undoes: a backslash before backslashes and parentheses.\<close>

fun escape_rule_content :: "rstring \<Rightarrow> rstring" where
  "escape_rule_content [] = []"
| "escape_rule_content (c # s) =
     (if c = BACKSLASH \<or> c = LPAREN \<or> c = RPAREN then BACKSLASH # c # escape_rule_content s
      else c # escape_rule_content s)"

fun escape_some :: "rchar list \<Rightarrow> rstring \<Rightarrow> rstring" where
  \<comment> \<open>the intermediate strings while the escapes are undone one by one\<close>
  "escape_some cs [] = []"
| "escape_some cs (c # s) =
     (if c = BACKSLASH \<or> c \<in> set cs then BACKSLASH # c # escape_some cs s else c # escape_some cs s)"

lemma escape_some_all: "escape_rule_content s = escape_some [LPAREN, RPAREN] s"
  by (induction s) auto

lemma replace_pair_Cons_neq:
  "x \<noteq> a \<Longrightarrow> replace_pair a b t (x # s) = x # replace_pair a b t s"
  by (cases s) auto

lemma unescape_paren:
  assumes "p \<noteq> BACKSLASH" and "p \<notin> set cs" and "BACKSLASH \<notin> set cs"
  shows "replace_pair BACKSLASH p [p] (escape_some (p # cs) s) = escape_some cs s"
proof (induction s)
  case (Cons c s)
  consider "c = BACKSLASH" | "c = p" | "c \<noteq> BACKSLASH" "c \<noteq> p" by blast
  then show ?case
  proof cases
    case 1
    \<comment> \<open>an escaped backslash is never followed by a bare parenthesis\<close>
    have "\<not> (\<exists>t. escape_some (p # cs) s = p # t)"
      using assms by (cases s) auto
    then have "replace_pair BACKSLASH p [p] (BACKSLASH # escape_some (p # cs) s) =
        BACKSLASH # replace_pair BACKSLASH p [p] (escape_some (p # cs) s)"
      by (cases "escape_some (p # cs) s") auto
    with 1 Cons assms show ?thesis by simp
  next
    case 2
    with Cons assms show ?thesis by simp
  next
    case 3
    with Cons assms show ?thesis by (auto simp: replace_pair_Cons_neq)
  qed
qed simp

lemma unescape_backslash: "replace_pair BACKSLASH BACKSLASH [BACKSLASH] (escape_some [] s) = s"
  by (induction s) (auto simp: replace_pair_Cons_neq)

lemma escape_no_backslash: "BACKSLASH \<notin> set (escape_rule_content s) \<Longrightarrow> escape_rule_content s = s"
  by (induction s) (auto split: if_splits)

lemma unescape_escape: "unescape_rule_content (escape_rule_content s) = s"
proof (cases "BACKSLASH \<in> set (escape_rule_content s)")
  case True
  have "replace_pair BACKSLASH LPAREN [LPAREN] (escape_rule_content s) = escape_some [RPAREN] s"
    unfolding escape_some_all by (rule unescape_paren) auto
  moreover have "replace_pair BACKSLASH RPAREN [RPAREN] (escape_some [RPAREN] s) = escape_some [] s"
    by (rule unescape_paren) auto
  ultimately show ?thesis using True by (simp add: unescape_rule_content_def unescape_backslash)
next
  case False
  with escape_no_backslash [OF False] show ?thesis by (auto simp: unescape_rule_content_def)
qed

text \<open>After escaped text the number of backslashes is even, so the next character is unescaped.\<close>

lemma backslashes_before_append:
  "n \<le> length s \<Longrightarrow> backslashes_before (s @ t) n = backslashes_before s n"
  by (induction n) (auto simp: nth_append)

lemma backslashes_before_none: "BACKSLASH \<notin> set (take n s) \<Longrightarrow> n \<le> length s \<Longrightarrow> backslashes_before s n = 0"
  by (cases n) (auto simp: take_Suc_conv_app_nth)

lemma backslashes_before_snoc:
  "backslashes_before (s @ [c]) (Suc (length s)) =
     (if c = BACKSLASH then Suc (backslashes_before s (length s)) else 0)"
  by (simp add: backslashes_before_append)

lemma escape_snoc:
  "escape_rule_content (s @ [c]) = escape_rule_content s @ escape_rule_content [c]"
  by (induction s) auto

lemma escape_even_backslashes:
  "even (backslashes_before (escape_rule_content s) (length (escape_rule_content s)))"
proof (induction s rule: rev_induct)
  case (snoc c s)
  then show ?case
    using backslashes_before_snoc [of "escape_rule_content s" c]
      backslashes_before_snoc [of "escape_rule_content s @ [BACKSLASH]" c]
      backslashes_before_snoc [of "escape_rule_content s" BACKSLASH]
    by (auto simp: escape_snoc)
qed simp

section \<open>Round trip\<close>

definition print_rule :: "rstring \<Rightarrow> pattern_mode \<Rightarrow> rstring \<Rightarrow> rstring" where
  "print_rule name mode p =
     name @ [LPAREN] @ escape_rule_content ((if mode = Domain then lit ''domain:'' else []) @ p) @ [RPAREN]"

definition printable :: "tool_filter \<Rightarrow> pattern_mode \<Rightarrow> rstring \<Rightarrow> bool" where
  "printable t mode p \<longleftrightarrow> p \<noteq> [] \<and> p \<noteq> lit ''*'' \<and> \<not> is_whitespace (hd p) \<and> \<not> is_whitespace (last p) \<and>
     (mode = Domain \<or> \<not> starts_with p (lit ''domain:'')) \<and>
     (t = BashTool \<longrightarrow> \<not> ends_with p (lit '':*''))"

lemma tool_names_clean:
  assumes "tool_name_to_filter name = Some t"
  shows "trim name = name" and "name \<noteq> []" and "\<not> is_whitespace (hd name)"
    and "set name \<inter> {LPAREN, RPAREN, BACKSLASH} = {}"
proof -
  have codes: "lit ''Bash'' = [66,97,115,104]" "lit ''Read'' = [82,101,97,100]"
    "lit ''Edit'' = [69,100,105,116]" "lit ''Write'' = [87,114,105,116,101]"
    "lit ''MCPTool'' = [77,67,80,84,111,111,108]" "lit ''Grep'' = [71,114,101,112]"
    "lit ''Glob'' = [71,108,111,98]" "lit ''WebFetch'' = [87,101,98,70,101,116,99,104]"
    "lit ''WebSearch'' = [87,101,98,83,101,97,114,99,104]"
    "lit ''AgentMessage'' = [65,103,101,110,116,77,101,115,115,97,103,101]"
    "lit ''SendSubagentMessage'' = [83,101,110,100,83,117,98,97,103,101,110,116,77,101,115,115,97,103,101]"
    "lit ''SendAgentMessage'' = [83,101,110,100,65,103,101,110,116,77,101,115,115,97,103,101]"
    by code_simp+
  from assms have "name \<in> {lit ''Bash'', lit ''Read'', lit ''Edit'', lit ''Write'', lit ''MCPTool'', lit ''Grep'',
      lit ''Glob'', lit ''WebFetch'', lit ''WebSearch'', lit ''AgentMessage'', lit ''SendSubagentMessage'',
      lit ''SendAgentMessage''}"
    by (auto simp: tool_name_to_filter_def split: if_splits)
  then have "trim name = name \<and> name \<noteq> [] \<and> \<not> is_whitespace (hd name) \<and>
      set name \<inter> {LPAREN, RPAREN, BACKSLASH} = {}"
    unfolding codes
    by (auto simp: trim_def trim_start_def trim_end_def is_whitespace_def)
  then show "trim name = name" and "name \<noteq> []" and "\<not> is_whitespace (hd name)"
    and "set name \<inter> {LPAREN, RPAREN, BACKSLASH} = {}" by auto
qed

lemma escape_ends:
  assumes "s \<noteq> []" and "\<not> is_whitespace (hd s)" and "\<not> is_whitespace (last s)"
  shows "trim (escape_rule_content s) = escape_rule_content s"
proof (rule trim_id)
  show "escape_rule_content s \<noteq> []" using assms(1) by (cases s) auto
  show "\<not> is_whitespace (hd (escape_rule_content s))"
    using assms(1,2) by (cases s) (auto simp: is_whitespace_def)
  show "\<not> is_whitespace (last (escape_rule_content s))"
    using assms(1,3) by (cases s rule: rev_cases) (auto simp: escape_snoc)
qed

lemma find_open_paren:
  assumes "set name \<inter> {LPAREN, RPAREN, BACKSLASH} = {}"
  shows "find_first_unescaped (name @ [LPAREN] @ t) LPAREN = Some (length name)"
proof -
  have "backslashes_before (name @ [LPAREN] @ t) (length name) = 0"
    using assms by (intro backslashes_before_none) auto
  moreover have "(name @ [LPAREN] @ t) ! j \<noteq> LPAREN" if "j < length name" for j
    using assms that nth_mem [of j name] by (metis IntI empty_iff insertI1 nth_append)
  ultimately show ?thesis
    unfolding find_first_unescaped_def find_from_Some_iff by (auto simp: is_unescaped_def)
qed

lemma find_close_paren:
  "find_last_unescaped (escape_rule_content s @ [RPAREN]) RPAREN = Some (length (escape_rule_content s))"
  using escape_even_backslashes [of s]
  by (simp add: find_last_unescaped_def is_unescaped_def backslashes_before_append)

lemma escape_star: "escape_rule_content s = lit ''*'' \<Longrightarrow> s = lit ''*''"
  by (cases s; cases "tl s") (auto simp: lit_def split: if_splits)

lemma colon_star: "lit '':*'' = [58, 42]" "lit ''domain:'' = [100,111,109,97,105,110,58]" "lit ''*'' = [42]"
  by code_simp+

lemma domain_colon_star:
  "p \<noteq> [] \<Longrightarrow> p \<noteq> lit ''*'' \<Longrightarrow> ends_with (lit ''domain:'' @ p) (lit '':*'') \<Longrightarrow> ends_with p (lit '':*'')"
proof -
  assume p: "p \<noteq> []" "p \<noteq> lit ''*''" and "ends_with (lit ''domain:'' @ p) (lit '':*'')"
  then obtain t where t: "lit ''domain:'' @ p = t @ [58, 42]" by (auto simp: ends_with_iff colon_star)
  have "p = butlast p @ [42]" using p t by (metis append_butlast_last_id last_appendR last_ConsR list.distinct(1) last_ConsL)
  moreover obtain q where q: "butlast p = q" by simp
  ultimately have pq: "p = q @ [42]" by simp
  with p have "q \<noteq> []" by (auto simp: colon_star)
  have "lit ''domain:'' @ q = t @ [58]" using t pq by simp
  with \<open>q \<noteq> []\<close> have "last q = 58" by (metis last_appendR last_snoc)
  then have "q = butlast q @ [58]" using \<open>q \<noteq> []\<close> by (metis append_butlast_last_id)
  with pq show ?thesis by (auto simp: ends_with_iff colon_star)
qed

text \<open>
  Parsing inverts printing for permission rules: for every tool name the parser knows and every
  pattern (with backslashes and parentheses escaped, in glob or \<open>domain:\<close> form), the printed
  rule is read back with exactly that tool, pattern and mode.  The patterns excluded are those
  the format reads otherwise: empty or \<open>*\<close>, surrounding blanks, and a trailing \<open>:*\<close> for Bash.
\<close>

theorem parse_print_rule:
  assumes "tool_name_to_filter name = Some t" and "printable t mode p"
  shows "parse_permission_rule (print_rule name mode p) act =
    Inr \<lparr>action = act, tool = t, pattern = Some p, pattern_mode = mode\<rparr>"
proof -
  let ?c = "(if mode = Domain then lit ''domain:'' else []) @ p"
  let ?e = "escape_rule_content ?c"
  let ?r = "name @ [LPAREN] @ ?e @ [RPAREN]"
  note name = tool_names_clean [OF assms(1)]
  have p: "p \<noteq> []" "p \<noteq> lit ''*''" "\<not> is_whitespace (hd p)" "\<not> is_whitespace (last p)"
    using assms(2) by (auto simp: printable_def)
  have c: "?c \<noteq> []" "\<not> is_whitespace (hd ?c)" "\<not> is_whitespace (last ?c)"
    using p by (auto simp: colon_star is_whitespace_def)
  have cstar: "?c \<noteq> lit ''*''" using p(2) by (auto simp: colon_star)
  have te: "trim ?e = ?e" using c by (rule escape_ends)
  have "?e \<noteq> []" using c(1) by (cases ?c) (auto simp del: append_is_Nil_conv)
  moreover have "?e \<noteq> lit ''*''" using cstar escape_star by blast
  ultimately have ne: "?e \<noteq> []" "?e \<noteq> lit ''*''" by blast+
  have tr: "trim ?r = ?r" using name by (intro trim_id) (auto simp: is_whitespace_def)
  have bash: "(if t = BashTool then strip_bash_colon_wildcard ?c else ?c) = ?c"
    using assms(2) domain_colon_star [of p]
    by (auto simp: printable_def strip_bash_colon_wildcard_def strip_suffix_def)
  have dom: "strip_domain_prefix ?c = (p, mode)"
    using assms(2) by (cases mode) (auto simp: strip_domain_prefix_def printable_def strip_prefix_def)
  have "parse_permission_rule ?r act =
      (let pat = (if t = BashTool then strip_bash_colon_wildcard ?c else ?c);
           (pat, mode) = strip_domain_prefix pat in
       Inr \<lparr>action = act, tool = t, pattern = (if pat = [] then None else Some pat), pattern_mode = mode\<rparr>)"
    using find_open_paren [OF name(4), of "?e @ [RPAREN]"] find_close_paren [of ?c] tr te ne
    by (simp add: parse_permission_rule_def name(1) assms(1) unescape_escape)
  then show ?thesis unfolding print_rule_def Let_def bash dom using p(1) by simp
qed

theorem parse_print_rule_witness:
  "printable BashTool Glob (lit ''echo (hi)'') \<and>
   parse_permission_rule (print_rule (lit ''Bash'') Glob (lit ''echo (hi)'')) Allow =
     Inr \<lparr>action = Allow, tool = BashTool, pattern = Some (lit ''echo (hi)''), pattern_mode = Glob\<rparr>"
proof -
  have "tool_name_to_filter (lit ''Bash'') = Some BashTool" "printable BashTool Glob (lit ''echo (hi)'')"
    by code_simp+
  with parse_print_rule [OF this] show ?thesis by simp
qed

end
