(* ===== verification/Command_Words.thy ===== *)
theory Command_Words
  imports Rust_Strings
begin

text \<open>
  The argument vectors of decomposed shell commands
  (\<open>xai-grok-workspace/src/permission/bash_command_splitting.rs\<close>): peeling wrapper commands such
  as \<open>timeout\<close> and \<open>env\<close>, the option scan of \<open>env\<close> with its packed \<open>-S\<close> scripts, and
  the transparent prefixes \<open>exec\<close>, \<open>command\<close> and \<open>builtin\<close>.  A slice of the words is the
  corresponding suffix of the list; scanning with an index is recursion on that suffix.
\<close>

section \<open>Words\<close>

abbreviation (input) DASH :: rchar where "DASH \<equiv> 45"

definition basename :: "rstring \<Rightarrow> rstring" where
  \<comment> \<open>\<open>w.rsplit(['/', '\\']).next()\<close>\<close>
  "basename w = rev (takeWhile (\<lambda>c. c \<noteq> 47 \<and> c \<noteq> 92) (rev w))"

definition head_is :: "rstring list \<Rightarrow> string \<Rightarrow> bool" where
  "head_is words name \<longleftrightarrow> words \<noteq> [] \<and> basename (hd words) = lit name"

definition dashed :: "rstring \<Rightarrow> bool" where
  "dashed w = starts_with w [DASH]"

definition double_dashed :: "rstring \<Rightarrow> bool" where
  "double_dashed w = starts_with w [DASH, DASH]"

definition is_setup_command :: "rstring list \<Rightarrow> bool" where
  "is_setup_command cmd \<longleftrightarrow> cmd = [] \<or> hd cmd \<in> set (map lit [''cd'', ''pushd'', ''popd'', ''export'',
     ''unset'', ''set'', ''sleep'', ''timeout''])"

definition is_ascii_alphabetic :: "rchar \<Rightarrow> bool" where
  "is_ascii_alphabetic c \<longleftrightarrow> 65 \<le> c \<and> c \<le> 90 \<or> 97 \<le> c \<and> c \<le> 122"

definition is_env_assignment :: "rstring \<Rightarrow> bool" where
  "is_env_assignment tok \<longleftrightarrow> 61 \<in> set tok \<and>
     (let name = takeWhile (\<lambda>c. c \<noteq> 61) tok in
      name \<noteq> [] \<and> (is_ascii_alphabetic (hd name) \<or> hd name = 95) \<and>
      list_all (\<lambda>c. is_ascii_alphabetic c \<or> is_ascii_digit c \<or> c = 95) name)"

section \<open>The options of env\<close>

record env_scan_result =
  chdir :: "rstring option"
  scan_split_string :: bool
  options_uncertain :: bool
  split_string_script :: "rstring option"
  command_rest :: "rstring list"  \<comment> \<open>the words from \<open>command_start\<close> on\<close>

fun decode_loop :: "rchar option \<Rightarrow> rstring \<Rightarrow> rstring \<Rightarrow> rstring option" where
  "decode_loop quote out [] = (if quote = None then Some out else None)"
| "decode_loop None out (ch # rest) =
     (if ch = 39 \<or> ch = 34 then decode_loop (Some ch) out rest
      else if ch = 92 then (case rest of [] \<Rightarrow> None | n # rest' \<Rightarrow> decode_loop None (out @ [n]) rest')
      else decode_loop None (out @ [ch]) rest)"
| "decode_loop (Some q) out (ch # rest) =
     (if q = ch then decode_loop None out rest
      else if q = 34 \<and> ch = 92 then (case rest of [] \<Rightarrow> None
        | n # rest' \<Rightarrow> if n = 36 \<or> n = 96 \<or> n = 34 \<or> n = 92 \<or> n = 10
                      then decode_loop (Some q) (out @ [n]) rest'
                      else decode_loop (Some q) (out @ [92, n]) rest')
      else decode_loop (Some q) (out @ [ch]) rest)"

definition decode_shell_literal_spelling :: "rstring \<Rightarrow> rstring option" where
  "decode_shell_literal_spelling raw = decode_loop None [] raw"

definition decode_env_option_token :: "rstring \<Rightarrow> rstring" where
  "decode_env_option_token raw =
     (if 39 \<notin> set raw \<and> 34 \<notin> set raw then raw
      else case decode_shell_literal_spelling raw of Some decoded \<Rightarrow> decoded | None \<Rightarrow> raw)"

definition is_high_confidence_env_s_payload :: "rstring \<Rightarrow> bool" where
  "is_high_confidence_env_s_payload s \<longleftrightarrow> s \<noteq> [] \<and> 0 \<notin> set s \<and>
     list_all (\<lambda>c. \<not> (c = 39 \<or> c = 34 \<or> c = 92 \<or> c = 35 \<or> c = 96 \<or> c = 36 \<or> c = 10 \<or> c = 13)) s"

definition take_high_confidence_payload :: "rstring \<Rightarrow> rstring option" where
  "take_high_confidence_payload raw = (if is_high_confidence_env_s_payload raw then Some raw else None)"

datatype env_short = SplitStringNext | SplitStringGlued rstring | SplitStringDetect | NoArg
  | ArgNeedNext rchar | ArgGlued rchar | UncertainShort

fun env_short_cluster :: "rstring \<Rightarrow> env_short" where
  "env_short_cluster [] = NoArg"
| "env_short_cluster (c # rest) =
     (if c = 105 \<or> c = 118 \<or> c = 48 then env_short_cluster rest
      else if c = 83 then SplitStringDetect
      else if c = 117 \<or> c = 67 \<or> c = 80 \<or> c = 97
        then (if rest \<noteq> [] then ArgGlued c else ArgNeedNext c)
      else UncertainShort)"

definition classify_env_short :: "rstring \<Rightarrow> env_short" where
  "classify_env_short tok =
     (if \<not> dashed tok \<or> double_dashed tok \<or> tok = [DASH] then UncertainShort
      else let body = tl tok in
        if body = [] then UncertainShort
        else case strip_prefix body [83] of
          Some rest \<Rightarrow> if rest = [] then SplitStringNext else SplitStringGlued rest
        | None \<Rightarrow> env_short_cluster body)"

definition next_payload :: "rstring list \<Rightarrow> rstring option" where
  \<comment> \<open>the packed script when the operand is the next word\<close>
  "next_payload rest = (case rest of [] \<Rightarrow> None | raw # _ \<Rightarrow> take_high_confidence_payload raw)"

text \<open>
  One turn of the scan: stop with the command at the current word or after it, or go on with the
  next word or behind the operand of the current one.
\<close>

datatype env_step = EnvStop env_scan_result | EnvNext env_scan_result | EnvOperand env_scan_result

definition uncertain_at :: "env_scan_result \<Rightarrow> rstring list \<Rightarrow> env_step" where
  "uncertain_at s ws = EnvStop (s\<lparr>options_uncertain := True, command_rest := ws\<rparr>)"

definition split_at :: "env_scan_result \<Rightarrow> rstring option \<Rightarrow> rstring list \<Rightarrow> env_step" where
  "split_at s script ws =
     EnvStop (s\<lparr>scan_split_string := True, split_string_script := script, command_rest := ws\<rparr>)"

definition operand_of :: "env_scan_result \<Rightarrow> env_scan_result \<Rightarrow> rstring \<Rightarrow> rstring list \<Rightarrow> env_step" where
  \<comment> \<open>\<open>take_option_operand\<close>: a missing operand makes the options uncertain\<close>
  "operand_of s s' tok rest = (if rest = [] then uncertain_at s (tok # rest) else EnvOperand s')"

definition env_long :: "env_scan_result \<Rightarrow> rstring \<Rightarrow> rstring list \<Rightarrow> env_step" where
  "env_long s tok rest =
     (if tok = lit ''--chdir'' then operand_of s (s\<lparr>chdir := Some (hd rest)\<rparr>) tok rest
      else case strip_prefix tok (lit ''--chdir='') of
        Some d \<Rightarrow> EnvNext (s\<lparr>chdir := Some d\<rparr>)
      | None \<Rightarrow>
        if tok \<in> set (map lit [''--unset'', ''--path'', ''--argv0'']) then operand_of s s tok rest
        else if starts_with tok (lit ''--unset='') \<or> starts_with tok (lit ''--path='') \<or>
                starts_with tok (lit ''--argv0='') then EnvNext s
        else if tok \<in> set (map lit [''--ignore-environment'', ''--null'', ''--debug'', ''--version'', ''--help''])
          then EnvNext s
        else if tok = lit ''--split-string'' then
          split_at s (if rest = [] then split_string_script s else next_payload rest) (tok # rest)
        else case strip_prefix tok (lit ''--split-string='') of
          Some payload \<Rightarrow> split_at s (take_high_confidence_payload
              (case strip_prefix (decode_env_option_token tok) (lit ''--split-string='') of
                 Some p \<Rightarrow> p | None \<Rightarrow> payload)) (tok # rest)
        | None \<Rightarrow> uncertain_at s (tok # rest))"

definition env_short_step :: "env_scan_result \<Rightarrow> rstring \<Rightarrow> rstring list \<Rightarrow> env_step" where
  "env_short_step s tok rest = (case classify_env_short (decode_env_option_token tok) of
     SplitStringNext \<Rightarrow>
       split_at s (if rest = [] then split_string_script s else next_payload rest) (tok # rest)
   | SplitStringGlued payload \<Rightarrow> split_at s (take_high_confidence_payload payload) (tok # rest)
   | SplitStringDetect \<Rightarrow> split_at s (split_string_script s) (tok # rest)
   | NoArg \<Rightarrow> EnvNext s
   | ArgNeedNext kind \<Rightarrow> operand_of s (if kind = 67 then s\<lparr>chdir := Some (hd rest)\<rparr> else s) tok rest
   | ArgGlued kind \<Rightarrow> EnvNext (if kind = 67
         then s\<lparr>chdir := Some (case strip_prefix tok (lit ''-C'') of Some d \<Rightarrow> d | None \<Rightarrow> [])\<rparr> else s)
   | UncertainShort \<Rightarrow> uncertain_at s (tok # rest))"

definition env_token :: "env_scan_result \<Rightarrow> rstring \<Rightarrow> rstring list \<Rightarrow> env_step" where
  "env_token s tok rest =
     (if tok = lit ''--'' then EnvStop (s\<lparr>command_rest := rest\<rparr>)
      else if tok = lit ''-'' then EnvNext s
      else if \<not> dashed tok then
        (if is_env_assignment tok then EnvNext s else EnvStop (s\<lparr>command_rest := tok # rest\<rparr>))
      else if double_dashed tok then env_long s tok rest
      else env_short_step s tok rest)"

fun env_loop :: "env_scan_result \<Rightarrow> rstring list \<Rightarrow> env_scan_result" where
  "env_loop s [] = s\<lparr>command_rest := []\<rparr>"
| "env_loop s (tok # rest) = (case env_token s tok rest of
     EnvStop s' \<Rightarrow> s'
   | EnvNext s' \<Rightarrow> env_loop s' rest
   | EnvOperand s' \<Rightarrow> (case rest of [] \<Rightarrow> s' | _ # rest' \<Rightarrow> env_loop s' rest'))"

definition env_scan :: "rstring list \<Rightarrow> env_scan_result" where
  "env_scan cmd = env_loop \<lparr>chdir = None, scan_split_string = False, options_uncertain = False,
     split_string_script = None, command_rest = []\<rparr> (tl cmd)"

definition env_split_string_script :: "rstring list \<Rightarrow> rstring option" where
  "env_split_string_script words =
     (if \<not> head_is words ''env'' then None
      else let scan = env_scan words in
        if \<not> scan_split_string scan then None else split_string_script scan)"

section \<open>Wrapper commands\<close>

fun skip_options :: "rstring list \<Rightarrow> rstring list \<Rightarrow> rstring list option" where
  \<comment> \<open>\<open>while i < cmd.len() && cmd[i].starts_with('-')\<close>, stepping over the operand of the listed
      options; \<open>None\<close> when the index ran past the end\<close>
  "skip_options args [] = Some []"
| "skip_options args (w # ws) =
     (if dashed w then
        (if w \<in> set args then (case ws of [] \<Rightarrow> None | _ # ws' \<Rightarrow> skip_options args ws')
         else skip_options args ws)
      else Some (w # ws))"

definition nonempty :: "rstring list \<Rightarrow> rstring list option" where
  "nonempty ws = (if ws = [] then None else Some ws)"

definition after_mandatory :: "rstring list option \<Rightarrow> rstring list option" where
  \<comment> \<open>one mandatory token, then the command\<close>
  "after_mandatory r = (case r of Some (_ # ws) \<Rightarrow> nonempty ws | _ \<Rightarrow> None)"

definition strip_wrapper_command :: "rstring list \<Rightarrow> rstring list option" where
  "strip_wrapper_command cmd =
     (if cmd = [] then None
      else if head_is cmd ''timeout'' then
        after_mandatory (skip_options (map lit [''-k'', ''-s'', ''--kill-after'', ''--signal'']) (tl cmd))
      else if head_is cmd ''nice'' then
        Option.bind (skip_options (map lit [''-n'', ''--adjustment'']) (tl cmd)) nonempty
      else if head_is cmd ''ionice'' then
        Option.bind (skip_options (map lit [''-c'', ''-n'', ''-p'', ''-P'', ''-u'', ''--class'', ''--classdata'',
          ''--pid'', ''--pgid'', ''--uid'']) (tl cmd)) nonempty
      else if head_is cmd ''chrt'' then after_mandatory (skip_options [] (tl cmd))
      else if head_is cmd ''stdbuf'' then
        Option.bind (skip_options (map lit [''-i'', ''-o'', ''-e'']) (tl cmd)) nonempty
      else if head_is cmd ''env'' then
        (let scan = env_scan cmd in
         if scan_split_string scan \<or> options_uncertain scan then None else nonempty (command_rest scan))
      else None)"

definition is_wrapper_command :: "rstring list \<Rightarrow> bool" where
  "is_wrapper_command words \<longleftrightarrow> head_is words ''timeout'' \<or> head_is words ''nice'' \<or> head_is words ''ionice'' \<or>
     head_is words ''chrt'' \<or> head_is words ''stdbuf'' \<or> head_is words ''env''"

definition MAX_WRAPPER_DEPTH :: nat where "MAX_WRAPPER_DEPTH = 8"
definition MAX_INLINE_SHELL_DEPTH :: nat where "MAX_INLINE_SHELL_DEPTH = 8"

record checked_wrapper_peel =
  peel_words :: "rstring list"
  peel_chdir :: bool
  peel_split_string :: bool
  peel_env_uncertain :: bool
  peel_exhausted :: bool

definition note_env :: "checked_wrapper_peel \<Rightarrow> checked_wrapper_peel" where
  \<comment> \<open>the flags of a leading \<open>env\<close> are accumulated before it is peeled\<close>
  "note_env p = (if head_is (peel_words p) ''env'' then
       let scan = env_scan (peel_words p) in
       p\<lparr>peel_chdir := peel_chdir p \<or> chdir scan \<noteq> None,
         peel_split_string := peel_split_string p \<or> scan_split_string scan,
         peel_env_uncertain := peel_env_uncertain p \<or> options_uncertain scan\<rparr>
     else p)"

primrec unwrap_loop :: "nat \<Rightarrow> checked_wrapper_peel \<Rightarrow> checked_wrapper_peel" where
  "unwrap_loop 0 p = p\<lparr>peel_exhausted :=
     is_wrapper_command (peel_words p) \<and> strip_wrapper_command (peel_words p) \<noteq> None\<rparr>"
| "unwrap_loop (Suc n) p = (let p = note_env p in
     case strip_wrapper_command (peel_words p) of
       Some inner \<Rightarrow> unwrap_loop n (p\<lparr>peel_words := inner\<rparr>)
     | None \<Rightarrow> p\<lparr>peel_exhausted := False\<rparr>)"

definition unwrap_wrappers_checked :: "rstring list \<Rightarrow> checked_wrapper_peel" where
  "unwrap_wrappers_checked words = unwrap_loop MAX_WRAPPER_DEPTH \<lparr>peel_words = words, peel_chdir = False,
     peel_split_string = False, peel_env_uncertain = False, peel_exhausted = False\<rparr>"

definition unwrap_wrappers :: "rstring list \<Rightarrow> rstring list" where
  "unwrap_wrappers words = peel_words (unwrap_wrappers_checked words)"

section \<open>Transparent prefixes\<close>

datatype transparent_strip = NotPrefix | Peeled "rstring list" | Ambiguous

definition peeled_or_not :: "rstring list \<Rightarrow> transparent_strip" where
  "peeled_or_not inner = (if inner \<noteq> [] then Peeled inner else NotPrefix)"

fun strip_exec_options :: "rstring list \<Rightarrow> transparent_strip" where
  "strip_exec_options [] = NotPrefix"
| "strip_exec_options (tok # rest) =
     (if tok = lit ''--'' then peeled_or_not rest
      else if tok = lit ''-'' \<or> \<not> dashed tok then peeled_or_not (tok # rest)
      else if tok \<in> set (map lit [''-c'', ''-l'', ''-cl'', ''-lc'']) then strip_exec_options rest
      else if tok = lit ''-a'' then (case rest of
          v # rest' \<Rightarrow> if v \<noteq> [0] \<and> v \<noteq> [] then strip_exec_options rest' else Ambiguous
        | [] \<Rightarrow> Ambiguous)
      else case strip_prefix tok (lit ''-a'') of
        Some r \<Rightarrow> if r = [0] then Ambiguous else strip_exec_options rest
      | None \<Rightarrow>
          if dashed tok \<and> \<not> double_dashed tok \<and> list_all (\<lambda>c. c = 99 \<or> c = 108) (tl tok)
          then strip_exec_options rest else Ambiguous)"

fun strip_command_options :: "rstring list \<Rightarrow> transparent_strip" where
  "strip_command_options [] = NotPrefix"
| "strip_command_options (tok # rest) =
     (if tok = lit ''--'' then peeled_or_not rest
      else if tok = lit ''-'' \<or> \<not> dashed tok then peeled_or_not (tok # rest)
      else if tok \<in> set (map lit [''-v'', ''-V'', ''--help'', ''--version'']) \<or>
              dashed tok \<and> \<not> double_dashed tok \<and> list_ex (\<lambda>c. c = 118 \<or> c = 86) (tl tok)
        then NotPrefix
      else if tok = lit ''-p'' \<or> dashed tok \<and> \<not> double_dashed tok \<and> list_all (\<lambda>c. c = 112) (tl tok)
        then strip_command_options rest
      else Ambiguous)"

definition strip_builtin_prefix :: "rstring list \<Rightarrow> transparent_strip" where
  "strip_builtin_prefix cmd = (case tl cmd of
     [] \<Rightarrow> NotPrefix
   | tok # rest \<Rightarrow> if dashed tok \<and> tok \<noteq> lit ''-'' then Ambiguous else Peeled (tok # rest))"

definition strip_transparent_prefix :: "rstring list \<Rightarrow> transparent_strip" where
  "strip_transparent_prefix cmd =
     (if cmd = [] \<or> hd cmd = [] \<or> hd cmd = [0] then NotPrefix
      else if head_is cmd ''exec'' then strip_exec_options (tl cmd)
      else if head_is cmd ''command'' then strip_command_options (tl cmd)
      else if head_is cmd ''builtin'' then strip_builtin_prefix cmd
      else NotPrefix)"

definition MAX_TRANSPARENT_PREFIX_DEPTH :: nat where "MAX_TRANSPARENT_PREFIX_DEPTH = 8"
definition MAX_NORMALIZE_ROUNDS :: nat where
  "MAX_NORMALIZE_ROUNDS = MAX_WRAPPER_DEPTH + MAX_TRANSPARENT_PREFIX_DEPTH"

primrec peel_loop :: "nat \<Rightarrow> rstring list \<Rightarrow> rstring list option" where
  \<comment> \<open>\<open>Some\<close> is \<open>Ready\<close>, \<open>None\<close> is \<open>Ambiguous\<close>\<close>
  "peel_loop 0 current = (if strip_transparent_prefix current = NotPrefix then Some current else None)"
| "peel_loop (Suc n) current = (case strip_transparent_prefix current of
     NotPrefix \<Rightarrow> Some current | Peeled inner \<Rightarrow> peel_loop n inner | Ambiguous \<Rightarrow> None)"

definition peel_transparent_prefixes :: "rstring list \<Rightarrow> rstring list option" where
  "peel_transparent_prefixes words = peel_loop MAX_TRANSPARENT_PREFIX_DEPTH words"

section \<open>Normalised words\<close>

record normalized_command_peel =
  norm_words :: "rstring list"
  has_chdir :: bool
  has_split_string :: bool
  env_options_uncertain :: bool
  exhausted :: bool
  ambiguous :: bool

primrec normalize_loop :: "nat \<Rightarrow> normalized_command_peel \<Rightarrow> normalized_command_peel" where
  "normalize_loop 0 st = st"
| "normalize_loop (Suc n) st =
     (let start_len = length (norm_words st);
          wrapped = unwrap_wrappers_checked (norm_words st);
          st = st\<lparr>norm_words := peel_words wrapped, has_chdir := has_chdir st \<or> peel_chdir wrapped,
                  has_split_string := has_split_string st \<or> peel_split_string wrapped,
                  env_options_uncertain := env_options_uncertain st \<or> peel_env_uncertain wrapped,
                  exhausted := exhausted st \<or> peel_exhausted wrapped\<rparr> in
      if has_split_string st \<or> env_options_uncertain st then st
      else case peel_transparent_prefixes (norm_words st) of
        None \<Rightarrow> st\<lparr>ambiguous := True\<rparr>
      | Some inner \<Rightarrow>
          let st = st\<lparr>norm_words := inner\<rparr> in
          if length inner = start_len then st else normalize_loop n st)"

definition still_peelable :: "rstring list \<Rightarrow> bool" where
  "still_peelable words \<longleftrightarrow> is_wrapper_command words \<and> strip_wrapper_command words \<noteq> None \<or>
     strip_transparent_prefix words \<noteq> NotPrefix"

definition normalize_command_words :: "rstring list \<Rightarrow> normalized_command_peel" where
  "normalize_command_words words =
     (let st = normalize_loop MAX_NORMALIZE_ROUNDS \<lparr>norm_words = words, has_chdir = False, has_split_string = False,
            env_options_uncertain = False, exhausted = False, ambiguous = False\<rparr> in
      if \<not> ambiguous st \<and> \<not> has_split_string st \<and> \<not> env_options_uncertain st \<and> still_peelable (norm_words st)
      then st\<lparr>exhausted := True\<rparr> else st)"

section \<open>Peeling only removes leading words\<close>

text \<open>
  What both peels promise: a step leaves a non-empty proper suffix.  Everything reached by
  steps is then a suffix of the start, so peeling ends and never invents a word.
\<close>

locale peeler =
  fixes strip :: "rstring list \<Rightarrow> rstring list option"
  assumes strip_suffix_words: "strip ws = Some inner \<Longrightarrow> strict_suffix inner ws \<and> inner \<noteq> []"
begin

definition steps :: "rstring list \<Rightarrow> rstring list \<Rightarrow> bool" where
  "steps = (\<lambda>v w. strip v = Some w)\<^sup>*\<^sup>*"

lemma steps_refl: "steps ws ws"
  by (simp add: steps_def)

lemma steps_step: "strip v = Some w \<Longrightarrow> steps w x \<Longrightarrow> steps v x"
  unfolding steps_def by (rule converse_rtranclp_into_rtranclp)

lemma steps_suffix:
  assumes "steps v w"
  shows "suffix w v" and "v \<noteq> [] \<Longrightarrow> w \<noteq> []"
proof -
  from assms have "suffix w v \<and> (v \<noteq> [] \<longrightarrow> w \<noteq> [])"
    unfolding steps_def
  proof (induction rule: rtranclp_induct)
    case (step y z)
    from strip_suffix_words [OF step(2)] step.IH show ?case
      by (meson strict_suffix_def suffix_order.trans)
  qed simp
  then show "suffix w v" and "v \<noteq> [] \<Longrightarrow> w \<noteq> []" by auto
qed

end

lemma skip_options_suffix: "skip_options args ws = Some r \<Longrightarrow> suffix r ws"
  by (induction args ws rule: skip_options.induct)
     (auto split: if_splits list.splits intro: suffix_ConsI)

lemma env_stop_suffix: "env_token s tok rest = EnvStop s' \<Longrightarrow> suffix (command_rest s') (tok # rest)"
  by (auto simp: env_token_def env_long_def env_short_step_def operand_of_def uncertain_at_def split_at_def
        split: if_splits option.splits env_short.splits intro: suffix_ConsI)

lemma env_operand_rest: "env_token s tok rest = EnvOperand s' \<Longrightarrow> rest \<noteq> []"
  by (auto simp: env_token_def env_long_def env_short_step_def operand_of_def uncertain_at_def split_at_def
        split: if_splits option.splits env_short.splits)

lemma env_loop_suffix: "suffix (command_rest (env_loop s ws)) ws"
proof (induction s ws rule: env_loop.induct)
  case (2 s tok rest)
  show ?case
  proof (cases "env_token s tok rest")
    case (EnvStop s')
    with env_stop_suffix show ?thesis by simp
  next
    case (EnvNext s')
    with 2 show ?thesis by (auto intro: suffix_ConsI)
  next
    case (EnvOperand s')
    with env_operand_rest obtain w rest' where "rest = w # rest'" by (cases rest) auto
    with 2 EnvOperand show ?thesis by (auto intro!: suffix_ConsI)
  qed
qed simp

lemma suffix_tl_strict: "suffix r (tl ws) \<Longrightarrow> ws \<noteq> [] \<Longrightarrow> strict_suffix r ws"
  by (cases ws) (auto simp: strict_suffix_def suffix_def)

lemma nonempty_Some: "nonempty ws = Some r \<longleftrightarrow> r = ws \<and> ws \<noteq> []"
  by (auto simp: nonempty_def)

lemma after_mandatory_Some: "after_mandatory r = Some ws \<longleftrightarrow> (\<exists>t. r = Some (t # ws)) \<and> ws \<noteq> []"
  by (auto simp: after_mandatory_def nonempty_def split: option.splits list.splits)

interpretation wrapper: peeler strip_wrapper_command
proof
  fix ws inner
  assume s: "strip_wrapper_command ws = Some inner"
  then have ne: "ws \<noteq> []" by (auto simp: strip_wrapper_command_def)
  have "suffix inner (tl ws) \<and> inner \<noteq> []"
    using s env_loop_suffix
    by (auto simp: strip_wrapper_command_def after_mandatory_Some nonempty_Some bind_eq_Some_conv env_scan_def Let_def
          split: if_splits dest!: skip_options_suffix intro: suffix_ConsD)
  with ne show "strict_suffix inner ws \<and> inner \<noteq> []" by (simp add: suffix_tl_strict)
qed

definition strip_transparent :: "rstring list \<Rightarrow> rstring list option" where
  "strip_transparent ws = (case strip_transparent_prefix ws of Peeled inner \<Rightarrow> Some inner | _ \<Rightarrow> None)"

lemma strip_exec_suffix: "strip_exec_options ws = Peeled inner \<Longrightarrow> suffix inner ws \<and> inner \<noteq> []"
  by (induction ws rule: strip_exec_options.induct)
     (auto simp: peeled_or_not_def split: if_splits option.splits list.splits intro: suffix_ConsI)

lemma strip_command_suffix: "strip_command_options ws = Peeled inner \<Longrightarrow> suffix inner ws \<and> inner \<noteq> []"
  by (induction ws rule: strip_command_options.induct)
     (auto simp: peeled_or_not_def split: if_splits intro: suffix_ConsI)

interpretation transparent: peeler strip_transparent
proof
  fix ws inner
  assume "strip_transparent ws = Some inner"
  then have s: "strip_transparent_prefix ws = Peeled inner"
    by (auto simp: strip_transparent_def split: transparent_strip.splits)
  then have ne: "ws \<noteq> []" by (auto simp: strip_transparent_prefix_def)
  have "suffix inner (tl ws) \<and> inner \<noteq> []"
    using s by (auto simp: strip_transparent_prefix_def strip_builtin_prefix_def
        split: if_splits list.splits dest: strip_exec_suffix strip_command_suffix)
  with ne show "strict_suffix inner ws \<and> inner \<noteq> []" by (simp add: suffix_tl_strict)
qed

lemma note_env_words [simp]: "peel_words (note_env p) = peel_words p"
  by (simp add: note_env_def Let_def)

lemma unwrap_loop_steps: "wrapper.steps (peel_words p) (peel_words (unwrap_loop n p))"
proof (induction n arbitrary: p)
  case 0
  show ?case by (simp add: wrapper.steps_refl)
next
  case (Suc n)
  show ?case
  proof (cases "strip_wrapper_command (peel_words p)")
    case None
    then show ?thesis by (simp add: Let_def wrapper.steps_refl)
  next
    case (Some inner)
    then show ?thesis
      using Suc [of "(note_env p)\<lparr>peel_words := inner\<rparr>"] wrapper.steps_step by (simp add: Let_def)
  qed
qed

lemma unwrap_steps: "wrapper.steps ws (peel_words (unwrap_wrappers_checked ws))"
  using unwrap_loop_steps [of "\<lparr>peel_words = ws, peel_chdir = False, peel_split_string = False,
    peel_env_uncertain = False, peel_exhausted = False\<rparr>"] by (simp add: unwrap_wrappers_checked_def)

lemma peel_loop_steps: "peel_loop n ws = Some r \<Longrightarrow> transparent.steps ws r"
proof (induction n arbitrary: ws)
  case (Suc n)
  show ?case
  proof (cases "strip_transparent_prefix ws")
    case (Peeled inner)
    then have "strip_transparent ws = Some inner" by (simp add: strip_transparent_def)
    with Suc Peeled show ?thesis by (auto intro: transparent.steps_step)
  qed (use Suc.prems transparent.steps_refl in auto)
qed (auto simp: transparent.steps_refl split: if_splits)

lemma normalize_loop_suffix:
  "suffix (norm_words (normalize_loop n st)) (norm_words st) \<and>
   (norm_words st \<noteq> [] \<longrightarrow> norm_words (normalize_loop n st) \<noteq> [])"
proof (induction n arbitrary: st)
  case (Suc n)
  let ?w = "peel_words (unwrap_wrappers_checked (norm_words st))"
  have w: "suffix ?w (norm_words st)" "norm_words st \<noteq> [] \<Longrightarrow> ?w \<noteq> []"
    using wrapper.steps_suffix [OF unwrap_steps] by auto
  show ?case
  proof (cases "peel_transparent_prefixes ?w")
    case None
    with w show ?thesis by (simp add: Let_def)
  next
    case (Some inner)
    then have "suffix inner ?w" "?w \<noteq> [] \<Longrightarrow> inner \<noteq> []"
      using transparent.steps_suffix [OF peel_loop_steps] by (auto simp: peel_transparent_prefixes_def)
    with w have i: "suffix inner (norm_words st)" "norm_words st \<noteq> [] \<Longrightarrow> inner \<noteq> []"
      by (auto intro: suffix_order.trans)
    have "suffix (norm_words (normalize_loop n st')) (norm_words st) \<and>
        (norm_words st \<noteq> [] \<longrightarrow> norm_words (normalize_loop n st') \<noteq> [])" if "norm_words st' = inner" for st'
      using Suc [of st'] i that by (auto intro: suffix_order.trans)
    with Some w i show ?thesis by (simp add: Let_def)
  qed
qed simp

lemma normalize_words_suffix: "suffix (norm_words (normalize_command_words ws)) ws"
proof -
  define st where "st = \<lparr>norm_words = ws, has_chdir = False, has_split_string = False,
            env_options_uncertain = False, exhausted = False, ambiguous = False\<rparr>"
  have "norm_words (normalize_command_words ws) = norm_words (normalize_loop MAX_NORMALIZE_ROUNDS st)"
    by (simp add: normalize_command_words_def st_def Let_def)
  with normalize_loop_suffix [of MAX_NORMALIZE_ROUNDS st] show ?thesis by (simp add: st_def)
qed

section \<open>Normalisation reaches a fixed point or says so\<close>

definition unmodelled :: "normalized_command_peel \<Rightarrow> bool" where
  \<comment> \<open>the flags on which the gates ask instead of trusting the words\<close>
  "unmodelled n \<longleftrightarrow> exhausted n \<or> ambiguous n \<or> env_options_uncertain n \<or> has_split_string n"

lemma not_wrapper_strip: "\<not> is_wrapper_command ws \<Longrightarrow> strip_wrapper_command ws = None"
  by (auto simp: is_wrapper_command_def strip_wrapper_command_def)

lemma unpeelable_fixed:
  assumes "\<not> still_peelable ws"
  shows "strip_wrapper_command ws = None" and "strip_transparent_prefix ws = NotPrefix"
    and "peel_words (unwrap_wrappers_checked ws) = ws" and "peel_transparent_prefixes ws = Some ws"
proof -
  show s: "strip_wrapper_command ws = None" and t: "strip_transparent_prefix ws = NotPrefix"
    using assms not_wrapper_strip by (auto simp: still_peelable_def)
  show "peel_words (unwrap_wrappers_checked ws) = ws"
    using s by (simp add: unwrap_wrappers_checked_def MAX_WRAPPER_DEPTH_def eval_nat_numeral Let_def)
  show "peel_transparent_prefixes ws = Some ws"
    using t by (simp add: peel_transparent_prefixes_def MAX_TRANSPARENT_PREFIX_DEPTH_def eval_nat_numeral)
qed

lemma normalize_fixed_words:
  assumes "\<not> still_peelable ws"
  shows "norm_words (normalize_command_words ws) = ws"
proof -
  let ?st = "\<lparr>norm_words = ws, has_chdir = False, has_split_string = False,
            env_options_uncertain = False, exhausted = False, ambiguous = False\<rparr>"
  obtain k where k: "MAX_NORMALIZE_ROUNDS = Suc k"
    by (simp add: MAX_NORMALIZE_ROUNDS_def MAX_WRAPPER_DEPTH_def)
  have "norm_words (normalize_loop (Suc k) ?st) = ws"
    using unpeelable_fixed [OF assms] by (simp add: Let_def)
  then show ?thesis by (simp add: normalize_command_words_def Let_def k)
qed

text \<open>
  Peeling a command is sound and complete up to its flags: the normalised words are a suffix of
  the words given, never empty unless those were, and either one of the fail-closed flags is
  set or nothing peelable is left, and peeling again changes nothing.
\<close>

theorem normalize_command_words_fixed_point:
  "let n = normalize_command_words ws in
     suffix (norm_words n) ws \<and> (ws = [] \<or> norm_words n \<noteq> []) \<and>
     (unmodelled n \<or>
      \<not> still_peelable (norm_words n) \<and> norm_words (normalize_command_words (norm_words n)) = norm_words n)"
proof -
  let ?n = "normalize_command_words ws"
  define st where "st = normalize_loop MAX_NORMALIZE_ROUNDS \<lparr>norm_words = ws, has_chdir = False,
      has_split_string = False, env_options_uncertain = False, exhausted = False, ambiguous = False\<rparr>"
  have n: "?n = (if \<not> ambiguous st \<and> \<not> has_split_string st \<and> \<not> env_options_uncertain st \<and>
      still_peelable (norm_words st) then st\<lparr>exhausted := True\<rparr> else st)"
    by (simp add: normalize_command_words_def st_def Let_def)
  have "suffix (norm_words st) ws" and "ws = [] \<or> norm_words st \<noteq> []"
    using normalize_loop_suffix [of MAX_NORMALIZE_ROUNDS "\<lparr>norm_words = ws, has_chdir = False,
      has_split_string = False, env_options_uncertain = False, exhausted = False, ambiguous = False\<rparr>"]
    by (auto simp: st_def)
  moreover have "unmodelled ?n \<or> \<not> still_peelable (norm_words ?n)"
    by (auto simp: n unmodelled_def)
  ultimately show ?thesis using normalize_fixed_words [of "norm_words ?n"] by (auto simp: n Let_def)
qed

theorem normalize_command_words_fixed_point_witness:
  "let ws = map lit [''timeout'', ''5'', ''exec'', ''rm'', ''x'']; n = normalize_command_words ws in
     \<not> unmodelled n \<and> suffix (norm_words n) ws \<and> norm_words n \<noteq> [] \<and>
     norm_words (normalize_command_words (norm_words n)) = norm_words n"
proof -
  have "\<not> unmodelled (normalize_command_words (map lit [''timeout'', ''5'', ''exec'', ''rm'', ''x'']))" by code_simp
  then show ?thesis
    using normalize_command_words_fixed_point [of "map lit [''timeout'', ''5'', ''exec'', ''rm'', ''x'']"]
    unfolding Let_def by blast
qed

end
