(* ===== verification/Symlink_Walk.thy ===== *)
theory Symlink_Walk
  imports Permission_Policy
begin

text \<open>
  What following symlinks gives the permission policy (\<open>resolve_following_symlinks\<close> and
  \<open>resolve_symlink_target\<close> of \<open>policy.rs\<close>): whenever the walk answers, its answer is a
  canonical path none of whose components is a link, also when the leaf does not exist yet.
\<close>

definition canonical_path :: "'g policy_env \<Rightarrow> rstring \<Rightarrow> bool" where
  "canonical_path env q \<longleftrightarrow>
     abs_normal (components q) \<and> path_of (components q) = q \<and> \<not> path_has_symlink env q"

lemma path_of_snoc: "path_of (cs @ [Normal n]) = path_join (path_of cs) n"
  by (simp add: path_of_def)

lemma file_name_wf:
  assumes "path_file_name p = Some n"
  shows "wf_name n"
proof -
  obtain cs where "rev (components p) = Normal n # cs"
    using assms by (auto simp: path_file_name_def split: list.splits component.splits)
  then have "Normal n \<in> set (components p)" by (metis list.set_intros(1) set_rev)
  then have "Normal n \<in> set (map name_component (filter (\<lambda>n. n \<noteq> [DOT]) (path_names p)))"
    by (auto simp: components_def Let_def split: if_splits)
  then have "wf_inner (Normal n)" using components_wf [of p] unfolding list_all_iff by blast
  then show ?thesis by simp
qed

lemma abs_normal_snoc: "abs_normal cs \<Longrightarrow> wf_name n \<Longrightarrow> abs_normal (cs @ [Normal n])"
  by (auto simp: abs_normal_def intro: exI [of _ "ns @ [n]" for ns])

lemma components_abs_normal: "abs_normal cs \<Longrightarrow> components (path_of cs) = cs"
  using components_path_of(2) by (auto simp: abs_normal_def list_all_iff)

lemma absolute_root: "components p = RootDir # cs \<Longrightarrow> is_absolute p"
  by (auto simp: components_def Let_def name_component_def map_eq_Cons_conv split: if_splits)

lemma canonical_join:
  assumes "canonical_path env r" and "wf_name n" and "symlink_metadata env (path_join r n) \<noteq> IsLink"
  shows "canonical_path env (path_join r n)"
proof -
  have r: "abs_normal (components r)" "path_of (components r) = r" "\<not> path_has_symlink env r"
    using assms(1) by (auto simp: canonical_path_def)
  have j: "path_join r n = path_of (components r @ [Normal n])" using r(2) by (simp add: path_of_snoc)
  have c: "components (path_join r n) = components r @ [Normal n]"
    unfolding j by (rule components_abs_normal) (rule abs_normal_snoc [OF r(1) assms(2)])
  have abs: "is_absolute (path_join r n)" "is_absolute r"
    using r(1) c absolute_root by (auto simp: abs_normal_def)
  have "\<not> path_has_symlink env (path_join r n)"
    using r(3) assms(3) abs unfolding path_has_symlink_def c
    by (auto simp: list_ex_iff less_Suc_eq j)
  then show ?thesis using c j abs_normal_snoc [OF r(1) assms(2)] by (simp add: canonical_path_def)
qed

lemma walk_canonical:
  assumes "\<forall>p q. canonicalize env p = Some q \<longrightarrow> canonical_path env q"
  shows "walk env left path = Some q \<Longrightarrow> canonical_path env q"
proof (induction left arbitrary: path q)
  case (Suc left)
  show ?case
  proof (cases "canonicalize env path")
    case None
    with Suc.prems obtain parent n r where n: "path_file_name path = Some n"
      and r: "walk env left (path_of parent) = Some r"
      and k: "(case symlink_metadata env (path_join r n) of MetaError \<Rightarrow> None
         | IsLink \<Rightarrow> Option.bind (read_link env (path_join r n))
             (\<lambda>target. walk env left (if is_absolute target then target else path_join r target))
         | _ \<Rightarrow> Some (path_join r n)) = Some q"
      by (auto simp: bind_eq_Some_conv Let_def)
    have "canonical_path env (path_join r n)" if "symlink_metadata env (path_join r n) \<noteq> IsLink"
      using canonical_join [OF Suc.IH [OF r] file_name_wf [OF n] that] .
    then show ?thesis
      using k Suc.IH by (cases "symlink_metadata env (path_join r n)") (auto simp: bind_eq_Some_conv)
  qed (use Suc.prems assms in simp)
qed simp

text \<open>
  Assuming that the operating system's \<open>canonicalize\<close> returns canonical, link-free paths, whatever
  path the policy resolves is re-checked under a canonical name: no component of it is a symlink,
  and it is absolute, normalised and spelled without redundant separators, even when the last
  components do not exist or are dangling links.
\<close>

theorem resolved_target_has_no_links:
  assumes "\<forall>p q. canonicalize env p = Some q \<longrightarrow> canonical_path env q"
    and "resolve_symlink_target env raw = Some target"
  shows "\<exists>q. canonical_path env q \<and> target = path_match_string q"
proof -
  from assms(2) obtain q where q: "resolve_following_symlinks env raw = Some q"
    "target = path_match_string (normalize_lexically q)"
    by (auto simp: resolve_symlink_target_def split: if_splits)
  have c: "canonical_path env q"
    using walk_canonical [OF assms(1)] q(1) unfolding resolve_following_symlinks_def by blast
  then have "normalize_components (components q) = components q" "components q \<noteq> []"
    using normalize_components_fixed by (auto simp: canonical_path_def abs_normal_def)
  then have "normalize_lexically q = q" using c by (simp add: normalize_lexically_def canonical_path_def)
  with q c show ?thesis by auto
qed

definition link_env :: "unit policy_env" where
  \<comment> \<open>\<open>/w/l\<close> is a dangling link to \<open>/etc/x\<close>\<close>
  "link_env = \<lparr>glob_new = (\<lambda>_. None), glob_matches_with = (\<lambda>_ _ _. False), url_host = (\<lambda>_. None),
     to_lowercase = to_ascii_lowercase, all_commands_from_script = (\<lambda>_. None),
     canonicalize = (\<lambda>p. if p \<in> set (map lit [''/w'', ''/etc'']) then Some p else None),
     symlink_metadata = (\<lambda>p. if p = lit ''/w/l'' then IsLink else if p = lit ''/etc/x'' then MetaNotFound else NotLink),
     read_link = (\<lambda>p. if p = lit ''/w/l'' then Some (lit ''/etc/x'') else None)\<rparr>"

theorem resolved_target_has_no_links_witness:
  "resolve_symlink_target link_env (lit ''/w/l'') = Some (lit ''/etc/x'') \<and>
   (\<exists>q. canonical_path link_env q \<and> lit ''/etc/x'' = path_match_string q)"
proof -
  have c: "canonical_path link_env (lit ''/w'')" "canonical_path link_env (lit ''/etc'')"
    unfolding canonical_path_def abs_normal_def
    by (intro conjI exI [of _ "[lit ''w'']"]; code_simp) (intro conjI exI [of _ "[lit ''etc'']"]; code_simp)
  have canon: "\<forall>p q. canonicalize link_env p = Some q \<longrightarrow> canonical_path link_env q"
    using c by (simp add: link_env_def)
  have r: "resolve_symlink_target link_env (lit ''/w/l'') = Some (lit ''/etc/x'')" by code_simp
  from resolved_target_has_no_links [OF canon r] r show ?thesis by blast
qed

end
