(* ===== verification/Peel_Limits.thy ===== *)
theory Peel_Limits
  imports Command_Words
begin

text \<open>
  Concrete commands at the limits of the peeling of \<open>Command_Words\<close>, evaluated.
\<close>

text \<open>
  Two shapes the flags miss.  The real-time options \<open>-T\<close>, \<open>-P\<close> and \<open>-D\<close> of \<open>chrt\<close> take an
  operand, which the peel reads as the priority, so the command word it returns is the priority.
  And when the budget of rounds ends exactly at a packed \<open>env -S\<close>, its scan is never noted.
\<close>

lemma chrt_operand_hides_command:
  "normalize_command_words (map lit [''chrt'', ''-T'', ''1000'', ''0'', ''rm'', ''-rf'', ''/'']) =
     \<lparr>norm_words = map lit [''0'', ''rm'', ''-rf'', ''/''], has_chdir = False, has_split_string = False,
      env_options_uncertain = False, exhausted = False, ambiguous = False\<rparr>"
  by code_simp

lemma head_is_Cons: "head_is (w # ws) x \<longleftrightarrow> head_is [w] x"
  by (simp add: head_is_def)

definition fresh_peel :: "rstring list \<Rightarrow> normalized_command_peel" where
  "fresh_peel ws = \<lparr>norm_words = ws, has_chdir = False, has_split_string = False, env_options_uncertain = False,
    exhausted = False, ambiguous = False\<rparr>"

lemma timeout_round:
  assumes "w = lit ''timeout'' \<or> w = lit ''nice''"
  shows "normalize_loop (Suc n) (fresh_peel (lit ''timeout'' # lit ''1'' # lit ''command'' # w # ws)) = normalize_loop n (fresh_peel (w # ws))"
proof -
  have names: "head_is [lit ''timeout''] ''timeout''" "\<not> head_is [lit ''timeout''] ''env''"
    "\<not> dashed (lit ''1'')" "list_all (\<lambda>x. \<not> head_is [lit ''command''] x)
      [''timeout'', ''nice'', ''ionice'', ''chrt'', ''stdbuf'', ''env'', ''exec'']" "head_is [lit ''command''] ''command''"
    "lit ''command'' \<noteq> []" "lit ''command'' \<noteq> [0]"
    by code_simp+
  have w: "\<not> dashed w" "w \<noteq> lit ''--''" "w \<noteq> []" "w \<noteq> [0]"
    "list_all (\<lambda>x. \<not> head_is [w] x) [''exec'', ''command'', ''builtin'']"
    using assms(1) by (elim disjE; hypsubst; code_simp)+
  have 1: "strip_wrapper_command (lit ''timeout'' # lit ''1'' # lit ''command'' # w # ws) = Some (lit ''command'' # w # ws)"
    using names by (simp add: strip_wrapper_command_def head_is_Cons [of _ "_ # _"] after_mandatory_def nonempty_def)
  have 2: "strip_wrapper_command (lit ''command'' # w # ws) = None"
    using names by (simp add: strip_wrapper_command_def head_is_Cons [of _ "_ # _"])
  have "unwrap_wrappers_checked (lit ''timeout'' # lit ''1'' # lit ''command'' # w # ws) =
    \<lparr>peel_words = lit ''command'' # w # ws, peel_chdir = False, peel_split_string = False, peel_env_uncertain = False,
     peel_exhausted = False\<rparr>"
    using names by (simp add: unwrap_wrappers_checked_def MAX_WRAPPER_DEPTH_def numeral_eq_Suc note_env_def
        head_is_Cons [of _ "_ # _"] 1 2)
  moreover have "peel_transparent_prefixes (lit ''command'' # w # ws) = Some (w # ws)"
    using names w by (simp add: peel_transparent_prefixes_def MAX_TRANSPARENT_PREFIX_DEPTH_def numeral_eq_Suc
        strip_transparent_prefix_def head_is_Cons [of _ "_ # _"] head_is_Cons [of w ws] peeled_or_not_def)
  ultimately show ?thesis by (simp add: fresh_peel_def)
qed

lemma timeout_rounds:
  "normalize_loop (k + n) (fresh_peel (concat (replicate k (map lit [''timeout'', ''1'', ''command''])) @ lit ''nice'' # ws)) =
     normalize_loop n (fresh_peel (lit ''nice'' # ws))"
proof (induction k)
  case (Suc k)
  obtain w ws' where "concat (replicate k (map lit [''timeout'', ''1'', ''command''])) @ lit ''nice'' # ws = w # ws'"
    and "w = lit ''timeout'' \<or> w = lit ''nice''"
    by (cases k) auto
  with Suc timeout_round show ?case by simp
qed simp

lemma budget_hides_split_string:
  "let n = normalize_command_words (concat (replicate 15 (map lit [''timeout'', ''1'', ''command''])) @
       replicate 8 (lit ''nice'') @ map lit [''env'', ''-S'', ''x # y'']) in
   \<not> unmodelled n \<and> norm_words n = map lit [''env'', ''-S'', ''x # y''] \<and>
   has_split_string (normalize_command_words (norm_words n))"
proof -
  let ?ws = "replicate 8 (lit ''nice'') @ map lit [''env'', ''-S'', ''x # y'']"
  let ?env = "map lit [''env'', ''-S'', ''x # y'']"
  have "normalize_loop 1 (fresh_peel ?ws) = fresh_peel ?env" by code_simp
  then have "normalize_loop MAX_NORMALIZE_ROUNDS
      (fresh_peel (concat (replicate 15 (map lit [''timeout'', ''1'', ''command''])) @ ?ws)) = fresh_peel ?env"
    using timeout_rounds [of 15 1 "replicate 7 (lit ''nice'') @ ?env"]
    by (simp add: MAX_NORMALIZE_ROUNDS_def MAX_WRAPPER_DEPTH_def MAX_TRANSPARENT_PREFIX_DEPTH_def numeral_eq_Suc)
  moreover have "\<not> still_peelable ?env" by code_simp
  ultimately have "normalize_command_words (concat (replicate 15 (map lit [''timeout'', ''1'', ''command''])) @ ?ws) =
      fresh_peel ?env"
    by (simp add: normalize_command_words_def fresh_peel_def Let_def)
  moreover have "has_split_string (normalize_command_words ?env)" "\<not> unmodelled (fresh_peel ?env)"
    "norm_words (fresh_peel ?env) = ?env" by code_simp+
  ultimately show ?thesis by (simp only: Let_def simp_thms)
qed

end
