(* ===== verification/Exec_Risk.thy ===== *)
theory Exec_Risk
  imports Permission_Policy
begin

text \<open>
  Execution risks of a Bash request (\<open>xai-grok-workspace/src/permission/exec_risk.rs\<close>): options of
  \<open>git\<close> and \<open>sort\<close> that run programs, the read-only queries of \<open>git\<close>, and the scan of the
  repository configuration that a \<open>git\<close> in the script would read.  Repositories and files are
  what libgit2 and \<open>std::fs\<close> report, given by \<open>git_env\<close>.  A slice that is only ever shortened
  from the front is a list, so that equal pointers and lengths are equal lengths.
\<close>

section \<open>Normalising the words\<close>

primrec exec_normalize_loop :: "nat \<Rightarrow> rstring list \<Rightarrow> rstring list option" where
  "exec_normalize_loop 0 current = None"
| "exec_normalize_loop (Suc n) current =
     (let checked = unwrap_wrappers_checked current in
      if peel_exhausted checked \<or> peel_split_string checked \<or> peel_chdir checked then None
      else case peel_transparent_prefixes (peel_words checked) of
        None \<Rightarrow> None
      | Some inner \<Rightarrow>
          if length inner = length current \<or> length inner = length (peel_words checked) then Some inner
          else exec_normalize_loop n inner)"

definition normalize_for_exec_risk :: "rstring list \<Rightarrow> rstring list option" where
  \<comment> \<open>\<open>None\<close> is \<open>FailClosed\<close>\<close>
  "normalize_for_exec_risk words = exec_normalize_loop MAX_NORMALIZE_ROUNDS words"

definition is_accepted_long_option_prefix :: "rstring \<Rightarrow> string \<Rightarrow> nat \<Rightarrow> bool" where
  "is_accepted_long_option_prefix flag full min_len \<longleftrightarrow>
     double_dashed flag \<and> min_len \<le> length flag \<and> starts_with (lit full) flag \<and>
     list_all (\<lambda>c. is_ascii_alphabetic c \<or> is_ascii_digit c \<or> c = DASH) flag"

definition before_equals :: "rstring \<Rightarrow> rstring" where
  "before_equals w = takeWhile (\<lambda>c. c \<noteq> 61) w"

definition normalized_token_basename :: "rstring \<Rightarrow> rstring" where
  "normalized_token_basename token = (let name = to_ascii_lowercase (basename token) in
     case strip_suffix name (lit ''.exe'') of Some stem \<Rightarrow> stem | None \<Rightarrow> name)"

definition normalized_program_name :: "rstring list \<Rightarrow> rstring option" where
  "normalized_program_name words = (case words of
     [] \<Rightarrow> None
   | raw # _ \<Rightarrow> if basename raw = [] then None else Some (normalized_token_basename raw))"

definition is_git_program :: "rstring list \<Rightarrow> bool" where
  "is_git_program words \<longleftrightarrow> normalized_program_name words = Some (lit ''git'')"

definition is_sort_program :: "rstring list \<Rightarrow> bool" where
  "is_sort_program words \<longleftrightarrow> normalized_program_name words = Some (lit ''sort'')"

section \<open>Options that run programs\<close>

definition sort_has_compress_program_flag :: "rstring list \<Rightarrow> bool" where
  "sort_has_compress_program_flag words = list_ex (\<lambda>w.
     w = lit ''--compress-program'' \<or> starts_with w (lit ''--compress-program='') \<or>
     is_accepted_long_option_prefix (before_equals w) ''--compress-program'' 4)
     (takeWhile (\<lambda>w. w \<noteq> lit ''--'') (tl words))"

definition is_git_config_env_flag :: "rstring \<Rightarrow> bool" where
  "is_git_config_env_flag tok \<longleftrightarrow> tok = lit ''--config-env'' \<or> starts_with tok (lit ''--config-env='') \<or>
     is_accepted_long_option_prefix (before_equals tok) ''--config-env'' 4"

definition is_git_repo_retarget_flag :: "rstring \<Rightarrow> bool" where
  "is_git_repo_retarget_flag tok \<longleftrightarrow>
     tok = lit ''--git-dir'' \<or> starts_with tok (lit ''--git-dir='') \<or>
     tok = lit ''--work-tree'' \<or> starts_with tok (lit ''--work-tree='') \<or>
     is_accepted_long_option_prefix (before_equals tok) ''--git-dir'' 4 \<or>
     is_accepted_long_option_prefix (before_equals tok) ''--work-tree'' 4"

definition is_attached_git_config_c :: "rstring \<Rightarrow> bool" where
  "is_attached_git_config_c tok \<longleftrightarrow> starts_with tok (lit ''-c'') \<and> 2 < length tok \<and> \<not> double_dashed tok"

definition attached_git_c_path :: "rstring \<Rightarrow> rstring option" where
  "attached_git_c_path tok = (case strip_prefix tok (lit ''-C'') of
     Some rest \<Rightarrow> if rest \<noteq> [] \<and> \<not> double_dashed tok then Some rest else None
   | None \<Rightarrow> None)"

definition git_global_option_takes_value :: "rstring \<Rightarrow> bool" where
  "git_global_option_takes_value tok \<longleftrightarrow>
     tok \<in> set (map lit [''-C'', ''-c'', ''--git-dir'', ''--work-tree'', ''--namespace'', ''--super-prefix'',
       ''--exec-path'', ''--list-cmds'', ''--attr-source'', ''--config-env'']) \<or>
     is_accepted_long_option_prefix tok ''--config-env'' 4 \<or>
     is_accepted_long_option_prefix tok ''--git-dir'' 4 \<or>
     is_accepted_long_option_prefix tok ''--work-tree'' 4 \<or>
     is_accepted_long_option_prefix tok ''--namespace'' 7 \<or>
     is_accepted_long_option_prefix tok ''--super-prefix'' 8 \<or>
     is_accepted_long_option_prefix tok ''--exec-path'' 7 \<or>
     is_accepted_long_option_prefix tok ''--list-cmds'' 7 \<or>
     is_accepted_long_option_prefix tok ''--attr-source'' 8"

definition takes_next :: "rstring \<Rightarrow> rstring list \<Rightarrow> bool" where
  \<comment> \<open>the option is followed by its value as a word of its own\<close>
  "takes_next tok rest \<longleftrightarrow> 61 \<notin> set tok \<and> git_global_option_takes_value tok \<and>
     (case rest of [] \<Rightarrow> False | n # _ \<Rightarrow> \<not> dashed n \<or> n = lit ''-'')"

fun git_global_loop :: "rstring list \<Rightarrow> bool" where
  "git_global_loop [] = False"
| "git_global_loop (tok # rest) =
     (if tok = lit ''--'' then False
      else if \<not> dashed tok \<or> tok = lit ''-'' then False
      else if tok = lit ''-c'' \<or> is_attached_git_config_c tok \<or> is_git_config_env_flag tok \<or>
              is_git_repo_retarget_flag tok then True
      else if attached_git_c_path tok \<noteq> None then git_global_loop rest
      else if takes_next tok rest then git_global_loop (tl rest)
      else git_global_loop rest)"

definition git_has_exec_risk_global :: "rstring list \<Rightarrow> bool" where
  "git_has_exec_risk_global words = git_global_loop (tl words)"

definition segment_has_exec_risk_flag :: "rstring list \<Rightarrow> bool" where
  "segment_has_exec_risk_flag words =
     (if is_sort_program words then sort_has_compress_program_flag words
      else if is_git_program words then git_has_exec_risk_global words
      else False)"

record segment_exec_facts =
  exec_risk :: bool
  has_git :: bool

definition segment_exec_facts_of :: "rstring list \<Rightarrow> segment_exec_facts" where
  "segment_exec_facts_of words = (case normalize_for_exec_risk words of
     None \<Rightarrow> \<lparr>exec_risk = True, has_git = False\<rparr>
   | Some inner \<Rightarrow> \<lparr>exec_risk = segment_has_exec_risk_flag inner, has_git = is_git_program inner\<rparr>)"

section \<open>Read-only queries of git\<close>

definition SAFE_GIT_SUBCOMMANDS :: "rstring list" where
  "SAFE_GIT_SUBCOMMANDS = map lit [''status'', ''branch'', ''log'', ''diff'', ''ls-files'', ''show'', ''rev-parse'',
     ''blame'', ''grep'', ''describe'', ''merge-base'', ''check-ignore'', ''check-attr'', ''cat-file'', ''ls-tree'',
     ''show-ref'', ''for-each-ref'', ''rev-list'', ''name-rev'', ''count-objects'', ''shortlog'']"

definition GIT_QUERY_UNSAFE_OPTIONS :: "rstring list" where
  "GIT_QUERY_UNSAFE_OPTIONS = map lit [''--filters'', ''--textconv'', ''--output'', ''--ext-diff'', ''--open-files-in-pager'']"

definition git_query_option_is_unsafe :: "rstring \<Rightarrow> bool" where
  "git_query_option_is_unsafe word = (let flag = before_equals word in
     2 < length flag \<and> list_ex (\<lambda>full. starts_with full flag) GIT_QUERY_UNSAFE_OPTIONS)"

fun verb_index_from :: "nat \<Rightarrow> rstring list \<Rightarrow> nat option" where
  "verb_index_from i [] = None"
| "verb_index_from i (tok # rest) =
     (if tok = lit ''-'' \<or> tok = lit ''--'' then None
      else if \<not> dashed tok then Some i
      else if tok = lit ''-C'' then (case rest of [] \<Rightarrow> None | _ # rest' \<Rightarrow> verb_index_from (i + 2) rest')
      else if attached_git_c_path tok \<noteq> None \<or> tok = lit ''--no-pager'' \<or> tok = lit ''-P''
        then verb_index_from (i + 1) rest
      else None)"

definition git_safe_query_verb_index :: "rstring list \<Rightarrow> nat option" where
  "git_safe_query_verb_index words = verb_index_from 1 (tl words)"

definition first_word_is_git :: "rstring list \<Rightarrow> bool" where
  "first_word_is_git words \<longleftrightarrow> words \<noteq> [] \<and> hd words = lit ''git''"

definition git_words_have_unsafe_query_option :: "rstring list \<Rightarrow> bool" where
  "git_words_have_unsafe_query_option words \<longleftrightarrow> first_word_is_git words \<and>
     (list_ex git_query_option_is_unsafe (tl words) \<or>
      (case git_safe_query_verb_index words of
         Some i \<Rightarrow> words ! i = lit ''grep'' \<and> list_ex (\<lambda>w. starts_with w (lit ''-O'')) (tl words)
       | None \<Rightarrow> False))"

definition git_words_are_read_only_query :: "rstring list \<Rightarrow> bool" where
  "git_words_are_read_only_query words \<longleftrightarrow> first_word_is_git words \<and> \<not> git_has_exec_risk_global words \<and>
     (case git_safe_query_verb_index words of
        None \<Rightarrow> False
      | Some i \<Rightarrow> words ! i \<in> set SAFE_GIT_SUBCOMMANDS \<and> \<not> git_words_have_unsafe_query_option words)"

section \<open>The configuration a git would read\<close>

datatype config_level = LocalLevel | WorktreeLevel | OtherLevel

datatype open_result = OpenedFile | OpenedOther | OpenNotFound | OpenError

record git_repo =
  repo_path :: rstring
  repo_commondir :: rstring
  repo_entries :: "(config_level \<times> rstring \<times> rstring) option list option"
    \<comment> \<open>\<open>None\<close>: the configuration or its iterator cannot be opened; an inner \<open>None\<close> is an entry that cannot be read\<close>

datatype repo_discovery = RepoNotFound | RepoError | RepoFound git_repo

record git_env =
  git_discover :: "rstring \<Rightarrow> repo_discovery"
  file_open :: "rstring \<Rightarrow> open_result"
  git_parse_bool :: "rstring \<Rightarrow> bool option"

definition local_git_config_entry_is_exec :: "git_env \<Rightarrow> rstring \<Rightarrow> rstring \<Rightarrow> bool" where
  "local_git_config_entry_is_exec genv raw_name raw_value =
     (let name = to_ascii_lowercase raw_name; value = trim raw_value in
      if value = [] then False
      else if name = lit ''core.fsmonitor'' then git_parse_bool genv value = None
      else if name = lit ''diff.external'' then True
      else if (case strip_prefix name (lit ''diff.'') of
           Some rest \<Rightarrow> ends_with rest (lit ''.command'') \<or> ends_with rest (lit ''.textconv'') \<or> ends_with rest (lit ''.external'')
         | None \<Rightarrow> False) then True
      else case strip_prefix name (lit ''alias.'') of
           Some alias \<Rightarrow> alias \<in> set SAFE_GIT_SUBCOMMANDS \<and> starts_with value (lit ''!'')
         | None \<Rightarrow> False)"

definition path_unreadable :: "git_env \<Rightarrow> rstring \<Rightarrow> bool" where
  "path_unreadable genv path = (case file_open genv path of
     OpenedFile \<Rightarrow> False | OpenedOther \<Rightarrow> True | OpenNotFound \<Rightarrow> False | OpenError \<Rightarrow> True)"

fun entries_have_exec_risk :: "git_env \<Rightarrow> (config_level \<times> rstring \<times> rstring) option list \<Rightarrow> bool" where
  "entries_have_exec_risk genv [] = False"
| "entries_have_exec_risk genv (None # es) = True"
| "entries_have_exec_risk genv (Some (level, name, value) # es) =
     (if level \<noteq> OtherLevel \<and> local_git_config_entry_is_exec genv name value then True
      else entries_have_exec_risk genv es)"

definition local_repo_config_has_exec_risk :: "git_env \<Rightarrow> rstring \<Rightarrow> bool" where
  "local_repo_config_has_exec_risk genv cwd = (case git_discover genv cwd of
     RepoNotFound \<Rightarrow> False
   | RepoError \<Rightarrow> True
   | RepoFound repo \<Rightarrow>
       if path_unreadable genv (path_join (repo_commondir repo) (lit ''config'')) \<or>
          path_unreadable genv (path_join (repo_path repo) (lit ''config'')) \<or>
          path_unreadable genv (path_join (repo_path repo) (lit ''config.worktree'')) then True
       else case repo_entries repo of None \<Rightarrow> True | Some es \<Rightarrow> entries_have_exec_risk genv es)"

definition is_static_path_operand :: "rstring \<Rightarrow> bool" where
  "is_static_path_operand p \<longleftrightarrow> p \<noteq> [] \<and> p \<noteq> lit ''-'' \<and> \<not> dashed p \<and> 36 \<notin> set p \<and> 96 \<notin> set p"

definition join_cwd :: "rstring \<Rightarrow> rstring \<Rightarrow> rstring" where
  "join_cwd base operand = (if is_absolute operand then operand else path_join base operand)"

fun chdir_operand :: "rstring option \<Rightarrow> rstring list \<Rightarrow> rstring option" where
  "chdir_operand target [] = target"
| "chdir_operand target (tok # rest) =
     (if tok = lit ''--'' then (case rest of [] \<Rightarrow> None | next # _ \<Rightarrow> Some next)
      else if dashed tok then None
      else if target \<noteq> None then None
      else chdir_operand (Some tok) rest)"

definition apply_literal_chdir :: "rstring \<Rightarrow> rstring list \<Rightarrow> rstring option" where
  "apply_literal_chdir cwd words = (case chdir_operand None (tl words) of
     None \<Rightarrow> None
   | Some target \<Rightarrow> if is_static_path_operand target then Some (join_cwd cwd target) else None)"

fun git_cwd_loop :: "rstring \<Rightarrow> rstring list \<Rightarrow> rstring option" where
  "git_cwd_loop cwd [] = Some cwd"
| "git_cwd_loop cwd (tok # rest) =
     (if tok = lit ''--'' \<or> \<not> dashed tok \<or> tok = lit ''-'' then Some cwd
      else if is_git_repo_retarget_flag tok then None
      else if tok = lit ''-C'' then (case rest of
          [] \<Rightarrow> None
        | path # rest' \<Rightarrow> if is_static_path_operand path then git_cwd_loop (join_cwd cwd path) rest' else None)
      else case attached_git_c_path tok of
        Some path \<Rightarrow> if is_static_path_operand path then git_cwd_loop (join_cwd cwd path) rest else None
      | None \<Rightarrow> if takes_next tok rest then git_cwd_loop cwd (tl rest) else git_cwd_loop cwd rest)"

definition git_effective_cwd :: "rstring list \<Rightarrow> rstring \<Rightarrow> rstring option" where
  "git_effective_cwd words start_cwd = git_cwd_loop start_cwd (tl words)"

datatype ambient_scan_plan = FailClosed | CheckDirs "rstring list"

fun ambient_loop :: "rstring \<Rightarrow> rstring list \<Rightarrow> rstring list list \<Rightarrow> ambient_scan_plan" where
  "ambient_loop cwd git_cwds [] = (if git_cwds = [] then FailClosed else CheckDirs git_cwds)"
| "ambient_loop cwd git_cwds (raw # raws) = (case normalize_for_exec_risk raw of
     None \<Rightarrow> FailClosed
   | Some words \<Rightarrow>
       let name = normalized_program_name words in
       if name = Some (lit ''cd'') \<or> name = Some (lit ''pushd'') then (case apply_literal_chdir cwd words of
           Some next \<Rightarrow> ambient_loop next git_cwds raws | None \<Rightarrow> FailClosed)
       else if name = Some (lit ''popd'') then FailClosed
       else if name = Some (lit ''git'') then (case git_effective_cwd words cwd of
           Some effective \<Rightarrow> ambient_loop cwd (git_cwds @ [effective]) raws | None \<Rightarrow> FailClosed)
       else ambient_loop cwd git_cwds raws)"

definition ambient_scan_plan_from_segments :: "rstring list list \<Rightarrow> rstring \<Rightarrow> ambient_scan_plan" where
  "ambient_scan_plan_from_segments raw_segments session_cwd = ambient_loop session_cwd [] raw_segments"

fun ambient_exec_risk_from_plan :: "git_env \<Rightarrow> ambient_scan_plan \<Rightarrow> bool" where
  "ambient_exec_risk_from_plan genv FailClosed = True"
| "ambient_exec_risk_from_plan genv (CheckDirs dirs) = list_ex (local_repo_config_has_exec_risk genv) dirs"

section \<open>Scripts that cannot be decomposed\<close>

fun split_by :: "(rchar \<Rightarrow> bool) \<Rightarrow> rstring \<Rightarrow> rstring list" where
  "split_by P [] = [[]]"
| "split_by P (x # s) =
     (if P x then [] # split_by P s
      else (case split_by P s of [] \<Rightarrow> [[x]] | p # ps \<Rightarrow> (x # p) # ps))"

definition split_whitespace :: "rstring \<Rightarrow> rstring list" where
  "split_whitespace s = filter (\<lambda>w. w \<noteq> []) (split_by is_whitespace s)"

definition trim_quotes :: "rstring \<Rightarrow> rstring" where
  "trim_quotes t = (let q = (\<lambda>c. c = 39 \<or> c = 34 \<or> c = 96) in rev (dropWhile q (rev (dropWhile q t))))"

definition script_may_invoke_git :: "rstring \<Rightarrow> bool" where
  "script_may_invoke_git cmd = list_ex (\<lambda>token. let trimmed = trim_quotes token in
       trimmed \<noteq> [] \<and> normalized_token_basename trimmed = lit ''git'')
     (split_by (\<lambda>c. is_whitespace c \<or> c \<in> set (lit ''|&;()`'') \<or> c = NL \<or> c \<in> set (lit ''<>'')) cmd)"

end
