(* ===== verification/Safe_Commands.thy ===== *)
theory Safe_Commands
  imports Exec_Risk
begin

text \<open>
  Which command words the permission manager takes for safe or dangerous, and how wide an
  "always allow" for them may be (\<open>permission/manager/mod.rs\<close>, with the flag table of
  \<open>auto_mode/mod.rs\<close>).  The words are those of one command of a script, with wrappers peeled.
\<close>

section \<open>Options that make a safe command unsafe\<close>

definition rg_has_pre_flag :: "rstring list \<Rightarrow> bool" where
  "rg_has_pre_flag words \<longleftrightarrow> normalized_command_head words = Some (lit ''rg'') \<and>
     list_ex (\<lambda>w. w = lit ''--pre'' \<or> starts_with w (lit ''--pre='')) words"

definition KUBECTL_UNSAFE_FLAGS :: "rstring list" where
  "KUBECTL_UNSAFE_FLAGS = map lit [''--kubeconfig'', ''--context'', ''--cluster'', ''--server'', ''-s'', ''--token'',
     ''--user'', ''--as'', ''--as-group'', ''--as-uid'', ''--as-user-extra'', ''--username'', ''--password'',
     ''--client-certificate'', ''--client-key'', ''--certificate-authority'']"

definition kubectl_has_unsafe_flag :: "rstring list \<Rightarrow> bool" where
  "kubectl_has_unsafe_flag words \<longleftrightarrow> normalized_command_head words = Some (lit ''kubectl'') \<and>
     list_ex (\<lambda>w. before_equals w \<in> set KUBECTL_UNSAFE_FLAGS) (tl words)"

definition PS_VALUE_FLAGS :: "rstring list" where
  "PS_VALUE_FLAGS = map lit [''-o'', ''-O'', ''--format'', ''--sort'', ''-p'', ''-q'', ''-t'', ''-u'', ''-U'', ''-g'', ''-G'',
     ''-C'', ''-s'', ''--pid'', ''--ppid'', ''--sid'', ''--tty'', ''--user'', ''--group'', ''--cols'', ''--columns'',
     ''--width'', ''o'', ''O'']"

definition ps_word_dumps :: "rstring \<Rightarrow> bool" where
  \<comment> \<open>an option cluster with the letter that prints environments\<close>
  "ps_word_dumps s \<longleftrightarrow> 69 \<in> set s \<or>
     101 \<in> set s \<and> (\<not> dashed s \<or> dashed s \<and> \<not> double_dashed s \<and> (97 \<in> set s \<or> 120 \<in> set s))"

fun ps_loop :: "rstring list \<Rightarrow> bool" where
  "ps_loop [] = False"
| "ps_loop (s # rest) =
     (if starts_with s (lit ''--format='') \<or> starts_with s (lit ''--sort='') then ps_loop rest
      else if s \<in> set PS_VALUE_FLAGS then ps_loop (tl rest)
      else if starts_with s (lit ''-o'') \<or> starts_with s (lit ''-O'') then ps_loop rest
      else if ps_word_dumps s then True
      else if dashed s \<and> \<not> double_dashed s \<and> (ends_with s (lit ''o'') \<or> ends_with s (lit ''O'')) then ps_loop (tl rest)
      else ps_loop rest)"

definition ps_dumps_environment :: "rstring list \<Rightarrow> bool" where
  "ps_dumps_environment words \<longleftrightarrow> normalized_command_head words = Some (lit ''ps'') \<and> ps_loop (tl words)"

section \<open>Safe commands\<close>

definition is_safe_git_query_prefix :: "rstring \<Rightarrow> bool" where
  "is_safe_git_query_prefix cmd = (case strip_prefix cmd (lit ''git '') of
     None \<Rightarrow> False
   | Some rest \<Rightarrow> list_ex (matches_command_prefix rest) SAFE_GIT_SUBCOMMANDS)"

definition SAFE_PREFIXES :: "rstring list" where
  "SAFE_PREFIXES = map lit [''ls'', ''cat'', ''pwd'', ''date'', ''whoami'', ''hostname'', ''uptime'', ''grep'', ''rg'',
     ''kubectl get'', ''kubectl logs'', ''kubectl describe'', ''ps'', ''bin/explorer ls'', ''head'', ''tail'', ''wc'', ''sort'',
     ''uniq'', ''tr'', ''cut'', ''echo'', ''printf'']"

definition is_safe_command_words_str :: "rstring \<Rightarrow> bool" where
  "is_safe_command_words_str cmd \<longleftrightarrow> list_ex (matches_command_prefix cmd) SAFE_PREFIXES \<or> is_safe_git_query_prefix cmd"

definition has_special_surface :: "rstring list \<Rightarrow> bool" where
  "has_special_surface words \<longleftrightarrow> rg_has_pre_flag words \<or> kubectl_has_unsafe_flag words \<or> ps_dumps_environment words"

definition is_safe_command_words :: "rstring list \<Rightarrow> bool" where
  "is_safe_command_words words =
     (if words = [] then False
      else if has_special_surface words then False
      else if first_word_is_git words then git_words_are_read_only_query words
      else is_safe_command_words_str (join [32] words))"

definition ALWAYS_SAFE_COMMANDS :: "rstring list" where
  "ALWAYS_SAFE_COMMANDS = map lit [''ls'', ''cat'', ''pwd'', ''date'', ''whoami'', ''hostname'', ''uptime'', ''ps'', ''grep'',
     ''rg'', ''kubectl get'', ''kubectl logs'', ''kubectl describe'', ''bin/explorer ls'']"

definition is_creation_program :: "rstring \<Rightarrow> bool" where
  "is_creation_program program \<longleftrightarrow> program = lit ''mkdir'' \<or> program = lit ''touch''"

definition is_safe_creation_command :: "rstring list \<Rightarrow> bool" where
  "is_safe_creation_command words \<longleftrightarrow> words \<noteq> [] \<and> is_creation_program (hd words)"

definition is_always_safe_command_words :: "rstring list \<Rightarrow> bool" where
  "is_always_safe_command_words words =
     (if words = [] then False
      else if has_special_surface words then False
      else if first_word_is_git words then git_words_are_read_only_query words
      else list_ex (matches_command_prefix (join [32] words)) ALWAYS_SAFE_COMMANDS)"

section \<open>Dangerous commands and the scope of a grant\<close>

definition DANGEROUS_PREFIXES :: "rstring list" where
  "DANGEROUS_PREFIXES = map lit [''rm'', ''chmod'', ''chown'', ''chgrp'', ''chattr'', ''pkill'', ''kill'', ''killall'', ''git push'']"

definition is_dangerous_command_words :: "rstring list \<Rightarrow> bool" where
  "is_dangerous_command_words words = (case normalized_command_head words of
     None \<Rightarrow> False
   | Some head \<Rightarrow>
       let joined = (if length words = 1 then head else head @ [32] @ join [32] (tl words))
       in list_ex (matches_command_prefix joined) DANGEROUS_PREFIXES)"

definition always_allow_scope_pinned :: "rstring list \<Rightarrow> bool" where
  "always_allow_scope_pinned words \<longleftrightarrow> is_dangerous_command_words words \<or> head_is_exec_vehicle words \<or>
     normalized_command_head words = Some (lit ''sed'')"

definition gh_always_allow_scope :: "rstring list \<Rightarrow> nat option" where
  "gh_always_allow_scope words =
     (if normalized_command_head words \<noteq> Some (lit ''gh'') then None
      else Some (case tl words of
          group' # verb # _ \<Rightarrow> if \<not> dashed group' \<and> \<not> dashed verb then 3 else length words
        | _ \<Rightarrow> length words))"

definition base_scope :: "rstring list \<Rightarrow> nat" where
  "base_scope words =
     (if is_safe_command_words words \<and> is_safe_command_words_str (hd words) then 1
      else if is_safe_command_words words \<and> 2 \<le> length words \<and> is_safe_command_words_str (join [32] (take 2 words)) then 2
      else let n = min (length words) 2 in n + length (takeWhile dashed (drop n words)))"

definition default_always_allow_scope :: "rstring list \<Rightarrow> nat" where
  "default_always_allow_scope words =
     (if words = [] then 0
      else if always_allow_scope_pinned words then length words
      else case gh_always_allow_scope words of Some n \<Rightarrow> n | None \<Rightarrow> base_scope words)"

definition default_always_deny_scope :: "rstring list \<Rightarrow> nat" where
  "default_always_deny_scope words = (if words = [] then 0 else base_scope words)"

definition minimum_always_allow_scope :: "rstring list \<Rightarrow> nat" where
  "minimum_always_allow_scope words =
     (if always_allow_scope_pinned words then length words
      else case gh_always_allow_scope words of Some n \<Rightarrow> n | None \<Rightarrow> 1)"

section \<open>The scopes offered\<close>

lemma gh_scope_bounds: "gh_always_allow_scope words = Some n \<Longrightarrow> 1 \<le> n \<and> n \<le> length words"
  by (cases words)
     (auto simp: gh_always_allow_scope_def normalized_command_head_def split: if_splits list.splits)

lemma base_scope_bounds:
  assumes "words \<noteq> []"
  shows "1 \<le> base_scope words" and "base_scope words \<le> length words"
proof -
  define n where "n = min (length words) 2"
  from assms have "1 \<le> length words" by (cases words) simp_all
  then have n: "1 \<le> n" "n \<le> length words" by (simp_all add: n_def)
  have "n + length (takeWhile dashed (drop n words)) \<le> length words"
    using length_takeWhile_le [of dashed "drop n words"] n(2) by simp
  with n \<open>1 \<le> length words\<close> show "1 \<le> base_scope words" and "base_scope words \<le> length words"
    by (simp_all add: base_scope_def flip: n_def)
qed

text \<open>
  The scope an "always allow" row opens on is never below the narrowest scope the prompt may
  offer and never beyond the command; a command pinned because it is dangerous, runs other programs
  or is \<open>sed\<close> is offered only as a whole.
\<close>

theorem allow_scope_bounds:
  assumes "words \<noteq> []"
  shows "1 \<le> minimum_always_allow_scope words \<and>
    minimum_always_allow_scope words \<le> default_always_allow_scope words \<and>
    default_always_allow_scope words \<le> length words \<and>
    (if always_allow_scope_pinned words then minimum_always_allow_scope words = length words
     else \<not> is_dangerous_command_words words \<and> \<not> head_is_exec_vehicle words)"
  using assms gh_scope_bounds [of words] base_scope_bounds [OF assms]
  by (auto simp: minimum_always_allow_scope_def default_always_allow_scope_def always_allow_scope_pinned_def Suc_le_eq
      split: option.split)

theorem allow_scope_bounds_witness:
  "1 \<le> minimum_always_allow_scope [lit ''cargo'', lit ''test''] \<and>
   minimum_always_allow_scope [lit ''cargo'', lit ''test''] \<le> default_always_allow_scope [lit ''cargo'', lit ''test'']"
  using allow_scope_bounds [of "[lit ''cargo'', lit ''test'']"] by simp

end
