(* ===== verification/Permission_Store.thy ===== *)
theory Permission_Store
  imports Permission_Policy
begin

text \<open>
  What the user has decided before (\<open>permission/state.rs\<close>): the grants and denials of a project,
  merging them, and the store on disk that several sessions share.  A \<open>HashSet\<close> is the list of its
  elements in the order of iteration.  The store is a directory, a map from file names to decoded
  contents, next to the directory older versions used; a write can fail, which only logs.  A file
  that cannot be read counts as absent, and the write-back of a store whose server grants a load has
  dropped is left out: every later load drops them again (\<open>validated_idem\<close>).
\<close>

section \<open>Grants and denials\<close>

datatype edit_policy = EditAsk | EditAllow | EditReject

record permission_state =
  edit_policy :: edit_policy
  allow_bash_execute :: bool
  allowed_bash_commands :: "rstring list"
  disallowed_bash_commands :: "rstring list"
  allowed_bash_globs :: "rstring list"
  allowed_web_fetch_domains :: "rstring list"
  allowed_mcp_tools :: "rstring list"
  allowed_mcp_servers :: "rstring list"
  disallowed_mcp_tools :: "rstring list"
  disallowed_web_fetch_domains :: "rstring list"
  validated_mcp_server_grants_version :: int

definition VALIDATED_MCP_SERVER_GRANTS_VERSION :: int where "VALIDATED_MCP_SERVER_GRANTS_VERSION = 1"

definition default_state :: permission_state where
  "default_state = \<lparr>edit_policy = EditAsk, allow_bash_execute = False, allowed_bash_commands = [],
     disallowed_bash_commands = [], allowed_bash_globs = [], allowed_web_fetch_domains = [], allowed_mcp_tools = [],
     allowed_mcp_servers = [], disallowed_mcp_tools = [], disallowed_web_fetch_domains = [],
     validated_mcp_server_grants_version = VALIDATED_MCP_SERVER_GRANTS_VERSION\<rparr>"

definition hash_extend :: "rstring list \<Rightarrow> rstring list \<Rightarrow> rstring list" where
  "hash_extend xs ys = fold List.insert ys xs"

lemma set_hash_extend [simp]: "set (hash_extend xs ys) = set xs \<union> set ys"
  unfolding hash_extend_def by (induction ys arbitrary: xs) auto

definition merge_grants_from :: "permission_state \<Rightarrow> permission_state \<Rightarrow> permission_state" where
  \<comment> \<open>\<open>self.merge_grants_from(other)\<close>: the scalar policies stay those of \<open>self\<close>\<close>
  "merge_grants_from self other = self\<lparr>
     allow_bash_execute := allow_bash_execute self \<or> allow_bash_execute other,
     allowed_bash_commands := hash_extend (allowed_bash_commands self) (allowed_bash_commands other),
     disallowed_bash_commands := hash_extend (disallowed_bash_commands self) (disallowed_bash_commands other),
     allowed_bash_globs := hash_extend (allowed_bash_globs self) (allowed_bash_globs other),
     allowed_web_fetch_domains := hash_extend (allowed_web_fetch_domains self) (allowed_web_fetch_domains other),
     allowed_mcp_tools := hash_extend (allowed_mcp_tools self) (allowed_mcp_tools other),
     allowed_mcp_servers := hash_extend (allowed_mcp_servers self) (allowed_mcp_servers other),
     disallowed_mcp_tools := hash_extend (disallowed_mcp_tools self) (disallowed_mcp_tools other),
     disallowed_web_fetch_domains := hash_extend (disallowed_web_fetch_domains self) (disallowed_web_fetch_domains other)\<rparr>"

section \<open>The store\<close>

record permission_dirs =
  store_dir :: "rstring \<Rightarrow> permission_state option"
  legacy_dir :: "(rstring \<Rightarrow> permission_state option) option"

definition sanitize_client_id :: "rstring \<Rightarrow> rstring" where
  "sanitize_client_id i = map (\<lambda>c. if is_ascii_alphabetic c \<or> is_ascii_digit c \<or> c = 45 \<or> c = 95 then c else 95) i"

definition state_file_path :: "rstring option \<Rightarrow> rstring" where
  \<comment> \<open>the name of the file in its directory\<close>
  "state_file_path client = (case client of
     Some i \<Rightarrow> lit ''permission_'' @ sanitize_client_id i @ lit ''.toml''
   | None \<Rightarrow> lit ''permission.toml'')"

definition validated :: "permission_state \<Rightarrow> permission_state" where
  \<comment> \<open>grants to whole servers from before their names were validated are dropped\<close>
  "validated s = (if validated_mcp_server_grants_version s < VALIDATED_MCP_SERVER_GRANTS_VERSION
     then s\<lparr>allowed_mcp_servers := [], validated_mcp_server_grants_version := VALIDATED_MCP_SERVER_GRANTS_VERSION\<rparr>
     else s)"

lemma validated_idem [simp]: "validated (validated s) = validated s"
  by (simp add: validated_def)

definition try_load_state :: "(rstring \<Rightarrow> permission_state option) \<Rightarrow> rstring \<Rightarrow> permission_state option" where
  "try_load_state dir file = map_option validated (dir file)"

definition load_state_from_dir :: "(rstring \<Rightarrow> permission_state option) \<Rightarrow> rstring option \<Rightarrow> permission_state" where
  "load_state_from_dir dir client = (case (case client of None \<Rightarrow> None | Some _ \<Rightarrow> try_load_state dir (state_file_path client)) of
     Some s \<Rightarrow> s
   | None \<Rightarrow> (case try_load_state dir (state_file_path None) of Some s \<Rightarrow> s | None \<Rightarrow> default_state))"

definition state_dir_has_store :: "(rstring \<Rightarrow> permission_state option) \<Rightarrow> rstring option \<Rightarrow> bool" where
  "state_dir_has_store dir client \<longleftrightarrow>
     client \<noteq> None \<and> dir (state_file_path client) \<noteq> None \<or> dir (state_file_path None) \<noteq> None"

definition load_state_with_fallback :: "permission_dirs \<Rightarrow> rstring option \<Rightarrow> permission_state" where
  "load_state_with_fallback dirs client = (case legacy_dir dirs of
     Some legacy \<Rightarrow> if \<not> state_dir_has_store (store_dir dirs) client then load_state_from_dir legacy client
       else load_state_from_dir (store_dir dirs) client
   | None \<Rightarrow> load_state_from_dir (store_dir dirs) client)"

definition persist_state_to_dir :: "bool \<Rightarrow> permission_state \<Rightarrow> rstring option \<Rightarrow> permission_dirs \<Rightarrow> permission_dirs" where
  "persist_state_to_dir write_ok s client dirs =
     (if write_ok then dirs\<lparr>store_dir := (store_dir dirs)(state_file_path client := Some s)\<rparr> else dirs)"

definition persist_state :: "bool \<Rightarrow> permission_state \<Rightarrow> rstring option \<Rightarrow> permission_dirs \<Rightarrow> permission_dirs" where
  \<comment> \<open>what a concurrent session wrote since is merged back in\<close>
  "persist_state write_ok s client dirs = persist_state_to_dir write_ok
     (case try_load_state (store_dir dirs) (state_file_path client) of
        Some on_disk \<Rightarrow> merge_grants_from s on_disk | None \<Rightarrow> s) client dirs"

definition replace_state_on_disk :: "bool \<Rightarrow> permission_state \<Rightarrow> rstring option \<Rightarrow> permission_dirs \<Rightarrow> permission_dirs" where
  "replace_state_on_disk write_ok s client dirs = persist_state_to_dir write_ok s client dirs"

section \<open>What a store keeps\<close>

definition knows :: "permission_state \<Rightarrow> permission_state \<Rightarrow> bool" where
  \<comment> \<open>every grant and denial of the second state is one of the first\<close>
  "knows s t \<longleftrightarrow> (allow_bash_execute t \<longrightarrow> allow_bash_execute s) \<and>
     set (allowed_bash_commands t) \<subseteq> set (allowed_bash_commands s) \<and>
     set (disallowed_bash_commands t) \<subseteq> set (disallowed_bash_commands s) \<and>
     set (allowed_bash_globs t) \<subseteq> set (allowed_bash_globs s) \<and>
     set (allowed_web_fetch_domains t) \<subseteq> set (allowed_web_fetch_domains s) \<and>
     set (allowed_mcp_tools t) \<subseteq> set (allowed_mcp_tools s) \<and>
     set (allowed_mcp_servers t) \<subseteq> set (allowed_mcp_servers s) \<and>
     set (disallowed_mcp_tools t) \<subseteq> set (disallowed_mcp_tools s) \<and>
     set (disallowed_web_fetch_domains t) \<subseteq> set (disallowed_web_fetch_domains s)"

lemma knows_refl [simp]: "knows s s"
  by (simp add: knows_def)

lemma knows_trans: "knows s t \<Longrightarrow> knows t u \<Longrightarrow> knows s u"
  unfolding knows_def by blast

lemma knows_merge: "knows (merge_grants_from s t) s" "knows (merge_grants_from s t) t"
  by (simp_all add: knows_def merge_grants_from_def)

text \<open>
  The shared store loses nothing: when a session writes its grants and denials, what it loads
  next contains both its own and every one another session had stored for the same client.  A
  reset is final: what it wrote is what is loaded, whatever the directory of older versions still
  holds.
\<close>

theorem store_merges_and_resets:
  assumes "validated_mcp_server_grants_version s = VALIDATED_MCP_SERVER_GRANTS_VERSION"
  shows "knows (load_state_with_fallback (persist_state True s client dirs) client) s \<and>
    (case try_load_state (store_dir dirs) (state_file_path client) of
       None \<Rightarrow> True | Some on_disk \<Rightarrow> knows (load_state_with_fallback (persist_state True s client dirs) client) on_disk) \<and>
    load_state_with_fallback (replace_state_on_disk True s client dirs) client = s"
proof -
  have load: "load_state_with_fallback (persist_state_to_dir True t client dirs) client = validated t" for t
    by (cases client)
       (simp_all add: load_state_with_fallback_def persist_state_to_dir_def state_dir_has_store_def load_state_from_dir_def
         try_load_state_def split: option.split)
  have v: "validated t = t" if "validated_mcp_server_grants_version t = VALIDATED_MCP_SERVER_GRANTS_VERSION" for t
    using that by (simp add: validated_def)
  have "validated_mcp_server_grants_version (merge_grants_from s t) = VALIDATED_MCP_SERVER_GRANTS_VERSION" for t
    using assms by (simp add: merge_grants_from_def)
  with assms show ?thesis
    by (simp add: persist_state_def replace_state_on_disk_def load v knows_merge split: option.split)
qed

theorem store_merges_and_resets_witness:
  "load_state_with_fallback (replace_state_on_disk True default_state None
     \<lparr>store_dir = Map.empty,
      legacy_dir = Some [lit ''permission.toml'' \<mapsto> default_state\<lparr>allow_bash_execute := True\<rparr>]\<rparr>) None = default_state"
  using store_merges_and_resets [of default_state None
     "\<lparr>store_dir = Map.empty, legacy_dir = Some [lit ''permission.toml'' \<mapsto> default_state\<lparr>allow_bash_execute := True\<rparr>]\<rparr>"]
  by (simp add: default_state_def)

end
