(* ===== verification/Web_Domains.thy ===== *)
theory Web_Domains
  imports Permission_Store
begin

text \<open>
  The hosts \<open>web_fetch\<close> may reach: the static allowlist compiled into a map from hosts to path
  prefixes (\<open>xai-grok-tools/.../web_fetch/domain.rs\<close>), and the remembered denials of
  \<open>permission/manager/mod.rs\<close>, which also cover subdomains.  A parsed URL is its host, if it has
  one, and its path; parsing itself belongs to the \<open>url\<close> crate.
\<close>

section \<open>The allowlist\<close>

datatype host_entry = AnyPath | PathPrefixes "rstring list"

type_synonym domain_matcher = "rstring \<rightharpoonup> host_entry"

record parsed_url =
  host_str :: "rstring option"
  url_path :: rstring

definition split_host :: "rstring \<Rightarrow> rstring \<times> rstring option" where
  "split_host normalized = (case position (\<lambda>c. c = 47) normalized of
     Some i \<Rightarrow> (take i normalized, Some (drop i normalized))
   | None \<Rightarrow> (normalized, None))"

definition entry_prefix :: "rstring \<Rightarrow> rstring option" where
  \<comment> \<open>\<open>None\<close>: an entry such as \<open>example.com/\<close> stands for the whole host\<close>
  "entry_prefix raw_path = (let p = trim_end_char 47 raw_path in
     if p = [] \<or> p = lit ''/'' then None
     else if starts_with p (lit ''/'') then Some p else Some (47 # p))"

definition add_prefix :: "rstring \<Rightarrow> host_entry option \<Rightarrow> host_entry" where
  "add_prefix p entry = (case entry of
     None \<Rightarrow> PathPrefixes [p]
   | Some AnyPath \<Rightarrow> AnyPath
   | Some (PathPrefixes v) \<Rightarrow> PathPrefixes (if p \<in> set v then v else v @ [p]))"

definition insert_entry :: "'g policy_env \<Rightarrow> domain_matcher \<Rightarrow> rstring \<Rightarrow> domain_matcher" where
  "insert_entry env entries raw =
     (let normalized = normalize_domain env raw in
      if normalized = [] then entries
      else let (host, path) = split_host normalized in
        case path of
          None \<Rightarrow> entries(host \<mapsto> AnyPath)
        | Some raw_path \<Rightarrow>
            if entries host = Some AnyPath then entries
            else (case entry_prefix raw_path of
              None \<Rightarrow> entries(host \<mapsto> AnyPath)
            | Some p \<Rightarrow> entries(host \<mapsto> add_prefix p (entries host))))"

definition matcher_new :: "'g policy_env \<Rightarrow> rstring list \<Rightarrow> domain_matcher" where
  "matcher_new env raw_entries = foldl (insert_entry env) Map.empty raw_entries"

definition prefix_covers :: "rstring \<Rightarrow> rstring \<Rightarrow> bool" where
  "prefix_covers path p \<longleftrightarrow> path = p \<or> starts_with path p \<and> length p < length path \<and> path ! length p = 47"

definition matcher_permits :: "'g policy_env \<Rightarrow> domain_matcher \<Rightarrow> parsed_url \<Rightarrow> bool" where
  \<comment> \<open>\<open>check(url).is_none()\<close>\<close>
  "matcher_permits env entries url = (case host_str url of
     None \<Rightarrow> False
   | Some raw_host \<Rightarrow> (case entries (normalize_domain env raw_host) of
       Some AnyPath \<Rightarrow> True
     | Some (PathPrefixes ps) \<Rightarrow> list_ex (prefix_covers (to_lowercase env (url_path url))) ps
     | None \<Rightarrow> False))"

section \<open>What an entry means\<close>

definition entry_host_prefix :: "'g policy_env \<Rightarrow> rstring \<Rightarrow> (rstring \<times> rstring option) option" where
  "entry_host_prefix env raw = (let normalized = normalize_domain env raw in
     if normalized = [] then None
     else Some (fst (split_host normalized), Option.bind (snd (split_host normalized)) entry_prefix))"

definition entry_covers :: "'g policy_env \<Rightarrow> rstring \<Rightarrow> rstring \<Rightarrow> rstring \<Rightarrow> bool" where
  "entry_covers env host path raw = (case entry_host_prefix env raw of
     None \<Rightarrow> False
   | Some (h, p) \<Rightarrow> h = host \<and> (case p of None \<Rightarrow> True | Some pre \<Rightarrow> prefix_covers path pre))"

fun entry_permits :: "rstring \<Rightarrow> host_entry option \<Rightarrow> bool" where
  "entry_permits path None = False"
| "entry_permits path (Some AnyPath) = True"
| "entry_permits path (Some (PathPrefixes ps)) = list_ex (prefix_covers path) ps"

lemma entry_permits_add_prefix [simp]:
  "entry_permits path (Some (add_prefix p e)) \<longleftrightarrow> prefix_covers path p \<or> entry_permits path e"
  by (auto simp: add_prefix_def list_ex_iff split: option.split host_entry.split)

lemma entry_permits_insert:
  "entry_permits path (insert_entry env entries raw host) \<longleftrightarrow>
     entry_permits path (entries host) \<or> entry_covers env host path raw"
  by (auto simp: insert_entry_def entry_covers_def entry_host_prefix_def Let_def split: option.split prod.split)

lemma entry_permits_fold:
  "entry_permits path (foldl (insert_entry env) entries raws host) \<longleftrightarrow>
     entry_permits path (entries host) \<or> list_ex (entry_covers env host path) raws"
  by (induction raws arbitrary: entries) (auto simp: entry_permits_insert)

lemma matcher_permits_eq:
  "matcher_permits env entries url = (case host_str url of None \<Rightarrow> False
     | Some h \<Rightarrow> entry_permits (to_lowercase env (url_path url)) (entries (normalize_domain env h)))"
  by (auto simp: matcher_permits_def split: option.split host_entry.split)

text \<open>
  The compiled allowlist means what its entries say, whatever their order and repetitions: a URL
  passes exactly when it has a host and some entry names that host and either has no path or has a
  path that the URL's path equals or continues at a slash.
\<close>

theorem matcher_new_permits:
  "matcher_permits env (matcher_new env raws) url \<longleftrightarrow>
     (\<exists>host. host_str url = Some host \<and>
        list_ex (entry_covers env (normalize_domain env host) (to_lowercase env (url_path url))) raws)"
  by (simp add: matcher_permits_eq matcher_new_def entry_permits_fold split: option.split)

section \<open>Remembered denials\<close>

definition web_fetch_deny_key :: "'g policy_env \<Rightarrow> rstring \<Rightarrow> rstring" where
  "web_fetch_deny_key env host = to_lowercase env (trim_end_char 46 (trim host))"

definition web_fetch_deny_key_from_url :: "'g policy_env \<Rightarrow> parsed_url option \<Rightarrow> rstring option" where
  "web_fetch_deny_key_from_url env parsed = Option.bind (Option.bind parsed host_str) (\<lambda>host.
     let key = web_fetch_deny_key env host in if key = [] then None else Some key)"

definition denies_domain :: "rstring \<Rightarrow> rstring \<Rightarrow> bool" where
  \<comment> \<open>a dot is one byte, so the byte before the entry is a dot exactly when the character is\<close>
  "denies_domain domain denied \<longleftrightarrow> denied \<noteq> [] \<and> (domain = denied \<or>
     length domain > length denied + 1 \<and> ends_with domain denied \<and> domain ! (length domain - length denied - 1) = 46)"

definition denied_web_fetch_domain :: "'g policy_env \<Rightarrow> rstring \<Rightarrow> rstring list \<Rightarrow> rstring option" where
  "denied_web_fetch_domain env host disallowed =
     (if disallowed = [] then None else find (denies_domain (web_fetch_deny_key env host)) disallowed)"

definition previously_rejected :: "rstring \<Rightarrow> rstring" where
  "previously_rejected d = lit ''User previously rejected `'' @ d @ lit ''` in this project''"

definition web_fetch_deny_pre_decision :: "'g policy_env \<Rightarrow> parsed_url \<Rightarrow> permission_state \<Rightarrow> decision option" where
  "web_fetch_deny_pre_decision env url s = Option.bind (host_str url) (\<lambda>host.
     map_option (\<lambda>d. Reject (previously_rejected d))
       (denied_web_fetch_domain env host (disallowed_web_fetch_domains s)))"

lemma deny_key_denies: "web_fetch_deny_key_from_url env (Some url) = Some key \<Longrightarrow>
    key \<in> set (disallowed_web_fetch_domains s) \<Longrightarrow> \<exists>r. web_fetch_deny_pre_decision env url s = Some (Reject r)"
  by (auto simp: web_fetch_deny_key_from_url_def web_fetch_deny_pre_decision_def denied_web_fetch_domain_def
    Let_def bind_eq_Some_conv find_None_iff denies_domain_def not_None_eq [symmetric] split: if_splits simp del: not_None_eq)

end
