(* ===== verification/Bash_Evaluation.thy ===== *)
theory Bash_Evaluation
  imports Safe_Commands Web_Domains
begin

text \<open>
  One parse of a Bash request and what it tells (\<open>permission/manager/mod.rs\<close>, \<open>evaluate_bash\<close>), the
  findings of the static analysis (\<open>auto_mode/security_findings.rs\<close>), the risk of environment
  assignments (\<open>auto_mode/mod.rs\<close>), and how an answer of the user becomes a stored grant
  (\<open>manager/bash_grants.rs\<close>).  What walks the tree-sitter tree of the script is given by \<open>shell_env\<close>:
  whether it parses, its plain commands, the paths it writes, the variables it assigns, whether it
  changes directory or hides a shell.
\<close>

section \<open>What the parser tells\<close>

record plain_command =
  pc_words :: "rstring list"
  pc_before :: rstring  \<comment> \<open>the script before the span of the command, and after it\<close>
  pc_after :: rstring

definition spans_whole_script :: "plain_command \<Rightarrow> bool" where
  "spans_whole_script c \<longleftrightarrow> trim (pc_before c) = [] \<and> trim (pc_after c) = []"

record write_paths_split =
  redirect_paths :: "rstring list"
  unextracted_write_redirect :: bool
  word_paths :: "rstring list"
  split_creation_paths :: "rstring list"

record shell_env =
  parses :: "rstring \<Rightarrow> bool"
  plain_commands :: "rstring \<Rightarrow> plain_command list option"
  command_write_paths :: "rstring \<Rightarrow> write_paths_split"
  cwd_change_in :: "rstring \<Rightarrow> bool"
  assigned_keys :: "rstring \<Rightarrow> rstring list"
  opaque_shell_in :: "rstring \<Rightarrow> bool"

definition word_only_commands :: "shell_env \<Rightarrow> rstring \<Rightarrow> plain_command list option" where
  "word_only_commands senv cmd = (if parses senv cmd then plain_commands senv cmd else None)"

section \<open>Findings\<close>

datatype security_finding = FailClosedPolicy | UnparseableShell | OpaqueShell | ExecOrAmbientGit | EnvInjection
  | UnvettedEnv | FileWrite | DangerousCommand | SpecialExecSurface

fun is_grant_floor :: "security_finding \<Rightarrow> bool" where
  "is_grant_floor FileWrite = True"
| "is_grant_floor UnvettedEnv = True"
| "is_grant_floor EnvInjection = True"
| "is_grant_floor OpaqueShell = True"
| "is_grant_floor ExecOrAmbientGit = True"
| "is_grant_floor SpecialExecSurface = True"
| "is_grant_floor FailClosedPolicy = False"
| "is_grant_floor UnparseableShell = False"
| "is_grant_floor DangerousCommand = False"

type_synonym assessment = "security_finding set"

definition constrains_broad_grant :: "assessment \<Rightarrow> bool" where
  "constrains_broad_grant a \<longleftrightarrow> (\<exists>f \<in> a. is_grant_floor f)"

definition is_file_write_only :: "assessment \<Rightarrow> bool" where
  "is_file_write_only a \<longleftrightarrow> a = {FileWrite}"

section \<open>Environment assignments\<close>

datatype env_risk = SafeEnv | Unvetted | Injection

fun risk_rank :: "env_risk \<Rightarrow> nat" where
  "risk_rank SafeEnv = 0" | "risk_rank Unvetted = 1" | "risk_rank Injection = 2"

lemma risk_rank_inject: "risk_rank a = risk_rank b \<Longrightarrow> a = b"
  by (cases a; cases b) simp_all

instantiation env_risk :: linorder
begin

definition less_eq_env_risk :: "env_risk \<Rightarrow> env_risk \<Rightarrow> bool" where
  "less_eq_env_risk a b \<longleftrightarrow> risk_rank a \<le> risk_rank b"

definition less_env_risk :: "env_risk \<Rightarrow> env_risk \<Rightarrow> bool" where
  "less_env_risk a b \<longleftrightarrow> risk_rank a < risk_rank b"

instance
  by standard (auto simp: less_eq_env_risk_def less_env_risk_def risk_rank_inject)

end

definition SAFE_ENV_KEYS :: "rstring list" where
  "SAFE_ENV_KEYS = map lit [''CARGO_TERM_COLOR'', ''CARGO_TERM_PROGRESS_WHEN'', ''RUST_LOG'', ''RUST_LOG_STYLE'',
     ''RUST_BACKTRACE'', ''RUST_TEST_THREADS'', ''RUST_MIN_STACK'', ''NO_COLOR'', ''CLICOLOR'', ''CLICOLOR_FORCE'',
     ''FORCE_COLOR'', ''COLORTERM'']"

definition INJECTION_ENV_KEYS :: "rstring list" where
  "INJECTION_ENV_KEYS = map lit [''LD_PRELOAD'', ''LD_AUDIT'', ''BASH_ENV'', ''ENV'', ''IFS'', ''PATH'', ''GIT_EXTERNAL_DIFF'',
     ''GIT_PROXY_COMMAND'', ''PROMPT_COMMAND'']"

definition INJECTION_ENV_KEY_PREFIXES :: "rstring list" where
  "INJECTION_ENV_KEY_PREFIXES = map lit [''DYLD_'', ''GIT_CONFIG'']"

definition env_key_risk :: "rstring \<Rightarrow> env_risk" where
  "env_key_risk key =
     (if key \<in> set SAFE_ENV_KEYS then SafeEnv
      else if key \<in> set INJECTION_ENV_KEYS \<or> list_ex (starts_with key) INJECTION_ENV_KEY_PREFIXES then Injection
      else Unvetted)"

fun env_args_risk :: "bool \<Rightarrow> env_risk \<Rightarrow> rstring list \<Rightarrow> env_risk option" where
  \<comment> \<open>the words after \<open>env\<close>; \<open>None\<close> is the early return at an option\<close>
  "env_args_risk options_done risk [] = Some risk"
| "env_args_risk options_done risk (arg # args) =
     (if arg = lit ''--'' then env_args_risk True risk args
      else if \<not> options_done \<and> dashed arg then None
      else if 61 \<in> set arg then env_args_risk options_done (max risk (env_key_risk (before_equals arg))) args
      else Some risk)"

primrec command_env_risk_loop :: "nat \<Rightarrow> env_risk \<Rightarrow> rstring list \<Rightarrow> env_risk" where
  "command_env_risk_loop 0 risk current = risk"
| "command_env_risk_loop (Suc n) risk current =
     (case (if head_is current ''env'' then env_args_risk False risk (tl current) else Some risk) of
        None \<Rightarrow> Injection
      | Some risk \<Rightarrow> (case strip_wrapper_command current of
          Some inner \<Rightarrow> command_env_risk_loop n risk inner | None \<Rightarrow> risk))"

definition command_env_risk :: "rstring list \<Rightarrow> env_risk" where
  "command_env_risk words = command_env_risk_loop 8 SafeEnv words"

definition script_env_risk :: "shell_env \<Rightarrow> rstring \<Rightarrow> plain_command list \<Rightarrow> env_risk" where
  "script_env_risk senv cmd cmds =
     foldl (\<lambda>risk c. max risk (command_env_risk (pc_words c)))
       (foldl (\<lambda>risk key. max risk (env_key_risk key)) SafeEnv (assigned_keys senv cmd)) cmds"

fun env_risk_finding :: "env_risk \<Rightarrow> assessment" where
  "env_risk_finding Injection = {EnvInjection}"
| "env_risk_finding Unvetted = {UnvettedEnv}"
| "env_risk_finding SafeEnv = {}"

section \<open>Grants of a whole script\<close>

definition words_join_unambiguously :: "shell_env \<Rightarrow> rstring list \<Rightarrow> bool" where
  "words_join_unambiguously senv words = (case word_only_commands senv (join [32] words) of
     Some [only] \<Rightarrow> spans_whole_script only \<and> pc_words only = words
   | _ \<Rightarrow> False)"

definition whole_script_grant :: "shell_env \<Rightarrow> rstring \<Rightarrow> plain_command list \<Rightarrow> permission_state \<Rightarrow> bool" where
  "whole_script_grant senv cmd segments s =
     (if cmd \<in> set (allowed_bash_commands s) then True
      else case segments of
        [only] \<Rightarrow> spans_whole_script only \<and> words_join_unambiguously senv (pc_words only) \<and>
          join [32] (pc_words only) \<in> set (allowed_bash_commands s)
      | _ \<Rightarrow> False)"

section \<open>The evaluation\<close>

datatype segment_evaluation = AutoAllow bool | RejectedSegment rstring | NeedsPrompts "rstring list" | Unparseable

record bash_evaluation =
  be_segments :: segment_evaluation
  exact_grant :: bool
  all_segments_granted :: bool
  be_assessment :: assessment
  redirect_write :: bool
  ambient_segments :: "rstring list list option"
  creation_paths :: "rstring list"
  has_cwd_change :: bool

definition is_safe_write_sink :: "rstring \<Rightarrow> bool" where
  "is_safe_write_sink path \<longleftrightarrow> path \<in> set (map lit [''/dev/null'', ''/dev/stdout'', ''/dev/stderr''])"

definition words_are_opaque_shell :: "shell_word list \<Rightarrow> bool" where
  "words_are_opaque_shell words \<longleftrightarrow> is_potential_inline (shell_dash_c_script words) \<or>
     (case words of LiteralWord program # _ \<Rightarrow> basename program = lit ''eval'' | _ \<Rightarrow> False)"

definition raw_deny_rejection :: "rstring \<Rightarrow> permission_state \<Rightarrow> segment_evaluation option" where
  "raw_deny_rejection cmd s = map_option (\<lambda>d. RejectedSegment (previously_rejected d))
     (find (matches_command_prefix cmd) (disallowed_bash_commands s))"

definition unparseable_evaluation :: "rstring \<Rightarrow> permission_state \<Rightarrow> assessment \<Rightarrow> bash_evaluation" where
  "unparseable_evaluation cmd s a =
     \<lparr>be_segments = (case raw_deny_rejection cmd s of Some r \<Rightarrow> r | None \<Rightarrow> Unparseable),
      exact_grant = (cmd \<in> set (allowed_bash_commands s)), all_segments_granted = False,
      be_assessment = a \<union> {UnparseableShell} \<union> (if script_may_invoke_git cmd then {ExecOrAmbientGit} else {}),
      redirect_write = True, ambient_segments = None, creation_paths = [], has_cwd_change = False\<rparr>"

record segment_acc =
  needs_prompt :: "rstring list"
  via_session_grant :: bool
  all_granted :: bool
  acc_exec_risk :: bool
  has_git_command :: bool
  acc_assessment :: assessment

definition note_segment :: "rstring list \<Rightarrow> segment_acc \<Rightarrow> segment_acc" where
  \<comment> \<open>the findings of a segment that do not depend on grants\<close>
  "note_segment raw_words acc =
     (let facts = segment_exec_facts_of raw_words;
          opaque = words_are_opaque_shell (map LiteralWord (unwrap_wrappers raw_words))
      in acc\<lparr>acc_exec_risk := acc_exec_risk acc \<or> exec_risk facts,
             has_git_command := has_git_command acc \<or> has_git facts,
             acc_assessment := acc_assessment acc \<union> (if opaque then {OpaqueShell} else {}) \<union>
               (if exec_risk facts then {ExecOrAmbientGit} else {})\<rparr>)"

definition matched_grant :: "'g policy_env \<Rightarrow> permission_state \<Rightarrow> rstring list \<Rightarrow> bool" where
  "matched_grant env s words = (let str = join [32] words in
     (if always_allow_scope_pinned words then str \<in> set (allowed_bash_commands s)
      else list_ex (matches_command_prefix str) (allowed_bash_commands s)) \<or>
     list_ex (\<lambda>g. bash_pattern_matches_command env g str) (allowed_bash_globs s))"

definition special_exec_surface :: "rstring list \<Rightarrow> bool" where
  "special_exec_surface words \<longleftrightarrow> kubectl_has_unsafe_flag words \<or> rg_has_pre_flag words \<or>
     ps_dumps_environment words \<or> git_words_have_unsafe_query_option words"

definition matched_safe :: "rstring list \<Rightarrow> bool" where
  "matched_safe words \<longleftrightarrow> is_safe_command_words words \<or> is_always_safe_command_words words \<or> is_safe_creation_command words"

definition prompt_segment :: "rstring \<Rightarrow> segment_acc \<Rightarrow> segment_acc" where
  "prompt_segment str acc = acc\<lparr>needs_prompt := needs_prompt acc @ [str]\<rparr>"

definition classify_segment ::
  "'g policy_env \<Rightarrow> permission_state \<Rightarrow> bool \<Rightarrow> rstring list \<Rightarrow> segment_acc \<Rightarrow> segment_acc" where
  \<comment> \<open>a segment that is neither setup nor denied\<close>
  "classify_segment env s honor_safe_lists words acc0 =
     (let str = join [32] words; granted = matched_grant env s words;
          acc = acc0\<lparr>all_granted := all_granted acc0 \<and> granted\<rparr>
      in if is_dangerous_command_words words then
           prompt_segment str (acc\<lparr>acc_assessment := acc_assessment acc \<union> {DangerousCommand}\<rparr>)
         else if special_exec_surface words \<and> str \<notin> set (allowed_bash_commands s) then
           prompt_segment str (acc\<lparr>acc_assessment := acc_assessment acc \<union> {SpecialExecSurface}\<rparr>)
         else if granted \<or> honor_safe_lists \<and> matched_safe words then
           acc\<lparr>via_session_grant := via_session_grant acc \<or> granted\<rparr>
         else prompt_segment str acc)"

fun segment_loop ::
  "'g policy_env \<Rightarrow> permission_state \<Rightarrow> bool \<Rightarrow> plain_command list \<Rightarrow> segment_acc \<Rightarrow> rstring option \<times> segment_acc" where
  \<comment> \<open>the first component is the stored denial that ended the loop\<close>
  "segment_loop env s honor [] acc = (None, acc)"
| "segment_loop env s honor (parsed # rest) acc0 =
     (let words = unwrap_wrappers (pc_words parsed); acc = note_segment (pc_words parsed) acc0 in
      if is_setup_command words then segment_loop env s honor rest acc
      else case find (matches_command_prefix (join [32] words)) (disallowed_bash_commands s) of
        Some d \<Rightarrow> (Some d, acc)
      | None \<Rightarrow> segment_loop env s honor rest (classify_segment env s honor words acc))"

definition write_findings :: "write_paths_split \<Rightarrow> bool \<times> assessment" where
  "write_findings writes =
     (let redirect = unextracted_write_redirect writes \<or> list_ex (\<lambda>p. \<not> is_safe_write_sink p) (redirect_paths writes)
      in (redirect, if redirect \<or> list_ex (\<lambda>p. \<not> is_safe_write_sink p) (word_paths writes) then {FileWrite} else {}))"

definition evaluate_segments_of ::
  "'g policy_env \<Rightarrow> shell_env \<Rightarrow> permission_state \<Rightarrow> bool \<Rightarrow> rstring \<Rightarrow> plain_command list \<Rightarrow> bool \<Rightarrow> assessment \<Rightarrow> bash_evaluation" where
  "evaluate_segments_of env senv s honor cmd segments redirect a =
     (case segment_loop env s honor segments \<lparr>needs_prompt = [], via_session_grant = False, all_granted = True,
          acc_exec_risk = False, has_git_command = False, acc_assessment = a\<rparr> of
        (Some d, acc) \<Rightarrow>
          \<lparr>be_segments = RejectedSegment (previously_rejected d), exact_grant = whole_script_grant senv cmd segments s,
           all_segments_granted = all_granted acc, be_assessment = acc_assessment acc, redirect_write = redirect,
           ambient_segments = None, creation_paths = [], has_cwd_change = False\<rparr>
      | (None, acc) \<Rightarrow>
          \<lparr>be_segments = (if needs_prompt acc = [] then AutoAllow (via_session_grant acc) else NeedsPrompts (needs_prompt acc)),
           exact_grant = whole_script_grant senv cmd segments s, all_segments_granted = all_granted acc,
           be_assessment = acc_assessment acc, redirect_write = redirect,
           ambient_segments = (if has_git_command acc \<and> \<not> acc_exec_risk acc then Some (map pc_words segments) else None),
           creation_paths = split_creation_paths (command_write_paths senv cmd),
           has_cwd_change = cwd_change_in senv cmd\<rparr>)"

definition evaluate_bash :: "'g policy_env \<Rightarrow> shell_env \<Rightarrow> rstring \<Rightarrow> permission_state \<Rightarrow> bool \<Rightarrow> bash_evaluation" where
  "evaluate_bash env senv cmd s honor_safe_lists =
     (if \<not> parses senv cmd then unparseable_evaluation cmd s {}
      else
        let (redirect, writes) = write_findings (command_write_paths senv cmd);
            segments = plain_commands senv cmd;
            a = writes \<union> env_risk_finding (script_env_risk senv cmd (case segments of Some xs \<Rightarrow> xs | None \<Rightarrow> []))
        in case segments of
             None \<Rightarrow> unparseable_evaluation cmd s (a \<union> (if opaque_shell_in senv cmd then {OpaqueShell} else {}))
           | Some segments \<Rightarrow> evaluate_segments_of env senv s honor_safe_lists cmd segments redirect a)"

section \<open>From an answer to a grant\<close>

fun sh_split_loop :: "rstring \<Rightarrow> bool \<Rightarrow> bool \<Rightarrow> rstring \<Rightarrow> rstring list" where
  "sh_split_loop current in_single in_double [] = (if current = [] then [] else [current])"
| "sh_split_loop current in_single in_double (c # cs) =
     (if c = 39 \<and> \<not> in_double then sh_split_loop current (\<not> in_single) in_double cs
      else if c = 34 \<and> \<not> in_single then sh_split_loop current in_single (\<not> in_double) cs
      else if c = 92 then (case cs of
          [] \<Rightarrow> sh_split_loop current in_single in_double []
        | next # cs' \<Rightarrow> sh_split_loop (current @ [next]) in_single in_double cs')
      else if is_whitespace c \<and> \<not> in_single \<and> \<not> in_double then
        (if current = [] then sh_split_loop [] in_single in_double cs else current # sh_split_loop [] in_single in_double cs)
      else sh_split_loop (current @ [c]) in_single in_double cs)"

definition sh_split_simple :: "rstring \<Rightarrow> rstring list" where
  "sh_split_simple s = sh_split_loop [] False False s"

record bash_command_highlights =
  hl_prefix :: "rstring list"
  highlighted_words :: "rstring list"
  hl_suffix :: "rstring list"

definition is_primary :: "plain_command \<Rightarrow> bool" where
  "is_primary c \<longleftrightarrow> unwrap_wrappers (pc_words c) \<noteq> [] \<and> \<not> is_setup_command (unwrap_wrappers (pc_words c))"

definition primary_command_from_script :: "shell_env \<Rightarrow> rstring \<Rightarrow> bash_command_highlights option" where
  "primary_command_from_script senv script = (case word_only_commands senv script of
     None \<Rightarrow> None
   | Some commands \<Rightarrow> map_option (\<lambda>c.
       let peeled = unwrap_wrappers (pc_words c); peeled_off = length (pc_words c) - length peeled in
       \<lparr>hl_prefix = sh_split_simple (pc_before c) @ take peeled_off (pc_words c),
        highlighted_words = drop peeled_off (pc_words c),
        hl_suffix = sh_split_simple (pc_after c)\<rparr>) (find is_primary commands))"

definition always_allow_scope_persists :: "shell_env \<Rightarrow> bash_command_highlights \<Rightarrow> nat \<Rightarrow> bool" where
  "always_allow_scope_persists senv h n = (let words = highlighted_words h in
     if n = 0 \<or> length words < n \<or> n < minimum_always_allow_scope words then False
     else words_join_unambiguously senv (take n words) \<or> n = length words \<and> hl_prefix h = [] \<and> hl_suffix h = [])"

definition MAX_SEGMENT_GRANTS :: nat where "MAX_SEGMENT_GRANTS = 5"

definition segment_grant :: "shell_env \<Rightarrow> plain_command \<Rightarrow> rstring option" where
  "segment_grant senv parsed = (let words = unwrap_wrappers (pc_words parsed) in
     if words \<noteq> [] \<and> \<not> is_setup_command words \<and> \<not> is_dangerous_command_words words \<and> \<not> head_is_exec_vehicle words \<and>
        words_join_unambiguously senv words
     then Some (join [32] words) else None)"

definition bash_grant_segments :: "shell_env \<Rightarrow> rstring \<Rightarrow> rstring list" where
  "bash_grant_segments senv cmd = (case word_only_commands senv cmd of
     None \<Rightarrow> []
   | Some segments \<Rightarrow> let grants = List.map_filter (segment_grant senv) segments in
       if MAX_SEGMENT_GRANTS < length grants then [] else grants)"

definition persist_bash_always_allow :: "shell_env \<Rightarrow> rstring \<Rightarrow> rstring \<Rightarrow> permission_state \<Rightarrow> permission_state" where
  "persist_bash_always_allow senv cmd label s = (case primary_command_from_script senv cmd of
     None \<Rightarrow> s
   | Some h \<Rightarrow>
       let words = highlighted_words h;
           verified = list_ex (\<lambda>n. words_join_unambiguously senv (take n words) \<and> join [32] (take n words) = label)
             [minimum_always_allow_scope words ..< Suc (length words)]
       in if verified then s\<lparr>allowed_bash_commands := List.insert label (allowed_bash_commands s)\<rparr>
          else if hl_prefix h = [] \<and> hl_suffix h = [] \<and> join [32] words = label
            then s\<lparr>allowed_bash_commands := List.insert cmd (allowed_bash_commands s)\<rparr>
          else s)"

definition bash_glob_covers_script :: "'g policy_env \<Rightarrow> shell_env \<Rightarrow> rstring \<Rightarrow> rstring \<Rightarrow> bool" where
  "bash_glob_covers_script env senv cmd pat =
     (if bash_glob_is_catchall env pat then False
      else case word_only_commands senv cmd of
        None \<Rightarrow> bash_pattern_matches_command env pat cmd
      | Some segments \<Rightarrow> list_ex (\<lambda>seg. let words = unwrap_wrappers (pc_words seg) in
          words \<noteq> [] \<and> \<not> is_setup_command words \<and> bash_pattern_matches_command env pat (join [32] words)) segments)"

end
