(* ===== verification/Permission_Grants.thy ===== *)
theory Permission_Grants
  imports Bash_Evaluation
begin

text \<open>
  How remembered answers decide a request before anybody is asked (\<open>permission/manager/mod.rs\<close>,
  \<open>manager/bash_grants.rs\<close>): MCP tools and servers by qualified name (\<open>xai-grok-mcp/src/servers.rs\<close>,
  \<open>xai-tool-protocol/src/ids.rs\<close>), web domains, Bash commands, and the grants of one session.
\<close>

section \<open>Reasons\<close>

datatype reason = Yolo | PolicyAllowed | PolicyDenied | PolicyAsked | BashCommandGateAsk | ShellFileGateAsk
  | AutoFastPathAllow | AutoClassifierAllow | AutoClassifierDeny | AutoClassifierTimeout | AutoClassifierUnavailable
  | AutoDenialLimit | SandboxAuto | PersistedGrant | SessionGrant | StaticAllowlist | SafeCommand | SessionDeny
  | PromptDenied | PromptAllowed | NeedsUser | BashRequestFloor | OpaqueShellReason | HookAsk | RequesterGone

fun reason_str :: "reason \<Rightarrow> rstring" where
  "reason_str Yolo = lit ''yolo''"
| "reason_str PolicyAllowed = lit ''policy_allow''"
| "reason_str PolicyDenied = lit ''policy_deny''"
| "reason_str PolicyAsked = lit ''policy_ask''"
| "reason_str BashCommandGateAsk = lit ''bash_command_gate_ask''"
| "reason_str ShellFileGateAsk = lit ''shell_file_gate_ask''"
| "reason_str AutoFastPathAllow = lit ''auto_fast_path''"
| "reason_str AutoClassifierAllow = lit ''auto_classifier_allow''"
| "reason_str AutoClassifierDeny = lit ''auto_classifier_deny''"
| "reason_str AutoClassifierTimeout = lit ''auto_classifier_timeout''"
| "reason_str AutoClassifierUnavailable = lit ''auto_classifier_unavailable''"
| "reason_str AutoDenialLimit = lit ''auto_denial_limit''"
| "reason_str SandboxAuto = lit ''sandbox_auto''"
| "reason_str PersistedGrant = lit ''persisted_grant''"
| "reason_str SessionGrant = lit ''session_grant''"
| "reason_str StaticAllowlist = lit ''static_allowlist''"
| "reason_str SafeCommand = lit ''safe_command''"
| "reason_str SessionDeny = lit ''session_deny''"
| "reason_str PromptDenied = lit ''prompt_deny''"
| "reason_str PromptAllowed = lit ''prompt_allow''"
| "reason_str NeedsUser = lit ''needs_user''"
| "reason_str BashRequestFloor = lit ''bash_request_floor''"
| "reason_str OpaqueShellReason = lit ''opaque_shell''"
| "reason_str HookAsk = lit ''hook_ask''"
| "reason_str RequesterGone = lit ''requester_gone''"

section \<open>Qualified MCP names\<close>

definition is_id_char :: "rchar \<Rightarrow> bool" where
  "is_id_char c \<longleftrightarrow> is_ascii_alphabetic c \<or> is_ascii_digit c \<or> c = 95 \<or> c = 45"

definition is_valid_segment :: "rstring \<Rightarrow> bool" where
  "is_valid_segment s \<longleftrightarrow> s \<noteq> [] \<and> list_all is_id_char s"

definition is_well_formed_tool_id :: "rstring \<Rightarrow> bool" where
  "is_well_formed_tool_id s = (case split_on 58 s of
     [a] \<Rightarrow> is_valid_segment a
   | [a, b] \<Rightarrow> is_valid_segment a \<and> is_valid_segment b
   | _ \<Rightarrow> False)"

definition MCP_TOOL_NAME_DELIMITER :: rstring where "MCP_TOOL_NAME_DELIMITER = lit ''__''"

definition boundaries :: "rstring \<Rightarrow> nat list" where
  "boundaries name = filter (\<lambda>i. take 2 (drop i name) = MCP_TOOL_NAME_DELIMITER) [0..<length name - 1]"

definition parse_mcp_qualified_name :: "rstring \<Rightarrow> (rstring \<times> rstring) option" where
  "parse_mcp_qualified_name name = (case boundaries name of
     [i] \<Rightarrow> let server = take i name; tool = drop (i + 2) name in
       if server = [] \<or> tool = [] then None
       else if is_well_formed_tool_id name then Some (server, tool) else None
   | _ \<Rightarrow> None)"

definition mcp_server_prefix_allowed :: "rstring \<Rightarrow> rstring list \<Rightarrow> bool" where
  "mcp_server_prefix_allowed name servers \<longleftrightarrow> servers \<noteq> [] \<and>
     (case parse_mcp_qualified_name name of None \<Rightarrow> False | Some (server, _) \<Rightarrow> server \<in> set servers)"

definition mcp_pre_decision :: "rstring \<Rightarrow> permission_state \<Rightarrow> bool \<Rightarrow> bool \<Rightarrow> decision option" where
  "mcp_pre_decision name s policy_forced_prompt remember_tool_approvals =
     (if name \<in> set (disallowed_mcp_tools s) then Some (Reject (previously_rejected name))
      else if policy_forced_prompt \<and> \<not> remember_tool_approvals then None
      else if name \<in> set (allowed_mcp_tools s) then Some AllowIt
      else if mcp_server_prefix_allowed name (allowed_mcp_servers s) then Some AllowIt
      else None)"

section \<open>Bash\<close>

definition persisted_bash_auto_allows :: "permission_state \<Rightarrow> rstring \<Rightarrow> rstring option \<Rightarrow> bool" where
  "persisted_bash_auto_allows s cmd yolo_pin \<longleftrightarrow>
     allow_bash_execute s \<and> yolo_pin = None \<or> cmd \<in> set (allowed_bash_commands s)"

definition bash_request_floor_requires_prompt :: "bash_evaluation option \<Rightarrow> bool" where
  "bash_request_floor_requires_prompt evaluation = (case evaluation of None \<Rightarrow> False
     | Some e \<Rightarrow> \<not> exact_grant e \<and> constrains_broad_grant (be_assessment e))"

definition narrow_allow_clears_write_floor ::
  "'g policy_env \<Rightarrow> bash_evaluation option \<Rightarrow> 'g compiled_policy option \<Rightarrow> access_kind \<Rightarrow> bool" where
  "narrow_allow_clears_write_floor env evaluation pol access \<longleftrightarrow>
     (case evaluation of None \<Rightarrow> False | Some e \<Rightarrow> is_file_write_only (be_assessment e) \<and> \<not> redirect_write e) \<and>
     (case pol of None \<Rightarrow> False | Some p \<Rightarrow> narrow_allow_authorizes env p access)"

definition bash_assessment_is_clear :: "bash_evaluation option \<Rightarrow> bool" where
  "bash_assessment_is_clear evaluation = (case evaluation of None \<Rightarrow> True | Some e \<Rightarrow> be_assessment e = {})"

definition classifier_assessment :: "bash_evaluation option \<Rightarrow> bool \<Rightarrow> assessment" where
  "classifier_assessment evaluation fail_closed_policy =
     (case evaluation of None \<Rightarrow> {} | Some e \<Rightarrow> be_assessment e) \<union> (if fail_closed_policy then {FailClosedPolicy} else {})"

definition sandbox_may_auto_allow_bash :: "bash_evaluation option \<Rightarrow> bool \<Rightarrow> bool" where
  "sandbox_may_auto_allow_bash evaluation sandbox_active \<longleftrightarrow>
     sandbox_active \<and> \<not> bash_request_floor_requires_prompt evaluation"

record bash_grant_opts =
  honor_safe_lists :: bool
  allow_blanket :: bool
  conservative_blanket :: bool

definition PRE_CLASSIFIER :: bash_grant_opts where
  "PRE_CLASSIFIER = \<lparr>honor_safe_lists = True, allow_blanket = True, conservative_blanket = True\<rparr>"

definition ASK_FLOOR_REMEMBER :: bash_grant_opts where
  "ASK_FLOOR_REMEMBER = \<lparr>honor_safe_lists = False, allow_blanket = False, conservative_blanket = False\<rparr>"

definition post_classify :: "bool \<Rightarrow> bash_grant_opts" where
  "post_classify auto_forced_prompt =
     \<lparr>honor_safe_lists = True, allow_blanket = \<not> auto_forced_prompt, conservative_blanket = False\<rparr>"

definition grant_allow :: "reason \<Rightarrow> (decision \<times> reason) option" where
  "grant_allow r = Some (AllowIt, r)"

definition grant_if :: "bool \<Rightarrow> (decision \<times> reason) option" where
  "grant_if b = (if b then grant_allow SessionGrant else None)"

definition bash_grant_pre_decision ::
  "rstring \<Rightarrow> bash_evaluation \<Rightarrow> permission_state \<Rightarrow> rstring option \<Rightarrow> bash_grant_opts \<Rightarrow> (decision \<times> reason) option" where
  "bash_grant_pre_decision cmd e s yolo_pin opts = (case be_segments e of
     RejectedSegment why \<Rightarrow> Some (Reject why, SessionDeny)
   | segments \<Rightarrow>
       if bash_request_floor_requires_prompt (Some e) then None
       else (case segments of
         RejectedSegment _ \<Rightarrow> None
       | AutoAllow via_grant \<Rightarrow>
           if \<not> honor_safe_lists opts \<and> \<not> all_segments_granted e then None
           else grant_allow (if via_grant then SessionGrant else SafeCommand)
       | NeedsPrompts _ \<Rightarrow>
           if \<not> allow_blanket opts then None
           else if conservative_blanket opts \<and> DangerousCommand \<in> be_assessment e then grant_if (exact_grant e)
           else grant_if (persisted_bash_auto_allows s cmd yolo_pin)
       | Unparseable \<Rightarrow>
           if \<not> allow_blanket opts then None
           else grant_if (if conservative_blanket opts then exact_grant e else persisted_bash_auto_allows s cmd yolo_pin)))"

section \<open>Session grants\<close>

definition mcp_reason :: "reason \<Rightarrow> decision \<Rightarrow> decision \<times> reason" where
  "mcp_reason granted d = (d, case d of Reject _ \<Rightarrow> SessionDeny | _ \<Rightarrow> granted)"

definition session_grant_pre_decision ::
  "'g policy_env \<Rightarrow> (rstring \<Rightarrow> parsed_url option) \<Rightarrow> access_kind \<Rightarrow> bash_evaluation option \<Rightarrow> permission_state \<Rightarrow> bool \<Rightarrow> bool \<Rightarrow>
     domain_matcher \<Rightarrow> bool \<Rightarrow> rstring option \<Rightarrow> (decision \<times> reason) option" where
  "session_grant_pre_decision env parse_url access evaluation s allow_edits allow_computer matcher honor_static yolo_pin =
     (case access of
        ComputerAccess _ \<Rightarrow> if allow_computer then grant_allow SessionGrant else None
      | MCPToolAccess name _ \<Rightarrow> map_option (mcp_reason SessionGrant) (mcp_pre_decision name s False False)
      | WebFetchAccess url \<Rightarrow> Option.bind (parse_url url) (\<lambda>parsed.
          case web_fetch_deny_pre_decision env parsed s of
            Some reject \<Rightarrow> Some (reject, SessionDeny)
          | None \<Rightarrow>
              if honor_static \<and> matcher_permits env matcher parsed then grant_allow StaticAllowlist
              else Option.bind (host_str parsed) (\<lambda>host.
                if normalize_domain env host \<in> set (allowed_web_fetch_domains s) then grant_allow SessionGrant else None))
      | EditAccess _ \<Rightarrow> if allow_edits then grant_allow SessionGrant else None
      | BashAccess cmd \<Rightarrow> Option.bind evaluation (\<lambda>e. bash_grant_pre_decision cmd e s yolo_pin PRE_CLASSIFIER)
      | _ \<Rightarrow> None)"

section \<open>The ``Always allow'' row\<close>

definition default_label :: "bash_command_highlights \<Rightarrow> rstring" where
  "default_label h = join [32] (take (default_always_allow_scope (highlighted_words h)) (highlighted_words h))"

definition always_allow_row_is_effective :: "'g policy_env \<Rightarrow> shell_env \<Rightarrow> rstring \<Rightarrow> bool" where
  "always_allow_row_is_effective env senv cmd = (case primary_command_from_script senv cmd of
     None \<Rightarrow> False
   | Some h \<Rightarrow>
       if \<not> always_allow_scope_persists senv h (default_always_allow_scope (highlighted_words h)) then False
       else let scratch = persist_bash_always_allow senv cmd (default_label h) default_state;
                e = evaluate_bash env senv cmd scratch True
            in case bash_grant_pre_decision cmd e scratch None PRE_CLASSIFIER of
                 Some (AllowIt, _) \<Rightarrow> True | _ \<Rightarrow> False)"

end
