(* ===== verification/Permission_Safety.thy ===== *)
theory Permission_Safety
  imports Permission_Policy
begin

text \<open>
  What the permission policy of \<open>Permission_Policy\<close> guarantees: the precedence of deny over ask
  over allow whatever the order of the rules, that restrictive rules only tighten a policy, that
  following a symlink only escalates, and that the Bash gates see every command a script runs,
  through chains, wrappers and inline scripts.
\<close>

section \<open>Ranked decisions\<close>

text \<open>
  Both \<open>combine_gate_decisions\<close> and \<open>combine_decisions\<close> keep the decision of higher rank, the
  first one on a tie.
\<close>

locale ranked_join =
  fixes rank :: "'d \<Rightarrow> nat" and combine :: "'d option \<Rightarrow> 'd option \<Rightarrow> 'd option"
  assumes combine_None [simp]: "combine None b = b" "combine a None = a"
    and combine_Some: "combine (Some x) (Some y) = Some (if rank x \<ge> rank y then x else y)"
begin

definition rank_of :: "'d option \<Rightarrow> nat" where
  "rank_of d = (case d of None \<Rightarrow> 0 | Some x \<Rightarrow> Suc (rank x))"

lemma rank_of_combine: "rank_of (combine a b) = max (rank_of a) (rank_of b)"
  by (cases a; cases b) (auto simp: combine_Some rank_of_def)

lemma combine_assoc: "combine (combine a b) c = combine a (combine b c)"
  by (cases a; cases b; cases c) (auto simp: combine_Some)

lemma rank_of_fold:
  "rank_of (foldl (\<lambda>d x. combine d (f x)) d xs) = fold (\<lambda>x. max (rank_of (f x))) xs (rank_of d)"
  by (induction xs arbitrary: d) (auto simp: rank_of_combine max.commute)

lemma fold_max_ge: "n \<le> fold (\<lambda>x. max (g x)) xs (n :: nat)"
proof (induction xs arbitrary: n)
  case (Cons x xs)
  have "n \<le> max (g x) n" by simp
  also have "\<dots> \<le> fold (\<lambda>x. max (g x)) xs (max (g x) n)" by (rule Cons)
  finally show ?case by simp
qed simp

lemma fold_ge:
  assumes "x \<in> set xs"
  shows "rank_of (f x) \<le> rank_of (foldl (\<lambda>d x. combine d (f x)) d xs)"
  unfolding rank_of_fold using assms
proof (induction xs arbitrary: d)
  case (Cons y ys)
  show ?case
  proof (cases "x = y")
    case True
    have "rank_of (f x) \<le> max (rank_of (f y)) (rank_of d)" using True by simp
    also have "\<dots> \<le> fold (\<lambda>x. max (rank_of (f x))) ys (max (rank_of (f y)) (rank_of d))" by (rule fold_max_ge)
    finally show ?thesis by simp
  next
    case False
    with Cons.prems have "x \<in> set ys" by simp
    from Cons.IH [OF this, of "combine (f y) d"] show ?thesis by (simp add: rank_of_combine)
  qed
qed simp

lemma fold_start: "rank_of d \<le> rank_of (foldl (\<lambda>d x. combine d (f x)) d xs)"
  unfolding rank_of_fold by (rule fold_max_ge)

end

interpretation gate: ranked_join gate_rank combine_gate_decisions
  by unfold_locales (auto simp: combine_gate_decisions_def split: option.splits)

interpretation dec: ranked_join decision_rank combine_decisions
  by unfold_locales (auto simp: combine_decisions_def split: option.splits)

lemma gate_reject_iff: "gate.rank_of d \<ge> 4 \<longleftrightarrow> (\<exists>r. d = Some (GateReject r))"
  by (cases d; cases "the d") (auto simp: gate.rank_of_def)

section \<open>Verdicts\<close>

datatype verdict = Allowed | NoRule | Asked | Denied

fun severity :: "verdict \<Rightarrow> nat" where
  "severity Allowed = 0" | "severity NoRule = 1" | "severity Asked = 2" | "severity Denied = 3"

lemma severity_inj: "severity a = severity b \<Longrightarrow> a = b"
  by (cases a; cases b) auto

instantiation verdict :: linorder
begin

definition less_eq_verdict :: "verdict \<Rightarrow> verdict \<Rightarrow> bool" where
  "less_eq_verdict a b \<longleftrightarrow> severity a \<le> severity b"

definition less_verdict :: "verdict \<Rightarrow> verdict \<Rightarrow> bool" where
  "less_verdict a b \<longleftrightarrow> severity a < severity b"

instance
  by standard (auto simp: less_eq_verdict_def less_verdict_def intro: severity_inj)

end

definition verdict_of :: "decision option \<Rightarrow> verdict" where
  "verdict_of d = (case d of
     None \<Rightarrow> NoRule
   | Some AllowIt \<Rightarrow> Allowed
   | Some AskUser \<Rightarrow> Asked
   | Some (Reject _) \<Rightarrow> Denied
   | Some (PolicyDeny _) \<Rightarrow> Denied
   | Some _ \<Rightarrow> NoRule)"

lemma verdict_le_simps [simp]: "Allowed \<le> v" "v \<le> Denied" "NoRule \<le> Asked" "\<not> Asked \<le> NoRule"
  "\<not> Denied \<le> Asked" "\<not> NoRule \<le> Allowed" "\<not> Asked \<le> Allowed" "\<not> Denied \<le> Allowed" "\<not> Denied \<le> NoRule"
  by (cases v; simp add: less_eq_verdict_def)+

section \<open>Precedence\<close>

definition applies :: "'g policy_env \<Rightarrow> access_kind \<Rightarrow> rstring option \<Rightarrow> permission_rule \<Rightarrow> bool" where
  "applies env access cwd rule = rule_applies env access cwd rule (compile_matcher env rule)"

definition hit :: "'g policy_env \<Rightarrow> permission_config \<Rightarrow> access_kind \<Rightarrow> rstring option \<Rightarrow> rule_action \<Rightarrow> bool" where
  \<comment> \<open>some rule with this action applies\<close>
  "hit env config access cwd act \<longleftrightarrow> (\<exists>r \<in> set (rules config). action r = act \<and> applies env access cwd r)"

lemma compiled_rules:
  "zip (rules (cp_config (policy_new env config))) (matchers (policy_new env config)) =
     map (\<lambda>r. (r, compile_matcher env r)) (rules config)"
  by (simp add: policy_new_def zip_map2 zip_same_conv_map)

lemma rule_loop_eq:
  "rule_loop env access cwd ask allow (map (\<lambda>r. (r, compile_matcher env r)) rs) =
     (case find (\<lambda>r. action r = Deny \<and> applies env access cwd r) rs of
        Some r \<Rightarrow> Inl (Reject (deny_reason r))
      | None \<Rightarrow> Inr (ask \<or> (\<exists>r \<in> set rs. action r = Ask \<and> applies env access cwd r),
                     allow \<or> (\<exists>r \<in> set rs. action r = Allow \<and> applies env access cwd r)))"
proof (induction rs arbitrary: ask allow)
  case (Cons r rs)
  then show ?case by (cases "action r") (auto simp: applies_def split: option.splits)
qed simp

lemma find_deny: "find (\<lambda>r. action r = Deny \<and> applies env access cwd r) (rules config) = None \<longleftrightarrow>
    \<not> hit env config access cwd Deny"
  by (auto simp: find_None_iff hit_def)

lemma evaluate_lexical_eq:
  "evaluate_lexical_with_cwd env (policy_new env config) access cwd =
     (case find (\<lambda>r. action r = Deny \<and> applies env access cwd r) (rules config) of
        Some r \<Rightarrow> Some (Reject (deny_reason r))
      | None \<Rightarrow>
          if hit env config access cwd Ask then Some AskUser
          else (case access of
            BashAccess cmd \<Rightarrow>
              if has_bash_allow_rules (policy_new env config) \<and>
                 bash_chain_fully_allowed env (policy_new env config) AnyScope MAX_INLINE_SHELL_DEPTH cmd
              then Some AllowIt else None
          | _ \<Rightarrow> if hit env config access cwd Allow then Some AllowIt else None))"
proof -
  have "rule_loop env access cwd False False (map (\<lambda>r. (r, compile_matcher env r)) (rules config)) =
     (case find (\<lambda>r. action r = Deny \<and> applies env access cwd r) (rules config) of
        Some r \<Rightarrow> Inl (Reject (deny_reason r))
      | None \<Rightarrow> Inr (hit env config access cwd Ask, hit env config access cwd Allow))"
    by (simp only: rule_loop_eq hit_def simp_thms)
  then show ?thesis
    unfolding evaluate_lexical_with_cwd_def compiled_rules by (simp split: option.split)
qed

lemma verdict_lexical:
  "verdict_of (evaluate_lexical_with_cwd env (policy_new env config) access cwd) =
     (if hit env config access cwd Deny then Denied
      else if hit env config access cwd Ask then Asked
      else if (case access of
                 BashAccess cmd \<Rightarrow> has_bash_allow_rules (policy_new env config) \<and>
                   bash_chain_fully_allowed env (policy_new env config) AnyScope MAX_INLINE_SHELL_DEPTH cmd
               | _ \<Rightarrow> hit env config access cwd Allow)
      then Allowed else NoRule)"
proof (cases "hit env config access cwd Deny")
  case True
  with find_deny [of env access cwd config] show ?thesis
    by (auto simp: evaluate_lexical_eq verdict_of_def)
next
  case False
  with find_deny [of env access cwd config] show ?thesis
    by (simp add: evaluate_lexical_eq verdict_of_def split: access_kind.split)
qed

text \<open>
  Deny beats ask beats allow, whatever the order of the rules: a policy rejects exactly when
  some deny rule applies, asks exactly when none does and some ask rule applies, and otherwise
  allows when an allow rule applies, except that a Bash command is allowed only if its whole
  chain is.
\<close>

theorem lexical_precedence:
  "verdict_of (evaluate_lexical_with_cwd env (policy_new env config) access cwd) =
     (if hit env config access cwd Deny then Denied
      else if hit env config access cwd Ask then Asked
      else if (case access of
                 BashAccess cmd \<Rightarrow> has_bash_allow_rules (policy_new env config) \<and>
                   bash_chain_fully_allowed env (policy_new env config) AnyScope MAX_INLINE_SHELL_DEPTH cmd
               | _ \<Rightarrow> hit env config access cwd Allow)
      then Allowed else NoRule)"
  by (rule verdict_lexical)

section \<open>Restrictive rules only tighten\<close>

lemma words_allowed_eq:
  "bash_words_allowed env (policy_new env config) scope words \<longleftrightarrow>
     words \<noteq> [] \<and> \<not> (scope = NarrowOnly \<and> head_is_exec_vehicle words) \<and>
     (\<exists>r \<in> set (rules config). \<not> (scope = NarrowOnly \<and> rule_is_catchall env r) \<and> action r = Allow \<and>
        tool r \<in> {BashTool, AnyTool} \<and>
        bash_allow_pattern_matches env (join [32] words) r (compile_matcher env r))"
proof -
  have "zip (zip (rules (cp_config (policy_new env config))) (matchers (policy_new env config)))
      (catchall (policy_new env config)) =
      map (\<lambda>r. ((r, compile_matcher env r), rule_is_catchall env r)) (rules config)"
    unfolding compiled_rules by (simp add: policy_new_def zip_map1 zip_map2 zip_same_conv_map)
  then show ?thesis
    by (auto simp: bash_words_allowed_def Let_def list_ex_iff)
qed

lemma chain_allowed_cong:
  assumes "\<And>words. bash_words_allowed env p scope words = bash_words_allowed env q scope words"
  shows "bash_chain_fully_allowed env p scope d = bash_chain_fully_allowed env q scope d"
proof -
  have seg: "segment_allowed env p scope f = segment_allowed env q scope f" for f
    by (rule ext) (simp add: segment_allowed_def assms)
  show ?thesis
  proof (induction d)
    case 0
    show ?case unfolding bash_chain_fully_allowed.simps seg ..
  next
    case (Suc d)
    show ?case unfolding bash_chain_fully_allowed.simps seg Suc ..
  qed
qed

definition tightens :: "permission_config \<Rightarrow> permission_config \<Rightarrow> bool" where
  \<comment> \<open>the second configuration has the rules of the first, in any order, and more restrictive ones\<close>
  "tightens c c' \<longleftrightarrow> set (rules c) \<subseteq> set (rules c') \<and>
     (\<forall>r \<in> set (rules c') - set (rules c). restrictive r)"

lemma tightens_allow:
  "tightens c c' \<Longrightarrow> r \<in> set (rules c') \<and> action r = Allow \<longleftrightarrow> r \<in> set (rules c) \<and> action r = Allow"
  unfolding tightens_def restrictive_def by (metis DiffI rule_action.distinct(1,3) subsetD)

lemma tightens_hit:
  assumes "tightens c c'"
  shows "hit env c access cwd act \<Longrightarrow> hit env c' access cwd act"
    and "hit env c' access cwd Allow = hit env c access cwd Allow"
  using assms tightens_allow [OF assms] by (auto simp: hit_def tightens_def)

lemma tightens_bash_allow:
  assumes "tightens c c'"
  shows "bash_chain_fully_allowed env (policy_new env c) scope d =
         bash_chain_fully_allowed env (policy_new env c') scope d"
    and "has_bash_allow_rules (policy_new env c) = has_bash_allow_rules (policy_new env c')"
proof -
  show "bash_chain_fully_allowed env (policy_new env c) scope d =
         bash_chain_fully_allowed env (policy_new env c') scope d"
    by (rule chain_allowed_cong) (use tightens_allow [OF assms] in \<open>auto simp: words_allowed_eq\<close>)
  show "has_bash_allow_rules (policy_new env c) = has_bash_allow_rules (policy_new env c')"
    using tightens_allow [OF assms] by (auto simp: policy_new_def list_ex_iff)
qed

lemma lexical_tightens:
  assumes "tightens c c'"
  shows "verdict_of (evaluate_lexical_with_cwd env (policy_new env c) access cwd) \<le>
         verdict_of (evaluate_lexical_with_cwd env (policy_new env c') access cwd)"
proof -
  let ?allow = "\<lambda>c. case access of
      BashAccess cmd \<Rightarrow> has_bash_allow_rules (policy_new env c) \<and>
        bash_chain_fully_allowed env (policy_new env c) AnyScope MAX_INLINE_SHELL_DEPTH cmd
    | _ \<Rightarrow> hit env c access cwd Allow"
  have v: "verdict_of (evaluate_lexical_with_cwd env (policy_new env x) access cwd) =
     (if hit env x access cwd Deny then Denied else if hit env x access cwd Ask then Asked
      else if ?allow x then Allowed else NoRule)" for x
    by (rule verdict_lexical)
  have "?allow c = ?allow c'"
    by (simp add: tightens_hit(2) [OF assms] tightens_bash_allow [OF assms] split: access_kind.split)
  then show ?thesis
    unfolding v using tightens_hit(1) [OF assms, of env access cwd] by auto
qed

text \<open>Adding an escalation to a decision.\<close>

definition join_verdict :: "verdict \<Rightarrow> verdict \<Rightarrow> verdict" where
  "join_verdict v w = (if Asked \<le> w then max v w else v)"

lemma join_verdict_mono: "v \<le> v' \<Longrightarrow> w \<le> w' \<Longrightarrow> join_verdict v w \<le> join_verdict v' w'"
  by (auto simp: join_verdict_def max_def)

lemma lexical_cases:
  "evaluate_lexical_with_cwd env pol access cwd \<in> {None, Some AllowIt, Some AskUser} \<union> range (\<lambda>r. Some (Reject r))"
proof -
  have deny: "rule_loop env access cwd a b rs = Inl d \<Longrightarrow> \<exists>r. d = Reject r" for a b d rs
    by (induction env access cwd a b rs rule: rule_loop.induct) (auto split: if_splits rule_action.splits)
  show ?thesis
  proof (cases "rule_loop env access cwd False False (zip (rules (cp_config pol)) (matchers pol))")
    case (Inl d)
    with deny [OF Inl] show ?thesis by (auto simp: evaluate_lexical_with_cwd_def)
  next
    case (Inr b)
    then show ?thesis
      by (cases access) (auto simp: evaluate_lexical_with_cwd_def split: prod.splits)
  qed
qed

lemma verdict_combine:
  assumes "a \<in> {None, Some AllowIt, Some AskUser} \<union> range (\<lambda>r. Some (Reject r))"
    and "b \<in> {None, Some AllowIt, Some AskUser} \<union> range (\<lambda>r. Some (Reject r))"
  shows "verdict_of (combine_decisions a (escalation b)) = join_verdict (verdict_of a) (verdict_of b)"
  using assms
  by (auto simp: combine_decisions_def escalation_def verdict_of_def join_verdict_def less_eq_verdict_def max_def)

definition followed :: "'g policy_env \<Rightarrow> access_kind \<Rightarrow> rstring option \<Rightarrow> symlink_follow" where
  \<comment> \<open>where the native path of an access leads\<close>
  "followed env access cwd = (case native_file_path access of
     None \<Rightarrow> NoLink
   | Some path \<Rightarrow> (case raw_absolute_tool_path path cwd of
       None \<Rightarrow> NoLink
     | Some raw_absolute \<Rightarrow>
         follow_absolute_symlink env raw_absolute (path_match_string (absolute_normalized_path path cwd))))"

lemma verdict_evaluate:
  "verdict_of (evaluate_with_cwd env pol access cwd) =
     (let v = verdict_of (evaluate_lexical_with_cwd env pol access cwd) in
      case followed env access cwd of
        NoLink \<Rightarrow> v
      | LinkTarget t \<Rightarrow>
          join_verdict v (verdict_of (evaluate_lexical_with_cwd env pol (access_with_path access t) cwd))
      | Unresolvable \<Rightarrow> if native_path_restrictions_apply pol access then join_verdict v Asked else v)"
proof -
  have ask: "verdict_of (combine_decisions (evaluate_lexical_with_cwd env pol access cwd) (Some AskUser)) =
      join_verdict (verdict_of (evaluate_lexical_with_cwd env pol access cwd)) Asked"
    using verdict_combine [OF lexical_cases [of env pol access cwd], of "Some AskUser"]
    by (simp add: escalation_def verdict_of_def)
  show ?thesis
    by (simp add: evaluate_with_cwd_def evaluate_with_cwd_details_def followed_def Let_def ask
          verdict_combine [OF lexical_cases lexical_cases]
          split: option.split symlink_follow.split)
qed

text \<open>
  C29. Restrictive rules only tighten a policy: a configuration with the same rules in any order and
  further deny or ask rules never gives a weaker verdict, for any access, working directory and
  file system.  In particular the order of the rules does not matter.
\<close>

theorem restrictive_rules_only_tighten:
  assumes "tightens c c'"
  shows "verdict_of (evaluate_with_cwd env (policy_new env c) access cwd) \<le>
         verdict_of (evaluate_with_cwd env (policy_new env c') access cwd)"
proof -
  have "native_path_restrictions_apply (policy_new env c) access \<Longrightarrow>
      native_path_restrictions_apply (policy_new env c') access"
    using assms by (auto simp: native_path_restrictions_apply_def policy_new_def list_ex_iff tightens_def)
  note nat = this
  have le: "verdict_of (evaluate_lexical_with_cwd env (policy_new env c) a cwd) \<le>
      verdict_of (evaluate_lexical_with_cwd env (policy_new env c') a cwd)" for a
    by (rule lexical_tightens [OF assms])
  have up: "v \<le> v' \<Longrightarrow> v \<le> join_verdict v' w" for v v' w
    by (auto simp: join_verdict_def le_max_iff_disj)
  show ?thesis
  proof (cases "followed env access cwd")
    case NoLink
    with le show ?thesis by (simp add: verdict_evaluate)
  next
    case (LinkTarget t)
    with le show ?thesis by (simp add: verdict_evaluate join_verdict_mono)
  next
    case Unresolvable
    with le [of access] nat up join_verdict_mono [OF le, of Asked Asked] show ?thesis
      by (auto simp: verdict_evaluate Let_def)
  qed
qed

text \<open>An environment without globs or links whose scripts are words separated by blanks.\<close>

definition plain_env :: "unit policy_env" where
  "plain_env = \<lparr>glob_new = (\<lambda>_. None), glob_matches_with = (\<lambda>_ _ _. False), url_host = (\<lambda>_. None),
     to_lowercase = to_ascii_lowercase, all_commands_from_script = (\<lambda>s. Some [split_on 32 s]),
     canonicalize = (\<lambda>p. Some p), symlink_metadata = (\<lambda>_. NotLink), read_link = (\<lambda>_. None)\<rparr>"

definition deny_rm :: permission_rule where
  "deny_rm = \<lparr>action = Deny, tool = BashTool, pattern = Some (lit ''rm''), pattern_mode = Glob\<rparr>"

definition allow_all :: permission_rule where
  "allow_all = \<lparr>action = Allow, tool = AnyTool, pattern = None, pattern_mode = Glob\<rparr>"

theorem restrictive_rules_only_tighten_witness:
  "tightens (config_of_rules [allow_all]) (config_of_rules [deny_rm, allow_all]) \<and>
   verdict_of (evaluate_with_cwd plain_env (policy_new plain_env (config_of_rules [allow_all])) (ReadAccess None) None)
     \<le> verdict_of (evaluate_with_cwd plain_env (policy_new plain_env (config_of_rules [deny_rm, allow_all]))
          (ReadAccess None) None)"
proof -
  have t: "tightens (config_of_rules [allow_all]) (config_of_rules [deny_rm, allow_all])"
    by (auto simp: tightens_def config_of_rules_def restrictive_def deny_rm_def)
  with restrictive_rules_only_tighten [OF t] show ?thesis by simp
qed

text \<open>
  Following a symlink only escalates: with no link the decision is the one for the path as
  spelled; with a link a deny or ask for the target raises the decision to at least that, while an
  allow for the target grants nothing; and a link that cannot be resolved asks as soon as any
  restrictive rule covers the tool.
\<close>

theorem symlink_only_escalates:
  "verdict_of (evaluate_lexical_with_cwd env pol access cwd) \<le> verdict_of (evaluate_with_cwd env pol access cwd) \<and>
   verdict_of (evaluate_with_cwd env pol access cwd) =
     (let v = verdict_of (evaluate_lexical_with_cwd env pol access cwd) in
      case followed env access cwd of
        NoLink \<Rightarrow> v
      | LinkTarget t \<Rightarrow>
          let w = verdict_of (evaluate_lexical_with_cwd env pol (access_with_path access t) cwd) in
          if w = Asked \<or> w = Denied then max v w else v
      | Unresolvable \<Rightarrow> if native_path_restrictions_apply pol access then max v Asked else v)"
proof -
  have j: "join_verdict v w = (if w = Asked \<or> w = Denied then max v w else v)" for v w
    by (cases w) (auto simp: join_verdict_def)
  show ?thesis
    by (auto simp: verdict_evaluate j Let_def split: symlink_follow.split)
qed

section \<open>The Bash gate sees every command\<close>

text \<open>
  The commands a script runs, as far as the gates model them: its own segments, and those of a
  literal \<open>-c\<close> script of a segment, one level deeper.  With \<open>deep\<close> the packed scripts of
  \<open>env -S\<close> count too.
\<close>

inductive runs :: "'g policy_env \<Rightarrow> bool \<Rightarrow> nat \<Rightarrow> rstring \<Rightarrow> rstring list \<Rightarrow> bool" for env deep where
  segment: "all_commands_from_script env cmd = Some segs \<Longrightarrow> ws \<in> set segs \<Longrightarrow> runs env deep d cmd ws"
| inline: "all_commands_from_script env cmd = Some segs \<Longrightarrow> v \<in> set segs \<Longrightarrow>
    shell_dash_c_script (map LiteralWord (norm_words (normalize_command_words v))) = LiteralAt i \<Longrightarrow>
    runs env deep d (norm_words (normalize_command_words v) ! i) ws \<Longrightarrow> runs env deep (Suc d) cmd ws"
| packed: "deep \<Longrightarrow> all_commands_from_script env cmd = Some segs \<Longrightarrow> v \<in> set segs \<Longrightarrow>
    env_split_string_script (norm_words (normalize_command_words v)) = Some script \<Longrightarrow>
    runs env deep d script ws \<Longrightarrow> runs env deep (Suc d) cmd ws"

lemma rank_scripts_mono:
  assumes "k \<le> gate.rank_of d"
  shows "k \<le> gate.rank_of (case packed of
      Some script \<Rightarrow> combine_gate_decisions (case c of
          LiteralAt i \<Rightarrow> combine_gate_decisions d (f i) | NotInline \<Rightarrow> d
        | Untrusted \<Rightarrow> combine_gate_decisions d e | Unrecognized \<Rightarrow> combine_gate_decisions d e) (g script)
    | None \<Rightarrow> (case c of
          LiteralAt i \<Rightarrow> combine_gate_decisions d (f i) | NotInline \<Rightarrow> d
        | Untrusted \<Rightarrow> combine_gate_decisions d e | Unrecognized \<Rightarrow> combine_gate_decisions d e))"
  using assms by (cases c; cases packed) (simp_all add: gate.rank_of_combine le_max_iff_disj)

lemma rank_words_forms:
  assumes "form = raw \<or> form = norm_words (normalize_command_words raw)"
  shows "gate.rank_of (escalate_segment env pol (join [32] form)) \<le>
         gate.rank_of (evaluate_command_words env pol inner raw)"
proof -
  let ?n = "normalize_command_words raw"
  let ?forms = "raw # (if length (norm_words ?n) \<noteq> length raw then [norm_words ?n] else [])"
  obtain zs where zs: "raw = zs @ norm_words ?n"
    using normalize_words_suffix [of raw] by (auto simp: suffix_def)
  have "length (norm_words ?n) = length raw \<Longrightarrow> norm_words ?n = raw"
    using zs by (metis add_cancel_left_left append_Nil length_0_conv length_append)
  then have "form \<in> set ?forms" using assms by auto
  then have le: "gate.rank_of (escalate_segment env pol (join [32] form)) \<le>
      gate.rank_of (foldl (\<lambda>d words. combine_gate_decisions d (escalate_segment env pol (join [32] words))) d0 ?forms)" for d0
    by (rule gate.fold_ge)
  show ?thesis
    unfolding evaluate_command_words_def Let_def by (rule rank_scripts_mono [OF le])
qed

lemma rank_words_inline:
  assumes "shell_dash_c_script (map LiteralWord (norm_words (normalize_command_words raw))) = LiteralAt i"
  shows "gate.rank_of (inner (norm_words (normalize_command_words raw) ! i)) \<le>
         gate.rank_of (evaluate_command_words env pol inner raw)"
  using assms
  by (auto simp: evaluate_command_words_def Let_def gate.rank_of_combine le_max_iff_disj simp del: foldl.simps split: option.split)

lemma rank_words_packed:
  assumes "env_split_string_script (norm_words (normalize_command_words raw)) = Some script"
  shows "gate.rank_of (inner script) \<le> gate.rank_of (evaluate_command_words env pol inner raw)"
  using assms by (simp add: evaluate_command_words_def Let_def gate.rank_of_combine le_max_iff_disj del: foldl.simps)

lemma rank_segments:
  assumes "all_commands_from_script env cmd = Some segs" and "v \<in> set segs"
  shows "gate.rank_of (evaluate_command_words env pol inner v) \<le> gate.rank_of (evaluate_segments env pol inner cmd)"
  using assms by (simp add: evaluate_segments_def gate.fold_ge)

lemma runs_rank:
  assumes "runs env deep d cmd ws" and "form = ws \<or> form = norm_words (normalize_command_words ws)"
  shows "gate.rank_of (escalate_segment env pol (join [32] form)) \<le>
         gate.rank_of (evaluate_bash_command_segments env pol d cmd)"
  using assms
proof (induction rule: runs.induct)
  case (segment cmd segs ws d)
  have "gate.rank_of (escalate_segment env pol (join [32] form)) \<le>
      gate.rank_of (evaluate_segments env pol f cmd)" for f
    using rank_words_forms [OF segment.prems] rank_segments [OF segment.hyps] order_trans by blast
  then show ?case by (cases d) simp_all
next
  case (inline cmd segs v i d ws)
  let ?f = "evaluate_bash_command_segments env pol d"
  have "gate.rank_of (escalate_segment env pol (join [32] form)) \<le>
      gate.rank_of (?f (norm_words (normalize_command_words v) ! i))" by (rule inline.IH [OF inline.prems])
  also have "\<dots> \<le> gate.rank_of (evaluate_command_words env pol ?f v)" by (rule rank_words_inline [OF inline.hyps(3)])
  also have "\<dots> \<le> gate.rank_of (evaluate_segments env pol ?f cmd)" by (rule rank_segments [OF inline.hyps(1,2)])
  finally show ?case by simp
next
  case (packed cmd segs v script d ws)
  let ?f = "evaluate_bash_command_segments env pol d"
  have "gate.rank_of (escalate_segment env pol (join [32] form)) \<le> gate.rank_of (?f script)"
    by (rule packed.IH [OF packed.prems])
  also have "\<dots> \<le> gate.rank_of (evaluate_command_words env pol ?f v)" by (rule rank_words_packed [OF packed.hyps(4)])
  also have "\<dots> \<le> gate.rank_of (evaluate_segments env pol ?f cmd)" by (rule rank_segments [OF packed.hyps(2,3)])
  finally show ?case by simp
qed

lemma escalate_deny:
  assumes "hit env config (BashAccess segment) None Deny"
  shows "gate.rank_of (escalate_segment env (policy_new env config) segment) = 4"
proof -
  from assms find_deny [of env "BashAccess segment" None config] obtain r where
    "find (\<lambda>r. action r = Deny \<and> applies env (BashAccess segment) None r) (rules config) = Some r" by auto
  then show ?thesis
    by (simp add: escalate_segment_def evaluate_def evaluate_with_cwd_def evaluate_with_cwd_details_def
        native_file_path_def evaluate_lexical_eq gate.rank_of_def)
qed

lemma escalate_ask:
  assumes "hit env config (BashAccess segment) None Ask"
  shows "gate.rank_of (escalate_segment env (policy_new env config) segment) \<ge> 3"
  using assms
  by (auto simp: escalate_segment_def evaluate_def evaluate_with_cwd_def evaluate_with_cwd_details_def
        native_file_path_def evaluate_lexical_eq gate.rank_of_def split: option.split)

lemma hit_restrictive:
  assumes "hit env config (BashAccess segment) cwd act" and "act \<noteq> Allow"
  shows "has_bash_command_restrictions (policy_new env config)"
proof -
  from assms(1) obtain r where "r \<in> set (rules config)" "action r = act"
    "tool_filter_matches (BashAccess segment) (tool r)"
    by (auto simp: hit_def applies_def rule_applies_def)
  with assms(2) show ?thesis
    by (cases act; cases "tool r") (auto simp: policy_new_def list_ex_iff restrictive_def tool_filter_matches_def)
qed

lemma gate_complete:
  assumes "runs env True MAX_INLINE_SHELL_DEPTH cmd ws"
    and "form = ws \<or> form = norm_words (normalize_command_words ws)"
    and "hit env config (BashAccess (join [32] form)) None act" and "act \<noteq> Allow"
  shows "(\<exists>r. evaluate_bash_command_gate env (policy_new env config) cmd = Some (GateReject r)) \<or>
         act = Ask \<and> evaluate_bash_command_gate env (policy_new env config) cmd = Some AskRuleMatch"
proof -
  let ?g = "evaluate_bash_command_gate env (policy_new env config) cmd"
  have g: "?g = evaluate_bash_command_segments env (policy_new env config) MAX_INLINE_SHELL_DEPTH cmd"
    using hit_restrictive [OF assms(3,4)] by (simp add: evaluate_bash_command_gate_def)
  have rank: "gate.rank_of (escalate_segment env (policy_new env config) (join [32] form)) \<le> gate.rank_of ?g"
    unfolding g by (rule runs_rank [OF assms(1,2)])
  have three: "gate.rank_of ?g \<ge> 3 \<Longrightarrow> (\<exists>r. ?g = Some (GateReject r)) \<or> ?g = Some AskRuleMatch"
    by (cases ?g; cases "the ?g") (auto simp: gate.rank_of_def)
  show ?thesis
  proof (cases act)
    case Deny
    with escalate_deny assms(3) rank have "gate.rank_of ?g \<ge> 4" by fastforce
    then show ?thesis by (simp add: gate_reject_iff)
  next
    case Ask
    with escalate_ask assms(3) rank have "gate.rank_of ?g \<ge> 3" by fastforce
    with three Ask show ?thesis by blast
  qed (use assms(4) in simp)
qed

text \<open>
  C3. No command escapes a deny or ask rule by hiding in a script: if a script runs a command, in any
  segment of a chain and through up to eight levels of inline or packed scripts, and a deny rule
  applies to that command as written or with its wrappers peeled, the gate rejects the whole
  script; if an ask rule applies, the gate rejects or asks with the provenance of a rule match.
\<close>

theorem bash_gate_complete:
  assumes "runs env True MAX_INLINE_SHELL_DEPTH cmd ws"
    and "form = ws \<or> form = norm_words (normalize_command_words ws)"
    and "hit env config (BashAccess (join [32] form)) None act" and "act \<noteq> Allow"
  shows "(\<exists>r. evaluate_bash_command_gate env (policy_new env config) cmd = Some (GateReject r)) \<or>
         act = Ask \<and> evaluate_bash_command_gate env (policy_new env config) cmd = Some AskRuleMatch"
  using assms by (rule gate_complete)

definition wrapped_rm :: "rstring list" where "wrapped_rm = map lit [''timeout'', ''5'', ''rm'', ''x'']"

lemma wrapped_rm_runs: "runs plain_env True MAX_INLINE_SHELL_DEPTH (lit ''timeout 5 rm x'') wrapped_rm"
proof (rule runs.segment)
  show "all_commands_from_script plain_env (lit ''timeout 5 rm x'') = Some [wrapped_rm]" by code_simp
qed simp

lemma wrapped_rm_hit: "hit plain_env (config_of_rules [deny_rm])
    (BashAccess (join [32] (norm_words (normalize_command_words wrapped_rm)))) None Deny"
proof -
  have "applies plain_env (BashAccess (join [32] (norm_words (normalize_command_words wrapped_rm)))) None deny_rm"
    by code_simp
  then show ?thesis by (simp add: hit_def config_of_rules_def deny_rm_def)
qed

theorem bash_gate_complete_witness:
  "\<exists>r. evaluate_bash_command_gate plain_env (policy_new plain_env (config_of_rules [deny_rm]))
         (lit ''timeout 5 rm x'') = Some (GateReject r)"
  using bash_gate_complete [OF wrapped_rm_runs _ wrapped_rm_hit] by simp

section \<open>What an allow covers\<close>

lemma chain_allowed_runs:
  assumes "runs env False d cmd ws" and "bash_chain_fully_allowed env pol scope d cmd"
  shows "\<not> unmodelled (normalize_command_words ws) \<and>
         bash_words_allowed env pol scope (norm_words (normalize_command_words ws))"
  using assms
proof (induction rule: runs.induct)
  case (segment cmd segs ws d)
  then show ?case
    by (cases d) (auto simp: list_all_iff segment_allowed_def Let_def unmodelled_def split: if_splits)
next
  case (inline cmd segs v i d ws)
  then have "segment_allowed env pol scope (bash_chain_fully_allowed env pol scope d) v"
    by (auto simp: list_all_iff)
  with inline show ?case by (auto simp: segment_allowed_def Let_def split: if_splits)
qed simp

lemma words_allowed_narrow:
  assumes "bash_words_allowed env (policy_new env config) scope words"
  shows "\<exists>r \<in> set (rules config). action r = Allow \<and> tool r \<in> {BashTool, AnyTool} \<and>
     bash_allow_pattern_matches env (join [32] words) r (compile_matcher env r) \<and>
     (scope = AnyScope \<or> \<not> rule_is_catchall env r \<and> \<not> head_is_exec_vehicle words)"
  using assms by (cases scope) (auto simp: words_allowed_eq)

text \<open>
  C17. An allow for a Bash command is conjunctive: when the policy allows it, no deny or ask rule applies
  to it as written, it decomposes into at least one command, and every command it runs, through
  inline \<open>-c\<close> scripts, is fully understood and has an allow rule of its own; when a narrow allow
  authorises it, that rule is not a catch-all and the command is no vehicle for running code.
\<close>

theorem bash_allow_conjunctive:
  assumes "evaluate env (policy_new env config) (BashAccess cmd) = Some AllowIt"
    and "runs env False MAX_INLINE_SHELL_DEPTH cmd ws"
  shows "\<not> hit env config (BashAccess cmd) None Deny \<and> \<not> hit env config (BashAccess cmd) None Ask \<and>
    \<not> unmodelled (normalize_command_words ws) \<and>
    (\<exists>r \<in> set (rules config). action r = Allow \<and> tool r \<in> {BashTool, AnyTool} \<and>
       bash_allow_pattern_matches env (join [32] (norm_words (normalize_command_words ws))) r (compile_matcher env r) \<and>
       (\<not> narrow_allow_authorizes env (policy_new env config) (BashAccess cmd) \<or>
        (\<exists>r' \<in> set (rules config). action r' = Allow \<and> \<not> rule_is_catchall env r' \<and>
           bash_allow_pattern_matches env (join [32] (norm_words (normalize_command_words ws))) r'
             (compile_matcher env r') \<and>
           \<not> head_is_exec_vehicle (norm_words (normalize_command_words ws)))))"
proof -
  let ?p = "policy_new env config" and ?w = "norm_words (normalize_command_words ws)"
  have lex: "evaluate_lexical_with_cwd env ?p (BashAccess cmd) None = Some AllowIt"
    using assms(1) by (simp add: evaluate_def evaluate_with_cwd_def evaluate_with_cwd_details_def native_file_path_def)
  then have nd: "\<not> hit env config (BashAccess cmd) None Deny" and na: "\<not> hit env config (BashAccess cmd) None Ask"
    and chain: "bash_chain_fully_allowed env ?p AnyScope MAX_INLINE_SHELL_DEPTH cmd"
    using find_deny [of env "BashAccess cmd" None config]
    by (auto simp: evaluate_lexical_eq split: option.splits if_splits)
  from chain_allowed_runs [OF assms(2) chain] have um: "\<not> unmodelled (normalize_command_words ws)"
    and any: "bash_words_allowed env ?p AnyScope ?w" by auto
  have narrow: "bash_words_allowed env ?p NarrowOnly ?w" if "narrow_allow_authorizes env ?p (BashAccess cmd)"
    using chain_allowed_runs [OF assms(2)] that by (auto simp: narrow_allow_authorizes_def)
  from words_allowed_narrow [OF any] obtain r where r: "r \<in> set (rules config)" "action r = Allow"
    "tool r \<in> {BashTool, AnyTool}" "bash_allow_pattern_matches env (join [32] ?w) r (compile_matcher env r)" by auto
  have "\<exists>r' \<in> set (rules config). action r' = Allow \<and> \<not> rule_is_catchall env r' \<and>
      bash_allow_pattern_matches env (join [32] ?w) r' (compile_matcher env r') \<and> \<not> head_is_exec_vehicle ?w"
    if "narrow_allow_authorizes env ?p (BashAccess cmd)"
    using words_allowed_narrow [OF narrow [OF that]] by auto
  with r nd na um show ?thesis by auto
qed

definition allow_git :: permission_rule where
  "allow_git = \<lparr>action = Allow, tool = BashTool, pattern = Some (lit ''git''), pattern_mode = Glob\<rparr>"

theorem bash_allow_conjunctive_witness:
  "evaluate plain_env (policy_new plain_env (config_of_rules [allow_git])) (BashAccess (lit ''git log'')) = Some AllowIt \<and>
   \<not> hit plain_env (config_of_rules [allow_git]) (BashAccess (lit ''git log'')) None Deny"
proof -
  let ?p = "policy_new plain_env (config_of_rules [allow_git])" and ?ws = "map lit [''git'', ''log'']"
  have s: "all_commands_from_script plain_env (lit ''git log'') = Some [?ws]" by code_simp
  have n: "normalize_command_words ?ws = \<lparr>norm_words = ?ws, has_chdir = False, has_split_string = False,
      env_options_uncertain = False, exhausted = False, ambiguous = False\<rparr>" by code_simp
  have m: "bash_allow_pattern_matches plain_env (join [32] ?ws) allow_git (compile_matcher plain_env allow_git)" by code_simp
  have d: "shell_dash_c_script (map LiteralWord ?ws) = NotInline" by code_simp
  have "segment_allowed plain_env ?p AnyScope f ?ws" for f
    unfolding segment_allowed_def n Let_def using m d
    by (simp add: words_allowed_eq) (simp add: config_of_rules_def allow_git_def)
  then have "bash_chain_fully_allowed plain_env ?p AnyScope d (lit ''git log'')" for d
    using s by (cases d) simp_all
  then have e: "evaluate plain_env ?p (BashAccess (lit ''git log'')) = Some AllowIt"
    by (simp add: evaluate_def evaluate_with_cwd_def evaluate_with_cwd_details_def native_file_path_def
        evaluate_lexical_eq hit_def) (simp add: config_of_rules_def allow_git_def policy_new_def)
  have r: "runs plain_env False MAX_INLINE_SHELL_DEPTH (lit ''git log'') (map lit [''git'', ''log''])"
    by (rule runs.segment [OF s]) simp
  from bash_allow_conjunctive [OF e r] e show ?thesis by blast
qed

end
