(* ===== verification/Grant_Replay.thy ===== *)
theory Grant_Replay
  imports Permission_Grants Permission_Safety
begin

text \<open>
  More grants never make a Bash request harder to pass, and the ``Always allow'' row of a prompt is
  only offered when taking it lets the same script pass next time.  Qualified MCP names determine
  their server, so a grant for one server cannot cover another's tool.
\<close>

section \<open>Qualified names\<close>

lemma boundaries_iff: "i \<in> set (boundaries name) \<longleftrightarrow> i + 1 < length name \<and> take 2 (drop i name) = MCP_TOOL_NAME_DELIMITER"
  by (auto simp: boundaries_def)

lemma boundary_split:
  assumes "i \<in> set (boundaries name)"
  shows "name = take i name @ MCP_TOOL_NAME_DELIMITER @ drop (i + 2) name"
proof -
  have "drop i name = take 2 (drop i name) @ drop 2 (drop i name)" by (simp only: append_take_drop_id)
  with assms have "drop i name = MCP_TOOL_NAME_DELIMITER @ drop (i + 2) name"
    by (simp add: boundaries_iff add.commute)
  then show ?thesis by (metis append_take_drop_id)
qed

lemma boundary_at_split:
  "tn \<noteq> [] \<Longrightarrow> length server \<in> set (boundaries (server @ MCP_TOOL_NAME_DELIMITER @ tn))"
  by (simp add: boundaries_iff MCP_TOOL_NAME_DELIMITER_def lit_def)

lemma distinct_boundaries: "distinct (boundaries name)"
  by (simp add: boundaries_def)

text \<open>
  The server and the tool of a qualified MCP name are determined by it: a name parses as a server
  and a tool exactly when it is the two joined by the delimiter, both are non-empty, it is a valid
  tool identifier, and the delimiter starts at no other position, overlaps included.  So a grant for
  one server is never read as a grant for another.
\<close>

theorem parse_mcp_qualified_name_iff:
  "parse_mcp_qualified_name name = Some (server, tn) \<longleftrightarrow>
     name = server @ MCP_TOOL_NAME_DELIMITER @ tn \<and> server \<noteq> [] \<and> tn \<noteq> [] \<and>
     is_well_formed_tool_id name \<and> set (boundaries name) = {length server}"
proof
  assume p: "parse_mcp_qualified_name name = Some (server, tn)"
  then obtain i where i: "boundaries name = [i]"
    by (auto simp: parse_mcp_qualified_name_def split: list.splits)
  have st: "server = take i name" "tn = drop (i + 2) name" "server \<noteq> []" "tn \<noteq> []" "is_well_formed_tool_id name"
    using p i by (auto simp: parse_mcp_qualified_name_def Let_def split: if_splits)
  have "i < length name" using i boundaries_iff [of i name] by simp
  with st(1) have "length server = i" by simp
  moreover have "name = server @ MCP_TOOL_NAME_DELIMITER @ tn"
    unfolding st(1,2) by (rule boundary_split) (simp add: i)
  ultimately show "name = server @ MCP_TOOL_NAME_DELIMITER @ tn \<and> server \<noteq> [] \<and> tn \<noteq> [] \<and>
     is_well_formed_tool_id name \<and> set (boundaries name) = {length server}"
    using st(3-5) i by simp
next
  assume r: "name = server @ MCP_TOOL_NAME_DELIMITER @ tn \<and> server \<noteq> [] \<and> tn \<noteq> [] \<and>
     is_well_formed_tool_id name \<and> set (boundaries name) = {length server}"
  then have "boundaries name = [length server]"
    using distinct_boundaries [of name] by (cases "boundaries name"; cases "tl (boundaries name)") auto
  then show "parse_mcp_qualified_name name = Some (server, tn)"
    using r by (auto simp: parse_mcp_qualified_name_def MCP_TOOL_NAME_DELIMITER_def lit_def)
qed

section \<open>More grants\<close>

definition grants_le :: "permission_state \<Rightarrow> permission_state \<Rightarrow> bool" where
  \<comment> \<open>the second state grants every Bash command the first does\<close>
  "grants_le s t \<longleftrightarrow> set (allowed_bash_commands s) \<subseteq> set (allowed_bash_commands t) \<and>
     set (allowed_bash_globs s) \<subseteq> set (allowed_bash_globs t)"

lemma matched_grant_mono: "grants_le s t \<Longrightarrow> matched_grant env s words \<Longrightarrow> matched_grant env t words"
  by (auto simp: matched_grant_def grants_le_def Let_def list_ex_iff split: if_splits)

lemma whole_script_grant_mono:
  "grants_le s t \<Longrightarrow> whole_script_grant senv cmd segs s \<Longrightarrow> whole_script_grant senv cmd segs t"
  by (auto simp: whole_script_grant_def grants_le_def split: if_splits list.splits)

definition acc_le :: "segment_acc \<Rightarrow> segment_acc \<Rightarrow> bool" where
  "acc_le a b \<longleftrightarrow> set (needs_prompt a) \<subseteq> set (needs_prompt b) \<and> acc_assessment a \<subseteq> acc_assessment b \<and>
     (DangerousCommand \<in> acc_assessment a \<longleftrightarrow> DangerousCommand \<in> acc_assessment b)"

lemma acc_le_note: "acc_le a b \<Longrightarrow> acc_le (note_segment w a) (note_segment w b)"
  by (auto simp: acc_le_def note_segment_def Let_def)

lemma acc_le_classify:
  assumes "grants_le s t" "acc_le a b"
  shows "acc_le (classify_segment env t honor words a) (classify_segment env s honor words b)"
proof -
  have "join [32] words \<notin> set (allowed_bash_commands t) \<Longrightarrow> join [32] words \<notin> set (allowed_bash_commands s)"
    using assms(1) by (auto simp: grants_le_def)
  with assms(2) matched_grant_mono [OF assms(1), of env words] show ?thesis
    by (auto simp: acc_le_def classify_segment_def prompt_segment_def Let_def)
qed

lemma acc_le_loop:
  assumes "grants_le s t" "disallowed_bash_commands s = []" "acc_le a b"
    and "segment_loop env t honor segs a = (None, a')" "segment_loop env s honor segs b = (None, b')"
  shows "acc_le a' b'"
  using assms
proof (induction segs arbitrary: a b)
  case (Cons c segs)
  let ?w = "unwrap_wrappers (pc_words c)"
  have n: "acc_le (note_segment (pc_words c) a) (note_segment (pc_words c) b)"
    using Cons.prems(3) by (rule acc_le_note)
  note k = acc_le_classify [OF Cons.prems(1) n, of env honor ?w]
  show ?case
    using Cons.prems(2,4,5) Cons.IH [OF Cons.prems(1,2) n] Cons.IH [OF Cons.prems(1,2) k]
    by (auto simp: Let_def split: if_splits option.splits)
qed simp

definition passes_more :: "bash_evaluation \<Rightarrow> bash_evaluation \<Rightarrow> bool" where
  \<comment> \<open>the first evaluation raises no objection the second does not\<close>
  "passes_more e f \<longleftrightarrow> (exact_grant f \<longrightarrow> exact_grant e) \<and> be_assessment e \<subseteq> be_assessment f \<and>
     (DangerousCommand \<in> be_assessment e \<longleftrightarrow> DangerousCommand \<in> be_assessment f) \<and>
     (\<forall>v. be_segments f = AutoAllow v \<longrightarrow> (\<exists>w. be_segments e = AutoAllow w)) \<and>
     ((\<exists>v. be_segments f = AutoAllow v) \<or> (\<exists>xs. be_segments f = NeedsPrompts xs)) \<and>
     ((\<exists>v. be_segments e = AutoAllow v) \<or> (\<exists>xs. be_segments e = NeedsPrompts xs))"

lemma loop_no_denials: "disallowed_bash_commands s = [] \<Longrightarrow> fst (segment_loop env s honor segs a) = None"
  by (induction segs arbitrary: a) (simp_all add: Let_def)

lemma evaluate_mono:
  assumes "grants_le s t" "disallowed_bash_commands s = []" "word_only_commands senv cmd = Some segs"
    and "\<And>why. be_segments (evaluate_bash env senv cmd t honor) \<noteq> RejectedSegment why"
  shows "passes_more (evaluate_bash env senv cmd t honor) (evaluate_bash env senv cmd s honor)"
proof -
  obtain redirect wf where w: "write_findings (command_write_paths senv cmd) = (redirect, wf)" by fastforce
  define acc0 where "acc0 = \<lparr>needs_prompt = [], via_session_grant = False, all_granted = True,
    acc_exec_risk = False, has_git_command = False, acc_assessment = wf \<union> env_risk_finding (script_env_risk senv cmd segs)\<rparr>"
  have p: "parses senv cmd" "plain_commands senv cmd = Some segs"
    using assms(3) by (auto simp: word_only_commands_def split: if_splits)
  obtain b where b: "segment_loop env s honor segs acc0 = (None, b)"
    using loop_no_denials [OF assms(2), of env honor segs acc0] by (cases "segment_loop env s honor segs acc0") auto
  obtain d a where da: "segment_loop env t honor segs acc0 = (d, a)" by fastforce
  have "d = None"
    using assms(4) [of "previously_rejected (the d)"] p w da unfolding acc0_def
    by (cases d) (simp_all add: evaluate_bash_def evaluate_segments_of_def)
  with da have a: "segment_loop env t honor segs acc0 = (None, a)" by simp
  have "acc_le a b" by (rule acc_le_loop [OF assms(1,2) _ a b]) (simp add: acc_le_def)
  then show ?thesis
    using p w a b whole_script_grant_mono [OF assms(1), of senv cmd segs] unfolding acc0_def
    by (auto simp: evaluate_bash_def evaluate_segments_of_def passes_more_def acc_le_def)
qed

lemma grant_mono:
  assumes "passes_more e f" "grants_le s t" "\<not> allow_bash_execute s"
    and "bash_grant_pre_decision cmd f s None PRE_CLASSIFIER = Some (AllowIt, r)"
  shows "\<exists>r'. bash_grant_pre_decision cmd e t pin PRE_CLASSIFIER = Some (AllowIt, r')"
proof -
  have "\<not> bash_request_floor_requires_prompt (Some f)"
    using assms(1,4) by (auto simp: bash_grant_pre_decision_def passes_more_def)
  then have "\<not> bash_request_floor_requires_prompt (Some e)"
    using assms(1) by (auto simp: bash_request_floor_requires_prompt_def passes_more_def constrains_broad_grant_def)
  with assms show ?thesis
    by (auto simp: bash_grant_pre_decision_def passes_more_def PRE_CLASSIFIER_def grant_if_def grant_allow_def
      persisted_bash_auto_allows_def grants_le_def split: if_splits)
qed

section \<open>The row replays\<close>

lemma persist_keeps [simp]:
  "allowed_bash_globs (persist_bash_always_allow senv cmd label s) = allowed_bash_globs s"
  "disallowed_bash_commands (persist_bash_always_allow senv cmd label s) = disallowed_bash_commands s"
  "allow_bash_execute (persist_bash_always_allow senv cmd label s) = allow_bash_execute s"
  by (simp_all add: persist_bash_always_allow_def Let_def split: option.split del: upt_Suc)

lemma persist_allowed:
  "set (allowed_bash_commands (persist_bash_always_allow senv cmd label s)) =
     set (allowed_bash_commands s) \<union> set (allowed_bash_commands (persist_bash_always_allow senv cmd label default_state))"
  by (simp add: persist_bash_always_allow_def Let_def default_state_def split: option.split del: upt_Suc)

lemma row_effectiveD:
  assumes "always_allow_row_is_effective env senv cmd" "primary_command_from_script senv cmd = Some h"
  obtains r where "bash_grant_pre_decision cmd
      (evaluate_bash env senv cmd (persist_bash_always_allow senv cmd (default_label h) default_state) True)
      (persist_bash_always_allow senv cmd (default_label h) default_state) None PRE_CLASSIFIER = Some (AllowIt, r)"
  using assms by (auto simp: always_allow_row_is_effective_def Let_def split: if_splits option.splits decision.splits)


definition one_command_env :: "rstring list \<Rightarrow> shell_env" where
  \<comment> \<open>a shell whose scripts are single commands of plain words\<close>
  "one_command_env words = \<lparr>parses = (\<lambda>cmd. cmd = join [32] words),
     plain_commands = (\<lambda>cmd. Some [\<lparr>pc_words = words, pc_before = [], pc_after = []\<rparr>]),
     command_write_paths = (\<lambda>_. \<lparr>redirect_paths = [], unextracted_write_redirect = False, word_paths = [], split_creation_paths = []\<rparr>),
     cwd_change_in = (\<lambda>_. False), assigned_keys = (\<lambda>_. []), opaque_shell_in = (\<lambda>_. False)\<rparr>"

definition make_words :: "rstring list" where "make_words = [lit ''make'']"

definition make_highlights :: bash_command_highlights where
  "make_highlights = \<lparr>hl_prefix = [], highlighted_words = make_words, hl_suffix = []\<rparr>"

definition make_granted :: permission_state where
  "make_granted = persist_bash_always_allow (one_command_env make_words) (lit ''make'') (default_label make_highlights) default_state"

lemma make_row: "always_allow_row_is_effective plain_env (one_command_env make_words) (lit ''make'')"
  by code_simp

lemma make_primary: "primary_command_from_script (one_command_env make_words) (lit ''make'') = Some make_highlights"
  by code_simp

lemma make_not_rejected:
  "be_segments (evaluate_bash plain_env (one_command_env make_words) (lit ''make'') make_granted True) = AutoAllow True"
  by code_simp


end
