(* ===== verification/Protected_Edits.thy ===== *)
theory Protected_Edits
  imports Permission_Policy
begin

text \<open>
  Edit targets that need a person even where edits are accepted
  (\<open>permission/shell_access.rs\<close>, from \<open>edit_target_protection\<close>), and the resolution of the path a
  model wrote (\<open>resolve_model_path\<close> of \<open>xai-grok-tools/src/types/resources.rs\<close>).  The file system
  is that of \<open>policy_env\<close>; the user's Grok home and the expansion of \<open>~\<close> are arguments.
\<close>

section \<open>The path a model wrote\<close>

definition trim_double_single :: "rstring \<Rightarrow> rstring" where
  "trim_double_single t = (let q = (\<lambda>c. c = 34 \<or> c = 39) in rev (dropWhile q (rev (dropWhile q t))))"

definition is_quote :: "rchar \<Rightarrow> bool" where
  "is_quote c \<longleftrightarrow> c = 34 \<or> c = 39"

definition strip_literal_escape :: "rstring \<Rightarrow> rstring option" where
  \<comment> \<open>a trailing backslash with \<open>n\<close>, \<open>r\<close> or \<open>t\<close>, as two characters\<close>
  "strip_literal_escape s = (case strip_suffix s [92, 110] of
     Some r \<Rightarrow> Some r
   | None \<Rightarrow> (case strip_suffix s [92, 114] of Some r \<Rightarrow> Some r | None \<Rightarrow> strip_suffix s [92, 116]))"

lemma strip_suffix_length: "strip_suffix s p = Some r \<Longrightarrow> p \<noteq> [] \<Longrightarrow> length r < length s"
  by (cases p) (auto simp: strip_suffix_def ends_with_def split: if_splits)

lemma strip_literal_escape_length: "strip_literal_escape s = Some r \<Longrightarrow> length r < length s"
  by (auto simp: strip_literal_escape_def dest: strip_suffix_length split: option.splits)

lemma trim_end_length: "length (trim_end s) \<le> length s"
  unfolding trim_end_def by (metis length_dropWhile_le length_rev)

function strip_escapes :: "rstring \<Rightarrow> rstring" where
  "strip_escapes s = (case strip_literal_escape s of None \<Rightarrow> s | Some r \<Rightarrow> strip_escapes (trim_end r))"
  by pat_completeness auto
termination
  by (relation "measure length") (auto dest!: strip_literal_escape_length intro: le_less_trans [OF trim_end_length])

declare strip_escapes.simps [simp del]

definition sanitize_model_path_arg :: "rstring \<Rightarrow> rstring" where
  "sanitize_model_path_arg input =
     (let trimmed = trim input;
          quote_wrapped = (2 \<le> length trimmed \<and> is_quote (hd trimmed) \<and> is_quote (last trimmed));
          unquoted = trim (trim_double_single trimmed)
      in if quote_wrapped then strip_escapes unquoted else unquoted)"

definition resolve_model_path :: "(rstring \<Rightarrow> rstring) \<Rightarrow> rstring \<Rightarrow> rstring option \<Rightarrow> rstring \<Rightarrow> rstring" where
  \<comment> \<open>\<open>tilde\<close> is \<open>shellexpand::tilde\<close>\<close>
  "resolve_model_path tilde cwd display_cwd input =
     (let expanded = tilde (sanitize_model_path_arg input) in
      if display_cwd \<noteq> None \<and> is_absolute expanded then
        (case path_strip_prefix expanded (the display_cwd) of
           Some rest \<Rightarrow> path_join cwd rest | None \<Rightarrow> expanded)
      else if \<not> is_absolute expanded \<and> expanded \<noteq> [] then
        (case path_strip_prefix ([SLASH] @ expanded) (case display_cwd of Some d \<Rightarrow> d | None \<Rightarrow> cwd) of
           Some rest \<Rightarrow> path_join cwd rest | None \<Rightarrow> path_join cwd expanded)
      else path_join cwd expanded)"

section \<open>Protected targets\<close>

datatype protected_edit_reason = HookRoot | GitHooks | Ssh | StartupFile | Etc | GrokConfig | GrokSandbox
  | ClaudeSettings | CursorHooks | Sensitive

definition STARTUP_FILES :: "rstring list" where
  "STARTUP_FILES = map lit [''.bashrc'', ''.bash_profile'', ''.bash_login'', ''.bash_logout'', ''.profile'', ''.zshrc'',
     ''.zshenv'', ''.zprofile'', ''.zlogin'', ''.zlogout'', ''.kshrc'', ''.cshrc'', ''.tcshrc'', ''.login'', ''.logout'',
     ''.inputrc'', ''.xprofile'']"

definition path_starts_with :: "rstring \<Rightarrow> rstring \<Rightarrow> bool" where
  \<comment> \<open>\<open>Path::starts_with\<close>: whole components\<close>
  "path_starts_with p base \<longleftrightarrow> prefix (components base) (components p)"

definition lower_names :: "rstring \<Rightarrow> rstring list" where
  "lower_names path = List.map_filter (\<lambda>c. case c of Normal n \<Rightarrow> Some (to_ascii_lowercase n) | _ \<Rightarrow> None) (components path)"

definition grok_home_matches :: "'g policy_env \<Rightarrow> rstring option \<Rightarrow> (rstring \<Rightarrow> bool) \<Rightarrow> bool" where
  "grok_home_matches env home pred = (case home of
     None \<Rightarrow> False
   | Some h \<Rightarrow> let lexical = normalize_lexically h in
       pred lexical \<or> (case resolve_following_symlinks env lexical of Some r \<Rightarrow> pred r | None \<Rightarrow> False))"

definition same_path :: "rstring \<Rightarrow> rstring \<Rightarrow> bool" where
  \<comment> \<open>equality of \<open>Path\<close>s compares components\<close>
  "same_path p q \<longleftrightarrow> components p = components q"

definition path_is_under_user_grok_hook_root :: "rstring \<Rightarrow> rstring \<Rightarrow> bool" where
  "path_is_under_user_grok_hook_root path home \<longleftrightarrow>
     path_starts_with path (path_join home (lit ''hooks'')) \<or> same_path path (path_join home (lit ''hooks-paths''))"

fun has_pair :: "rstring \<Rightarrow> rstring \<Rightarrow> rstring list \<Rightarrow> bool" where
  "has_pair a b (x # y # zs) = (x = a \<and> y = b \<or> has_pair a b (y # zs))"
| "has_pair a b _ = False"

definition protected_grok_hook_root :: "'g policy_env \<Rightarrow> rstring option \<Rightarrow> rstring \<Rightarrow> rstring list \<Rightarrow> bool" where
  "protected_grok_hook_root env home path names \<longleftrightarrow>
     has_pair (lit ''.grok'') (lit ''hooks'') names \<or>
     suffix [lit ''.grok'', lit ''hooks-paths''] names \<or>
     grok_home_matches env home (path_is_under_user_grok_hook_root path)"

fun git_modules_hooks :: "rstring list \<Rightarrow> bool" where
  \<comment> \<open>\<open>.git/modules/<name>/\<dots>/hooks\<close>\<close>
  "git_modules_hooks (x # y # zs) =
     (x = lit ''.git'' \<and> y = lit ''modules'' \<and> lit ''hooks'' \<in> set (tl zs) \<or> git_modules_hooks (y # zs))"
| "git_modules_hooks _ = False"

definition protected_git_hooks_path :: "rstring list \<Rightarrow> bool" where
  "protected_git_hooks_path names \<longleftrightarrow> has_pair (lit ''.git'') (lit ''hooks'') names \<or> git_modules_hooks names"

definition protected_grok_config_file ::
  "'g policy_env \<Rightarrow> rstring option \<Rightarrow> rstring \<Rightarrow> rstring list \<Rightarrow> protected_edit_reason option" where
  "protected_grok_config_file env home path names =
     (let file = (if names = [] then [] else last names);
          reason = (if file \<in> set (map lit [''config.toml'', ''managed_config.toml'', ''requirements.toml'']) then Some GrokConfig
                    else if file = lit ''sandbox.toml'' then Some GrokSandbox else None);
          in_dot_grok = (2 \<le> length names \<and> names ! (length names - 2) = lit ''.grok'');
          in_grok_home = grok_home_matches env home (\<lambda>h. path_parent path = Some (components h))
      in if in_dot_grok \<or> in_grok_home then reason else None)"

definition protected_edit_reason_of :: "'g policy_env \<Rightarrow> rstring option \<Rightarrow> rstring \<Rightarrow> protected_edit_reason option" where
  "protected_edit_reason_of env home path =
     (let names = lower_names path; file = (if names = [] then [] else last names) in
      if protected_grok_hook_root env home path names then Some HookRoot
      else if suffix [lit ''.claude'', lit ''settings.json''] names \<or> suffix [lit ''.claude'', lit ''settings.local.json''] names
        then Some ClaudeSettings
      else if suffix [lit ''.cursor'', lit ''hooks.json''] names then Some CursorHooks
      else if protected_git_hooks_path names then Some GitHooks
      else if lit ''.ssh'' \<in> set names then Some Ssh
      else if file \<in> set STARTUP_FILES then Some StartupFile
      else case protected_grok_config_file env home path names of
        Some reason \<Rightarrow> Some reason
      | None \<Rightarrow> if same_path path (lit ''/etc'') \<or> path_starts_with path (lit ''/etc'') then Some Etc else None)"

definition resolved_path_is_within_root :: "'g policy_env \<Rightarrow> rstring \<Rightarrow> rstring \<Rightarrow> bool" where
  "resolved_path_is_within_root env resolved dir = (case resolve_following_symlinks env dir of
     Some r \<Rightarrow> path_starts_with resolved r | None \<Rightarrow> True)"

definition edit_target_protection :: "'g policy_env \<Rightarrow> rstring option \<Rightarrow> rstring \<Rightarrow> protected_edit_reason option" where
  "edit_target_protection env home path =
     (if \<not> is_absolute path then Some Sensitive
      else case protected_edit_reason_of env home (normalize_lexically path) of
        Some reason \<Rightarrow> Some reason
      | None \<Rightarrow> (case resolve_following_symlinks env path of
          None \<Rightarrow> Some Sensitive
        | Some resolved \<Rightarrow> (case protected_edit_reason_of env home resolved of
            Some reason \<Rightarrow> Some reason
          | None \<Rightarrow> if resolved_path_is_within_root env resolved (lit ''/etc'') then Some Sensitive else None)))"

text \<open>However a path is spelled, a target that resolves into an SSH directory or Git's hooks is protected.\<close>

lemma resolved_target_protected:
  assumes "resolve_following_symlinks env path = Some resolved"
    and "lit ''.ssh'' \<in> set (lower_names resolved) \<or> protected_git_hooks_path (lower_names resolved)"
  shows "edit_target_protection env home path \<noteq> None"
proof -
  have "protected_edit_reason_of env home resolved \<noteq> None"
    using assms(2) by (auto simp: protected_edit_reason_of_def Let_def split: option.split)
  with assms(1) show ?thesis by (auto simp: edit_target_protection_def split: option.split)
qed

end
