(* ===== verification/Text_Truncation.thy ===== *)
theory Text_Truncation
  imports Rust_Strings
begin

text \<open>
  Cutting text for the model (\<open>xai-grok-tools/src/util/truncate.rs\<close>).  Budgets are in bytes or in
  characters; a cut in bytes must fall on a character boundary, since slicing a \<open>str\<close> elsewhere
  panics.  A loop that steps one byte at a time towards a boundary is a recursion on the offset.
\<close>

section \<open>Boundaries\<close>

fun step_back :: "rstring \<Rightarrow> nat \<Rightarrow> nat" where
  \<comment> \<open>\<open>while !s.is_char_boundary(end) { end -= 1 }\<close>; offset 0 is always a boundary\<close>
  "step_back s 0 = 0"
| "step_back s (Suc e) = (if is_char_boundary s (Suc e) then Suc e else step_back s e)"

function step_forward :: "rstring \<Rightarrow> nat \<Rightarrow> nat" where
  "step_forward s i = (if i < byte_len s \<and> \<not> is_char_boundary s i then step_forward s (i + 1) else i)"
  by pat_completeness auto
termination by (relation "measure (\<lambda>(s, i). byte_len s - i)") auto

declare step_forward.simps [simp del]

definition floor_char_boundary :: "rstring \<Rightarrow> nat \<Rightarrow> nat" where
  "floor_char_boundary s index = (if byte_len s \<le> index then byte_len s else step_back s index)"

definition ceil_char_boundary :: "rstring \<Rightarrow> nat \<Rightarrow> nat" where
  "ceil_char_boundary s index = (if byte_len s \<le> index then byte_len s else step_forward s index)"

lemma boundary_0 [simp]: "is_char_boundary s 0"
  by (cases s) simp_all

lemma boundary_byte_len [simp]: "is_char_boundary s (byte_len s)"
  by (induction s) auto

lemma boundary_iff: "is_char_boundary s i \<longleftrightarrow> (\<exists>p q. s = p @ q \<and> byte_len p = i)"
proof (induction s arbitrary: i)
  case (Cons c s)
  have "(\<exists>p q. c # s = p @ q \<and> byte_len p = i) \<longleftrightarrow> i = 0 \<or> (\<exists>p q. s = p @ q \<and> len_utf8 c + byte_len p = i)"
    by (auto simp: Cons_eq_append_conv) (metis byte_len_simps(2))+
  also have "(\<exists>p q. s = p @ q \<and> len_utf8 c + byte_len p = i) \<longleftrightarrow> len_utf8 c \<le> i \<and> is_char_boundary s (i - len_utf8 c)"
    using Cons.IH [of "i - len_utf8 c"] by auto
  finally show ?case by simp
qed simp

lemma step_back_le: "step_back s e \<le> e"
  by (induction e) (simp_all add: le_SucI)

lemma step_back_boundary: "is_char_boundary s (step_back s e)"
  by (induction e) simp_all

lemma step_back_greatest: "is_char_boundary s i \<Longrightarrow> i \<le> e \<Longrightarrow> i \<le> step_back s e"
  by (induction e) (auto simp: le_Suc_eq)

lemma step_forward_props:
  "i \<le> byte_len s \<Longrightarrow> i \<le> step_forward s i \<and> step_forward s i \<le> byte_len s \<and> is_char_boundary s (step_forward s i) \<and>
     (\<forall>j. i \<le> j \<longrightarrow> is_char_boundary s j \<longrightarrow> step_forward s i \<le> j)"
proof (induction s i rule: step_forward.induct)
  case (1 s i)
  show ?case
  proof (cases "i < byte_len s \<and> \<not> is_char_boundary s i")
    case True
    then have "step_forward s i = step_forward s (i + 1)" by (simp add: step_forward.simps [of s i])
    moreover have "i + 1 \<le> j" if "i \<le> j" "is_char_boundary s j" for j
      using that True by (cases "i = j") auto
    ultimately show ?thesis using 1 True by auto
  next
    case False
    then show ?thesis using 1(2) by (auto simp: step_forward.simps [of s i])
  qed
qed

text \<open>
  C40. The two boundary searches are exact: they end, on a character boundary, the lower one is the
  greatest boundary not above the offset and the upper one the least not below it, and the text can
  be cut at both.
\<close>

theorem char_boundaries_exact:
  "is_char_boundary s (floor_char_boundary s i) \<and> is_char_boundary s (ceil_char_boundary s i) \<and>
   floor_char_boundary s i = Max {j. is_char_boundary s j \<and> j \<le> min i (byte_len s)} \<and>
   ceil_char_boundary s i = Min {j. is_char_boundary s j \<and> min i (byte_len s) \<le> j}"
proof -
  have le: "is_char_boundary s j \<Longrightarrow> j \<le> byte_len s" for j by (auto simp: boundary_iff)
  have fin: "finite {j. is_char_boundary s j \<and> P j}" for P
    by (rule finite_subset [of _ "{..byte_len s}"]) (auto dest: le)
  have "floor_char_boundary s i = Max {j. is_char_boundary s j \<and> j \<le> min i (byte_len s)}"
    by (rule Max_eqI [symmetric, OF fin])
       (auto simp: floor_char_boundary_def min_def step_back_boundary step_back_greatest le
         intro: order_trans [OF step_back_le] dest: le)
  moreover have "ceil_char_boundary s i = Min {j. is_char_boundary s j \<and> min i (byte_len s) \<le> j}"
    by (rule Min_eqI [symmetric, OF fin])
       (use step_forward_props [of i s] in \<open>auto simp: ceil_char_boundary_def min_def split: if_splits\<close>)
  moreover have "is_char_boundary s (floor_char_boundary s i)"
    by (simp add: floor_char_boundary_def step_back_boundary)
  moreover have "is_char_boundary s (ceil_char_boundary s i)"
    using step_forward_props [of i s] by (simp add: ceil_char_boundary_def)
  ultimately show ?thesis by blast
qed

section \<open>Cutting to a budget of bytes\<close>

definition truncate_str :: "rstring \<Rightarrow> nat \<Rightarrow> rstring" where
  "truncate_str s max_bytes = (if byte_len s \<le> max_bytes then s else byte_prefix (step_back s max_bytes) s)"

definition TRUNCATION_MARKER :: rstring where "TRUNCATION_MARKER = [8230]"

definition truncate_str_with_marker :: "rstring \<Rightarrow> nat \<Rightarrow> rstring" where
  "truncate_str_with_marker s max_bytes =
     (if byte_len s \<le> max_bytes then s
      else if max_bytes < byte_len TRUNCATION_MARKER then truncate_str s max_bytes
      else byte_prefix (step_back s (max_bytes - byte_len TRUNCATION_MARKER)) s @ TRUNCATION_MARKER)"

record partial_output =
  po_text :: rstring
  total_bytes :: nat

definition whole :: "rstring \<Rightarrow> partial_output" where
  "whole text = \<lparr>po_text = text, total_bytes = byte_len text\<rparr>"

definition part_of :: "rstring \<Rightarrow> nat \<Rightarrow> partial_output" where
  "part_of text n = \<lparr>po_text = text, total_bytes = max n (byte_len text)\<rparr>"

definition truncation_footer :: "nat \<Rightarrow> rstring option \<Rightarrow> rstring" where
  "truncation_footer n footer_hint = lit ''[Output truncated - '' @ show_nat n @ lit '' bytes total'' @
     (case footer_hint of Some hint \<Rightarrow> lit ''. '' @ hint | None \<Rightarrow> []) @ lit '']''"

definition truncate_with_preview :: "partial_output \<Rightarrow> nat \<Rightarrow> nat \<Rightarrow> rstring option \<Rightarrow> rstring \<times> bool" where
  "truncate_with_preview output max_bytes preview_bytes footer_hint =
     (let text = po_text output; is_whole = total_bytes output \<le> byte_len text;
          footer = truncation_footer (total_bytes output) footer_hint in
      if is_whole \<and> byte_len text \<le> max_bytes then (text, False)
      else if byte_len text \<le> max_bytes then (text @ [NL, NL] @ footer, True)
      else (truncate_str text (min preview_bytes (byte_len text)) @ [NL, NL] @ footer, True))"

lemma byte_prefix_step_back:
  "byte_len (byte_prefix (step_back s e) s) = step_back s e \<and> (\<exists>q. s = byte_prefix (step_back s e) s @ q)"
proof -
  obtain p q where "s = p @ q" "byte_len p = step_back s e" using step_back_boundary boundary_iff by metis
  then show ?thesis by (metis byte_prefix_append)
qed

lemma boundary_near: "i \<le> byte_len s \<Longrightarrow> \<exists>j. is_char_boundary s j \<and> j \<le> i \<and> i < j + 4"
proof (induction s arbitrary: i)
  case (Cons c s)
  show ?case
  proof (cases "len_utf8 c \<le> i")
    case True
    have "i - len_utf8 c \<le> byte_len s" using Cons.prems by simp
    from Cons.IH [OF this] obtain j where
      "is_char_boundary s j" "j \<le> i - len_utf8 c" "i - len_utf8 c < j + 4" by blast
    with True show ?thesis by (intro exI [of _ "len_utf8 c + j"]) auto
  next
    case False
    then show ?thesis using len_utf8_le4 [of c] by (intro exI [of _ 0]) auto
  qed
qed simp

lemma step_back_near: "i \<le> byte_len s \<Longrightarrow> i < step_back s i + 4"
  using boundary_near [of i s] step_back_greatest [of s _ i] by fastforce

lemma byte_len_marker [simp]: "byte_len TRUNCATION_MARKER = 3"
  by (simp add: TRUNCATION_MARKER_def len_utf8_def)

text \<open>
  A cut to a budget of bytes keeps it: the result is never longer than the budget, it is a prefix
  of the text, followed by the marker whenever something was cut and the marker fits, and at most
  three bytes of the budget are given up to stay on a character boundary.
\<close>

theorem truncate_within_budget:
  "byte_len (truncate_str_with_marker s n) \<le> n \<and>
   (\<exists>p q m. s = p @ q \<and> truncate_str_with_marker s n = p @ m \<and>
      (q = [] \<longleftrightarrow> byte_len s \<le> n) \<and> m = (if q = [] \<or> n < 3 then [] else TRUNCATION_MARKER)) \<and>
   min (byte_len s) n < byte_len (truncate_str_with_marker s n) + 4"
proof (cases "byte_len s \<le> n")
  case True
  then show ?thesis by (auto simp: truncate_str_with_marker_def)
next
  case False
  define e where "e = (if n < 3 then n else n - 3)"
  define m where "m = (if n < 3 then [] else TRUNCATION_MARKER)"
  have t: "truncate_str_with_marker s n = byte_prefix (step_back s e) s @ m"
    using False by (simp add: truncate_str_with_marker_def truncate_str_def e_def m_def)
  obtain q where q: "s = byte_prefix (step_back s e) s @ q" and
    l: "byte_len (byte_prefix (step_back s e) s) = step_back s e"
    using byte_prefix_step_back by blast
  have e: "e \<le> n" "e \<le> byte_len s" using False by (auto simp: e_def)
  note b = step_back_le [of s e] e(2) step_back_near [OF e(2)] e(1)
  have "q \<noteq> []" using q l b False by (metis append_Nil2 order_trans)
  then have "\<exists>p q' m'. s = p @ q' \<and> byte_prefix (step_back s e) s @ m = p @ m' \<and>
      (q' = [] \<longleftrightarrow> byte_len s \<le> n) \<and> m' = (if q' = [] \<or> n < 3 then [] else TRUNCATION_MARKER)"
    using q False by (intro exI [of _ "byte_prefix (step_back s e) s"] exI [of _ q] exI [of _ m]) (simp add: m_def)
  moreover have "byte_len m + e = n" by (simp add: m_def e_def)
  ultimately show ?thesis using l b False unfolding t by simp
qed

section \<open>Cutting to a budget of characters\<close>

definition truncate_line :: "rstring \<Rightarrow> nat \<Rightarrow> rstring" where
  "truncate_line line max_chars =
     (if byte_len line \<le> max_chars then line
      else let char_count = length line in
        if char_count \<le> max_chars then line
        else take max_chars line @ lit '' [... truncated ('' @ show_nat char_count @ lit '' chars total)]'')"

fun wrap_chars :: "nat \<Rightarrow> nat \<Rightarrow> rstring \<Rightarrow> rstring" where
  \<comment> \<open>the loop, with the characters on the current line\<close>
  "wrap_chars width on_line [] = []"
| "wrap_chars width on_line (c # cs) =
     (if width \<le> on_line then NL # c # wrap_chars width 1 cs else c # wrap_chars width (on_line + 1) cs)"

definition soft_wrap_line :: "rstring \<Rightarrow> nat \<Rightarrow> rstring" where
  "soft_wrap_line line wrap_width =
     (if byte_len line \<le> wrap_width then line
      else if length line \<le> wrap_width then line
      else wrap_chars wrap_width 0 line)"

definition soft_wrap_lines :: "rstring \<Rightarrow> nat \<Rightarrow> rstring" where
  "soft_wrap_lines text wrap_width =
     join [NL] (map (\<lambda>line. soft_wrap_line line wrap_width) (str_lines text)) @
     (if ends_with text [NL] \<and> text \<noteq> [] then [NL] else [])"

definition FRONT_BACK_TRUNCATION_MARKER :: rstring where
  "FRONT_BACK_TRUNCATION_MARKER = [NL, NL] @ lit ''... (output truncated) ...'' @ [NL, NL]"

definition truncate_front_and_back :: "rstring \<Rightarrow> nat \<Rightarrow> rstring \<times> bool" where
  "truncate_front_and_back s max_chars =
     (if byte_len s \<le> max_chars then (s, False)
      else let half = max_chars div 2; total_chars = length s;
               back = (if total_chars \<le> half then s else if half = 0 then s else drop (total_chars - half) s)
           in (take half s @ FRONT_BACK_TRUNCATION_MARKER @ back, True))"

definition truncate_middle :: "rstring \<Rightarrow> nat \<Rightarrow> rstring" where
  "truncate_middle s max_chars =
     (let char_count = length s in
      if char_count \<le> max_chars then s
      else let remaining = max_chars - 3; front_count = remaining div 2; back_count = remaining - front_count;
               back = (if char_count \<le> back_count then s else if back_count = 0 then s else drop (char_count - back_count) s)
           in take front_count s @ lit ''...'' @ back)"

definition rfind :: "rchar \<Rightarrow> rstring \<Rightarrow> nat option" where
  \<comment> \<open>the number of characters before the last occurrence\<close>
  "rfind c s = map_option (\<lambda>i. length s - Suc i) (position (\<lambda>x. x = c) (rev s))"

definition truncate_lines_to_char_budget :: "rstring \<Rightarrow> nat \<Rightarrow> rstring \<times> bool" where
  "truncate_lines_to_char_budget content budget =
     (let trimmed = trim content in
      if byte_len trimmed \<le> budget then (trimmed, False)
      else let truncated = byte_prefix (step_back trimmed (min budget (byte_len trimmed))) trimmed
           in case rfind NL truncated of
                Some idx \<Rightarrow> (trim (take idx trimmed), True)
              | None \<Rightarrow> (lit ''... [First line would be too large to fit within character budget] ...'', True))"

lemma take_middle: "f \<le> j \<Longrightarrow> s = take f s @ take (j - f) (drop f s) @ drop j s"
  by (metis append_take_drop_id drop_drop le_add_diff_inverse2)

lemma length_le_byte_len: "length s \<le> byte_len s"
proof (induction s)
  case (Cons c s)
  then show ?case using len_utf8_pos [of c] unfolding byte_len_simps list.size by linarith
qed simp

text \<open>
  The cut in the middle has the length it promises only for budgets above three: then a longer text
  becomes exactly as long as the budget, its ends kept.  With a budget of at most three characters
  nothing is cut: the marker is put in front of the whole text.
\<close>

theorem truncate_middle_length:
  "length (truncate_middle s n) = (if length s \<le> n then length s else if n \<le> 3 then length s + 3 else n) \<and>
   (length s \<le> n \<or> n \<le> 3 \<or> (\<exists>p m q. s = p @ m @ q \<and> truncate_middle s n = p @ lit ''...'' @ q))"
proof -
  define f where "f = (n - 3) div 2"
  define b where "b = n - 3 - f"
  have t: "truncate_middle s n = take f s @ lit ''...'' @ drop (length s - b) s" if "\<not> length s \<le> n" "\<not> n \<le> 3"
    using that by (auto simp: truncate_middle_def Let_def f_def b_def)
  have l: "f + b = n - 3" by (simp add: f_def b_def)
  show ?thesis
  proof (cases "length s \<le> n \<or> n \<le> 3")
    case True
    then show ?thesis by (auto simp: truncate_middle_def Let_def lit_def)
  next
    case False
    have "s = take f s @ take (length s - b - f) (drop f s) @ drop (length s - b) s"
      using False l by (intro take_middle) linarith
    moreover have "length (truncate_middle s n) = n"
    proof -
      have "f \<le> length s" "b \<le> length s" "f + b + 3 = n" using False l by linarith+
      then show ?thesis using False t by (simp add: lit_def)
    qed
    ultimately show ?thesis using False t by auto
  qed
qed

text \<open>An output that is short in characters but long in bytes is not cut but doubled.\<close>

lemma truncate_front_and_back_doubles:
  "n < byte_len s \<Longrightarrow> length s \<le> n div 2 \<Longrightarrow>
     truncate_front_and_back s n = (s @ FRONT_BACK_TRUNCATION_MARKER @ s, True)"
  by (simp add: truncate_front_and_back_def)

lemma wrap_chars_lossless: "filter (\<lambda>c. c \<noteq> NL) (wrap_chars w k l) = filter (\<lambda>c. c \<noteq> NL) l"
  by (induction w k l rule: wrap_chars.induct) auto

lemma split_on_nl_cons: "split_on NL (c # s) = (if c = NL then [] # split_on NL s else (c # hd (split_on NL s)) # tl (split_on NL s))"
  by (auto split: list.split)

lemma wrap_chars_bounded:
  assumes "0 < w" "NL \<notin> set l" "k \<le> w"
  shows "list_all (\<lambda>x. length x \<le> w) (tl (split_on NL (wrap_chars w k l))) \<and> length (hd (split_on NL (wrap_chars w k l))) + k \<le> w"
  using assms
proof (induction w k l rule: wrap_chars.induct)
  case (2 w k c l)
  show ?case
  proof (cases "w \<le> k")
    case True
    with 2 have "list_all (\<lambda>x. length x \<le> w) (tl (split_on NL (wrap_chars w 1 l)))" "length (hd (split_on NL (wrap_chars w 1 l))) + 1 \<le> w"
      by auto
    with True 2(3-) show ?thesis by (simp add: split_on_nl_cons del: split_on.simps)
  next
    case False
    with 2 have "list_all (\<lambda>x. length x \<le> w) (tl (split_on NL (wrap_chars w (k+1) l)))" "length (hd (split_on NL (wrap_chars w (k+1) l))) + (k+1) \<le> w"
      by auto
    with False 2(3-) show ?thesis by (simp add: split_on_nl_cons del: split_on.simps)
  qed
qed simp

text \<open>
  Soft wrapping loses nothing and bounds every line: what it inserts are line breaks only, and every
  line of the result has at most the given number of characters.
\<close>

theorem soft_wrap_line_lossless:
  assumes "0 < w" "NL \<notin> set l"
  shows "filter (\<lambda>c. c \<noteq> NL) (soft_wrap_line l w) = l \<and> list_all (\<lambda>x. length x \<le> w) (split_on NL (soft_wrap_line l w))"
proof -
  have f: "filter (\<lambda>c. c \<noteq> NL) l = l" using assms(2) by (auto simp: filter_id_conv)
  have s: "split_on NL l = [l]" using assms(2) by (induction l) auto
  have "list_all (\<lambda>x. length x \<le> w) (split_on NL (wrap_chars w 0 l))"
    using wrap_chars_bounded [OF assms, of 0] 
    by (cases "split_on NL (wrap_chars w 0 l)") simp_all
  moreover have "length l \<le> w" if "byte_len l \<le> w" using that length_le_byte_len [of l] by simp
  ultimately show ?thesis using f s by (auto simp: soft_wrap_line_def wrap_chars_lossless)
qed

theorem soft_wrap_line_lossless_witness:
  "filter (\<lambda>c. c \<noteq> NL) (soft_wrap_line (lit ''abcde'') 2) = lit ''abcde'' \<and>
   list_all (\<lambda>x. length x \<le> 2) (split_on NL (soft_wrap_line (lit ''abcde'') 2)) \<and>
   soft_wrap_line (lit ''abcde'') 2 = lit ''ab'' @ [NL] @ lit ''cd'' @ [NL] @ lit ''e''"
  using soft_wrap_line_lossless [of 2 "lit ''abcde''"]
  by (simp add: lit_def soft_wrap_line_def len_utf8_def)

end
