(* ===== verification/Auto_Mode.thy ===== *)
theory Auto_Mode
  imports Grant_Replay Protected_Edits Text_Truncation
begin

text \<open>
  What the permission manager asks before it prompts: the managed policy
  (\<open>permission/gate_preflight.rs\<close>), the fast path of auto mode and what a classifier may answer
  (\<open>permission/auto_mode/mod.rs\<close>), and the names and details a request is reported with
  (\<open>permission/prompter.rs\<close>).  The gate for the files a shell command touches and the printing of
  JSON are arguments.
\<close>

section \<open>The managed policy of one request\<close>

record gate_preflight =
  direct :: "decision option"
  bash_command :: "gate_decision option"
  shell_file :: "gate_decision option"
  native_symlink_fail_closed :: bool
  defers_gate_ask :: bool

type_synonym 'g shell_file_gate = "'g compiled_policy \<Rightarrow> rstring \<Rightarrow> rstring \<Rightarrow> gate_decision option"

definition bash_gates ::
  "'g policy_env \<Rightarrow> 'g shell_file_gate \<Rightarrow> 'g compiled_policy option \<Rightarrow> access_kind \<Rightarrow> rstring \<Rightarrow>
     gate_decision option \<times> gate_decision option" where
  "bash_gates env file_gate pol access cwd = (case (pol, access) of
     (Some p, BashAccess cmd) \<Rightarrow> (evaluate_bash_command_gate env p cmd, file_gate p cmd cwd)
   | _ \<Rightarrow> (None, None))"

definition preflight_evaluate ::
  "'g policy_env \<Rightarrow> 'g shell_file_gate \<Rightarrow> 'g compiled_policy option \<Rightarrow> access_kind \<Rightarrow> rstring \<Rightarrow> bool \<Rightarrow> gate_preflight" where
  "preflight_evaluate env file_gate pol access cwd auto_mode =
     (let (dir, symlink) = (case pol of Some p \<Rightarrow> evaluate_with_cwd_details env p access (Some cwd) | None \<Rightarrow> (None, False));
          (bash, file) = bash_gates env file_gate pol access cwd;
          rule_match_ask = (dir = Some AskUser \<or> bash = Some AskRuleMatch \<or> file = Some AskRuleMatch);
          fail_closed_ask = (bash = Some AskFailClosed \<or> file = Some AskFailClosed)
      in \<lparr>direct = dir, bash_command = bash, shell_file = file, native_symlink_fail_closed = symlink,
          defers_gate_ask = auto_mode \<and> fail_closed_ask \<and> \<not> rule_match_ask\<rparr>)"

definition policy_decision :: "gate_preflight \<Rightarrow> decision option" where
  "policy_decision g = combine_decisions
     (combine_decisions (direct g) (map_option into_decision (bash_command g))) (map_option into_decision (shell_file g))"

definition policy_forced_prompt :: "gate_preflight \<Rightarrow> bool" where
  "policy_forced_prompt g \<longleftrightarrow> policy_decision g = Some AskUser"

definition asks :: "gate_decision option \<Rightarrow> bool" where
  "asks d = (case d of Some g \<Rightarrow> is_ask g | None \<Rightarrow> False)"

definition shell_file_forced_prompt :: "gate_preflight \<Rightarrow> bool" where
  "shell_file_forced_prompt g = asks (shell_file g)"

definition shell_forced_prompt :: "gate_preflight \<Rightarrow> bool" where
  "shell_forced_prompt g \<longleftrightarrow> asks (bash_command g) \<or> shell_file_forced_prompt g \<or> native_symlink_fail_closed g"

definition admits_auto_classifier :: "gate_preflight \<Rightarrow> bool" where
  "admits_auto_classifier g \<longleftrightarrow> \<not> policy_forced_prompt g \<or> defers_gate_ask g"

definition prompt_trigger :: "gate_preflight \<Rightarrow> reason option \<Rightarrow> reason option" where
  "prompt_trigger g auto_prompt_reason =
     (if direct g = Some AskUser then Some PolicyAsked
      else if defers_gate_ask g then auto_prompt_reason
      else if asks (bash_command g) then Some BashCommandGateAsk
      else if shell_file_forced_prompt g then Some ShellFileGateAsk
      else auto_prompt_reason)"

section \<open>Names and details\<close>

definition tool_name_for_access :: "access_kind \<Rightarrow> rstring" where
  "tool_name_for_access access = (case access of
     ReadAccess _ \<Rightarrow> lit ''read_file''
   | GrepAccess _ _ \<Rightarrow> lit ''grep''
   | EditAccess _ \<Rightarrow> lit ''search_replace''
   | BashAccess _ \<Rightarrow> lit ''run_terminal_command''
   | MCPToolAccess name _ \<Rightarrow> lit ''mcp:'' @ name
   | WebFetchAccess _ \<Rightarrow> lit ''web_fetch''
   | WebSearchAccess _ \<Rightarrow> lit ''web_search''
   | AgentMessageAccess _ \<Rightarrow> lit ''send_subagent_message''
   | ComputerAccess _ \<Rightarrow> lit ''computer'')"

definition MCP_ACCESS_DETAIL_MAX_LEN :: nat where "MCP_ACCESS_DETAIL_MAX_LEN = 1024"
definition CLASSIFIER_TURN_MAX_LEN :: nat where "CLASSIFIER_TURN_MAX_LEN = 400"

definition mcp_access_detail :: "(json \<Rightarrow> rstring) \<Rightarrow> rstring \<Rightarrow> json \<Rightarrow> rstring" where
  "mcp_access_detail to_string name input =
     (if input = JNull then name else truncate_line (name @ [32] @ to_string input) MCP_ACCESS_DETAIL_MAX_LEN)"

definition access_detail :: "(json \<Rightarrow> rstring) \<Rightarrow> access_kind \<Rightarrow> rstring option" where
  "access_detail to_string access = (case access of
     ReadAccess _ \<Rightarrow> None
   | GrepAccess path _ \<Rightarrow> path
   | EditAccess path \<Rightarrow> Some path
   | BashAccess cmd \<Rightarrow> Some cmd
   | MCPToolAccess name input \<Rightarrow> Some (mcp_access_detail to_string name input)
   | WebFetchAccess url \<Rightarrow> Some url
   | WebSearchAccess query \<Rightarrow> Some query
   | AgentMessageAccess subagent_id \<Rightarrow> Some subagent_id
   | ComputerAccess summary \<Rightarrow> Some summary)"

definition permission_decision_args :: "(json \<Rightarrow> rstring) \<Rightarrow> access_kind \<Rightarrow> rstring option \<Rightarrow> rstring" where
  "permission_decision_args to_string access detail =
     (let raw = (case access of
          BashAccess cmd \<Rightarrow> to_string (JObject [(lit ''command'', JString cmd)])
        | _ \<Rightarrow> (case detail of Some d \<Rightarrow> d | None \<Rightarrow> lit ''(none)''))
      in truncate_str_with_marker raw CLASSIFIER_TURN_MAX_LEN)"

section \<open>Fast paths of auto mode\<close>

definition access_requires_user_interaction :: "rstring \<Rightarrow> access_kind \<Rightarrow> bool" where
  "access_requires_user_interaction tool_name access =
     (let t = to_ascii_lowercase tool_name in
      contains t (lit ''ask_user'') \<or> contains t (lit ''askuserquestion'') \<or> contains t (lit ''user_question'') \<or>
      t = lit ''ask_user_question'' \<or>
      (case access of
         MCPToolAccess name _ \<Rightarrow> let n = to_ascii_lowercase name in
           contains n (lit ''ask_user'') \<or> contains n (lit ''confirm'') \<and> contains n (lit ''human'')
       | _ \<Rightarrow> False))"

definition is_auto_mode_allowlisted_access :: "access_kind \<Rightarrow> bool" where
  "is_auto_mode_allowlisted_access access = (case access of
     ReadAccess _ \<Rightarrow> True | GrepAccess _ _ \<Rightarrow> True | WebSearchAccess _ \<Rightarrow> True | _ \<Rightarrow> False)"

definition is_auto_mode_allowlisted_tool_name :: "rstring \<Rightarrow> bool" where
  "is_auto_mode_allowlisted_tool_name tool_name \<longleftrightarrow> tool_name \<in> set (map lit
     [''todo_write'', ''TodoWrite'', ''task_output'', ''TaskOutput'', ''wait_tasks'', ''WaitTasks'', ''ask_user_question'',
      ''AskUserQuestion'', ''enter_plan_mode'', ''EnterPlanMode'', ''exit_plan_mode'', ''ExitPlanMode'', ''switch_mode'',
      ''SwitchMode'', ''create_plan'', ''CreatePlan'', ''update_plan'', ''UpdatePlan'', ''list_mcp_resources'',
      ''ListMcpResources'', ''read_mcp_resource'', ''ReadMcpResource'', ''tool_search'', ''ToolSearch'', ''sleep'', ''Sleep''])"

datatype auto_fast_path = FastAllow | FastPromptUser | FastClassify

definition auto_mode_fast_path :: "access_kind \<Rightarrow> rstring \<Rightarrow> bool \<Rightarrow> auto_fast_path" where
  "auto_mode_fast_path access tool_name requires_user_interaction =
     (if requires_user_interaction then FastPromptUser
      else if is_auto_mode_allowlisted_access access \<or> is_auto_mode_allowlisted_tool_name tool_name then FastAllow
      else case access of
        EditAccess _ \<Rightarrow> FastAllow
      | AgentMessageAccess _ \<Rightarrow> FastAllow
      | BashAccess cmd \<Rightarrow> if trim cmd \<in> set (map lit [''true'', '':'', ''false'']) then FastAllow else FastClassify
      | _ \<Rightarrow> FastClassify)"

section \<open>Classifiers\<close>

datatype classifier_verdict = VerdictAllow | VerdictBlock | VerdictUnavailable

datatype classifier_failure = FailureTimeout | FailureTransport rstring

datatype classifier_provenance = ByLlm | ByHeuristic | ByFailure classifier_failure

record classifier_outcome =
  co_verdict :: classifier_verdict
  co_reason :: "rstring option"
  co_provenance :: classifier_provenance

definition outcome_heuristic :: "classifier_verdict \<Rightarrow> classifier_outcome" where
  "outcome_heuristic v = \<lparr>co_verdict = v, co_reason = None, co_provenance = ByHeuristic\<rparr>"

definition outcome_llm :: "classifier_verdict \<Rightarrow> rstring option \<Rightarrow> classifier_outcome" where
  "outcome_llm v why = \<lparr>co_verdict = v, co_reason = why, co_provenance = ByLlm\<rparr>"

fun failure_str :: "classifier_failure \<Rightarrow> rstring" where
  "failure_str FailureTimeout = lit ''permission auto classifier timed out''"
| "failure_str (FailureTransport why) = why"

definition outcome_failure :: "classifier_failure \<Rightarrow> classifier_outcome" where
  "outcome_failure f = \<lparr>co_verdict = VerdictUnavailable, co_reason = Some (failure_str f), co_provenance = ByFailure f\<rparr>"

definition outcome_is_timeout :: "classifier_outcome \<Rightarrow> bool" where
  "outcome_is_timeout out \<longleftrightarrow> co_provenance out = ByFailure FailureTimeout"

datatype classifier_turn = UserText rstring | AssistantToolUse rstring rstring | PermissionDecisionTurn rstring rstring bool

record classifier_context =
  cx_turns :: "classifier_turn list"
  project_instructions :: "rstring option"
  security_findings :: assessment

section \<open>What the preflight tells\<close>

definition plain_decision :: "decision option \<Rightarrow> bool" where
  \<comment> \<open>what rules and gates can decide\<close>
  "plain_decision d = (case d of None \<Rightarrow> True | Some AllowIt \<Rightarrow> True | Some AskUser \<Rightarrow> True | Some (Reject _) \<Rightarrow> True | _ \<Rightarrow> False)"

lemma plain_decision_simps [simp]: "plain_decision None" "plain_decision (Some AllowIt)" "plain_decision (Some AskUser)"
  "plain_decision (Some (Reject r))"
  by (simp_all add: plain_decision_def)

lemma plain_combine: "plain_decision a \<Longrightarrow> plain_decision b \<Longrightarrow> plain_decision (combine_decisions a b)"
  by (cases a; cases b) (simp_all add: combine_decisions_def)

lemma plain_lexical: "plain_decision (evaluate_lexical_with_cwd env pol access cwd)"
  using lexical_cases [of env pol access cwd] by auto

lemma plain_escalation: "plain_decision (escalation d)"
  by (simp add: escalation_def split: option.split decision.split)

lemma plain_details: "plain_decision (fst (evaluate_with_cwd_details env pol access cwd))"
  by (simp add: evaluate_with_cwd_details_def Let_def plain_combine plain_lexical plain_escalation
      split: option.split symlink_follow.split)

lemma plain_into: "plain_decision (map_option into_decision g)"
  by (cases g; cases "the g") auto

lemma preflight_simps [simp]:
  "direct (preflight_evaluate env fg pol access cwd auto) =
     (case pol of Some p \<Rightarrow> evaluate_with_cwd env p access (Some cwd) | None \<Rightarrow> None)"
  "bash_command (preflight_evaluate env fg pol access cwd auto) = fst (bash_gates env fg pol access cwd)"
  "shell_file (preflight_evaluate env fg pol access cwd auto) = snd (bash_gates env fg pol access cwd)"
  by (auto simp: preflight_evaluate_def Let_def evaluate_with_cwd_def split: prod.split option.split)

lemma preflight_plain: "plain_decision (policy_decision (preflight_evaluate env fg pol access cwd auto))"
  by (simp add: policy_decision_def evaluate_with_cwd_def plain_combine plain_details plain_into split: option.split)

lemma policy_decision_rank:
  "dec.rank_of (policy_decision g) = max (max (dec.rank_of (direct g)) (dec.rank_of (map_option into_decision (bash_command g))))
     (dec.rank_of (map_option into_decision (shell_file g)))"
  by (simp add: policy_decision_def dec.rank_of_combine)

lemma plain_reject_iff: "plain_decision d \<Longrightarrow> (\<exists>r. d = Some (Reject r)) \<longleftrightarrow> 4 \<le> dec.rank_of d"
  by (auto simp: dec.rank_of_def plain_decision_def split: option.splits decision.splits)

lemma plain_ask_rank: "plain_decision d \<Longrightarrow> 3 \<le> dec.rank_of d \<Longrightarrow> d = Some AskUser \<or> (\<exists>r. d = Some (Reject r))"
  by (auto simp: dec.rank_of_def plain_decision_def split: option.splits decision.splits)

lemma preflight_rejects:
  assumes "g = preflight_evaluate env fg pol access cwd auto"
    and "4 \<le> dec.rank_of (direct g) \<or> 4 \<le> dec.rank_of (map_option into_decision (bash_command g)) \<or>
      4 \<le> dec.rank_of (map_option into_decision (shell_file g))"
  shows "\<exists>r. policy_decision g = Some (Reject r)"
  using plain_reject_iff [OF preflight_plain [of env fg pol access cwd auto]] assms policy_decision_rank [of g] by auto

lemma asks_rank: "asks d \<Longrightarrow> 3 \<le> dec.rank_of (map_option into_decision d)"
  by (auto simp: asks_def is_ask_def dec.rank_of_def split: option.splits)

lemma shell_forced_asks: "shell_forced_prompt g \<Longrightarrow> \<not> native_symlink_fail_closed g \<Longrightarrow> 3 \<le> dec.rank_of (policy_decision g)"
  unfolding policy_decision_rank shell_forced_prompt_def shell_file_forced_prompt_def
  by (auto dest: asks_rank simp: le_max_iff_disj)

end
