(* ===== verification/Permission_Manager.thy ===== *)
theory Permission_Manager
  imports Auto_Mode
begin

text \<open>
  The permission manager (\<open>permission/manager/mod.rs\<close>): the actor that answers every request of a
  session and its subagents.  One request passes, in this order, the managed deny, always-approve,
  remembered grants, the allow of auto mode's policy, auto mode's fast path and classifier, the
  sandbox, the policy's allow, what is decided without a prompt, the prompt policy, and finally a
  person.  A stage either answers or hands on.  What other tasks and people do meanwhile is the record
  \<open>request_world\<close>: whether the requester is still there, whether another session changed the store,
  what the classifier and the prompt answered, whether a write succeeded.  Everything the actor
  takes from libraries and the machine is the record \<open>manager_env\<close>.
\<close>

section \<open>Requests\<close>

datatype client_type = Generic | GrokTUI | GrokWeb | Nebula | Extension | GrokPager | Desktop

definition can_present_permission_prompt :: "client_type \<Rightarrow> bool" where
  "can_present_permission_prompt c \<longleftrightarrow> c \<noteq> Generic"

record request_path_context =
  real_cwd :: rstring
  display_cwd :: "rstring option"

record permission_request =
  rq_access :: access_kind
  rq_path_context :: "request_path_context option"
  rq_hook_ask :: bool

datatype prompt_outcome = AllowOnce | AllowAlways | AllowEditsForSession | AllowAlwaysBashCommand rstring
  | AllowAlwaysBashGlob rstring | AllowAlwaysDomain rstring | AllowAlwaysMcpTool rstring | AllowAlwaysMcpServer rstring
  | RejectOnce | RejectAlwaysBashCommand rstring | RejectAlwaysMcpTool rstring | RejectAlwaysDomain rstring
  | PromptCancelled | PromptFollowup rstring | PromptError rstring

datatype prompt_outcome_kind = KAllowOnce | KAllowAlways | KAllowEditsForSession | KAllowAlwaysBash | KAllowAlwaysBashGlob
  | KAllowAlwaysDomain | KAllowAlwaysMcpTool | KAllowAlwaysMcpServer | KRejectOnce | KRejectAlwaysBash
  | KRejectAlwaysMcpTool | KRejectAlwaysDomain | KCancelled | KFollowup | KError

fun outcome_kind :: "prompt_outcome \<Rightarrow> prompt_outcome_kind" where
  "outcome_kind AllowOnce = KAllowOnce"
| "outcome_kind AllowAlways = KAllowAlways"
| "outcome_kind AllowEditsForSession = KAllowEditsForSession"
| "outcome_kind (AllowAlwaysBashCommand _) = KAllowAlwaysBash"
| "outcome_kind (AllowAlwaysBashGlob _) = KAllowAlwaysBashGlob"
| "outcome_kind (AllowAlwaysDomain _) = KAllowAlwaysDomain"
| "outcome_kind (AllowAlwaysMcpTool _) = KAllowAlwaysMcpTool"
| "outcome_kind (AllowAlwaysMcpServer _) = KAllowAlwaysMcpServer"
| "outcome_kind RejectOnce = KRejectOnce"
| "outcome_kind (RejectAlwaysBashCommand _) = KRejectAlwaysBash"
| "outcome_kind (RejectAlwaysMcpTool _) = KRejectAlwaysMcpTool"
| "outcome_kind (RejectAlwaysDomain _) = KRejectAlwaysDomain"
| "outcome_kind PromptCancelled = KCancelled"
| "outcome_kind (PromptFollowup _) = KFollowup"
| "outcome_kind (PromptError _) = KError"

record request_world =
  gone_at_dequeue :: bool
  gone_after_scan :: bool
  gone_before_prompt :: bool
  gone_after_prompt :: bool
  store_changed :: bool
  scan_failed :: bool
  classified :: "classifier_outcome option"  \<comment> \<open>\<open>None\<close>: the requester went away first\<close>
  answered :: prompt_outcome  \<comment> \<open>\<open>PromptCancelled\<close> also when the requester went away first\<close>
  write_ok :: bool

section \<open>Environment and configuration\<close>

record 'g manager_env =
  me_policy :: "'g policy_env"
  me_shell :: shell_env
  me_git :: git_env
  me_parse_url :: "rstring \<Rightarrow> parsed_url option"
  me_tilde :: "rstring \<Rightarrow> rstring"
  me_grok_home :: "rstring option"
  me_file_gate :: "'g shell_file_gate"
  me_sandbox :: bool
  me_json :: "json \<Rightarrow> rstring"

record 'g manager_config =
  mc_policy :: "'g compiled_policy option"
  mc_prompt_policy :: prompt_policy
  mc_matcher :: domain_matcher
  mc_allowlist_is_default :: bool
  mc_cwd :: rstring
  mc_client_type :: client_type
  mc_client_identifier :: "rstring option"
  mc_remember :: bool
  mc_yolo_pin :: "rstring option"

record manager =
  m_state :: permission_state
  m_disk :: permission_dirs
  m_yolo :: bool
  m_auto :: bool
  m_classifier :: bool  \<comment> \<open>one is installed\<close>
  m_consecutive :: nat
  m_total :: nat
  m_turns :: "classifier_turn list"
  m_recorded :: "classifier_turn list"
  m_instructions :: "rstring option"
  m_allow_edits :: bool
  m_allow_computer :: bool

definition clamp_yolo :: "bool \<Rightarrow> rstring option \<Rightarrow> bool" where
  "clamp_yolo requested yolo_pin \<longleftrightarrow> requested \<and> yolo_pin = None"

section \<open>Events\<close>

datatype request_classification = NotClassified | FastPathClassified
  | Classified assessment "(classifier_verdict \<times> classifier_provenance option) option"
    \<comment> \<open>no outcome when the requester went away; no provenance when no classifier was installed\<close>

record permission_event =
  ev_decision :: decision
  ev_yolo :: bool
  ev_auto_approved :: bool
  ev_user_prompted :: bool
  ev_outcome :: "prompt_outcome_kind option"
  ev_reason :: reason
  ev_denials :: "(nat \<times> nat) option"
  ev_classification :: request_classification

record handled =
  h_event :: permission_event
  h_sent :: "decision option"  \<comment> \<open>what is sent to the requester\<close>
  h_context :: "classifier_context option"  \<comment> \<open>what a classifier was given\<close>

definition emit ::
  "manager \<Rightarrow> request_classification \<Rightarrow> decision \<Rightarrow> bool \<Rightarrow> bool \<Rightarrow> prompt_outcome_kind option \<Rightarrow> reason \<Rightarrow> permission_event" where
  "emit m cl d auto_approved user_prompted outc why =
     \<lparr>ev_decision = d, ev_yolo = m_yolo m, ev_auto_approved = auto_approved, ev_user_prompted = user_prompted,
      ev_outcome = outc, ev_reason = why,
      ev_denials = (if m_auto m then Some (m_consecutive m, m_total m) else None), ev_classification = cl\<rparr>"

definition respond :: "request_classification \<Rightarrow> classifier_context option \<Rightarrow> decision \<Rightarrow> bool \<Rightarrow> reason \<Rightarrow> manager \<Rightarrow> handled \<times> manager" where
  \<comment> \<open>an answer without a prompt\<close>
  "respond cl cx d auto_approved why m =
     (\<lparr>h_event = emit m cl d auto_approved False None why, h_sent = Some d, h_context = cx\<rparr>, m)"

definition gone :: "request_classification \<Rightarrow> classifier_context option \<Rightarrow> manager \<Rightarrow> handled \<times> manager" where
  "gone cl cx m = (\<lparr>h_event = emit m cl Cancelled False False None RequesterGone, h_sent = None, h_context = cx\<rparr>, m)"

section \<open>The facts of a request\<close>

definition reloads :: "access_kind \<Rightarrow> bool" where
  "reloads access = (case access of BashAccess _ \<Rightarrow> True | MCPToolAccess _ _ \<Rightarrow> True | WebFetchAccess _ \<Rightarrow> True | _ \<Rightarrow> False)"

definition reload :: "'g manager_config \<Rightarrow> request_world \<Rightarrow> access_kind \<Rightarrow> manager \<Rightarrow> manager" where
  "reload cfg w access m =
     (if reloads access \<and> store_changed w
      then m\<lparr>m_state := merge_grants_from (m_state m) (load_state_with_fallback (m_disk m) (mc_client_identifier cfg))\<rparr>
      else m)"

definition request_cwd :: "'g manager_config \<Rightarrow> permission_request \<Rightarrow> rstring" where
  "request_cwd cfg rq = (case rq_path_context rq of Some cx \<Rightarrow> real_cwd cx | None \<Rightarrow> mc_cwd cfg)"

definition ambient_risk :: "'g manager_env \<Rightarrow> request_world \<Rightarrow> rstring list list \<Rightarrow> rstring \<Rightarrow> bool" where
  "ambient_risk env w raw cwd = (case ambient_scan_plan_from_segments raw cwd of
     FailClosed \<Rightarrow> True
   | CheckDirs dirs \<Rightarrow> scan_failed w \<or> ambient_exec_risk_from_plan (me_git env) (CheckDirs dirs))"

definition scan_ambient :: "'g manager_env \<Rightarrow> request_world \<Rightarrow> rstring \<Rightarrow> bash_evaluation \<Rightarrow> bash_evaluation" where
  "scan_ambient env w cwd e = (case ambient_segments e of
     None \<Rightarrow> e
   | Some raw \<Rightarrow> e\<lparr>ambient_segments := None,
       be_assessment := be_assessment e \<union> (if ambient_risk env w raw cwd then {ExecOrAmbientGit} else {})\<rparr>)"

definition resolve_target :: "'g manager_env \<Rightarrow> 'g manager_config \<Rightarrow> permission_request \<Rightarrow> rstring \<Rightarrow> protected_edit_reason option" where
  "resolve_target env cfg rq path = edit_target_protection (me_policy env) (me_grok_home env)
     (case rq_path_context rq of
        Some cx \<Rightarrow> resolve_model_path (me_tilde env) (real_cwd cx) (display_cwd cx) path
      | None \<Rightarrow> resolve_model_path (me_tilde env) (mc_cwd cfg) None path)"

fun find_map :: "('a \<Rightarrow> 'b option) \<Rightarrow> 'a list \<Rightarrow> 'b option" where
  "find_map f [] = None"
| "find_map f (x # xs) = (case f x of Some y \<Rightarrow> Some y | None \<Rightarrow> find_map f xs)"

definition protected_edit ::
  "'g manager_env \<Rightarrow> 'g manager_config \<Rightarrow> permission_request \<Rightarrow> bash_evaluation option \<Rightarrow> protected_edit_reason option" where
  "protected_edit env cfg rq evaluation = (case rq_access rq of
     EditAccess path \<Rightarrow> resolve_target env cfg rq path
   | BashAccess _ \<Rightarrow> Option.bind evaluation (\<lambda>e.
       if has_cwd_change e \<and> list_ex (\<lambda>p. \<not> is_absolute p) (creation_paths e) then Some Sensitive
       else find_map (resolve_target env cfg rq) (creation_paths e))
   | _ \<Rightarrow> None)"

record request_facts =
  rf_evaluation :: "bash_evaluation option"
  rf_protected :: "protected_edit_reason option"
  rf_preflight :: gate_preflight

definition facts_of ::
  "'g manager_env \<Rightarrow> 'g manager_config \<Rightarrow> request_world \<Rightarrow> permission_request \<Rightarrow> manager \<Rightarrow> request_facts" where
  "facts_of env cfg w rq m =
     (let evaluation = (case rq_access rq of
            BashAccess cmd \<Rightarrow> Some (scan_ambient env w (request_cwd cfg rq)
              (evaluate_bash (me_policy env) (me_shell env) cmd (m_state m) True))
          | _ \<Rightarrow> None)
      in \<lparr>rf_evaluation = evaluation,
          rf_protected = protected_edit env cfg rq evaluation,
          rf_preflight = preflight_evaluate (me_policy env) (me_file_gate env) (mc_policy cfg) (rq_access rq)
            (request_cwd cfg rq) (m_auto m)\<rparr>)"

definition scan_abandoned :: "'g manager_env \<Rightarrow> request_world \<Rightarrow> permission_request \<Rightarrow> manager \<Rightarrow> bool" where
  "scan_abandoned env w rq m = (case rq_access rq of
     BashAccess cmd \<Rightarrow>
       ambient_segments (evaluate_bash (me_policy env) (me_shell env) cmd (m_state m) True) \<noteq> None \<and> gone_after_scan w
   | _ \<Rightarrow> False)"

section \<open>Before auto mode\<close>

definition pre_classifier_forced_prompt :: "permission_request \<Rightarrow> request_facts \<Rightarrow> bool" where
  "pre_classifier_forced_prompt rq f \<longleftrightarrow>
     policy_forced_prompt (rf_preflight f) \<or> shell_forced_prompt (rf_preflight f) \<or> rq_hook_ask rq"

definition auto_policy_allows :: "'g manager_env \<Rightarrow> 'g manager_config \<Rightarrow> permission_request \<Rightarrow> request_facts \<Rightarrow> bool" where
  "auto_policy_allows env cfg rq f \<longleftrightarrow>
     policy_decision (rf_preflight f) = Some AllowIt \<and>
     (bash_assessment_is_clear (rf_evaluation f) \<or>
      \<not> bash_request_floor_requires_prompt (rf_evaluation f) \<and>
      (case mc_policy cfg of None \<Rightarrow> False | Some p \<Rightarrow> narrow_allow_authorizes (me_policy env) p (rq_access rq)))"

definition decide_early ::
  "'g manager_env \<Rightarrow> 'g manager_config \<Rightarrow> permission_request \<Rightarrow> request_facts \<Rightarrow> manager \<Rightarrow> (decision \<times> bool \<times> reason) option" where
  \<comment> \<open>the decision, whether it is reported as automatic, and its reason\<close>
  "decide_early env cfg rq f m =
     (let g = rf_preflight f;
          grant = (if pre_classifier_forced_prompt rq f \<or> rf_protected f \<noteq> None then None
            else session_grant_pre_decision (me_policy env) (me_parse_url env) (rq_access rq) (rf_evaluation f) (m_state m)
              (m_allow_edits m) (m_allow_computer m) (mc_matcher cfg)
              (\<not> (m_auto m \<and> mc_allowlist_is_default cfg)) (mc_yolo_pin cfg))
      in case policy_decision g of
           Some (Reject why) \<Rightarrow> Some (PolicyDeny why, False, PolicyDenied)
         | _ \<Rightarrow>
             if m_yolo m \<and> \<not> shell_forced_prompt g \<and> \<not> rq_hook_ask rq then Some (AllowIt, True, Yolo)
             else (case grant of
               Some (d, why) \<Rightarrow> Some (d, True, why)
             | None \<Rightarrow>
                 if m_auto m \<and> \<not> pre_classifier_forced_prompt rq f \<and> rf_protected f = None \<and> auto_policy_allows env cfg rq f
                 then Some (AllowIt, True, PolicyAllowed) else None))"

section \<open>Auto mode\<close>

definition AUTO_DENY_CONSECUTIVE_LIMIT :: nat where "AUTO_DENY_CONSECUTIVE_LIMIT = 3"
definition AUTO_DENY_TOTAL_LIMIT :: nat where "AUTO_DENY_TOTAL_LIMIT = 20"

definition AUTO_DENY_GUIDANCE :: rstring where
  "AUTO_DENY_GUIDANCE = lit (''Take a safer approach that stays within what the user asked '' @
     ''for; do not retry this exact action or attempt to work around the denial. If no safer '' @
     ''alternative exists, ask the user how to proceed.'')"

definition blocked_message :: "rstring option \<Rightarrow> rstring" where
  "blocked_message why = (case why of
     Some r \<Rightarrow> lit ''Auto mode blocked this action ('' @ trim_end_char 46 r @ lit ''). '' @ AUTO_DENY_GUIDANCE
   | None \<Rightarrow> lit ''Auto mode blocked this action. '' @ AUTO_DENY_GUIDANCE)"

record route =
  rt_reason :: "reason option"  \<comment> \<open>why auto mode forces a prompt\<close>
  rt_classification :: request_classification
  rt_context :: "classifier_context option"

definition after_verdict ::
  "'g manager_config \<Rightarrow> permission_request \<Rightarrow> request_classification \<Rightarrow> classifier_context option \<Rightarrow>
     classifier_outcome option \<Rightarrow> manager \<Rightarrow> (handled \<times> manager) + (route \<times> manager)" where
  "after_verdict cfg rq cl cx outc m =
     (let forced = (\<lambda>why. Inr (\<lparr>rt_reason = why, rt_classification = cl, rt_context = cx\<rparr>, m)) in
      case (case outc of Some res \<Rightarrow> co_verdict res | None \<Rightarrow> VerdictUnavailable) of
        VerdictAllow \<Rightarrow>
          let m' = m\<lparr>m_consecutive := 0\<rparr> in
          if rq_hook_ask rq then Inr (\<lparr>rt_reason = None, rt_classification = cl, rt_context = cx\<rparr>, m')
          else Inl (respond cl cx AllowIt True AutoClassifierAllow m')
      | VerdictBlock \<Rightarrow>
          if can_present_permission_prompt (mc_client_type cfg) then forced (Some AutoClassifierDeny)
          else if m_consecutive m < AUTO_DENY_CONSECUTIVE_LIMIT \<and> m_total m < AUTO_DENY_TOTAL_LIMIT then
            Inl (respond cl cx (PolicyDeny (blocked_message (Option.bind outc co_reason))) False AutoClassifierDeny
              (m\<lparr>m_consecutive := m_consecutive m + 1, m_total := m_total m + 1\<rparr>))
          else forced (Some AutoDenialLimit)
      | VerdictUnavailable \<Rightarrow>
          if (case outc of Some res \<Rightarrow> outcome_is_timeout res | None \<Rightarrow> False) then forced (Some AutoClassifierTimeout)
          else forced (Some AutoClassifierUnavailable))"

definition classify_request ::
  "'g manager_config \<Rightarrow> request_world \<Rightarrow> permission_request \<Rightarrow> request_facts \<Rightarrow> manager \<Rightarrow> (handled \<times> manager) + (route \<times> manager)" where
  "classify_request cfg w rq f m =
     (let a = classifier_assessment (rf_evaluation f) (defers_gate_ask (rf_preflight f));
          cx = \<lparr>cx_turns = m_turns m @ m_recorded m, project_instructions = m_instructions m, security_findings = a\<rparr>
      in if m_classifier m then
           (case classified w of
              None \<Rightarrow> Inl (gone (Classified a None) (Some cx) m)
            | Some res \<Rightarrow>
                after_verdict cfg rq (Classified a (Some (co_verdict res, Some (co_provenance res)))) (Some cx) (Some res) m)
         else (case rq_access rq of
              AgentMessageAccess _ \<Rightarrow>
                let res = outcome_heuristic VerdictBlock in
                after_verdict cfg rq (Classified a (Some (co_verdict res, Some (co_provenance res)))) None (Some res) m
            | _ \<Rightarrow> after_verdict cfg rq (Classified a (Some (VerdictUnavailable, None))) None None m))"

definition auto_route ::
  "'g manager_config \<Rightarrow> request_world \<Rightarrow> permission_request \<Rightarrow> request_facts \<Rightarrow> manager \<Rightarrow> (handled \<times> manager) + (route \<times> manager)" where
  "auto_route cfg w rq f m =
     (let tool_name = tool_name_for_access (rq_access rq);
          needs_user = (rf_protected f \<noteq> None \<or> access_requires_user_interaction tool_name (rq_access rq));
          go_on = (\<lambda>why. Inr (\<lparr>rt_reason = why, rt_classification = NotClassified, rt_context = None\<rparr>, m))
      in if \<not> (m_auto m \<and> admits_auto_classifier (rf_preflight f)) then go_on None
         else case auto_mode_fast_path (rq_access rq) tool_name needs_user of
           FastAllow \<Rightarrow> if rq_hook_ask rq then go_on None
             else Inl (respond FastPathClassified None AllowIt True AutoFastPathAllow m)
         | FastPromptUser \<Rightarrow> go_on (Some NeedsUser)
         | FastClassify \<Rightarrow> classify_request cfg w rq f m)"

section \<open>After auto mode\<close>

definition sandbox_allows :: "'g manager_env \<Rightarrow> permission_request \<Rightarrow> request_facts \<Rightarrow> route \<Rightarrow> bool" where
  "sandbox_allows env rq f r \<longleftrightarrow>
     (case rq_access rq of BashAccess _ \<Rightarrow> True | _ \<Rightarrow> False) \<and>
     sandbox_may_auto_allow_bash (rf_evaluation f) (me_sandbox env) \<and>
     \<not> policy_forced_prompt (rf_preflight f) \<and> rt_reason r = None \<and> \<not> rq_hook_ask rq \<and> rf_protected f = None"

definition policy_allow_deferred :: "'g manager_env \<Rightarrow> 'g manager_config \<Rightarrow> permission_request \<Rightarrow> request_facts \<Rightarrow> route \<Rightarrow> bool" where
  "policy_allow_deferred env cfg rq f r \<longleftrightarrow>
     rf_protected f \<noteq> None \<or> rt_reason r \<noteq> None \<or> rq_hook_ask rq \<or>
     bash_request_floor_requires_prompt (rf_evaluation f) \<and>
     \<not> narrow_allow_clears_write_floor (me_policy env) (rf_evaluation f) (mc_policy cfg) (rq_access rq)"

definition policy_answers ::
  "'g manager_env \<Rightarrow> 'g manager_config \<Rightarrow> permission_request \<Rightarrow> request_facts \<Rightarrow> route \<Rightarrow> decision option" where
  "policy_answers env cfg rq f r = (case policy_decision (rf_preflight f) of
     None \<Rightarrow> None
   | Some AskUser \<Rightarrow> None
   | Some AllowIt \<Rightarrow> if policy_allow_deferred env cfg rq f r then None else Some AllowIt
   | Some d \<Rightarrow> Some d)"

definition bash_pre_decision ::
  "'g manager_config \<Rightarrow> rstring \<Rightarrow> request_facts \<Rightarrow> route \<Rightarrow> manager \<Rightarrow> (decision \<times> reason) option" where
  "bash_pre_decision cfg cmd f r m = Option.bind (rf_evaluation f) (\<lambda>e.
     if rf_protected f \<noteq> None \<or> bash_request_floor_requires_prompt (Some e) then None
     else if policy_forced_prompt (rf_preflight f) then
       (if mc_remember cfg \<and> rt_reason r = None \<and> \<not> shell_file_forced_prompt (rf_preflight f)
        then bash_grant_pre_decision cmd e (m_state m) (mc_yolo_pin cfg) ASK_FLOOR_REMEMBER else None)
     else bash_grant_pre_decision cmd e (m_state m) (mc_yolo_pin cfg) (post_classify (rt_reason r \<noteq> None)))"

definition web_fetch_pre_decision :: "'g manager_env \<Rightarrow> 'g manager_config \<Rightarrow> rstring \<Rightarrow> manager \<Rightarrow> (decision \<times> reason) option" where
  "web_fetch_pre_decision env cfg url m = Option.bind (me_parse_url env url) (\<lambda>parsed.
     case web_fetch_deny_pre_decision (me_policy env) parsed (m_state m) of
       Some reject \<Rightarrow> Some (reject, SessionDeny)
     | None \<Rightarrow>
         if matcher_permits (me_policy env) (mc_matcher cfg) parsed then Some (AllowIt, StaticAllowlist)
         else Option.bind (host_str parsed) (\<lambda>host.
           if normalize_domain (me_policy env) host \<in> set (allowed_web_fetch_domains (m_state m))
           then Some (AllowIt, PersistedGrant) else None))"

definition edit_pre_decision :: "request_facts \<Rightarrow> manager \<Rightarrow> (decision \<times> reason) option" where
  "edit_pre_decision f m =
     (if m_allow_edits m \<and> rf_protected f = None then Some (AllowIt, PersistedGrant)
      else case edit_policy (m_state m) of
        EditReject \<Rightarrow> Some (Reject (lit ''edits prohibited''), SessionDeny)
      | _ \<Rightarrow> None)"

definition access_pre_decision ::
  "'g manager_env \<Rightarrow> 'g manager_config \<Rightarrow> permission_request \<Rightarrow> request_facts \<Rightarrow> route \<Rightarrow> manager \<Rightarrow> (decision \<times> reason) option" where
  "access_pre_decision env cfg rq f r m =
     (let forced = policy_forced_prompt (rf_preflight f) in
      case rq_access rq of
        ReadAccess _ \<Rightarrow> if forced then None else Some (AllowIt, SafeCommand)
      | GrepAccess _ _ \<Rightarrow> if forced then None else Some (AllowIt, SafeCommand)
      | WebSearchAccess _ \<Rightarrow> Some (AllowIt, SafeCommand)
      | MCPToolAccess name _ \<Rightarrow> map_option (mcp_reason PersistedGrant) (mcp_pre_decision name (m_state m) forced (mc_remember cfg))
      | EditAccess _ \<Rightarrow> edit_pre_decision f m
      | BashAccess cmd \<Rightarrow> bash_pre_decision cfg cmd f r m
      | AgentMessageAccess _ \<Rightarrow> None
      | ComputerAccess _ \<Rightarrow> if m_allow_computer m then Some (AllowIt, SessionGrant) else None
      | WebFetchAccess url \<Rightarrow> web_fetch_pre_decision env cfg url m)"

definition auto_prompt_blocks_allow :: "access_kind \<Rightarrow> bool" where
  "auto_prompt_blocks_allow access = (case access of BashAccess _ \<Rightarrow> False | _ \<Rightarrow> True)"

definition webfetch_static_fallback :: "permission_request \<Rightarrow> route \<Rightarrow> (decision \<times> reason) option \<Rightarrow> bool" where
  "webfetch_static_fallback rq r pre \<longleftrightarrow>
     (rt_reason r = Some AutoClassifierTimeout \<or> rt_reason r = Some AutoClassifierUnavailable) \<and>
     (case rq_access rq of WebFetchAccess _ \<Rightarrow> True | _ \<Rightarrow> False) \<and>
     (pre = Some (AllowIt, StaticAllowlist) \<or> pre = Some (AllowIt, PersistedGrant))"

definition neutralized :: "permission_request \<Rightarrow> route \<Rightarrow> (decision \<times> reason) option \<Rightarrow> (decision \<times> reason) option" where
  \<comment> \<open>a prompt forced by auto mode or a hook cancels an allow decided without one\<close>
  "neutralized rq r pre =
     (let allows = (case pre of Some (AllowIt, _) \<Rightarrow> True | _ \<Rightarrow> False) in
      if rt_reason r \<noteq> None \<and> auto_prompt_blocks_allow (rq_access rq) \<and> allows \<and> \<not> webfetch_static_fallback rq r pre then None
      else if rq_hook_ask rq \<and> allows then None
      else pre)"

definition decide_late ::
  "'g manager_env \<Rightarrow> 'g manager_config \<Rightarrow> permission_request \<Rightarrow> request_facts \<Rightarrow> route \<Rightarrow> manager \<Rightarrow> (decision \<times> bool \<times> reason) option" where
  "decide_late env cfg rq f r m =
     (if sandbox_allows env rq f r then Some (AllowIt, True, SandboxAuto)
      else case policy_answers env cfg rq f r of
        Some d \<Rightarrow> Some (d, True, PolicyAllowed)
      | None \<Rightarrow> (case neutralized rq r (access_pre_decision env cfg rq f r m) of
          Some (d, why) \<Rightarrow> Some (d, True, why)
        | None \<Rightarrow>
            if mc_prompt_policy cfg = PromptDeny
            then Some (PolicyDeny (lit ''denied by prompt policy (tool not pre-approved)''), False, PromptDenied)
            else if mc_prompt_policy cfg = PromptAllow \<and> \<not> rq_hook_ask rq then Some (AllowIt, True, PromptAllowed)
            else None))"

section \<open>Prompting\<close>

definition prompt_reason :: "permission_request \<Rightarrow> request_facts \<Rightarrow> route \<Rightarrow> reason" where
  "prompt_reason rq f r = (case prompt_trigger (rf_preflight f) (rt_reason r) of
     Some why \<Rightarrow> why
   | None \<Rightarrow>
       if rq_hook_ask rq then HookAsk
       else if (case rf_evaluation f of None \<Rightarrow> False | Some e \<Rightarrow> \<not> exact_grant e \<and> OpaqueShell \<in> be_assessment e) then OpaqueShellReason
       else if bash_request_floor_requires_prompt (rf_evaluation f) then BashRequestFloor
       else NeedsUser)"

definition save :: "'g manager_config \<Rightarrow> request_world \<Rightarrow> permission_state \<Rightarrow> manager \<Rightarrow> manager" where
  "save cfg w s m = m\<lparr>m_state := s, m_disk := persist_state (write_ok w) s (mc_client_identifier cfg) (m_disk m)\<rparr>"

definition user_rejected :: decision where "user_rejected = Reject (lit ''User rejected the execution'')"

definition user_excluded :: "rstring \<Rightarrow> decision" where
  "user_excluded what = Reject (lit ''User rejected the execution and excluded `'' @ what @ lit ''` from future runs in this project'')"

definition prompt_failed :: "rstring \<Rightarrow> decision" where
  "prompt_failed e = Reject (lit ''Failed to request permission from user: '' @ e)"

definition bash_answer ::
  "'g manager_env \<Rightarrow> 'g manager_config \<Rightarrow> request_world \<Rightarrow> rstring \<Rightarrow> prompt_outcome \<Rightarrow> manager \<Rightarrow> decision \<times> prompt_outcome_kind \<times> manager" where
  "bash_answer env cfg w cmd outc m = (let s = m_state m; kind = outcome_kind outc in
     case outc of
       AllowOnce \<Rightarrow> (AllowIt, kind, m)
     | AllowAlways \<Rightarrow> (AllowIt, kind, save cfg w (s\<lparr>allowed_bash_commands :=
         hash_extend (List.insert cmd (allowed_bash_commands s)) (bash_grant_segments (me_shell env) cmd)\<rparr>) m)
     | AllowAlwaysBashCommand label \<Rightarrow> (AllowIt, kind, save cfg w (persist_bash_always_allow (me_shell env) cmd label s) m)
     | AllowAlwaysBashGlob pat \<Rightarrow> (AllowIt, kind,
         if bash_glob_covers_script (me_policy env) (me_shell env) cmd pat
         then save cfg w (s\<lparr>allowed_bash_globs := List.insert pat (allowed_bash_globs s)\<rparr>) m else m)
     | AllowAlwaysDomain _ \<Rightarrow> (AllowIt, KAllowOnce, m)
     | AllowAlwaysMcpTool _ \<Rightarrow> (AllowIt, KAllowOnce, m)
     | AllowAlwaysMcpServer _ \<Rightarrow> (AllowIt, KAllowOnce, m)
     | AllowEditsForSession \<Rightarrow> (AllowIt, KAllowOnce, m)
     | RejectOnce \<Rightarrow> (user_rejected, kind, m)
     | RejectAlwaysBashCommand label \<Rightarrow> (user_excluded label, kind,
         save cfg w (s\<lparr>disallowed_bash_commands := List.insert label (disallowed_bash_commands s)\<rparr>) m)
     | RejectAlwaysMcpTool _ \<Rightarrow> (user_rejected, KRejectOnce, m)
     | RejectAlwaysDomain _ \<Rightarrow> (user_rejected, KRejectOnce, m)
     | PromptCancelled \<Rightarrow> (Cancelled, kind, m)
     | PromptFollowup msg \<Rightarrow> (FollowupMessage msg, kind, m)
     | PromptError e \<Rightarrow> (prompt_failed e, kind, m))"

definition agent_message_outcome :: "prompt_outcome \<Rightarrow> prompt_outcome" where
  \<comment> \<open>a message to another agent is allowed or rejected once, never for good\<close>
  "agent_message_outcome outc = (case outc of
     PromptCancelled \<Rightarrow> outc | PromptFollowup _ \<Rightarrow> outc | PromptError _ \<Rightarrow> outc
   | RejectOnce \<Rightarrow> RejectOnce | RejectAlwaysBashCommand _ \<Rightarrow> RejectOnce | RejectAlwaysMcpTool _ \<Rightarrow> RejectOnce
   | RejectAlwaysDomain _ \<Rightarrow> RejectOnce
   | _ \<Rightarrow> AllowOnce)"

definition allow_domain :: "'g manager_env \<Rightarrow> 'g manager_config \<Rightarrow> request_world \<Rightarrow> access_kind \<Rightarrow> manager \<Rightarrow> manager" where
  "allow_domain env cfg w access m = (case access of
     WebFetchAccess url \<Rightarrow> (case Option.bind (me_parse_url env url) host_str of
         Some host \<Rightarrow> save cfg w (m_state m\<lparr>allowed_web_fetch_domains :=
           List.insert (normalize_domain (me_policy env) host) (allowed_web_fetch_domains (m_state m))\<rparr>) m
       | None \<Rightarrow> m)
   | _ \<Rightarrow> m)"

definition allow_mcp_tool :: "permission_state \<Rightarrow> rstring \<Rightarrow> permission_state" where
  "allow_mcp_tool s name = s\<lparr>allowed_mcp_tools := List.insert name (allowed_mcp_tools s)\<rparr>"

definition allow_mcp_server :: "permission_state \<Rightarrow> rstring \<Rightarrow> rstring \<Rightarrow> permission_state" where
  \<comment> \<open>a server that is not the one of the tool's own name is downgraded to that tool\<close>
  "allow_mcp_server s name server_prefix = (case parse_mcp_qualified_name name of
     Some (canonical, _) \<Rightarrow>
       if canonical = server_prefix then s\<lparr>allowed_mcp_servers := List.insert canonical (allowed_mcp_servers s)\<rparr>
       else allow_mcp_tool s name
   | None \<Rightarrow> allow_mcp_tool s name)"

definition other_answer ::
  "'g manager_env \<Rightarrow> 'g manager_config \<Rightarrow> request_world \<Rightarrow> access_kind \<Rightarrow> prompt_outcome \<Rightarrow> manager \<Rightarrow> decision \<times> prompt_outcome_kind \<times> manager" where
  "other_answer env cfg w access answer m =
     (let outc = (case access of AgentMessageAccess _ \<Rightarrow> agent_message_outcome answer | _ \<Rightarrow> answer);
          s = m_state m; kind = outcome_kind outc in
      case outc of
        AllowOnce \<Rightarrow> (AllowIt, kind, m)
      | AllowEditsForSession \<Rightarrow> (AllowIt, kind, m\<lparr>m_allow_edits := True\<rparr>)
      | AllowAlways \<Rightarrow> (AllowIt, kind, case access of
            ComputerAccess _ \<Rightarrow> m\<lparr>m_allow_computer := True\<rparr>
          | MCPToolAccess name _ \<Rightarrow> save cfg w (allow_mcp_tool s name) m
          | _ \<Rightarrow> save cfg w s m)
      | AllowAlwaysBashCommand _ \<Rightarrow> (AllowIt, KAllowAlwaysBash, m)
      | AllowAlwaysBashGlob _ \<Rightarrow> (AllowIt, KAllowAlwaysBash, m)
      | AllowAlwaysDomain _ \<Rightarrow> (AllowIt, kind, allow_domain env cfg w access m)
      | AllowAlwaysMcpTool _ \<Rightarrow> (AllowIt, kind, case access of
            MCPToolAccess name _ \<Rightarrow> save cfg w (allow_mcp_tool s name) m | _ \<Rightarrow> m)
      | AllowAlwaysMcpServer server_prefix \<Rightarrow> (AllowIt, kind, case access of
            MCPToolAccess name _ \<Rightarrow> save cfg w (allow_mcp_server s name server_prefix) m | _ \<Rightarrow> m)
      | RejectAlwaysBashCommand _ \<Rightarrow> (user_rejected, kind, m)
      | RejectAlwaysMcpTool _ \<Rightarrow> (case access of
            MCPToolAccess name _ \<Rightarrow> (user_excluded name, kind,
              save cfg w (s\<lparr>disallowed_mcp_tools := List.insert name (disallowed_mcp_tools s)\<rparr>) m)
          | _ \<Rightarrow> (user_rejected, KRejectOnce, m))
      | RejectAlwaysDomain _ \<Rightarrow>
          (case (case access of WebFetchAccess url \<Rightarrow> web_fetch_deny_key_from_url (me_policy env) (me_parse_url env url) | _ \<Rightarrow> None) of
             Some domain \<Rightarrow> (user_excluded domain, kind,
               save cfg w (s\<lparr>disallowed_web_fetch_domains := List.insert domain (disallowed_web_fetch_domains s)\<rparr>) m)
           | None \<Rightarrow> (user_rejected, KRejectOnce, m))
      | RejectOnce \<Rightarrow> (user_rejected, kind, m)
      | PromptCancelled \<Rightarrow> (Cancelled, kind, m)
      | PromptError e \<Rightarrow> (prompt_failed e, kind, m)
      | PromptFollowup msg \<Rightarrow> (FollowupMessage msg, kind, m))"

definition answer_prompt ::
  "'g manager_env \<Rightarrow> 'g manager_config \<Rightarrow> request_world \<Rightarrow> access_kind \<Rightarrow> manager \<Rightarrow> decision \<times> prompt_outcome_kind \<times> manager" where
  "answer_prompt env cfg w access m = (case access of
     BashAccess cmd \<Rightarrow> bash_answer env cfg w cmd (answered w) m
   | _ \<Rightarrow> other_answer env cfg w access (answered w) m)"

definition MAX_RECORDED_PERMISSION_DECISIONS :: nat where "MAX_RECORDED_PERMISSION_DECISIONS = 12"

definition prompted_decision_approved :: "decision \<Rightarrow> prompt_outcome_kind \<Rightarrow> bool option" where
  "prompted_decision_approved d kind = (case d of
     AllowIt \<Rightarrow> Some True
   | Reject _ \<Rightarrow> if kind \<noteq> KError then Some False else None
   | _ \<Rightarrow> None)"

definition record_decision :: "'g manager_env \<Rightarrow> access_kind \<Rightarrow> decision \<Rightarrow> prompt_outcome_kind \<Rightarrow> manager \<Rightarrow> manager" where
  "record_decision env access d kind m = (case prompted_decision_approved d kind of
     None \<Rightarrow> m
   | Some approved \<Rightarrow>
       let turns = m_recorded m @ [PermissionDecisionTurn (tool_name_for_access access)
             (permission_decision_args (me_json env) access (access_detail (me_json env) access)) approved];
           n = length turns
       in m\<lparr>m_recorded := (if MAX_RECORDED_PERMISSION_DECISIONS < n
            then drop (n - MAX_RECORDED_PERMISSION_DECISIONS) turns else turns)\<rparr>)"

definition prompt_user ::
  "'g manager_env \<Rightarrow> 'g manager_config \<Rightarrow> request_world \<Rightarrow> permission_request \<Rightarrow> request_facts \<Rightarrow> route \<Rightarrow> manager \<Rightarrow> handled \<times> manager" where
  "prompt_user env cfg w rq f r m =
     (if gone_before_prompt w then gone (rt_classification r) (rt_context r) m
      else let (d, kind, m1) = answer_prompt env cfg w (rq_access rq) m;
               m2 = record_decision env (rq_access rq) d kind m1;
               requester_gone = (d = Cancelled \<and> gone_after_prompt w);
               why = (if requester_gone then RequesterGone else prompt_reason rq f r);
               ev = emit m2 (rt_classification r) d False True (Some kind) why;
               m3 = (if kind \<noteq> KError \<and> \<not> requester_gone then m2\<lparr>m_consecutive := 0, m_total := 0\<rparr> else m2)
           in (\<lparr>h_event = ev, h_sent = Some d, h_context = rt_context r\<rparr>, m3))"

section \<open>The actor\<close>

definition handle_request ::
  "'g manager_env \<Rightarrow> 'g manager_config \<Rightarrow> request_world \<Rightarrow> permission_request \<Rightarrow> manager \<Rightarrow> handled \<times> manager" where
  "handle_request env cfg w rq m0 =
     (if gone_at_dequeue w then gone NotClassified None m0
      else let m = reload cfg w (rq_access rq) m0; f = facts_of env cfg w rq m in
        if scan_abandoned env w rq m then gone NotClassified None m
        else case decide_early env cfg rq f m of
          Some (d, auto_approved, why) \<Rightarrow> respond NotClassified None d auto_approved why m
        | None \<Rightarrow> (case auto_route cfg w rq f m of
            Inl result \<Rightarrow> result
          | Inr (r, m') \<Rightarrow> (case decide_late env cfg rq f r m' of
              Some (d, auto_approved, why) \<Rightarrow> respond (rt_classification r) (rt_context r) d auto_approved why m'
            | None \<Rightarrow> prompt_user env cfg w rq f r m')))"

datatype command = SetYoloMode bool | SetAutoMode bool | SetClassifier bool | SetClassifierTranscript "classifier_turn list"
  | SetProjectInstructions "rstring option" | ResetState | Request permission_request | Shutdown

definition set_yolo :: "'g manager_config \<Rightarrow> bool \<Rightarrow> manager \<Rightarrow> manager" where
  "set_yolo cfg enabled m = (let clamped = clamp_yolo enabled (mc_yolo_pin cfg) in
     if clamped then m\<lparr>m_yolo := True, m_auto := False\<rparr> else m\<lparr>m_yolo := False\<rparr>)"

definition set_auto :: "bool \<Rightarrow> manager \<Rightarrow> manager" where
  "set_auto enabled m = (if enabled then m\<lparr>m_auto := True, m_yolo := False, m_classifier := True\<rparr> else m\<lparr>m_auto := False\<rparr>)"

definition reset_state :: "'g manager_config \<Rightarrow> request_world \<Rightarrow> manager \<Rightarrow> manager" where
  "reset_state cfg w m = m\<lparr>m_state := default_state,
     m_disk := replace_state_on_disk (write_ok w) default_state (mc_client_identifier cfg) (m_disk m),
     m_allow_edits := False, m_allow_computer := False\<rparr>"

definition run_command ::
  "'g manager_env \<Rightarrow> 'g manager_config \<Rightarrow> request_world \<Rightarrow> command \<Rightarrow> manager \<Rightarrow> handled option \<times> manager" where
  "run_command env cfg w c m = (case c of
     SetYoloMode enabled \<Rightarrow> (None, set_yolo cfg enabled m)
   | SetAutoMode enabled \<Rightarrow> (None, set_auto enabled m)
   | SetClassifier installed \<Rightarrow> (None, m\<lparr>m_classifier := installed\<rparr>)
   | SetClassifierTranscript turns \<Rightarrow> (None, m\<lparr>m_turns := turns\<rparr>)
   | SetProjectInstructions instructions \<Rightarrow> (None, m\<lparr>m_instructions := instructions\<rparr>)
   | ResetState \<Rightarrow> (None, reset_state cfg w m)
   | Request rq \<Rightarrow> (case handle_request env cfg w rq m of (h, m') \<Rightarrow> (Some h, m'))
   | Shutdown \<Rightarrow> (None, m))"

definition config_of ::
  "'g manager_env \<Rightarrow> permission_config option \<Rightarrow> rstring list \<Rightarrow> rstring list \<Rightarrow> rstring \<Rightarrow> client_type \<Rightarrow> rstring option \<Rightarrow>
     bool \<Rightarrow> rstring option \<Rightarrow> 'g manager_config" where
  \<comment> \<open>the second list is the built-in allowlist\<close>
  "config_of env pc domains default_domains cwd client client_identifier remember pin =
     \<lparr>mc_policy = map_option (policy_new (me_policy env)) pc,
      mc_prompt_policy = (case pc of Some c \<Rightarrow> prompt_policy c | None \<Rightarrow> PromptAsk),
      mc_matcher = matcher_new (me_policy env) domains, mc_allowlist_is_default = (domains = default_domains),
      mc_cwd = cwd, mc_client_type = client, mc_client_identifier = client_identifier, mc_remember = remember, mc_yolo_pin = pin\<rparr>"

definition spawn_manager :: "'g manager_config \<Rightarrow> bool \<Rightarrow> bool \<Rightarrow> permission_dirs \<Rightarrow> manager" where
  "spawn_manager cfg requested_yolo ok disk =
     (let initial_yolo = clamp_yolo requested_yolo (mc_yolo_pin cfg);
          loaded = load_state_with_fallback disk (mc_client_identifier cfg);
          legacy = (edit_policy loaded = EditAllow);
          s = (if legacy then loaded\<lparr>edit_policy := EditAsk\<rparr> else loaded)
      in \<lparr>m_state = s, m_disk = (if legacy then persist_state ok s (mc_client_identifier cfg) disk else disk),
          m_yolo = initial_yolo, m_auto = (\<not> initial_yolo \<and> mc_prompt_policy cfg = PromptAuto), m_classifier = True,
          m_consecutive = 0, m_total = 0, m_turns = [], m_recorded = [], m_instructions = None,
          m_allow_edits = False, m_allow_computer = False\<rparr>)"

end
