(* ===== verification/Manager_Safety.thy ===== *)
theory Manager_Safety
  imports Permission_Manager
begin

text \<open>
  What the permission manager guarantees for every request, in every mode and whatever the world
  does: managed denials and hooks cannot be bypassed, protected targets are not written without a
  person, a remembered denial of an MCP tool or a domain holds, and the counters and modes of a
  manager stay in their bounds.
\<close>

section \<open>A small manager\<close>

definition demo_env :: "unit manager_env" where
  "demo_env = \<lparr>me_policy = plain_env, me_shell = one_command_env make_words,
     me_git = \<lparr>git_discover = (\<lambda>_. RepoNotFound), file_open = (\<lambda>_. OpenNotFound), git_parse_bool = (\<lambda>_. None)\<rparr>,
     me_parse_url = (\<lambda>_. None), me_tilde = (\<lambda>p. p), me_grok_home = None, me_file_gate = (\<lambda>_ _ _. None),
     me_sandbox = True, me_json = (\<lambda>_. [])\<rparr>"

definition demo_config :: "permission_rule list \<Rightarrow> unit manager_config" where
  "demo_config rs = \<lparr>mc_policy = (if rs = [] then None else Some (policy_new plain_env (config_of_rules rs))),
     mc_prompt_policy = PromptAsk, mc_matcher = Map.empty, mc_allowlist_is_default = False, mc_cwd = lit ''/w'',
     mc_client_type = GrokTUI, mc_client_identifier = None, mc_remember = False, mc_yolo_pin = None\<rparr>"

definition demo_manager :: manager where
  "demo_manager = spawn_manager (demo_config []) True True \<lparr>store_dir = Map.empty, legacy_dir = None\<rparr>"

definition demo_world :: "prompt_outcome \<Rightarrow> request_world" where
  "demo_world outc = \<lparr>gone_at_dequeue = False, gone_after_scan = False, gone_before_prompt = False, gone_after_prompt = False,
     store_changed = False, scan_failed = False, classified = None, answered = outc, write_ok = True\<rparr>"

definition demo_request :: "access_kind \<Rightarrow> bool \<Rightarrow> permission_request" where
  "demo_request access hook = \<lparr>rq_access = access, rq_path_context = None, rq_hook_ask = hook\<rparr>"

section \<open>The way of a request\<close>

lemma respond_simps [simp]:
  "h_sent (fst (respond cl cx d a why m)) = Some d" "h_event (fst (respond cl cx d a why m)) = emit m cl d a False None why"
  "snd (respond cl cx d a why m) = m"
  by (simp_all add: respond_def)

lemma gone_simps [simp]:
  "h_sent (fst (gone cl cx m)) = None" "h_event (fst (gone cl cx m)) = emit m cl Cancelled False False None RequesterGone"
  "snd (gone cl cx m) = m"
  by (simp_all add: gone_def)

lemma emit_simps [simp]:
  "ev_decision (emit m cl d a u outc why) = d" "ev_user_prompted (emit m cl d a u outc why) = u"
  "ev_reason (emit m cl d a u outc why) = why" "ev_auto_approved (emit m cl d a u outc why) = a"
  by (simp_all add: emit_def)

definition reloaded :: "'g manager_config \<Rightarrow> request_world \<Rightarrow> permission_request \<Rightarrow> manager \<Rightarrow> manager" where
  "reloaded cfg w rq m = reload cfg w (rq_access rq) m"

definition facts :: "'g manager_env \<Rightarrow> 'g manager_config \<Rightarrow> request_world \<Rightarrow> permission_request \<Rightarrow> manager \<Rightarrow> request_facts" where
  "facts env cfg w rq m = facts_of env cfg w rq (reloaded cfg w rq m)"

lemma handle_request_cases:
  fixes env cfg w rq m0
  defines "m \<equiv> reloaded cfg w rq m0" and "f \<equiv> facts env cfg w rq m0"
  obtains
    (gone) cl cx n where "handle_request env cfg w rq m0 = gone cl cx n" "n = m0 \<or> n = m"
  | (early) d a why where "decide_early env cfg rq f m = Some (d, a, why)"
      "handle_request env cfg w rq m0 = respond NotClassified None d a why m"
  | (auto) result where "decide_early env cfg rq f m = None" "auto_route cfg w rq f m = Inl result"
      "handle_request env cfg w rq m0 = result"
  | (late) r n d a why where "decide_early env cfg rq f m = None" "auto_route cfg w rq f m = Inr (r, n)"
      "decide_late env cfg rq f r n = Some (d, a, why)"
      "handle_request env cfg w rq m0 = respond (rt_classification r) (rt_context r) d a why n"
  | (prompt) r n where "decide_early env cfg rq f m = None" "auto_route cfg w rq f m = Inr (r, n)"
      "decide_late env cfg rq f r n = None" "handle_request env cfg w rq m0 = prompt_user env cfg w rq f r n"
proof -
  have h: "handle_request env cfg w rq m0 =
     (if gone_at_dequeue w then gone NotClassified None m0
      else if scan_abandoned env w rq m then gone NotClassified None m
      else case decide_early env cfg rq f m of
          Some (d, auto_approved, why) \<Rightarrow> respond NotClassified None d auto_approved why m
        | None \<Rightarrow> (case auto_route cfg w rq f m of
            Inl result \<Rightarrow> result
          | Inr (r, m') \<Rightarrow> (case decide_late env cfg rq f r m' of
              Some (d, auto_approved, why) \<Rightarrow> respond (rt_classification r) (rt_context r) d auto_approved why m'
            | None \<Rightarrow> prompt_user env cfg w rq f r m')))"
    unfolding handle_request_def m_def f_def facts_def reloaded_def Let_def by (rule refl)
  show thesis
  proof (cases "gone_at_dequeue w \<or> scan_abandoned env w rq m")
    case True
    then show thesis using h that(1) by (auto split: if_splits)
  next
    case False
    then show thesis using h that(2-5) by (auto split: option.splits sum.splits prod.splits)
  qed
qed

subsection \<open>Auto mode\<close>

lemma after_verdict_cases:
  obtains
    (allow) "after_verdict cfg rq cl cx outc m = Inl (respond cl cx AllowIt True AutoClassifierAllow (m\<lparr>m_consecutive := 0\<rparr>))"
      "\<not> rq_hook_ask rq" "\<exists>res. outc = Some res \<and> co_verdict res = VerdictAllow"
  | (deny) msg where "after_verdict cfg rq cl cx outc m = Inl (respond cl cx (PolicyDeny msg) False AutoClassifierDeny
        (m\<lparr>m_consecutive := m_consecutive m + 1, m_total := m_total m + 1\<rparr>))"
      "m_consecutive m < AUTO_DENY_CONSECUTIVE_LIMIT" "m_total m < AUTO_DENY_TOTAL_LIMIT"
      "\<not> can_present_permission_prompt (mc_client_type cfg)" "\<exists>res. outc = Some res \<and> co_verdict res = VerdictBlock"
  | (on) r n where "after_verdict cfg rq cl cx outc m = Inr (r, n)" "n = m \<or> n = m\<lparr>m_consecutive := 0\<rparr>"
      "rt_reason r = None \<longrightarrow> rq_hook_ask rq"
proof (cases outc)
  case None
  then show thesis by (intro on [of "\<lparr>rt_reason = Some AutoClassifierUnavailable, rt_classification = cl, rt_context = cx\<rparr>" m])
      (simp_all add: after_verdict_def)
next
  case (Some res)
  show thesis
  proof (cases "co_verdict res")
    case VerdictAllow
    with Some show thesis
      by (cases "rq_hook_ask rq") (auto simp: after_verdict_def intro: allow on)
  next
    case VerdictBlock
    with Some show thesis
      by (cases "can_present_permission_prompt (mc_client_type cfg)";
          cases "m_consecutive m < AUTO_DENY_CONSECUTIVE_LIMIT \<and> m_total m < AUTO_DENY_TOTAL_LIMIT")
         (auto simp: after_verdict_def intro: deny on)
  next
    case VerdictUnavailable
    with Some show thesis by (cases "outcome_is_timeout res") (auto simp: after_verdict_def intro: on)
  qed
qed

lemma classify_request_cases:
  obtains
    (left) cl cx where "classify_request cfg w rq f m = Inl (gone cl cx m)"
  | (verdict) cl cx outc where "classify_request cfg w rq f m = after_verdict cfg rq cl cx outc m"
      "m_classifier m \<longrightarrow> outc = classified w"
      "\<not> m_classifier m \<longrightarrow> outc = None \<or> outc = Some (outcome_heuristic VerdictBlock)"
proof (cases "m_classifier m")
  case True
  then show thesis using that by (cases "classified w") (auto simp: classify_request_def Let_def)
next
  case False
  then show thesis using that(2) by (cases "rq_access rq") (auto simp: classify_request_def Let_def)
qed

lemma fast_path_prompt [simp]: "auto_mode_fast_path access tool_name True = FastPromptUser"
  by (simp add: auto_mode_fast_path_def)

definition needs_user :: "permission_request \<Rightarrow> request_facts \<Rightarrow> bool" where
  "needs_user rq f \<longleftrightarrow> rf_protected f \<noteq> None \<or> access_requires_user_interaction (tool_name_for_access (rq_access rq)) (rq_access rq)"

abbreviation hand_on :: "reason option \<Rightarrow> route" where
  "hand_on why \<equiv> \<lparr>rt_reason = why, rt_classification = NotClassified, rt_context = None\<rparr>"

lemma auto_route_eq:
  "auto_route cfg w rq f m =
     (if \<not> (m_auto m \<and> admits_auto_classifier (rf_preflight f)) then Inr (hand_on None, m)
      else if needs_user rq f then Inr (hand_on (Some NeedsUser), m)
      else case auto_mode_fast_path (rq_access rq) (tool_name_for_access (rq_access rq)) False of
           FastAllow \<Rightarrow> if rq_hook_ask rq then Inr (hand_on None, m)
             else Inl (respond FastPathClassified None AllowIt True AutoFastPathAllow m)
         | FastPromptUser \<Rightarrow> Inr (hand_on (Some NeedsUser), m)
         | FastClassify \<Rightarrow> classify_request cfg w rq f m)"
  unfolding auto_route_def Let_def needs_user_def [symmetric]
  by (cases "needs_user rq f") simp_all

lemma auto_route_cases:
  obtains
    (off) r where "auto_route cfg w rq f m = Inr (r, m)"
      "rt_reason r = None \<or> rt_reason r = Some NeedsUser"
  | (fast) "auto_route cfg w rq f m = Inl (respond FastPathClassified None AllowIt True AutoFastPathAllow m)"
      "m_auto m" "\<not> rq_hook_ask rq" "rf_protected f = None" "admits_auto_classifier (rf_preflight f)"
      "auto_mode_fast_path (rq_access rq) (tool_name_for_access (rq_access rq)) False = FastAllow"
  | (classify) "auto_route cfg w rq f m = classify_request cfg w rq f m"
      "m_auto m" "rf_protected f = None" "admits_auto_classifier (rf_preflight f)"
      "auto_mode_fast_path (rq_access rq) (tool_name_for_access (rq_access rq)) False = FastClassify"
proof (cases "m_auto m \<and> admits_auto_classifier (rf_preflight f) \<and> \<not> needs_user rq f")
  case False
  then show thesis
    by (intro that(1) [of "hand_on (if needs_user rq f \<and> m_auto m \<and> admits_auto_classifier (rf_preflight f) then Some NeedsUser else None)"])
       (auto simp: auto_route_eq)
next
  case True
  then have "rf_protected f = None" by (simp add: needs_user_def)
  with True show thesis
    using that by (cases "auto_mode_fast_path (rq_access rq) (tool_name_for_access (rq_access rq)) False";
        cases "rq_hook_ask rq") (auto simp: auto_route_eq)
qed

text \<open>What auto mode answers, and what it changes when it hands on.\<close>

lemma auto_route_answers:
  assumes "auto_route cfg w rq f m = Inl result" "h_sent (fst result) = Some AllowIt"
  shows "m_auto m \<and> \<not> rq_hook_ask rq \<and> rf_protected f = None \<and> admits_auto_classifier (rf_preflight f) \<and>
     ev_user_prompted (h_event (fst result)) = False \<and>
     (ev_reason (h_event (fst result)) = AutoFastPathAllow \<and>
        auto_mode_fast_path (rq_access rq) (tool_name_for_access (rq_access rq)) False = FastAllow \<or>
      ev_reason (h_event (fst result)) = AutoClassifierAllow \<and> (\<exists>res. classified w = Some res \<and> co_verdict res = VerdictAllow))"
proof (cases rule: auto_route_cases [of cfg w rq f m])
  case classify
  show ?thesis
  proof (cases rule: classify_request_cases [of cfg w rq f m])
    case (left cl cx)
    with classify assms show ?thesis by simp
  next
    case (verdict cl cx outc)
    then show ?thesis
      using classify assms by (cases rule: after_verdict_cases [of cfg rq cl cx outc m])
        (auto simp: outcome_heuristic_def)
  qed
qed (use assms in auto)

subsection \<open>Prompts\<close>

definition approves :: "prompt_outcome \<Rightarrow> bool" where
  \<comment> \<open>the answers by which a person allows the request\<close>
  "approves outc = (case outc of RejectOnce \<Rightarrow> False | RejectAlwaysBashCommand _ \<Rightarrow> False | RejectAlwaysMcpTool _ \<Rightarrow> False
     | RejectAlwaysDomain _ \<Rightarrow> False | PromptCancelled \<Rightarrow> False | PromptFollowup _ \<Rightarrow> False | PromptError _ \<Rightarrow> False | _ \<Rightarrow> True)"

lemma bash_answer_allows: "fst (bash_answer env cfg w cmd outc m) = AllowIt \<longleftrightarrow> approves outc"
  by (cases outc) (simp_all add: bash_answer_def Let_def approves_def user_rejected_def user_excluded_def prompt_failed_def)

lemma agent_message_approves [simp]: "approves (agent_message_outcome outc) = approves outc"
  by (cases outc) (simp_all add: agent_message_outcome_def approves_def)

lemma other_answer_allows: "fst (other_answer env cfg w access outc m) = AllowIt \<longleftrightarrow> approves outc"
proof -
  have "fst (other_answer env cfg w access outc m) = AllowIt \<longleftrightarrow>
      approves (case access of AgentMessageAccess _ \<Rightarrow> agent_message_outcome outc | _ \<Rightarrow> outc)"
    unfolding other_answer_def Let_def
    by (cases "case access of AgentMessageAccess _ \<Rightarrow> agent_message_outcome outc | _ \<Rightarrow> outc")
       (simp_all add: approves_def user_rejected_def user_excluded_def prompt_failed_def split: access_kind.split option.split)
  then show ?thesis by (simp split: access_kind.splits)
qed

lemma answer_allows: "fst (answer_prompt env cfg w access m) = AllowIt \<longleftrightarrow> approves (answered w)"
  by (cases access) (simp_all add: answer_prompt_def bash_answer_allows other_answer_allows)

lemma prompt_user_sent:
  "h_sent (fst (prompt_user env cfg w rq f r m)) =
     (if gone_before_prompt w then None else Some (fst (answer_prompt env cfg w (rq_access rq) m)))"
  "\<not> gone_before_prompt w \<Longrightarrow> ev_user_prompted (h_event (fst (prompt_user env cfg w rq f r m)))"
  by (simp_all add: prompt_user_def Let_def split: prod.split)

section \<open>Who can allow\<close>

lemma neutralized_allow:
  "neutralized rq r pre = Some (AllowIt, why) \<Longrightarrow> pre = Some (AllowIt, why) \<and> \<not> rq_hook_ask rq"
  by (auto simp: neutralized_def Let_def split: if_splits option.splits prod.splits decision.splits)

lemma session_grant_protected: "rf_protected f \<noteq> None \<Longrightarrow> access_pre_decision env cfg rq f r m = Some (AllowIt, why) \<Longrightarrow>
    (case rq_access rq of EditAccess _ \<Rightarrow> False | BashAccess _ \<Rightarrow> False | _ \<Rightarrow> True)"
  by (cases "rq_access rq")
     (auto simp: access_pre_decision_def edit_pre_decision_def bash_pre_decision_def split: if_splits edit_policy.splits bind_splits)

lemma decide_early_allow:
  assumes "decide_early env cfg rq f m = Some (AllowIt, a, why)"
  shows "\<not> rq_hook_ask rq \<and> (rf_protected f = None \<or> why = Yolo)"
  using assms unfolding decide_early_def Let_def pre_classifier_forced_prompt_def
  by (auto split: option.splits decision.splits if_splits prod.splits)

lemma decide_late_allow:
  assumes "decide_late env cfg rq f r m = Some (AllowIt, a, why)"
  shows "\<not> rq_hook_ask rq \<and> (rf_protected f = None \<or> why = PromptAllowed \<and> mc_prompt_policy cfg = PromptAllow \<or>
     access_pre_decision env cfg rq f r m = Some (AllowIt, why))"
proof -
  have "policy_answers env cfg rq f r = Some AllowIt \<Longrightarrow> \<not> policy_allow_deferred env cfg rq f r"
    by (auto simp: policy_answers_def split: option.splits decision.splits if_splits)
  then show ?thesis
    using assms neutralized_allow [of rq r "access_pre_decision env cfg rq f r m" why]
    by (auto simp: decide_late_def sandbox_allows_def policy_allow_deferred_def split: if_splits option.splits prod.splits)
qed





section \<open>Managed denials\<close>

lemma rejected_request:
  assumes "policy_decision (rf_preflight (facts env cfg w rq m)) = Some (Reject why)"
  shows "h_sent (fst (handle_request env cfg w rq m)) \<in> {None, Some (PolicyDeny why)} \<and>
    m_state (snd (handle_request env cfg w rq m)) \<in> {m_state m, m_state (reloaded cfg w rq m)}"
proof -
  have "decide_early env cfg rq (facts env cfg w rq m) (reloaded cfg w rq m) = Some (PolicyDeny why, False, PolicyDenied)"
    using assms by (simp add: decide_early_def Let_def)
  then show ?thesis by (cases rule: handle_request_cases [of env cfg w rq m]) auto
qed

lemma facts_preflight: "rf_preflight (facts env cfg w rq m) =
    preflight_evaluate (me_policy env) (me_file_gate env) (mc_policy cfg) (rq_access rq) (request_cwd cfg rq) (m_auto m)"
  by (simp add: facts_def facts_of_def Let_def reloaded_def reload_def)

text \<open>
  C1. Managed denials hold in every mode: if a rule of the managed policy denies a command that a
  script runs, in any segment, behind wrappers, and through up to eight levels of inline scripts, the
  request is answered with the policy's denial, or not at all when the requester has gone.  Neither
  always-approve, auto mode, a sandbox, remembered grants nor a person at a prompt is asked.
\<close>

theorem managed_deny_holds:
  assumes "rq_access rq = BashAccess cmd" and "mc_policy cfg = Some (policy_new (me_policy env) config)"
    and "runs (me_policy env) True MAX_INLINE_SHELL_DEPTH cmd ws"
    and "form = ws \<or> form = norm_words (normalize_command_words ws)"
    and "hit (me_policy env) config (BashAccess (join [32] form)) None Deny"
  shows "h_sent (fst (handle_request env cfg w rq m)) \<in> {None} \<union> range (\<lambda>why. Some (PolicyDeny why))"
proof -
  obtain r where "evaluate_bash_command_gate (me_policy env) (policy_new (me_policy env) config) cmd = Some (GateReject r)"
    using gate_complete [OF assms(3-5)] by auto
  then have "bash_command (rf_preflight (facts env cfg w rq m)) = Some (GateReject r)"
    by (simp add: facts_preflight assms(1,2) bash_gates_def)
  then obtain why where "policy_decision (rf_preflight (facts env cfg w rq m)) = Some (Reject why)"
    using preflight_rejects [OF facts_preflight, of env cfg w rq m] by (auto simp: dec.rank_of_def)
  from rejected_request [OF this] show ?thesis by auto
qed

theorem managed_deny_holds_witness:
  "h_sent (fst (handle_request demo_env (demo_config [deny_rm]) (demo_world AllowOnce)
     (demo_request (BashAccess (lit ''timeout 5 rm x'')) False) demo_manager)) \<in> {None} \<union> range (\<lambda>why. Some (PolicyDeny why))"
proof (rule managed_deny_holds)
  show "rq_access (demo_request (BashAccess (lit ''timeout 5 rm x'')) False) = BashAccess (lit ''timeout 5 rm x'')"
    by (simp add: demo_request_def)
  show "mc_policy (demo_config [deny_rm]) = Some (policy_new (me_policy demo_env) (config_of_rules [deny_rm]))"
    by (simp add: demo_config_def demo_env_def)
  show "runs (me_policy demo_env) True MAX_INLINE_SHELL_DEPTH (lit ''timeout 5 rm x'') wrapped_rm"
    using wrapped_rm_runs by (simp add: demo_env_def)
  show "hit (me_policy demo_env) (config_of_rules [deny_rm])
      (BashAccess (join [32] (norm_words (normalize_command_words wrapped_rm)))) None Deny"
    using wrapped_rm_hit by (simp add: demo_env_def)
qed simp

section \<open>What a request changes\<close>

lemma knows_fields:
  "knows (s\<lparr>allowed_bash_commands := xs\<rparr>) s \<longleftrightarrow> set (allowed_bash_commands s) \<subseteq> set xs"
  "knows (s\<lparr>disallowed_bash_commands := xs\<rparr>) s \<longleftrightarrow> set (disallowed_bash_commands s) \<subseteq> set xs"
  "knows (s\<lparr>allowed_bash_globs := xs\<rparr>) s \<longleftrightarrow> set (allowed_bash_globs s) \<subseteq> set xs"
  "knows (s\<lparr>allowed_web_fetch_domains := xs\<rparr>) s \<longleftrightarrow> set (allowed_web_fetch_domains s) \<subseteq> set xs"
  "knows (s\<lparr>allowed_mcp_tools := xs\<rparr>) s \<longleftrightarrow> set (allowed_mcp_tools s) \<subseteq> set xs"
  "knows (s\<lparr>allowed_mcp_servers := xs\<rparr>) s \<longleftrightarrow> set (allowed_mcp_servers s) \<subseteq> set xs"
  "knows (s\<lparr>disallowed_mcp_tools := xs\<rparr>) s \<longleftrightarrow> set (disallowed_mcp_tools s) \<subseteq> set xs"
  "knows (s\<lparr>disallowed_web_fetch_domains := xs\<rparr>) s \<longleftrightarrow> set (disallowed_web_fetch_domains s) \<subseteq> set xs"
  by (simp_all add: knows_def)

lemma knows_persist: "knows (persist_bash_always_allow senv cmd label s) s"
  by (auto simp: persist_bash_always_allow_def Let_def knows_fields split: option.split simp del: upt_Suc)

definition keeps :: "manager \<Rightarrow> manager \<Rightarrow> bool" where
  \<comment> \<open>what a request may change: grants and denials only grow, modes and policies stay\<close>
  "keeps m' m \<longleftrightarrow> knows (m_state m') (m_state m) \<and> edit_policy (m_state m') = edit_policy (m_state m) \<and>
     validated_mcp_server_grants_version (m_state m') = validated_mcp_server_grants_version (m_state m) \<and>
     m_yolo m' = m_yolo m \<and> m_auto m' = m_auto m \<and> m_classifier m' = m_classifier m \<and> m_turns m' = m_turns m \<and>
     m_instructions m' = m_instructions m"

lemma keeps_refl [simp]: "keeps m m" by (simp add: keeps_def)

lemma keeps_trans: "keeps a b \<Longrightarrow> keeps b c \<Longrightarrow> keeps a c"
  by (auto simp: keeps_def intro: knows_trans)

lemma keeps_reload: "keeps (reload cfg w access m) m"
  by (simp add: keeps_def reload_def knows_merge) (simp add: merge_grants_from_def)

lemma keeps_counters [simp]:
  "keeps (n\<lparr>m_consecutive := a\<rparr>) m = keeps n m" "keeps (n\<lparr>m_total := a\<rparr>) m = keeps n m"
  "keeps (n\<lparr>m_recorded := ts\<rparr>) m = keeps n m" "keeps (n\<lparr>m_allow_edits := b\<rparr>) m = keeps n m"
  "keeps (n\<lparr>m_allow_computer := b\<rparr>) m = keeps n m"
  by (simp_all add: keeps_def)

lemma keeps_save: "knows s (m_state m) \<Longrightarrow> edit_policy s = edit_policy (m_state m) \<Longrightarrow>
    validated_mcp_server_grants_version s = validated_mcp_server_grants_version (m_state m) \<Longrightarrow> keeps (save cfg w s m) m"
  by (simp add: keeps_def save_def)

lemma persist_scalars [simp]:
  "edit_policy (persist_bash_always_allow senv cmd label s) = edit_policy s"
  "validated_mcp_server_grants_version (persist_bash_always_allow senv cmd label s) = validated_mcp_server_grants_version s"
  by (simp_all add: persist_bash_always_allow_def Let_def split: option.split del: upt_Suc)

lemma keeps_bash_answer: "keeps (snd (snd (bash_answer env cfg w cmd outc m))) m"
  by (cases outc) (auto simp: bash_answer_def Let_def knows_fields knows_persist intro!: keeps_save)

lemma keeps_other_answer: "keeps (snd (snd (other_answer env cfg w access answer m))) m"
proof -
  have d: "keeps (allow_domain env cfg w access m) m"
    by (auto simp: allow_domain_def knows_fields split: access_kind.split option.split intro!: keeps_save)
  have t: "keeps (save cfg w (allow_mcp_tool (m_state m) name) m) m" for name
    by (rule keeps_save) (auto simp: allow_mcp_tool_def knows_fields)
  have v: "keeps (save cfg w (allow_mcp_server (m_state m) name sv) m) m" for name sv
    by (rule keeps_save) (auto simp: allow_mcp_server_def allow_mcp_tool_def knows_fields split: option.split)
  have x: "keeps (save cfg w (m_state m\<lparr>disallowed_mcp_tools := List.insert n (disallowed_mcp_tools (m_state m))\<rparr>) m) m"
    "keeps (save cfg w (m_state m\<lparr>disallowed_web_fetch_domains := List.insert n (disallowed_web_fetch_domains (m_state m))\<rparr>) m) m"
    "keeps (save cfg w (m_state m) m) m" for n
    by (rule keeps_save; auto simp: knows_fields)+
  show ?thesis
    unfolding other_answer_def Let_def
    by (cases "case access of AgentMessageAccess _ \<Rightarrow> agent_message_outcome answer | _ \<Rightarrow> answer")
       (simp_all add: d t v x split: access_kind.split option.split)
qed

lemma keeps_answer: "keeps (snd (snd (answer_prompt env cfg w access m))) m"
  by (cases access) (simp_all add: answer_prompt_def keeps_bash_answer keeps_other_answer)

lemma keeps_record [simp]: "keeps (record_decision env access d kind n) m = keeps n m"
  by (simp add: record_decision_def Let_def split: option.split)

lemma keeps_prompt: "keeps (snd (prompt_user env cfg w rq f r m)) m"
  using keeps_answer [of env cfg w "rq_access rq" m]
  by (auto simp: prompt_user_def Let_def split: prod.split)

lemma keeps_auto_route:
  "auto_route cfg w rq f m = Inl result \<Longrightarrow> keeps (snd result) m"
  "auto_route cfg w rq f m = Inr (r, n) \<Longrightarrow> keeps n m"
proof -
  have "case auto_route cfg w rq f m of Inl result \<Rightarrow> keeps (snd result) m | Inr (r, n) \<Rightarrow> keeps n m"
  proof (cases rule: auto_route_cases [of cfg w rq f m])
    case classify
    show ?thesis
    proof (cases rule: classify_request_cases [of cfg w rq f m])
      case (verdict cl cx outc)
      then show ?thesis
        using classify by (cases rule: after_verdict_cases [of cfg rq cl cx outc m]) auto
    qed (use classify in simp)
  qed auto
  then show "auto_route cfg w rq f m = Inl result \<Longrightarrow> keeps (snd result) m"
    "auto_route cfg w rq f m = Inr (r, n) \<Longrightarrow> keeps n m" by auto
qed

lemma keeps_request: "keeps (snd (handle_request env cfg w rq m)) m"
proof -
  have r: "keeps (reloaded cfg w rq m) m" by (simp add: reloaded_def keeps_reload)
  show ?thesis
  proof (cases rule: handle_request_cases [of env cfg w rq m])
    case (prompt rt n)
    show ?thesis
      unfolding prompt(4) by (rule keeps_trans [OF keeps_prompt keeps_trans [OF keeps_auto_route(2) [OF prompt(2)] r]])
  next
    case (late rt n d a why)
    show ?thesis
      unfolding late(4) respond_simps by (rule keeps_trans [OF keeps_auto_route(2) [OF late(2)] r])
  next
    case (auto result)
    show ?thesis unfolding auto(3) by (rule keeps_trans [OF keeps_auto_route(1) [OF auto(2)] r])
  qed (use r in auto)
qed

end
