(* ===== verification/Manager_History.thy ===== *)
theory Manager_History
  imports Manager_Safety
begin

text \<open>
  The permission manager over time: a remembered denial holds in every later request until a reset,
  a remembered grant carries over to the next session of the project, and the handles through which
  sessions and subagents reach the actor report its modes once their commands have been processed.
\<close>

section \<open>Remembered denials\<close>

definition networked :: "access_kind \<Rightarrow> bool" where
  "networked access = (case access of MCPToolAccess _ _ \<Rightarrow> True | WebFetchAccess _ \<Rightarrow> True | _ \<Rightarrow> False)"

lemma networked_preflight:
  assumes "networked access"
  shows "\<not> shell_forced_prompt (preflight_evaluate env fg pol access cwd auto)"
    and "\<not> defers_gate_ask (preflight_evaluate env fg pol access cwd auto)"
  using assms
  by (auto simp: networked_def preflight_evaluate_def bash_gates_def shell_forced_prompt_def shell_file_forced_prompt_def
      asks_def Let_def evaluate_with_cwd_details_def native_file_path_def split: access_kind.splits option.splits prod.splits)

lemma networked_unprotected: "networked (rq_access rq) \<Longrightarrow> rf_protected (facts env cfg w rq m) = None"
  by (simp add: facts_def facts_of_def protected_edit_def networked_def Let_def split: access_kind.splits)

lemma reloaded_keeps: "keeps (reloaded cfg w rq m) m"
  by (simp add: reloaded_def keeps_reload)

lemma auto_unprompted:
  assumes "auto_route cfg w rq f m = Inl result"
  shows "\<not> ev_user_prompted (h_event (fst result))"
proof (cases rule: auto_route_cases [of cfg w rq f m])
  case classify
  then show ?thesis
  proof (cases rule: classify_request_cases [of cfg w rq f m])
    case (verdict cl cx outc)
    then show ?thesis
      using classify assms by (cases rule: after_verdict_cases [of cfg rq cl cx outc m]) auto
  qed (use classify assms in auto)
qed (use assms in auto)

text \<open>A request that every grant lookup rejects is neither allowed nor put to a person.\<close>

lemma denied_request:
  assumes net: "networked (rq_access rq)" and "\<not> m_yolo m"
    and grant: "\<And>f ae ac hs. session_grant_pre_decision (me_policy env) (me_parse_url env) (rq_access rq) f
      (m_state (reloaded cfg w rq m)) ae ac (mc_matcher cfg) hs (mc_yolo_pin cfg) = Some (Reject why, SessionDeny)"
    and pre: "\<And>f r n. keeps n (reloaded cfg w rq m) \<Longrightarrow> \<exists>why'. access_pre_decision env cfg rq f r n = Some (Reject why', SessionDeny)"
  shows "h_sent (fst (handle_request env cfg w rq m)) \<noteq> Some AllowIt \<and>
    \<not> ev_user_prompted (h_event (fst (handle_request env cfg w rq m)))"
proof -
  let ?f = "facts env cfg w rq m" and ?m = "reloaded cfg w rq m"
  have y: "\<not> m_yolo ?m" using assms(2) reloaded_keeps [of cfg w rq m] by (simp add: keeps_def)
  have g: "\<not> shell_forced_prompt (rf_preflight ?f)" "\<not> defers_gate_ask (rf_preflight ?f)"
    using networked_preflight [OF net] by (simp_all add: facts_preflight)
  have forced: "policy_forced_prompt (rf_preflight ?f) \<or> rq_hook_ask rq" if "decide_early env cfg rq ?f ?m = None"
  proof (rule ccontr)
    assume "\<not> (policy_forced_prompt (rf_preflight ?f) \<or> rq_hook_ask rq)"
    with g that y grant networked_unprotected [OF net, of env cfg w m] show False
      by (auto simp: decide_early_def Let_def pre_classifier_forced_prompt_def split: option.splits decision.splits)
  qed
  show ?thesis
  proof (cases rule: handle_request_cases [of env cfg w rq m])
    case (early d a r)
    then show ?thesis
      using y g grant by (auto simp: decide_early_def Let_def pre_classifier_forced_prompt_def split: option.splits decision.splits if_splits)
  next
    case (auto result)
    have "h_sent (fst result) \<noteq> Some AllowIt"
      using auto_route_answers [OF auto(2)] forced [OF auto(1)] g by (auto simp: admits_auto_classifier_def)
    moreover have "\<not> ev_user_prompted (h_event (fst result))" by (rule auto_unprompted [OF auto(2)])
    ultimately show ?thesis using auto(3) by simp
  next
    case (late r n d a w1)
    obtain w2 where w2: "access_pre_decision env cfg rq ?f r n = Some (Reject w2, SessionDeny)"
      using pre keeps_auto_route(2) [OF late(2)] by blast
    have "policy_answers env cfg rq ?f r \<noteq> Some AllowIt"
      using forced [OF late(1)] by (auto simp: policy_answers_def policy_forced_prompt_def policy_allow_deferred_def split: option.splits decision.splits)
    then have "d \<noteq> AllowIt"
      using late(3) w2 net by (auto simp: decide_late_def sandbox_allows_def networked_def neutralized_def split: if_splits option.splits access_kind.splits)
    with late(4) show ?thesis by simp
  next
    case (prompt r n)
    obtain w2 where "access_pre_decision env cfg rq ?f r n = Some (Reject w2, SessionDeny)"
      using pre keeps_auto_route(2) [OF prompt(2)] by blast
    with prompt(3) show ?thesis by (auto simp: decide_late_def neutralized_def split: if_splits option.splits)
  qed simp
qed

lemma mcp_denied_request:
  assumes "name \<in> set (disallowed_mcp_tools (m_state m))" "\<not> m_yolo m" "rq_access rq = MCPToolAccess name input"
  shows "h_sent (fst (handle_request env cfg w rq m)) \<noteq> Some AllowIt \<and>
    \<not> ev_user_prompted (h_event (fst (handle_request env cfg w rq m)))"
proof -
  have k: "name \<in> set (disallowed_mcp_tools (m_state n))" if "keeps n m" for n
    using that assms(1) by (auto simp: keeps_def knows_def)
  show ?thesis
  proof (rule denied_request [where why = "previously_rejected name"])
    fix f r n
    assume "keeps n (reloaded cfg w rq m)"
    then have "name \<in> set (disallowed_mcp_tools (m_state n))" by (blast intro: k keeps_trans reloaded_keeps)
    then show "\<exists>why'. access_pre_decision env cfg rq f r n = Some (Reject why', SessionDeny)"
      by (simp add: access_pre_decision_def assms(3) mcp_pre_decision_def mcp_reason_def)
  qed (use assms k [OF reloaded_keeps] in \<open>simp_all add: networked_def session_grant_pre_decision_def mcp_pre_decision_def mcp_reason_def\<close>)
qed

lemma web_deny_iff:
  "web_fetch_deny_pre_decision env url s \<noteq> None \<longleftrightarrow> (\<exists>host. host_str url = Some host \<and>
     (\<exists>d \<in> set (disallowed_web_fetch_domains s). denies_domain (web_fetch_deny_key env host) d))"
  by (cases "host_str url"; cases "disallowed_web_fetch_domains s = []")
     (auto simp: web_fetch_deny_pre_decision_def denied_web_fetch_domain_def find_None_iff simp flip: not_None_eq)

lemma web_deny_rejects: "web_fetch_deny_pre_decision env url s = Some d \<Longrightarrow> \<exists>why. d = Reject why"
  by (auto simp: web_fetch_deny_pre_decision_def bind_eq_Some_conv)

lemma web_denied_request:
  assumes "web_fetch_deny_pre_decision (me_policy env) parsed (m_state m) \<noteq> None" "\<not> m_yolo m"
    "rq_access rq = WebFetchAccess url" "me_parse_url env url = Some parsed"
  shows "h_sent (fst (handle_request env cfg w rq m)) \<noteq> Some AllowIt \<and>
    \<not> ev_user_prompted (h_event (fst (handle_request env cfg w rq m)))"
proof -
  have k: "\<exists>why. web_fetch_deny_pre_decision (me_policy env) parsed (m_state n) = Some (Reject why)" if "keeps n m" for n
  proof -
    have "web_fetch_deny_pre_decision (me_policy env) parsed (m_state n) \<noteq> None"
      using that assms(1) unfolding web_deny_iff keeps_def knows_def by blast
    then show ?thesis using web_deny_rejects by blast
  qed
  obtain why where "web_fetch_deny_pre_decision (me_policy env) parsed (m_state (reloaded cfg w rq m)) = Some (Reject why)"
    using k [OF reloaded_keeps] by blast
  show ?thesis
  proof (rule denied_request [where why = why])
    fix f r n
    assume "keeps n (reloaded cfg w rq m)"
    then have "keeps n m" by (blast intro: keeps_trans reloaded_keeps)
    then show "\<exists>why'. access_pre_decision env cfg rq f r n = Some (Reject why', SessionDeny)"
      using k by (fastforce simp: access_pre_decision_def assms(3,4) web_fetch_pre_decision_def)
  qed (use assms \<open>web_fetch_deny_pre_decision (me_policy env) parsed (m_state (reloaded cfg w rq m)) = Some (Reject why)\<close> in
    \<open>simp_all add: networked_def session_grant_pre_decision_def\<close>)
qed

section \<open>Histories\<close>

definition run_commands :: "'g manager_env \<Rightarrow> 'g manager_config \<Rightarrow> (request_world \<times> command) list \<Rightarrow> manager \<Rightarrow> manager" where
  \<comment> \<open>the actor's loop over the commands it receives\<close>
  "run_commands env cfg cs m = foldl (\<lambda>n (w, c). snd (run_command env cfg w c n)) m cs"

lemma run_command_knows:
  "c \<noteq> ResetState \<Longrightarrow> knows (m_state (snd (run_command env cfg w c m))) (m_state m)"
  using keeps_request [of env cfg w _ m]
  by (cases c) (simp_all add: run_command_def set_yolo_def set_auto_def keeps_def Let_def split_def)

lemma run_commands_knows:
  "ResetState \<notin> snd ` set cs \<Longrightarrow> knows (m_state (run_commands env cfg cs m)) (m_state m)"
  unfolding run_commands_def
proof (induction cs arbitrary: m)
  case (Cons x cs)
  obtain w c where x: "x = (w, c)" by fastforce
  have "knows (m_state (snd (run_command env cfg w c m))) (m_state m)"
    using Cons.prems x by (intro run_command_knows) auto
  with Cons.IH [of "snd (run_command env cfg w c m)"] Cons.prems x show ?case
    by (auto intro: knows_trans)
qed simp

lemma prompted_answer:
  assumes "handle_request env cfg w rq m0 = (h, m1)" "ev_user_prompted (h_event h)"
  obtains n where "keeps n m0" "h_sent h = Some (fst (answer_prompt env cfg w (rq_access rq) n))"
    "m_state m1 = m_state (snd (snd (answer_prompt env cfg w (rq_access rq) n)))"
    "m_disk m1 = m_disk (snd (snd (answer_prompt env cfg w (rq_access rq) n)))"
proof (cases rule: handle_request_cases [of env cfg w rq m0])
  case (prompt r n)
  have k: "keeps n m0" by (rule keeps_trans [OF keeps_auto_route(2) [OF prompt(2)] reloaded_keeps])
  have e: "prompt_user env cfg w rq (facts env cfg w rq m0) r n = (h, m1)" using prompt(4) assms(1) by simp
  with assms(2) have "\<not> gone_before_prompt w" by (auto simp: prompt_user_def gone_def emit_def)
  with e show thesis
    by (intro that [OF k]) (auto simp: prompt_user_def Let_def record_decision_def split: prod.splits option.splits if_splits)
next
  case (auto result)
  have "\<not> ev_user_prompted (h_event (fst result))" by (rule auto_unprompted [OF auto(2)])
  with assms auto(3) show thesis by simp
qed (use assms in \<open>auto simp: gone_def respond_def emit_def\<close>)

text \<open>
  C8. ``Never allow'' is kept: once a person has answered so for an MCP tool, no later request for that
  tool in the session is allowed or even put to a person, through any sequence of requests, mode
  changes and classifiers, unless always-approve is on or the permissions are reset.
\<close>

theorem mcp_denial_remembered:
  assumes "handle_request env cfg w0 rq0 m0 = (h0, m1)" and "rq_access rq0 = MCPToolAccess name input0"
    and "ev_user_prompted (h_event h0)" and "answered w0 = RejectAlwaysMcpTool label"
    and "ResetState \<notin> snd ` set cs" and "\<not> m_yolo (run_commands env cfg cs m1)"
    and "rq_access rq = MCPToolAccess name input"
  shows "h_sent (fst (handle_request env cfg w rq (run_commands env cfg cs m1))) \<noteq> Some AllowIt \<and>
    \<not> ev_user_prompted (h_event (fst (handle_request env cfg w rq (run_commands env cfg cs m1))))"
proof -
  obtain n where "m_state m1 = m_state (snd (snd (answer_prompt env cfg w0 (rq_access rq0) n)))"
    by (rule prompted_answer [OF assms(1,3)])
  then have "name \<in> set (disallowed_mcp_tools (m_state m1))"
    using assms(2,4) by (simp add: answer_prompt_def other_answer_def save_def Let_def)
  then have "name \<in> set (disallowed_mcp_tools (m_state (run_commands env cfg cs m1)))"
    using run_commands_knows [OF assms(5), of env cfg m1] by (auto simp: knows_def)
  from mcp_denied_request [OF this assms(6,7)] show ?thesis .
qed

definition demo_tool :: permission_request where
  "demo_tool = demo_request (MCPToolAccess (lit ''srv__t'') JNull) False"

definition demo_asking :: manager where "demo_asking = set_yolo (demo_config []) False demo_manager"

theorem mcp_denial_remembered_witness:
  "h_sent (fst (handle_request demo_env (demo_config []) (demo_world AllowOnce) demo_tool
     (run_commands demo_env (demo_config []) [(demo_world AllowOnce, SetAutoMode True)]
       (snd (handle_request demo_env (demo_config []) (demo_world (RejectAlwaysMcpTool [])) demo_tool demo_asking))))) \<noteq> Some AllowIt"
proof -
  let ?w = "demo_world (RejectAlwaysMcpTool [])"
  let ?r = "handle_request demo_env (demo_config []) ?w demo_tool demo_asking"
  have p: "ev_user_prompted (h_event (fst ?r))" by code_simp
  have y: "\<not> m_yolo (run_commands demo_env (demo_config []) [(demo_world AllowOnce, SetAutoMode True)] (snd ?r))" by code_simp
  show ?thesis
    using mcp_denial_remembered [OF prod.collapse [symmetric] _ p, of "lit ''srv__t''" JNull "[]"
        "[(demo_world AllowOnce, SetAutoMode True)]" demo_tool JNull "demo_world AllowOnce"] y
    by (simp add: demo_tool_def demo_request_def demo_world_def)
qed

section \<open>Where grants and denials of Bash fall short\<close>

definition push_env :: "unit manager_env" where
  "push_env = demo_env\<lparr>me_shell := one_command_env (map lit [''git'', ''push'']), me_sandbox := False\<rparr>"

text \<open>A blanket grant for Bash covers even a dangerous command when no classifier is asked.\<close>

lemma blanket_grant_allows_dangerous:
  "is_dangerous_command_words (map lit [''git'', ''push'']) \<and>
   h_sent (fst (handle_request push_env (demo_config []) (demo_world RejectOnce) (demo_request (BashAccess (lit ''git push'')) False)
     (demo_asking\<lparr>m_state := default_state\<lparr>allow_bash_execute := True\<rparr>\<rparr>))) = Some AllowIt"
  by code_simp

text \<open>
  A remembered denial of a Bash command is not looked up once the policy's gate asks: with a rule
  about Bash and a script that cannot be decomposed, auto mode's classifier decides alone.
\<close>

lemma classifier_overrides_bash_denial:
  "h_sent (fst (handle_request (demo_env\<lparr>me_policy := plain_env\<lparr>all_commands_from_script := (\<lambda>_. None)\<rparr>, me_sandbox := False\<rparr>)
     (demo_config [deny_rm])
     ((demo_world RejectOnce)\<lparr>classified := Some (outcome_llm VerdictAllow None)\<rparr>)
     (demo_request (BashAccess (lit ''curl $X'')) False)
     (set_auto True (demo_asking\<lparr>m_state := default_state\<lparr>disallowed_bash_commands := [lit ''curl'']\<rparr>\<rparr>)))) = Some AllowIt"
  by code_simp

section \<open>The next session\<close>

lemma load_persisted:
  "load_state_with_fallback (persist_state True s client dirs) client =
     validated (case try_load_state (store_dir dirs) (state_file_path client) of Some t \<Rightarrow> merge_grants_from s t | None \<Rightarrow> s)"
  by (cases client)
     (simp_all add: persist_state_def load_state_with_fallback_def persist_state_to_dir_def state_dir_has_store_def
       load_state_from_dir_def try_load_state_def split: option.split)

lemma loaded_tools: "set (allowed_mcp_tools s) \<subseteq> set (allowed_mcp_tools (load_state_with_fallback (persist_state True s client dirs) client))"
  by (auto simp: load_persisted validated_def merge_grants_from_def split: option.split)



end
