(* ===== verification/Manager_System.thy ===== *)
theory Manager_System
  imports Manager_History
begin

text \<open>
  The permission manager together with its handles (\<open>PermissionHandle\<close> in \<open>permission/manager/mod.rs\<close>).
  A handle changes the shared flags at once and queues a command; the actor takes the commands one
  by one and writes the flags again.  Handles, the actor and other sessions writing the store take
  steps in any order.
\<close>

section \<open>Handles and the actor\<close>

record manager_system =
  sys_manager :: manager
  sys_queue :: "command list"
  yolo_state :: bool
  auto_state :: bool
  side_query_wired :: bool
  alive :: bool

definition send :: "command \<Rightarrow> manager_system \<Rightarrow> manager_system" where
  \<comment> \<open>sending to an actor that has stopped only logs\<close>
  "send c y = (if alive y then y\<lparr>sys_queue := sys_queue y @ [c]\<rparr> else y)"

definition handle_set_yolo_mode :: "'g manager_config \<Rightarrow> bool \<Rightarrow> manager_system \<Rightarrow> manager_system" where
  "handle_set_yolo_mode cfg enabled y = (let clamped = clamp_yolo enabled (mc_yolo_pin cfg) in
     send (SetYoloMode enabled) (y\<lparr>yolo_state := clamped, auto_state := (if clamped then False else auto_state y)\<rparr>))"

definition handle_set_auto_mode :: "bool \<Rightarrow> manager_system \<Rightarrow> manager_system" where
  "handle_set_auto_mode enabled y =
     send (SetAutoMode enabled) (y\<lparr>auto_state := enabled, yolo_state := (if enabled then False else yolo_state y)\<rparr>)"

definition handle_set_classifier :: "bool \<Rightarrow> manager_system \<Rightarrow> manager_system" where
  "handle_set_classifier installed y = send (SetClassifier installed) (y\<lparr>side_query_wired := False\<rparr>)"

definition handle_set_classifier_with_side_query :: "bool \<Rightarrow> manager_system \<Rightarrow> manager_system" where
  "handle_set_classifier_with_side_query has_side_query y =
     send (SetClassifier True) (y\<lparr>side_query_wired := has_side_query\<rparr>)"

definition handle_set_llm_side_query_wired :: "bool \<Rightarrow> manager_system \<Rightarrow> manager_system" where
  "handle_set_llm_side_query_wired wired y = y\<lparr>side_query_wired := wired\<rparr>"

definition actor_flags :: "'g manager_config \<Rightarrow> command \<Rightarrow> manager_system \<Rightarrow> manager_system" where
  "actor_flags cfg c y = (case c of
     SetYoloMode enabled \<Rightarrow> let clamped = clamp_yolo enabled (mc_yolo_pin cfg) in
       y\<lparr>yolo_state := clamped, auto_state := (if clamped then False else auto_state y)\<rparr>
   | SetAutoMode enabled \<Rightarrow> y\<lparr>auto_state := enabled, yolo_state := (if enabled then False else yolo_state y)\<rparr>
   | Shutdown \<Rightarrow> y\<lparr>alive := False, sys_queue := []\<rparr>
   | _ \<Rightarrow> y)"

definition actor_step :: "'g manager_env \<Rightarrow> 'g manager_config \<Rightarrow> request_world \<Rightarrow> manager_system \<Rightarrow> manager_system" where
  "actor_step env cfg w y = (case sys_queue y of
     [] \<Rightarrow> y
   | c # rest \<Rightarrow> actor_flags cfg c (y\<lparr>sys_manager := snd (run_command env cfg w c (sys_manager y)), sys_queue := rest\<rparr>))"

definition spawn_system :: "'g manager_config \<Rightarrow> bool \<Rightarrow> bool \<Rightarrow> permission_dirs \<Rightarrow> manager_system" where
  "spawn_system cfg requested_yolo ok disk =
     (let m = spawn_manager cfg requested_yolo ok disk in
      \<lparr>sys_manager = m, sys_queue = [], yolo_state = m_yolo m, auto_state = m_auto m, side_query_wired = False, alive = True\<rparr>)"

datatype permission_handle = ActorHandle | AllowAllHandle

definition request_resolution :: "permission_handle \<Rightarrow> bool \<Rightarrow> decision option \<Rightarrow> decision" where
  \<comment> \<open>what \<open>request\<close> returns, given whether the command could be sent and what the actor sent back\<close>
  "request_resolution h sent answer = (case h of
     AllowAllHandle \<Rightarrow> AllowIt
   | ActorHandle \<Rightarrow>
       if \<not> sent then Reject (lit ''permission manager unavailable'')
       else case answer of Some d \<Rightarrow> d | None \<Rightarrow> Reject (lit ''failed to receive permission decision''))"

definition is_yolo_mode :: "permission_handle \<Rightarrow> manager_system \<Rightarrow> bool" where
  "is_yolo_mode h y = (case h of AllowAllHandle \<Rightarrow> True | ActorHandle \<Rightarrow> yolo_state y)"

definition is_auto_mode :: "permission_handle \<Rightarrow> manager_system \<Rightarrow> bool" where
  "is_auto_mode h y = (case h of AllowAllHandle \<Rightarrow> False | ActorHandle \<Rightarrow> auto_state y)"

fun mode_command :: "command \<Rightarrow> bool" where
  "mode_command (SetYoloMode _) = True"
| "mode_command (SetAutoMode _) = True"
| "mode_command _ = False"

inductive system_step :: "'g manager_env \<Rightarrow> 'g manager_config \<Rightarrow> manager_system \<Rightarrow> manager_system \<Rightarrow> bool" for env cfg where
  set_yolo: "system_step env cfg y (handle_set_yolo_mode cfg enabled y)"
| set_auto: "system_step env cfg y (handle_set_auto_mode enabled y)"
| set_classifier: "system_step env cfg y (handle_set_classifier installed y)"
| set_side_query: "system_step env cfg y (handle_set_classifier_with_side_query has_side_query y)"
| set_wired: "system_step env cfg y (handle_set_llm_side_query_wired wired y)"
| request: "\<not> mode_command c \<Longrightarrow> system_step env cfg y (send c y)"
| actor: "system_step env cfg y (actor_step env cfg w y)"
| other_session: "system_step env cfg y (y\<lparr>sys_manager := (sys_manager y)\<lparr>m_disk := disk\<rparr>\<rparr>)"

inductive reachable_system :: "'g manager_env \<Rightarrow> 'g manager_config \<Rightarrow> manager_system \<Rightarrow> bool" for env cfg where
  spawned: "reachable_system env cfg (spawn_system cfg requested_yolo ok disk)"
| stepped: "reachable_system env cfg y \<Longrightarrow> system_step env cfg y z \<Longrightarrow> reachable_system env cfg z"

section \<open>The manager's invariant\<close>

definition manager_inv :: "'g manager_config \<Rightarrow> manager \<Rightarrow> bool" where
  "manager_inv cfg m \<longleftrightarrow> \<not> (m_yolo m \<and> m_auto m) \<and> (m_yolo m \<longrightarrow> mc_yolo_pin cfg = None) \<and>
     m_consecutive m \<le> AUTO_DENY_CONSECUTIVE_LIMIT \<and> m_consecutive m \<le> m_total m \<and> m_total m \<le> AUTO_DENY_TOTAL_LIMIT \<and>
     length (m_recorded m) \<le> MAX_RECORDED_PERMISSION_DECISIONS \<and>
     edit_policy (m_state m) \<noteq> EditAllow \<and>
     VALIDATED_MCP_SERVER_GRANTS_VERSION \<le> validated_mcp_server_grants_version (m_state m)"

definition counters_ok :: "manager \<Rightarrow> bool" where
  "counters_ok m \<longleftrightarrow> m_consecutive m \<le> AUTO_DENY_CONSECUTIVE_LIMIT \<and> m_consecutive m \<le> m_total m \<and>
     m_total m \<le> AUTO_DENY_TOTAL_LIMIT \<and> length (m_recorded m) \<le> MAX_RECORDED_PERMISSION_DECISIONS"

lemma manager_inv_eq: "manager_inv cfg m \<longleftrightarrow> \<not> (m_yolo m \<and> m_auto m) \<and> (m_yolo m \<longrightarrow> mc_yolo_pin cfg = None) \<and> counters_ok m \<and>
     edit_policy (m_state m) \<noteq> EditAllow \<and> VALIDATED_MCP_SERVER_GRANTS_VERSION \<le> validated_mcp_server_grants_version (m_state m)"
  by (auto simp: manager_inv_def counters_ok_def)

lemma counters_reload [simp]: "counters_ok (reloaded cfg w rq m) = counters_ok m"
  by (simp add: reloaded_def reload_def counters_ok_def)

lemma counters_save [simp]: "counters_ok (save cfg w s m) = counters_ok m"
  by (simp add: save_def counters_ok_def)

lemma counters_upd [simp]: "counters_ok (m\<lparr>m_allow_edits := b\<rparr>) = counters_ok m" "counters_ok (m\<lparr>m_allow_computer := b\<rparr>) = counters_ok m"
  by (simp_all add: counters_ok_def)

lemma counters_answer [simp]: "counters_ok (snd (snd (answer_prompt env cfg w access m))) = counters_ok m"
proof -
  have b: "counters_ok (snd (snd (bash_answer env cfg w cmd outc m))) = counters_ok m" for cmd outc
    by (cases outc) (simp_all add: bash_answer_def Let_def)
  have o: "counters_ok (snd (snd (other_answer env cfg w access a m))) = counters_ok m" for a
    unfolding other_answer_def Let_def
    by (cases "case access of AgentMessageAccess _ \<Rightarrow> agent_message_outcome a | _ \<Rightarrow> a")
       (simp_all add: allow_domain_def split: access_kind.split option.split)
  show ?thesis using o by (cases access) (simp_all add: answer_prompt_def b)
qed

lemma counters_record: "counters_ok m \<Longrightarrow> counters_ok (record_decision env access d kind m)"
  by (auto simp: record_decision_def counters_ok_def Let_def MAX_RECORDED_PERMISSION_DECISIONS_def split: option.split)

lemma counters_zero: "counters_ok m \<Longrightarrow> counters_ok (m\<lparr>m_consecutive := 0, m_total := 0\<rparr>)"
  by (simp add: counters_ok_def)

lemma counters_prompt: "counters_ok m \<Longrightarrow> counters_ok (snd (prompt_user env cfg w rq f r m))"
proof -
  assume "counters_ok m"
  moreover obtain d kind n where a: "answer_prompt env cfg w (rq_access rq) m = (d, kind, n)" by (rule prod_cases3)
  ultimately have "counters_ok n" using counters_answer [of env cfg w "rq_access rq" m] by simp
  with \<open>counters_ok m\<close> show ?thesis
    by (simp add: prompt_user_def Let_def a counters_zero counters_record)
qed

lemma counters_auto:
  assumes "counters_ok m"
  shows "auto_route cfg w rq f m = Inl result \<Longrightarrow> counters_ok (snd result)"
    and "auto_route cfg w rq f m = Inr (r, n) \<Longrightarrow> counters_ok n"
proof -
  have "case auto_route cfg w rq f m of Inl result \<Rightarrow> counters_ok (snd result) | Inr (r, n) \<Rightarrow> counters_ok n"
  proof (cases rule: auto_route_cases [of cfg w rq f m])
    case classify
    show ?thesis
    proof (cases rule: classify_request_cases [of cfg w rq f m])
      case (verdict cl cx outc)
      then show ?thesis
        using classify assms by (cases rule: after_verdict_cases [of cfg rq cl cx outc m]) (auto simp: counters_ok_def)
    qed (use classify assms in simp)
  qed (use assms in auto)
  then show "auto_route cfg w rq f m = Inl result \<Longrightarrow> counters_ok (snd result)"
    "auto_route cfg w rq f m = Inr (r, n) \<Longrightarrow> counters_ok n" by auto
qed

lemma counters_request: "counters_ok m \<Longrightarrow> counters_ok (snd (handle_request env cfg w rq m))"
  by (cases rule: handle_request_cases [of env cfg w rq m])
     (auto intro!: counters_prompt dest: counters_auto [of "reloaded cfg w rq m", rotated])

lemma manager_inv_command:
  assumes "manager_inv cfg m"
  shows "manager_inv cfg (snd (run_command env cfg w c m))"
proof (cases c)
  case (Request rq)
  have "keeps (snd (handle_request env cfg w rq m)) m" by (rule keeps_request)
  then show ?thesis
    using assms counters_request [of m env cfg w rq] Request
    by (simp add: manager_inv_eq keeps_def run_command_def split_def)
qed (use assms in \<open>auto simp: manager_inv_eq run_command_def set_yolo_def set_auto_def clamp_yolo_def counters_ok_def
      reset_state_def default_state_def VALIDATED_MCP_SERVER_GRANTS_VERSION_def Let_def\<close>)

lemma validated_version: "VALIDATED_MCP_SERVER_GRANTS_VERSION \<le> validated_mcp_server_grants_version (validated s)"
  by (simp add: validated_def)

lemma loaded_version: "VALIDATED_MCP_SERVER_GRANTS_VERSION \<le> validated_mcp_server_grants_version (load_state_with_fallback disk client)"
  by (auto simp: load_state_with_fallback_def load_state_from_dir_def try_load_state_def validated_version default_state_def
      split: option.split)

lemma manager_inv_spawn: "manager_inv cfg (spawn_manager cfg requested ok disk)"
  using loaded_version [of disk "mc_client_identifier cfg"]
  by (auto simp: manager_inv_def spawn_manager_def Let_def clamp_yolo_def)

section \<open>The system's invariant\<close>

definition writes_yolo :: "command \<Rightarrow> bool" where
  "writes_yolo c = (case c of SetYoloMode _ \<Rightarrow> True | SetAutoMode enabled \<Rightarrow> enabled | _ \<Rightarrow> False)"

definition writes_auto :: "'g manager_config \<Rightarrow> command \<Rightarrow> bool" where
  "writes_auto cfg c = (case c of SetAutoMode _ \<Rightarrow> True | SetYoloMode enabled \<Rightarrow> clamp_yolo enabled (mc_yolo_pin cfg) | _ \<Rightarrow> False)"

definition system_inv :: "'g manager_config \<Rightarrow> manager_system \<Rightarrow> bool" where
  "system_inv cfg y \<longleftrightarrow> manager_inv cfg (sys_manager y) \<and> \<not> (yolo_state y \<and> auto_state y) \<and>
     (yolo_state y \<longrightarrow> mc_yolo_pin cfg = None) \<and>
     (alive y \<and> \<not> list_ex writes_yolo (sys_queue y) \<longrightarrow> yolo_state y = m_yolo (sys_manager y)) \<and>
     (alive y \<and> \<not> list_ex (writes_auto cfg) (sys_queue y) \<longrightarrow> auto_state y = m_auto (sys_manager y))"

lemma system_inv_send:
  "\<not> mode_command c \<Longrightarrow> system_inv cfg (send c y) = system_inv cfg y"
  by (cases c) (auto simp: system_inv_def send_def writes_yolo_def writes_auto_def)

lemma run_command_modes:
  "m_yolo (snd (run_command env cfg w c m)) = (case c of SetYoloMode e \<Rightarrow> clamp_yolo e (mc_yolo_pin cfg)
     | SetAutoMode e \<Rightarrow> if e then False else m_yolo m | _ \<Rightarrow> m_yolo m)"
  "m_auto (snd (run_command env cfg w c m)) = (case c of SetAutoMode e \<Rightarrow> e
     | SetYoloMode e \<Rightarrow> if clamp_yolo e (mc_yolo_pin cfg) then False else m_auto m | _ \<Rightarrow> m_auto m)"
  using keeps_request [of env cfg w _ m]
  by (cases c; simp add: run_command_def set_yolo_def set_auto_def reset_state_def split_def Let_def keeps_def)+

lemma system_inv_actor: "system_inv cfg y \<Longrightarrow> system_inv cfg (actor_step env cfg w y)"
proof (cases "sys_queue y")
  case (Cons c rest)
  assume i: "system_inv cfg y"
  then have "manager_inv cfg (snd (run_command env cfg w c (sys_manager y)))"
    by (intro manager_inv_command) (simp add: system_inv_def)
  with i Cons show ?thesis
    by (cases c) (auto simp: actor_step_def actor_flags_def system_inv_def run_command_modes writes_yolo_def writes_auto_def
        clamp_yolo_def Let_def)
qed (simp add: actor_step_def)

lemma system_inv_step: "system_step env cfg y z \<Longrightarrow> system_inv cfg y \<Longrightarrow> system_inv cfg z"
proof (induction rule: system_step.induct)
  case (set_yolo y enabled)
  then show ?case
    by (auto simp: handle_set_yolo_mode_def send_def system_inv_def writes_yolo_def writes_auto_def clamp_yolo_def Let_def)
next
  case (set_auto y enabled)
  then show ?case
    by (auto simp: handle_set_auto_mode_def send_def system_inv_def writes_yolo_def writes_auto_def)
next
  case (set_classifier y installed)
  then show ?case by (simp add: handle_set_classifier_def system_inv_send) (simp add: system_inv_def)
next
  case (set_side_query y has_side_query)
  then show ?case by (simp add: handle_set_classifier_with_side_query_def system_inv_send) (simp add: system_inv_def)
next
  case (set_wired y wired)
  then show ?case by (simp add: handle_set_llm_side_query_wired_def system_inv_def)
next
  case (other_session y disk)
  then show ?case by (simp add: system_inv_def manager_inv_def)
qed (simp_all add: system_inv_send system_inv_actor)

lemma system_inv_spawn: "system_inv cfg (spawn_system cfg requested ok disk)"
  using manager_inv_spawn [of cfg requested ok disk] by (simp add: system_inv_def spawn_system_def Let_def manager_inv_def)

lemma reachable_system_inv: "reachable_system env cfg y \<Longrightarrow> system_inv cfg y"
  by (induction rule: reachable_system.induct) (rule system_inv_spawn, rule system_inv_step)

text \<open>
  C10. A permission manager stays in its bounds: in every reachable system always-approve and auto mode
  exclude each other, both in the actor and in what handles report, always-approve is never on when
  it is pinned off, at most three denials in a row and twenty in total are given without a person,
  at most twelve decisions are shown to a classifier, and neither a persisted allowance for all edits
  nor server grants from before names were validated are in force.
\<close>

theorem manager_stays_in_bounds:
  assumes "reachable_system env cfg y"
  shows "\<not> (m_yolo (sys_manager y) \<and> m_auto (sys_manager y)) \<and>
    \<not> (is_yolo_mode ActorHandle y \<and> is_auto_mode ActorHandle y) \<and>
    (mc_yolo_pin cfg = None \<or> \<not> m_yolo (sys_manager y) \<and> \<not> is_yolo_mode ActorHandle y) \<and>
    m_consecutive (sys_manager y) \<le> 3 \<and> m_consecutive (sys_manager y) \<le> m_total (sys_manager y) \<and>
    m_total (sys_manager y) \<le> 20 \<and> length (m_recorded (sys_manager y)) \<le> 12 \<and>
    edit_policy (m_state (sys_manager y)) \<noteq> EditAllow \<and>
    1 \<le> validated_mcp_server_grants_version (m_state (sys_manager y))"
  using reachable_system_inv [OF assms]
  by (auto simp: system_inv_def manager_inv_def is_yolo_mode_def is_auto_mode_def AUTO_DENY_CONSECUTIVE_LIMIT_def
      AUTO_DENY_TOTAL_LIMIT_def MAX_RECORDED_PERMISSION_DECISIONS_def VALIDATED_MCP_SERVER_GRANTS_VERSION_def)

text \<open>
  C26. What handles report is what requests get: however the changes of several handles and the actor
  interleave, once no mode change is waiting in the queue of a running actor, \<open>is_yolo_mode\<close> and
  \<open>is_auto_mode\<close> return the modes the actor decides by.
\<close>

theorem settled_modes_agree:
  assumes "reachable_system env cfg y" and "alive y" and "\<not> list_ex mode_command (sys_queue y)"
  shows "is_yolo_mode ActorHandle y = m_yolo (sys_manager y) \<and> is_auto_mode ActorHandle y = m_auto (sys_manager y)"
proof -
  have "\<not> list_ex writes_yolo (sys_queue y)" "\<not> list_ex (writes_auto cfg) (sys_queue y)"
    using assms(3) by (auto simp: list_ex_iff writes_yolo_def writes_auto_def split: command.splits)
  with reachable_system_inv [OF assms(1)] assms(2) show ?thesis
    by (simp add: system_inv_def is_yolo_mode_def is_auto_mode_def)
qed

definition demo_system :: manager_system where
  "demo_system = actor_step demo_env (demo_config []) (demo_world AllowOnce)
     (handle_set_auto_mode True (spawn_system (demo_config []) True True \<lparr>store_dir = Map.empty, legacy_dir = None\<rparr>))"

lemma demo_system_reachable: "reachable_system demo_env (demo_config []) demo_system"
  unfolding demo_system_def by (rule stepped [OF stepped [OF spawned system_step.set_auto] system_step.actor])

theorem manager_stays_in_bounds_witness:
  "m_total (sys_manager demo_system) \<le> 20 \<and> m_auto (sys_manager demo_system) \<and> \<not> m_yolo (sys_manager demo_system)"
proof -
  have "m_auto (sys_manager demo_system)" by code_simp
  then show ?thesis using manager_stays_in_bounds [OF demo_system_reachable] by blast
qed

theorem settled_modes_agree_witness:
  "is_yolo_mode ActorHandle demo_system = m_yolo (sys_manager demo_system) \<and>
   is_auto_mode ActorHandle demo_system = m_auto (sys_manager demo_system)"
proof (rule settled_modes_agree [OF demo_system_reachable])
  show "alive demo_system" by code_simp
  show "\<not> list_ex mode_command (sys_queue demo_system)" by code_simp
qed

end
