(* ===== verification/Shell_Tree.thy ===== *)
theory Shell_Tree
  imports Bash_Evaluation Text_Truncation "HOL-Library.Multiset"
begin

text \<open>
  The syntax tree of a script and the code that walks it: which scripts decompose into plain commands
  (\<open>permission/bash_command_splitting.rs\<close>) and the variables a script assigns (\<open>auto_mode/mod.rs\<close>).  A tree is what tree-sitter returns: nodes with a
  kind, byte offsets, children and the field they fill in their parent.  A loop over a stack of nodes
  is a recursion on the stack, whose head is the top; offsets lie on character boundaries.
\<close>

section \<open>Trees\<close>

datatype shell_node = ShellNode
  (node_kind: rstring)
  (is_named: bool)
  (field_name: "rstring option")
  (start_byte: nat)
  (end_byte: nat)
  (has_error: bool)
  (node_children: "shell_node list")

type_synonym shell_parser = "rstring \<Rightarrow> shell_node option"  \<comment> \<open>\<open>try_parse_shell\<close>\<close>

definition kind_is :: "shell_node \<Rightarrow> string \<Rightarrow> bool" where
  "kind_is n k \<longleftrightarrow> node_kind n = lit k"

definition byte_suffix :: "nat \<Rightarrow> rstring \<Rightarrow> rstring" where
  \<comment> \<open>\<open>&text[start..]\<close>\<close>
  "byte_suffix i s = drop (length (byte_prefix i s)) s"

definition utf8_text :: "rstring \<Rightarrow> shell_node \<Rightarrow> rstring option" where
  "utf8_text src n =
     (if start_byte n \<le> end_byte n \<and> is_char_boundary src (start_byte n) \<and> is_char_boundary src (end_byte n)
      then Some (byte_suffix (start_byte n) (byte_prefix (end_byte n) src)) else None)"

definition named_children :: "shell_node \<Rightarrow> shell_node list" where
  "named_children n = filter is_named (node_children n)"

definition child_by_field_name :: "shell_node \<Rightarrow> string \<Rightarrow> shell_node option" where
  "child_by_field_name n f = find (\<lambda>c. field_name c = Some (lit f)) (node_children n)"

section \<open>Walking\<close>

text \<open>A node together with its ancestors, the nearest first, each with the index of the child below.\<close>

type_synonym located = "shell_node \<times> (shell_node \<times> nat) list"

definition located_children :: "located \<Rightarrow> located list" where
  "located_children x = map (\<lambda>(i, c). (c, (fst x, i) # snd x)) (List.enumerate 0 (node_children (fst x)))"

definition stack_size :: "located list \<Rightarrow> nat" where
  "stack_size st = sum_list (map (size \<circ> fst) st)"

lemma stack_size_simps [simp]:
  "stack_size [] = 0"
  "stack_size (x # st) = size (fst x) + stack_size st"
  "stack_size (st @ tu) = stack_size st + stack_size tu"
  "stack_size (rev st) = stack_size st"
  by (simp_all add: stack_size_def rev_map [symmetric] sum_list_rev)

lemma size_list_sum: "sum_list (map f xs) \<le> size_list f xs"
  by (induction xs) auto

lemma located_children_smaller: "stack_size (located_children x) < size (fst x)"
proof -
  have "map (size \<circ> fst) (located_children x) = map size (node_children (fst x))"
    unfolding located_children_def
    by (subst (2) map_snd_enumerate [of 0 "node_children (fst x)", symmetric]) (simp add: case_prod_unfold o_def del: map_snd_enumerate)
  with size_list_sum [of size "node_children (fst x)"] show ?thesis
    by (cases "fst x") (simp add: stack_size_def)
qed

function walk_stack :: "located list \<Rightarrow> located list" where
  \<comment> \<open>\<open>while let Some(node) = stack.pop()\<close>, pushing the children from the first to the last\<close>
  "walk_stack [] = []"
| "walk_stack (x # stack) = x # walk_stack (rev (located_children x) @ stack)"
  by pat_completeness auto
termination
  by (relation "measure stack_size") (simp_all add: located_children_smaller)

definition walk_tree :: "shell_node \<Rightarrow> located list" where
  "walk_tree root_node = walk_stack [(root_node, [])]"

function walk_outer :: "(rstring \<Rightarrow> bool) \<Rightarrow> located list \<Rightarrow> located list" where
  \<comment> \<open>the walks that do not enter some kinds, pushing the children from the last to the first\<close>
  "walk_outer shut [] = []"
| "walk_outer shut (x # stack) =
     (if shut (node_kind (fst x)) then x # walk_outer shut stack else x # walk_outer shut (located_children x @ stack))"
  by pat_completeness auto
termination
proof (relation "measure (stack_size \<circ> snd)", goal_cases)
  case (2 shut x stack)
  then show ?case by (cases "fst x") simp
qed (simp_all add: located_children_smaller)

section \<open>Plain commands\<close>

definition ALLOWED_KINDS :: "rstring list" where
  "ALLOWED_KINDS = map lit [''program'', ''list'', ''pipeline'', ''command'', ''command_name'', ''word'', ''string'',
     ''string_content'', ''raw_string'', ''number'', ''concatenation'', ''variable_assignment'', ''variable_name'',
     ''redirected_statement'', ''file_redirect'', ''file_descriptor'', ''comment'', ''heredoc_redirect'', ''heredoc_start'',
     ''heredoc_body'', ''heredoc_content'', ''heredoc_end'']"

definition ALLOWED_PUNCT_TOKENS :: "rstring list" where
  "ALLOWED_PUNCT_TOKENS = map lit [''&&'', ''||'', '';'', ''|'', [CHR 0x22], [CHR 0x27], ''='', ''>'', ''>>'', ''<'', ''<<'',
     ''>&'', ''&>'', ''&>>'']"

definition allowed_node :: "shell_node \<Rightarrow> bool" where
  "allowed_node n =
     (let kind = node_kind n in
      if is_named n then kind \<in> set ALLOWED_KINDS
      else if list_ex (\<lambda>c. c \<in> set (lit ''&;|'')) kind \<and> kind \<notin> set ALLOWED_PUNCT_TOKENS then False
      else kind \<in> set ALLOWED_PUNCT_TOKENS \<or> trim kind = [])"

datatype plain_child = SkipChild | WordChild rstring nat nat  \<comment> \<open>a word and the span it is highlighted with\<close>

definition word_of :: "rstring \<Rightarrow> shell_node \<Rightarrow> shell_node \<Rightarrow> plain_child option" where
  "word_of src n outer = map_option (\<lambda>t. WordChild t (start_byte outer) (end_byte outer)) (utf8_text src n)"

definition is_plain_string :: "shell_node \<Rightarrow> bool" where
  "is_plain_string n = (case node_children n of
     [a, b, c] \<Rightarrow> kind_is a [CHR 0x22] \<and> kind_is b ''string_content'' \<and> kind_is c [CHR 0x22]
   | _ \<Rightarrow> False)"

definition plain_child_of :: "rstring \<Rightarrow> shell_node \<Rightarrow> plain_child option" where
  "plain_child_of src c =
     (if kind_is c ''variable_assignment'' then Some SkipChild
      else if kind_is c ''command_name'' then
        (case named_children c of w # _ \<Rightarrow> if kind_is w ''word'' then word_of src w w else None | [] \<Rightarrow> None)
      else if kind_is c ''word'' \<or> kind_is c ''number'' then word_of src c c
      else if kind_is c ''string'' \<and> is_plain_string c then word_of src (node_children c ! 1) c
      else if kind_is c ''raw_string'' then
        Option.bind (utf8_text src c) (\<lambda>raw. Option.bind (strip_prefix raw [39]) (\<lambda>s. Option.bind (strip_suffix s [39]) (\<lambda>s.
          Some (WordChild s (start_byte c) (end_byte c)))))
      else if kind_is c ''concatenation'' then word_of src c c
      else None)"

definition words_of :: "plain_child list \<Rightarrow> (rstring \<times> nat \<times> nat) list" where
  "words_of cs = List.map_filter (\<lambda>c. case c of SkipChild \<Rightarrow> None | WordChild t a b \<Rightarrow> Some (t, a, b)) cs"

definition parse_plain_command_from_node :: "rstring \<Rightarrow> shell_node \<Rightarrow> plain_command option" where
  "parse_plain_command_from_node src cmd =
     (if \<not> kind_is cmd ''command'' then None
      else map_option (\<lambda>cs.
        let ws = words_of cs;
            span_start = (if ws = [] then start_byte cmd else fst (snd (hd ws)));
            span_end = (if ws = [] then end_byte cmd else snd (snd (last ws)))
        in \<lparr>pc_words = map fst ws, pc_before = byte_prefix span_start src, pc_after = byte_suffix span_end src\<rparr>)
        (those (map (plain_child_of src) (named_children cmd))))"

definition command_nodes :: "shell_node \<Rightarrow> shell_node list" where
  "command_nodes root_node = sort_key start_byte (filter (\<lambda>n. is_named n \<and> kind_is n ''command'') (map fst (walk_tree root_node)))"

definition try_parse_word_only_commands_sequence :: "shell_node \<Rightarrow> rstring \<Rightarrow> plain_command list option" where
  \<comment> \<open>the loop stops at the first node that is not allowed, with the same result\<close>
  "try_parse_word_only_commands_sequence root_node src =
     (if has_error root_node then None
      else if list_all allowed_node (map fst (walk_tree root_node))
        then those (map (parse_plain_command_from_node src) (command_nodes root_node))
      else None)"

section \<open>Assignments\<close>

definition assignment_key :: "rstring \<Rightarrow> shell_node \<Rightarrow> rstring" where
  "assignment_key src n =
     (case find (\<lambda>c. kind_is c ''variable_name'' \<and> utf8_text src c \<noteq> None) (node_children n) of
        Some c \<Rightarrow> the (utf8_text src c)
      | None \<Rightarrow> (case utf8_text src n of Some t \<Rightarrow> takeWhile (\<lambda>c. c \<noteq> 61) t | None \<Rightarrow> []))"

definition assignment_keys :: "shell_node \<Rightarrow> rstring \<Rightarrow> rstring list" where
  "assignment_keys root_node src =
     map (assignment_key src) (filter (\<lambda>n. kind_is n ''variable_assignment'') (map fst (walk_tree root_node)))"

section \<open>The walk visits every node once\<close>

primrec nodes_of :: "shell_node \<Rightarrow> shell_node list" where
  \<comment> \<open>the node and everything below it, in the order of the text\<close>
  "nodes_of (ShellNode k nm f a b e cs) = ShellNode k nm f a b e cs # concat (map nodes_of cs)"

lemma mset_concat_rev: "mset (concat (rev xs)) = mset (concat xs)"
  by (induction xs) auto

lemma nodes_of_located: "concat (map (nodes_of \<circ> fst) (located_children x)) = concat (map nodes_of (node_children (fst x)))"
proof -
  have "map (nodes_of \<circ> fst) (located_children x) = map nodes_of (map snd (List.enumerate 0 (node_children (fst x))))"
    unfolding located_children_def by (simp add: case_prod_unfold o_def del: map_snd_enumerate)
  then show ?thesis by simp
qed

lemma walk_stack_visits: "mset (map fst (walk_stack st)) = mset (concat (map (nodes_of \<circ> fst) st))"
proof (induction st rule: walk_stack.induct)
  case (2 x st)
  have "nodes_of (fst x) = fst x # concat (map nodes_of (node_children (fst x)))" by (cases "fst x") simp
  moreover have "mset (concat (map (nodes_of \<circ> fst) (rev (located_children x)))) = mset (concat (map nodes_of (node_children (fst x))))"
    by (simp only: rev_map [symmetric] mset_concat_rev nodes_of_located)
  ultimately show ?case using 2 by (simp add: o_def)
qed simp

lemma walk_tree_visits: "mset (map fst (walk_tree root_node)) = mset (nodes_of root_node)"
  using walk_stack_visits [of "[(root_node, [])]"] by (simp add: walk_tree_def del: walk_stack.simps)

lemma set_walk_tree: "fst ` set (walk_tree root_node) = set (nodes_of root_node)"
  by (metis walk_tree_visits set_map set_mset_mset)

section \<open>Decomposition\<close>

lemma those_Some_iff: "those xs = Some ys \<longleftrightarrow> xs = map Some ys"
  by (induction xs arbitrary: ys) (auto split: option.splits)

definition leaf :: "string \<Rightarrow> bool \<Rightarrow> nat \<Rightarrow> nat \<Rightarrow> shell_node" where
  "leaf k named a b = ShellNode (lit k) named None a b False []"

definition inner_node :: "string \<Rightarrow> nat \<Rightarrow> nat \<Rightarrow> shell_node list \<Rightarrow> shell_node" where
  "inner_node k a b cs = ShellNode (lit k) True None a b False cs"

definition word_command :: "nat \<Rightarrow> nat \<Rightarrow> shell_node" where
  "word_command a b = inner_node ''command'' a b [inner_node ''command_name'' a b [leaf ''word'' True a b]]"

definition pipe_tree :: shell_node where
  \<comment> \<open>the script \<open>ls|wc\<close>\<close>
  "pipe_tree = inner_node ''program'' 0 5 [inner_node ''pipeline'' 0 5 [word_command 0 2, leaf ''|'' False 2 3, word_command 3 5]]"

text \<open>
  A script counts as a sequence of plain commands only if the whole of it is understood: when the
  decomposition succeeds, every node of the syntax tree, at any depth, is of an allowed kind, so no
  substitution, subshell or control structure is anywhere in it, and the commands are exactly those of
  the tree, each once, in the order of the text.
\<close>

theorem word_only_decomposition:
  assumes "try_parse_word_only_commands_sequence root_node src = Some cmds"
  shows "list_all allowed_node (nodes_of root_node) \<and>
    (\<exists>ns. mset ns = filter_mset (\<lambda>n. is_named n \<and> kind_is n ''command'') (mset (nodes_of root_node)) \<and>
       sorted (map start_byte ns) \<and> map (parse_plain_command_from_node src) ns = map Some cmds)"
proof
  have ok: "list_all allowed_node (map fst (walk_tree root_node))"
    and cmds: "those (map (parse_plain_command_from_node src) (command_nodes root_node)) = Some cmds"
    using assms by (auto simp: try_parse_word_only_commands_sequence_def split: if_splits)
  show "list_all allowed_node (nodes_of root_node)"
    using ok by (simp add: list_all_iff set_walk_tree)
  show "\<exists>ns. mset ns = filter_mset (\<lambda>n. is_named n \<and> kind_is n ''command'') (mset (nodes_of root_node)) \<and>
      sorted (map start_byte ns) \<and> map (parse_plain_command_from_node src) ns = map Some cmds"
    using cmds by (intro exI [of _ "command_nodes root_node"])
      (simp add: command_nodes_def those_Some_iff flip: walk_tree_visits)
qed

lemma pipe_tree_commands:
  "try_parse_word_only_commands_sequence pipe_tree (lit ''ls|wc'') =
     Some [\<lparr>pc_words = [lit ''ls''], pc_before = [], pc_after = lit ''|wc''\<rparr>,
       \<lparr>pc_words = [lit ''wc''], pc_before = lit ''ls|'', pc_after = []\<rparr>]"
  by code_simp

theorem word_only_decomposition_witness:
  "list_all allowed_node (nodes_of pipe_tree) \<and>
    (\<exists>ns. mset ns = filter_mset (\<lambda>n. is_named n \<and> kind_is n ''command'') (mset (nodes_of pipe_tree)) \<and>
       sorted (map start_byte ns) \<and> map (parse_plain_command_from_node (lit ''ls|wc'')) ns =
         map Some [\<lparr>pc_words = [lit ''ls''], pc_before = [], pc_after = lit ''|wc''\<rparr>,
           \<lparr>pc_words = [lit ''wc''], pc_before = lit ''ls|'', pc_after = []\<rparr>])"
  by (rule word_only_decomposition [OF pipe_tree_commands])

end
