(* ===== verification/Shell_File_Access.thy ===== *)
theory Shell_File_Access
  imports Shell_Tree Protected_Edits
begin

text \<open>
  The gate for the files a shell command reads and writes (\<open>permission/shell_access.rs\<close>): redirects of
  any program and the operands of well-known readers and writers are checked against the rules for
  the \<open>Read\<close> and \<open>Edit\<close> tools, in inline scripts too.  What cannot be pinned down asks.  The tree of a
  script comes from the parser given as an argument; rules and links are those of \<open>Permission_Policy\<close>.
\<close>

section \<open>Programs and their operands\<close>

datatype shell_file_mode = ReadMode | WriteMode | CreateMode

definition shell_program_name :: "rstring \<Rightarrow> rstring" where
  "shell_program_name w = basename w"

definition shell_file_mode_of :: "rstring \<Rightarrow> shell_file_mode option" where
  "shell_file_mode_of program =
     (if program \<in> set (map lit [''cat'', ''tac'', ''nl'', ''head'', ''tail'', ''grep'', ''egrep'', ''fgrep'', ''rg'', ''sed'',
         ''awk'', ''less'', ''more'', ''bat'', ''strings'', ''xxd'', ''od'', ''hexdump'', ''base64'', ''base32'', ''cut'', ''sort'',
         ''uniq'', ''wc'', ''type'', ''get-content'', ''gc'', ''diff'', ''comm'', ''rev'', ''jq'', ''yq'', ''select-string'', ''sls'',
         ''ag'', ''ack'', ''zcat'', ''zless'', ''zmore'', ''zgrep'', ''zegrep'', ''zfgrep'', ''bzcat'', ''bzgrep'', ''xzcat'',
         ''xzgrep'', ''zstdcat'', ''lz4cat'']) then Some ReadMode
      else if program \<in> set (map lit [''tee'', ''set-content'', ''out-file'', ''add-content'', ''tee-object'', ''truncate''])
        then Some WriteMode
      else None)"

fun candidate_loop :: "bool \<Rightarrow> rstring list \<Rightarrow> rstring list" where
  "candidate_loop end_of_options [] = []"
| "candidate_loop end_of_options (token # tokens) =
     (if \<not> end_of_options \<and> token = lit ''--'' then candidate_loop True tokens
      else if end_of_options \<or> token \<noteq> lit ''-'' \<and> \<not> starts_with token [45] then token # candidate_loop end_of_options tokens
      else candidate_loop end_of_options tokens)"

definition shell_file_candidates :: "rstring list \<Rightarrow> rstring list" where
  "shell_file_candidates words = candidate_loop False (tl words)"

definition shell_path_command_operands :: "rstring \<Rightarrow> rstring list \<Rightarrow> (rstring \<times> shell_file_mode) list option" where
  "shell_path_command_operands program words =
     (let operands = shell_file_candidates words in
      if program \<in> set (map lit [''cp'', ''mv'', ''ln'', ''install'']) then
        (if operands = [] then None
         else Some (map (\<lambda>s. (s, ReadMode)) (butlast operands) @ [(last operands, WriteMode)]))
      else if program \<in> set (map lit [''rm'', ''rmdir'']) then Some (map (\<lambda>c. (c, WriteMode)) operands)
      else if is_creation_program program then Some (map (\<lambda>c. (c, CreateMode)) operands)
      else if program = lit ''uniq'' then
        (case operands of
           i # out # _ \<Rightarrow> Some [(i, ReadMode), (out, WriteMode)]
         | _ \<Rightarrow> None)
      else None)"

definition shell_sed_in_place :: "rstring list \<Rightarrow> bool" where
  "shell_sed_in_place words = list_ex (\<lambda>w. w = lit ''--in-place'' \<or> starts_with w (lit ''--in-place='') \<or>
     starts_with w [45] \<and> \<not> starts_with w (lit ''--'') \<and> 105 \<in> set w) (tl words)"

definition nonempty_value :: "rstring option \<Rightarrow> rstring option" where
  "nonempty_value v = (case v of Some [] \<Rightarrow> None | _ \<Rightarrow> v)"

fun shell_output_flag_values :: "rstring list \<Rightarrow> rstring list" where
  "shell_output_flag_values [] = []"
| "shell_output_flag_values (token # rest) =
     (case strip_prefix token (lit ''--output='') of
        Some v \<Rightarrow> [v]
      | None \<Rightarrow> (case nonempty_value (strip_prefix token (lit ''-o'')) of
          Some v \<Rightarrow> [v]
        | None \<Rightarrow> if token = lit ''--output'' \<or> token = lit ''-o'' then take 1 rest else []))
     @ shell_output_flag_values rest"

fun value_flag_values :: "rstring \<Rightarrow> rstring list \<Rightarrow> rstring list" where
  "value_flag_values flag [] = []"
| "value_flag_values flag (token # rest) =
     (case strip_prefix token (flag @ [61]) of
        Some v \<Rightarrow> [v]
      | None \<Rightarrow>
          if token = flag then take 1 rest
          else if \<not> starts_with flag (lit ''--'')
            then (case nonempty_value (strip_prefix token flag) of Some v \<Rightarrow> [v] | None \<Rightarrow> [])
          else [])
     @ value_flag_values flag rest"

definition dd_operand :: "rstring \<Rightarrow> (rstring \<times> shell_file_mode) option" where
  "dd_operand token = (case strip_prefix token (lit ''if='') of
     Some path \<Rightarrow> Some (path, ReadMode)
   | None \<Rightarrow> map_option (\<lambda>path. (path, WriteMode)) (strip_prefix token (lit ''of='')))"

definition special_file_operands :: "rstring \<Rightarrow> rstring list \<Rightarrow> (rstring \<times> shell_file_mode) list" where
  "special_file_operands program words =
     (if program = lit ''dd'' then List.map_filter dd_operand (tl words)
      else if program \<in> set (map lit [''sort'', ''go'', ''git'']) then
        map (\<lambda>out. (out, WriteMode)) (shell_output_flag_values words)
      else if program = lit ''rustc'' then
        map (\<lambda>out. (out, WriteMode)) (shell_output_flag_values words @ value_flag_values (lit ''--out-dir'') words)
      else if program = lit ''rustfmt'' then map (\<lambda>path. (path, WriteMode)) (shell_file_candidates words)
      else [])"

definition shell_access :: "shell_file_mode \<Rightarrow> rstring \<Rightarrow> access_kind" where
  "shell_access mode path = (case mode of ReadMode \<Rightarrow> ReadAccess (Some path) | _ \<Rightarrow> EditAccess path)"

definition shell_arg_is_ambiguous :: "rstring \<Rightarrow> bool" where
  "shell_arg_is_ambiguous token \<longleftrightarrow> 42 \<in> set token \<or> 63 \<in> set token \<or> 91 \<in> set token"

definition is_directory_operand :: "rstring \<Rightarrow> bool" where
  "is_directory_operand token \<longleftrightarrow> token = lit ''.'' \<or> token = lit ''..'' \<or> ends_with token [SLASH]"

definition shell_reader_can_recurse :: "rstring \<Rightarrow> rstring list \<Rightarrow> rstring list \<Rightarrow> bool" where
  "shell_reader_can_recurse program words candidates \<longleftrightarrow>
     program \<in> set (map lit [''grep'', ''egrep'', ''fgrep'']) \<and>
       list_ex (\<lambda>w. w = lit ''--recursive'' \<or> w = lit ''--dereference-recursive'' \<or>
         starts_with w [45] \<and> \<not> starts_with w (lit ''--'') \<and> (114 \<in> set w \<or> 82 \<in> set w)) words \<or>
     program \<in> set (map lit [''rg'', ''ag'', ''ack'']) \<and>
       (length candidates \<le> 1 \<or> list_ex is_directory_operand (tl candidates))"

section \<open>Paths\<close>

definition has_drive :: "rstring \<Rightarrow> bool" where
  \<comment> \<open>the second byte is a colon\<close>
  "has_drive p = (case p of c # d # _ \<Rightarrow> c < 128 \<and> d = 58 | _ \<Rightarrow> False)"

definition is_absolute_shell_path :: "rstring \<Rightarrow> bool" where
  "is_absolute_shell_path path \<longleftrightarrow> starts_with path [SLASH] \<or> starts_with path [126, SLASH] \<or> has_drive path"

definition normalize_shell_path_raw :: "rstring \<Rightarrow> rstring" where
  "normalize_shell_path_raw path =
     (let p = map (\<lambda>c. if c = 92 then SLASH else c) (trim_double_single path) in
      case strip_prefix p (lit ''/c/'') of Some rest \<Rightarrow> lit ''C:/'' @ rest | None \<Rightarrow> p)"

definition lexical_step :: "bool \<Rightarrow> rstring list \<Rightarrow> rstring \<Rightarrow> rstring list" where
  "lexical_step absolute out segment =
     (if segment = [] \<or> segment = [DOT] then out
      else if segment = [DOT, DOT] then
        (if out \<noteq> [] \<and> last out \<noteq> [DOT, DOT] then butlast out
         else if \<not> absolute then out @ [[DOT, DOT]] else out)
      else out @ [segment])"

definition lexical_normalize :: "rstring \<Rightarrow> rstring" where
  "lexical_normalize path =
     (let prefix_len = (if has_drive path then 2 else 0);
          drive = take prefix_len path;
          rest = drop prefix_len path;
          absolute = starts_with rest [SLASH];
          body = join [SLASH] (foldl (lexical_step absolute) [] (split_on SLASH rest))
      in if drive \<noteq> [] then (if absolute then drive @ [SLASH] @ body else drive @ body)
         else if absolute then [SLASH] @ body else body)"

definition normalize_shell_path :: "rstring \<Rightarrow> rstring" where
  "normalize_shell_path path = lexical_normalize (normalize_shell_path_raw path)"

section \<open>Scopes and changes of directory\<close>

record execution_scope =
  scope_start :: int
  scope_end :: int

definition scope_contains :: "execution_scope \<Rightarrow> execution_scope \<Rightarrow> bool" where
  "scope_contains a b \<longleftrightarrow> scope_start a \<le> scope_start b \<and> scope_end b \<le> scope_end a"

definition scope_of :: "shell_node \<Rightarrow> execution_scope" where
  "scope_of n = \<lparr>scope_start = int (start_byte n), scope_end = int (end_byte n)\<rparr>"

definition next_sibling :: "shell_node \<Rightarrow> nat \<Rightarrow> shell_node option" where
  "next_sibling parent i = (if Suc i < length (node_children parent) then Some (node_children parent ! Suc i) else None)"

fun execution_scope_of :: "shell_node \<Rightarrow> (shell_node \<times> nat) list \<Rightarrow> execution_scope" where
  "execution_scope_of current [] = \<lparr>scope_start = 0, scope_end = 2 ^ 64 - 1\<rparr>"
| "execution_scope_of current ((parent, i) # up) =
     (if (case next_sibling parent i of Some sibling \<Rightarrow> kind_is sibling ''&'' | None \<Rightarrow> False)
        then scope_of (if kind_is current ''list'' then current else parent)
      else if kind_is parent ''subshell'' \<or> kind_is parent ''command_substitution'' \<or> kind_is parent ''process_substitution''
        then scope_of parent
      else if kind_is parent ''pipeline'' then scope_of current
      else execution_scope_of parent up)"

record cwd_poison =
  poison_at :: nat
  poison_scope :: execution_scope

definition changes_cwd :: "rstring \<Rightarrow> shell_node \<Rightarrow> bool" where
  "changes_cwd src n \<longleftrightarrow> kind_is n ''command'' \<and>
     (case Option.bind (child_by_field_name n ''name'') (utf8_text src) of
        Some program \<Rightarrow> shell_program_name program \<in> set (map lit [''cd'', ''pushd'', ''popd''])
      | None \<Rightarrow> False)"

definition cwd_poison_positions :: "shell_node \<Rightarrow> rstring \<Rightarrow> cwd_poison list" where
  "cwd_poison_positions root_node src =
     map (\<lambda>x. \<lparr>poison_at = start_byte (fst x), poison_scope = execution_scope_of (fst x) (snd x)\<rparr>)
       (filter (\<lambda>x. changes_cwd src (fst x)) (walk_tree root_node))"

definition script_has_cwd_change :: "shell_node \<Rightarrow> rstring \<Rightarrow> bool" where
  "script_has_cwd_change root_node src \<longleftrightarrow> cwd_poison_positions root_node src \<noteq> []"

definition cwd_unpinned_before :: "cwd_poison list \<Rightarrow> nat \<Rightarrow> execution_scope \<Rightarrow> bool" where
  "cwd_unpinned_before positions pos scope =
     list_ex (\<lambda>p. poison_at p < pos \<and> (poison_scope p = scope \<or> scope_contains (poison_scope p) scope)) positions"

section \<open>Words of an invocation\<close>

definition node_has_expansion :: "shell_node \<Rightarrow> bool" where
  \<comment> \<open>the loop looks at the children of every node it takes from the stack\<close>
  "node_has_expansion n = list_ex (\<lambda>x. list_ex (\<lambda>c. node_kind c \<in> set (map lit [''expansion'', ''simple_expansion'',
     ''command_substitution'', ''arithmetic_expansion'', ''process_substitution''])) (node_children (fst x))) (walk_tree n)"

definition is_windows_path_like :: "rstring \<Rightarrow> bool" where
  "is_windows_path_like raw \<longleftrightarrow> starts_with raw [92, 92] \<or>
     (case raw of c # _ \<Rightarrow> is_ascii_alphabetic c | [] \<Rightarrow> False) \<and> has_drive raw"

fun unescape_word :: "rstring \<Rightarrow> rstring option" where
  "unescape_word [] = Some []"
| "unescape_word (c # cs) =
     (if c = 92 then (case cs of [] \<Rightarrow> None | d # ds \<Rightarrow> map_option ((#) d) (unescape_word ds))
      else map_option ((#) c) (unescape_word cs))"

definition decode_unquoted_word :: "rstring \<Rightarrow> rstring option" where
  "decode_unquoted_word raw = (if 92 \<notin> set raw \<or> is_windows_path_like raw then Some raw else unescape_word raw)"

fun unescape_double_quoted :: "rstring \<Rightarrow> rstring option" where
  "unescape_double_quoted [] = Some []"
| "unescape_double_quoted (c # cs) =
     (if c \<noteq> 92 then map_option ((#) c) (unescape_double_quoted cs)
      else (case cs of
          [] \<Rightarrow> None
        | d # ds \<Rightarrow> if d = 36 \<or> d = 96 \<or> d = 34 \<or> d = 92 \<or> d = NL then map_option ((#) d) (unescape_double_quoted ds)
            else map_option (\<lambda>r. 92 # d # r) (unescape_double_quoted ds)))"

definition decode_double_quoted_content :: "rstring \<Rightarrow> rstring option" where
  "decode_double_quoted_content txt = (if 92 \<notin> set txt then Some txt else unescape_double_quoted txt)"

definition arg_text :: "rstring option \<Rightarrow> shell_word" where
  \<comment> \<open>a text that could not be decoded is ambiguous\<close>
  "arg_text t = (case t of Some w \<Rightarrow> LiteralWord w | None \<Rightarrow> UntrustedWord)"

definition strip_quotes :: "rchar \<Rightarrow> rstring \<Rightarrow> rstring" where
  "strip_quotes q raw = (case Option.bind (strip_prefix raw [q]) (\<lambda>s. strip_suffix s [q]) of Some s \<Rightarrow> s | None \<Rightarrow> raw)"

definition shell_node_arg :: "rstring \<Rightarrow> shell_node \<Rightarrow> shell_word option" where
  "shell_node_arg src n =
     (if kind_is n ''variable_assignment'' then None
      else if kind_is n ''word'' \<or> kind_is n ''number'' then Some (arg_text (Option.bind (utf8_text src n) decode_unquoted_word))
      else if kind_is n ''raw_string'' then map_option (\<lambda>raw. LiteralWord (strip_quotes 39 raw)) (utf8_text src n)
      else if kind_is n ''string'' then
        (if node_has_expansion n then Some UntrustedWord
         else map_option (\<lambda>raw. arg_text (decode_double_quoted_content (strip_quotes 34 raw))) (utf8_text src n))
      else if kind_is n ''concatenation'' then
        (if node_has_expansion n then Some UntrustedWord
         else Some (arg_text (Option.bind (utf8_text src n) decode_shell_literal_spelling)))
      else Some UntrustedWord)"

record shell_invocation =
  inv_start :: nat
  inv_scope :: execution_scope
  inv_words :: "shell_word list"
  wrapper_words :: "rstring list"

definition wrapper_word :: "shell_word \<Rightarrow> rstring" where
  "wrapper_word w = (case w of LiteralWord t \<Rightarrow> t | UntrustedWord \<Rightarrow> [0])"

definition command_operand :: "rstring \<Rightarrow> shell_node \<Rightarrow> shell_word option" where
  "command_operand src c =
     (if kind_is c ''command_name'' then (case named_children c of n # _ \<Rightarrow> shell_node_arg src n | [] \<Rightarrow> None)
      else shell_node_arg src c)"

definition invocation_of :: "rstring \<Rightarrow> located \<Rightarrow> shell_invocation" where
  "invocation_of src x =
     (let words = List.map_filter (command_operand src) (named_children (fst x)) in
      \<lparr>inv_start = start_byte (fst x), inv_scope = execution_scope_of (fst x) (snd x),
       inv_words = words, wrapper_words = map wrapper_word words\<rparr>)"

definition shell_command_invocations :: "shell_node \<Rightarrow> rstring \<Rightarrow> shell_invocation list" where
  "shell_command_invocations root_node src =
     sort_key inv_start (map (invocation_of src) (filter (\<lambda>x. kind_is (fst x) ''command'') (walk_tree root_node)))"

definition literal_words :: "shell_word list \<Rightarrow> rstring list" where
  "literal_words ws = List.map_filter (\<lambda>w. case w of LiteralWord t \<Rightarrow> Some t | UntrustedWord \<Rightarrow> None) ws"

definition unwrap_invocation_checked :: "shell_invocation \<Rightarrow> shell_word list \<times> normalized_command_peel" where
  "unwrap_invocation_checked invocation =
     (let norm = normalize_command_words (wrapper_words invocation) in
      (drop (length (wrapper_words invocation) - length (norm_words norm)) (inv_words invocation), norm))"

definition tree_has_opaque_shell :: "shell_node \<Rightarrow> rstring \<Rightarrow> bool" where
  "tree_has_opaque_shell root_node src =
     list_ex (\<lambda>invocation. words_are_opaque_shell (fst (unwrap_invocation_checked invocation)))
       (shell_command_invocations root_node src)"

section \<open>Redirects\<close>

record shell_redirect_target =
  rt_path :: "rstring option"
  rt_mode :: shell_file_mode
  rt_ambiguous :: bool
  rt_start :: nat
  rt_scope :: execution_scope

fun redirect_operator :: "shell_node list \<Rightarrow> rstring option" where
  \<comment> \<open>\<open><<\<close> and \<open><<<\<close> read inline text, not a file\<close>
  "redirect_operator [] = None"
| "redirect_operator (c # cs) =
     (if contains (node_kind c) (lit ''<<'') then None
      else if 62 \<in> set (node_kind c) \<or> 60 \<in> set (node_kind c) then Some (node_kind c)
      else redirect_operator cs)"

definition shell_redirect_one :: "rstring \<Rightarrow> shell_node \<Rightarrow> (rstring option \<times> shell_file_mode \<times> bool) option" where
  "shell_redirect_one src n =
     Option.bind (redirect_operator (node_children n)) (\<lambda>redirect.
       let mode = (if 62 \<in> set redirect then WriteMode else ReadMode);
           duplicates_fd = (redirect = lit ''>&'' \<or> redirect = lit ''<&'')
       in Option.bind (child_by_field_name n ''destination'') (\<lambda>dest.
          Option.bind (shell_node_arg src dest) (\<lambda>arg. case arg of
            LiteralWord s \<Rightarrow>
              if s = [] \<or> starts_with s [38] \<or> duplicates_fd \<and> (s = [45] \<or> list_all is_ascii_digit s) then None
              else Some (Some s, mode, shell_arg_is_ambiguous s)
          | UntrustedWord \<Rightarrow> Some (None, mode, True))))"

definition redirect_target_of :: "rstring \<Rightarrow> located \<Rightarrow> shell_redirect_target option" where
  "redirect_target_of src x =
     (if kind_is (fst x) ''file_redirect'' then
        map_option (\<lambda>(path, mode, amb). \<lparr>rt_path = path, rt_mode = mode, rt_ambiguous = amb,
          rt_start = start_byte (fst x), rt_scope = execution_scope_of (fst x) (snd x)\<rparr>) (shell_redirect_one src (fst x))
      else None)"

definition shell_redirect_targets :: "shell_node \<Rightarrow> rstring \<Rightarrow> shell_redirect_target list" where
  "shell_redirect_targets root_node src = List.map_filter (redirect_target_of src) (walk_tree root_node)"

section \<open>Paths a script writes\<close>

definition command_words_write_paths :: "rstring list \<Rightarrow> rstring list" where
  "command_words_write_paths words =
     (let inner = unwrap_wrappers words in
      case inner of [] \<Rightarrow> []
      | w # _ \<Rightarrow>
          let program = to_ascii_lowercase (shell_program_name w);
              written = (\<lambda>ops. map fst (filter (\<lambda>(p, m). m = WriteMode) ops))
          in written (special_file_operands program inner) @
             (case shell_path_command_operands program inner of
                Some operands \<Rightarrow> written operands
              | None \<Rightarrow>
                  if shell_file_mode_of program = Some WriteMode \<or> program = lit ''sed'' \<and> shell_sed_in_place inner
                  then shell_file_candidates inner else []))"

definition command_words_creation_paths :: "rstring list \<Rightarrow> rstring list" where
  "command_words_creation_paths words =
     (let inner = unwrap_wrappers words in
      case inner of [] \<Rightarrow> []
      | w # _ \<Rightarrow> (case shell_path_command_operands (to_ascii_lowercase (shell_program_name w)) inner of
          Some operands \<Rightarrow> map fst (filter (\<lambda>(p, m). m = CreateMode) operands)
        | None \<Rightarrow> []))"

definition command_write_paths_split :: "shell_node \<Rightarrow> rstring \<Rightarrow> write_paths_split" where
  "command_write_paths_split root_node src =
     (let writes = filter (\<lambda>r. rt_mode r = WriteMode) (shell_redirect_targets root_node src);
          commands = map (\<lambda>i. literal_words (inv_words i)) (shell_command_invocations root_node src)
      in \<lparr>redirect_paths = List.map_filter rt_path writes,
          unextracted_write_redirect = list_ex (\<lambda>r. rt_path r = None) writes,
          word_paths = concat (map command_words_write_paths commands),
          split_creation_paths = concat (map command_words_creation_paths commands)\<rparr>)"

definition command_write_paths_in_tree :: "shell_node \<Rightarrow> rstring \<Rightarrow> rstring list" where
  "command_write_paths_in_tree root_node src =
     (let split = command_write_paths_split root_node src in redirect_paths split @ word_paths split)"

section \<open>The gate\<close>

definition file_escalate :: "'g policy_env \<Rightarrow> 'g compiled_policy \<Rightarrow> rstring option \<Rightarrow> access_kind \<Rightarrow> gate_decision option" where
  "file_escalate env pol rule_cwd access = (case evaluate_lexical_with_cwd env pol access rule_cwd of
     Some (Reject reason) \<Rightarrow> Some (GateReject reason)
   | Some AskUser \<Rightarrow> Some AskRuleMatch
   | _ \<Rightarrow> None)"

definition evaluate_shell_path ::
  "'g policy_env \<Rightarrow> 'g compiled_policy \<Rightarrow> rstring \<Rightarrow> rstring \<Rightarrow> shell_file_mode \<Rightarrow> bool \<Rightarrow> gate_decision option" where
  "evaluate_shell_path env pol token cwd mode cwd_unpinned =
     (let path = normalize_shell_path token;
          absolute_path = is_absolute_shell_path path;
          rule_cwd = (if absolute_path \<or> \<not> cwd_unpinned then Some cwd else None);
          escalate = file_escalate env pol rule_cwd;
          raw = normalize_shell_path_raw token;
          raw_absolute = (if is_absolute_shell_path raw then Some raw
            else if cwd_unpinned then None
            else Some (normalize_shell_path_raw (path_join cwd raw)));
          absolute = (if absolute_path then path else normalize_shell_path (path_join cwd path));
          resolved_decision = Option.bind raw_absolute (\<lambda>raw_absolute.
            case follow_absolute_symlink env raw_absolute absolute of
              LinkTarget resolved \<Rightarrow> escalate (shell_access mode resolved)
            | Unresolvable \<Rightarrow> Some AskFailClosed
            | NoLink \<Rightarrow> None);
          path_decision = escalate (shell_access mode path);
          anchored_decision = (if cwd_unpinned \<and> \<not> absolute_path then None
            else combine_gate_decisions (escalate (shell_access mode absolute)) resolved_decision)
      in combine_gate_decisions (combine_gate_decisions path_decision anchored_decision)
           (fail_closed_if (cwd_unpinned \<and> \<not> absolute_path)))"

definition operand_modes :: "rstring \<Rightarrow> rstring list \<Rightarrow> shell_file_mode list option" where
  \<comment> \<open>\<open>None\<close>: the operands are not files\<close>
  "operand_modes program words = (case shell_file_mode_of program of
     None \<Rightarrow> None
   | Some mode \<Rightarrow>
       if program = lit ''sed'' \<and> shell_sed_in_place words then Some [ReadMode, WriteMode]
       else if mode = CreateMode then None else Some [mode])"

definition file_operands :: "rstring \<Rightarrow> rstring list \<Rightarrow> (rstring \<times> shell_file_mode) list" where
  "file_operands program words =
     special_file_operands program words @
     (if program = lit ''dd'' then []
      else case shell_path_command_operands program words of
        Some operands \<Rightarrow> operands
      | None \<Rightarrow> (case operand_modes program words of
          Some modes \<Rightarrow> concat (map (\<lambda>token. map (\<lambda>m. (token, m)) modes) (shell_file_candidates words))
        | None \<Rightarrow> []))"

definition is_known_program :: "rstring \<Rightarrow> rstring list \<Rightarrow> bool" where
  "is_known_program program words \<longleftrightarrow> program = lit ''dd'' \<or> shell_file_mode_of program \<noteq> None \<or>
     shell_path_command_operands program words \<noteq> None"

definition recursive_reader :: "rstring \<Rightarrow> rstring list \<Rightarrow> bool" where
  "recursive_reader program words \<longleftrightarrow> program \<noteq> lit ''dd'' \<and> shell_path_command_operands program words = None \<and>
     operand_modes program words \<noteq> None \<and> shell_reader_can_recurse program words (shell_file_candidates words)"

definition invocation_program :: "shell_word list \<Rightarrow> rstring option" where
  \<comment> \<open>the lower-case program, unless it is no literal or only changes the directory\<close>
  "invocation_program words = (case words of
     LiteralWord p # _ \<Rightarrow> let program = to_ascii_lowercase (shell_program_name p) in
       if program \<in> set (map lit [''cd'', ''pushd'', ''popd'']) then None else Some program
   | _ \<Rightarrow> None)"

definition evaluate_operands ::
  "'g policy_env \<Rightarrow> 'g compiled_policy \<Rightarrow> rstring \<Rightarrow> bool \<Rightarrow> bool \<Rightarrow> shell_word list \<Rightarrow> gate_decision option list \<times> bool" where
  "evaluate_operands env pol cwd unpinned parse_failed words = (case invocation_program words of
     None \<Rightarrow> ([], False)
   | Some program \<Rightarrow>
       let literals = literal_words words;
           operands = file_operands program literals
       in (map (\<lambda>(path, mode). evaluate_shell_path env pol path cwd mode unpinned) operands,
           is_known_program program literals \<and> (unpinned \<or> UntrustedWord \<in> set words \<or> parse_failed) \<or>
           list_ex (\<lambda>(path, mode). shell_arg_is_ambiguous path) operands \<or> recursive_reader program literals))"

type_synonym inline_evaluation = "(rstring \<Rightarrow> bool \<Rightarrow> gate_decision option) option"

definition evaluate_inline :: "inline_evaluation \<Rightarrow> bool \<Rightarrow> bool \<Rightarrow> shell_word list \<Rightarrow> gate_decision option list \<times> bool" where
  \<comment> \<open>\<open>inner\<close> evaluates an inline script with the depth that is left, \<open>None\<close> when none is\<close>
  "evaluate_inline inner unpinned parse_failed words =
     (let script = shell_dash_c_script words; broken = (parse_failed \<and> script \<noteq> NotInline) in
      case script of
        LiteralAt index \<Rightarrow> (case inner of
            None \<Rightarrow> ([], True)
          | Some f \<Rightarrow> (case words ! index of
              LiteralWord s \<Rightarrow> ([f s unpinned], broken) | UntrustedWord \<Rightarrow> ([], broken)))
      | NotInline \<Rightarrow> ([], broken)
      | _ \<Rightarrow> ([], True))"

definition invocation_unpinned :: "cwd_poison list \<Rightarrow> bool \<Rightarrow> shell_invocation \<Rightarrow> bool" where
  "invocation_unpinned cwd_changes cwd_unpinned i \<longleftrightarrow> cwd_unpinned \<or>
     cwd_unpinned_before cwd_changes (inv_start i) (inv_scope i) \<or> has_chdir (snd (unwrap_invocation_checked i))"

definition evaluate_invocation ::
  "'g policy_env \<Rightarrow> 'g compiled_policy \<Rightarrow> rstring \<Rightarrow> inline_evaluation \<Rightarrow> cwd_poison list \<Rightarrow> bool \<Rightarrow> bool \<Rightarrow> shell_invocation \<Rightarrow>
     gate_decision option list \<times> bool" where
  "evaluate_invocation env pol cwd inner cwd_changes cwd_unpinned parse_failed i =
     (let (words, norm) = unwrap_invocation_checked i;
          unpinned = invocation_unpinned cwd_changes cwd_unpinned i;
          (inline_decisions, inline_forced) = evaluate_inline inner unpinned parse_failed words;
          (operand_decisions, operand_forced) = evaluate_operands env pol cwd unpinned parse_failed words
      in (inline_decisions @ operand_decisions,
          exhausted norm \<or> has_split_string norm \<or> env_options_uncertain norm \<or> ambiguous norm \<or>
          inline_forced \<or> operand_forced))"

definition evaluate_redirect ::
  "'g policy_env \<Rightarrow> 'g compiled_policy \<Rightarrow> rstring \<Rightarrow> cwd_poison list \<Rightarrow> bool \<Rightarrow> shell_redirect_target \<Rightarrow> gate_decision option" where
  "evaluate_redirect env pol cwd cwd_changes cwd_unpinned r = (case rt_path r of
     None \<Rightarrow> None
   | Some path \<Rightarrow> evaluate_shell_path env pol path cwd (rt_mode r)
       (cwd_unpinned \<or> cwd_unpinned_before cwd_changes (rt_start r) (rt_scope r)))"

definition evaluate_shell_script ::
  "'g policy_env \<Rightarrow> shell_parser \<Rightarrow> 'g compiled_policy \<Rightarrow> rstring \<Rightarrow> inline_evaluation \<Rightarrow> bool \<Rightarrow> rstring \<Rightarrow> bool \<Rightarrow>
     gate_decision option" where
  "evaluate_shell_script env try_parse_shell pol cwd inner entered_inline cmd cwd_unpinned = (case try_parse_shell cmd of
     None \<Rightarrow> fail_closed_if entered_inline
   | Some root_node \<Rightarrow>
       let parse_failed = has_error root_node;
           cwd_changes = cwd_poison_positions root_node cmd;
           redirects = shell_redirect_targets root_node cmd;
           checked = map (evaluate_invocation env pol cwd inner cwd_changes cwd_unpinned parse_failed)
             (shell_command_invocations root_node cmd);
           decisions = map (evaluate_redirect env pol cwd cwd_changes cwd_unpinned) redirects @ concat (map fst checked);
           forced_ask = (entered_inline \<and> parse_failed \<or> list_ex rt_ambiguous redirects \<or> list_ex snd checked)
       in combine_gate_decisions (foldl combine_gate_decisions None decisions) (fail_closed_if forced_ask))"

primrec evaluate_shell_file_access_inner ::
  "'g policy_env \<Rightarrow> shell_parser \<Rightarrow> 'g compiled_policy \<Rightarrow> rstring \<Rightarrow> nat \<Rightarrow> bool \<Rightarrow> rstring \<Rightarrow> bool \<Rightarrow> gate_decision option" where
  "evaluate_shell_file_access_inner env try_parse_shell pol cwd 0 =
     evaluate_shell_script env try_parse_shell pol cwd None"
| "evaluate_shell_file_access_inner env try_parse_shell pol cwd (Suc depth) =
     evaluate_shell_script env try_parse_shell pol cwd
       (Some (evaluate_shell_file_access_inner env try_parse_shell pol cwd depth True))"

definition evaluate_shell_file_access_gate ::
  "'g policy_env \<Rightarrow> shell_parser \<Rightarrow> 'g compiled_policy \<Rightarrow> rstring \<Rightarrow> rstring \<Rightarrow> gate_decision option" where
  "evaluate_shell_file_access_gate env try_parse_shell pol cmd cwd =
     (if \<not> has_file_restrictions pol then None
      else evaluate_shell_file_access_inner env try_parse_shell pol cwd MAX_INLINE_SHELL_DEPTH False cmd False)"

definition evaluate_shell_file_access ::
  "'g policy_env \<Rightarrow> shell_parser \<Rightarrow> 'g compiled_policy \<Rightarrow> rstring \<Rightarrow> rstring \<Rightarrow> decision option" where
  "evaluate_shell_file_access env try_parse_shell pol cmd cwd =
     map_option into_decision (evaluate_shell_file_access_gate env try_parse_shell pol cmd cwd)"

section \<open>The parser's view of a script\<close>

definition tree_shell_env :: "shell_parser \<Rightarrow> shell_env" where
  \<comment> \<open>what the permission manager reads off the tree\<close>
  "tree_shell_env try_parse_shell =
     \<lparr>parses = (\<lambda>cmd. try_parse_shell cmd \<noteq> None),
      plain_commands = (\<lambda>cmd. try_parse_word_only_commands_sequence (the (try_parse_shell cmd)) cmd),
      command_write_paths = (\<lambda>cmd. command_write_paths_split (the (try_parse_shell cmd)) cmd),
      cwd_change_in = (\<lambda>cmd. script_has_cwd_change (the (try_parse_shell cmd)) cmd),
      assigned_keys = (\<lambda>cmd. assignment_keys (the (try_parse_shell cmd)) cmd),
      opaque_shell_in = (\<lambda>cmd. tree_has_opaque_shell (the (try_parse_shell cmd)) cmd)\<rparr>"

end
