(* ===== verification/File_Gate_Safety.thy ===== *)
theory File_Gate_Safety
  imports Shell_File_Access Permission_Safety
begin

text \<open>
  What the gate of \<open>Shell_File_Access\<close> guarantees: a rule on a file is not escaped by reading or writing
  that file through a shell, however the command is wrapped or nested, a script that cannot be pinned
  down is not passed silently, and its normalisation of paths is the one of \<open>Paths\<close>.
\<close>

section \<open>Normalisation of shell paths\<close>

definition kept_names :: "bool \<Rightarrow> rstring list \<Rightarrow> bool" where
  "kept_names absolute out \<longleftrightarrow> list_all (\<lambda>n. n \<noteq> [] \<and> SLASH \<notin> set n \<and> n \<noteq> [DOT]) out \<and> (absolute \<longrightarrow> [DOT, DOT] \<notin> set out)"

definition as_components :: "bool \<Rightarrow> rstring list \<Rightarrow> component list" where
  "as_components absolute out = (if absolute then [RootDir] else []) @ map name_component out"

lemma lexical_step_kept:
  "kept_names a out \<Longrightarrow> SLASH \<notin> set seg \<Longrightarrow> kept_names a (lexical_step a out seg)"
  by (auto simp: kept_names_def lexical_step_def list_all_iff dest: in_set_butlastD)

lemma lexical_step_refines:
  assumes "kept_names a out" "seg \<noteq> []" "seg \<noteq> [DOT]"
  shows "as_components a (lexical_step a out seg) = normalize_step (as_components a out) (name_component seg)"
proof (cases "seg = [DOT, DOT]")
  case True
  show ?thesis
  proof (cases out rule: rev_cases)
    case Nil
    then show ?thesis using True by (simp add: as_components_def lexical_step_def name_component_def)
  next
    case (snoc ns n)
    then show ?thesis using True assms(1)
      by (cases a) (auto simp: as_components_def lexical_step_def name_component_def kept_names_def)
  qed
next
  case False
  then show ?thesis using assms by (simp add: as_components_def lexical_step_def name_component_def)
qed

lemma lexical_fold_refines:
  assumes "kept_names a out" "\<forall>seg \<in> set segs. SLASH \<notin> set seg"
  shows "kept_names a (foldl (lexical_step a) out segs) \<and>
    as_components a (foldl (lexical_step a) out segs) =
      foldl normalize_step (as_components a out) (map name_component (filter (\<lambda>n. n \<noteq> [DOT]) (filter (\<lambda>n. n \<noteq> []) segs)))"
  using assms
proof (induction segs arbitrary: out)
  case (Cons seg segs)
  have out: "kept_names a (lexical_step a out seg)" using Cons.prems lexical_step_kept by simp
  have skip: "lexical_step a out seg = out" if "seg = [] \<or> seg = [DOT]" using that by (simp add: lexical_step_def)
  show ?case
    using Cons.IH [OF out] Cons.prems lexical_step_refines [OF Cons.prems(1), of seg] skip by auto
qed simp

lemma component_name_kept:
  assumes "kept_names a out"
  shows "list_all wf_inner (map name_component out)" and "map component_name (map name_component out) = out"
proof -
  have n: "wf_inner (name_component n) \<and> component_name (name_component n) = n" if "n \<in> set out" for n
    using assms that by (simp add: kept_names_def list_all_iff name_component_def wf_name_def)
  then show "list_all wf_inner (map name_component out)" by (simp add: list_all_iff)
  show "map component_name (map name_component out) = out" using n by (simp add: map_idI)
qed

lemma normalize_components_eq:
  "normalize_components (components p) =
     foldl normalize_step (as_components (is_absolute p) []) (map name_component (filter (\<lambda>n. n \<noteq> [DOT]) (path_names p)))"
  unfolding normalize_components_def components_def as_components_def Let_def
  by (cases "is_absolute p"; cases "path_names p \<noteq> [] \<and> hd (path_names p) = [DOT]") (simp_all only: if_True if_False append.simps
      foldl_Cons normalize_step.simps list.map append_Nil simp_thms)

text \<open>
  The two normalisations agree: on every path without a drive letter the routine of the shell gate,
  which works on the text, gives what the routine on path components gives, except that the current
  directory is written as the empty path.
\<close>

theorem shell_normalization_agrees:
  assumes "\<not> has_drive p"
  shows "lexical_normalize p = (if normalize_lexically p = [DOT] then [] else normalize_lexically p)"
proof -
  let ?a = "is_absolute p"
  define out where "out = foldl (lexical_step ?a) [] (split_on SLASH p)"
  have "\<forall>seg \<in> set (split_on SLASH p). SLASH \<notin> set seg" by (auto dest: split_on_pieces)
  then have out: "kept_names ?a out" and cs: "as_components ?a out = normalize_components (components p)"
    using lexical_fold_refines [of ?a "[]" "split_on SLASH p"]
    by (simp_all add: out_def normalize_components_eq path_names_def kept_names_def)
  have lex: "lexical_normalize p = (if ?a then [SLASH] @ join [SLASH] out else join [SLASH] out)"
    using assms by (simp add: lexical_normalize_def out_def is_absolute_def Let_def)
  have path: "path_of (as_components ?a out) = (if ?a then [SLASH] @ join [SLASH] out else join [SLASH] out)"
    using path_of_absolute [OF component_name_kept(1) [OF out]] path_of_relative [OF component_name_kept(1) [OF out]]
      component_name_kept(2) [OF out] by (simp add: as_components_def)
  have names: "path_names (join [SLASH] out) = out"
    using out by (intro path_names_join) (simp add: kept_names_def list_all_iff)
  have nd: "path_of (as_components ?a out) \<noteq> [DOT]"
  proof
    assume "path_of (as_components ?a out) = [DOT]"
    then have "join [SLASH] out = [DOT]" using path by (cases ?a) simp_all
    with names have "out = [[DOT]]" by (simp add: path_names_def)
    then show False using out by (simp add: kept_names_def)
  qed
  show ?thesis
  proof (cases "as_components ?a out = []")
    case True
    then have "\<not> ?a \<and> out = []" by (auto simp: as_components_def split: if_splits)
    with True show ?thesis by (simp add: lex normalize_lexically_def flip: cs)
  next
    case False
    then show ?thesis using nd by (simp add: normalize_lexically_def Let_def lex path flip: cs)
  qed
qed

theorem shell_normalization_agrees_witness:
  "\<not> has_drive (lit ''a/../../b/.'') \<and> lexical_normalize (lit ''a/../../b/.'') = lit ''../b''"
proof -
  have d: "\<not> has_drive (lit ''a/../../b/.'')" by code_simp
  have "normalize_lexically (lit ''a/../../b/.'') = lit ''../b''" by code_simp
  moreover have "lit ''../b'' \<noteq> [DOT]" by code_simp
  ultimately show ?thesis using shell_normalization_agrees [OF d] d by simp
qed

section \<open>The files a script touches\<close>

inductive touches :: "shell_parser \<Rightarrow> nat \<Rightarrow> rstring \<Rightarrow> bool \<Rightarrow> rstring \<Rightarrow> shell_file_mode \<Rightarrow> bool \<Rightarrow> bool"
  for try_parse_shell where
  redirect: "touches try_parse_shell d cmd u token (rt_mode r)
      (u \<or> cwd_unpinned_before (cwd_poison_positions root_node cmd) (rt_start r) (rt_scope r))"
    if "try_parse_shell cmd = Some root_node" "r \<in> set (shell_redirect_targets root_node cmd)" "rt_path r = Some token"
| operand: "touches try_parse_shell d cmd u token mode (invocation_unpinned (cwd_poison_positions root_node cmd) u i)"
    if "try_parse_shell cmd = Some root_node" "i \<in> set (shell_command_invocations root_node cmd)"
      "invocation_program (fst (unwrap_invocation_checked i)) = Some program"
      "(token, mode) \<in> set (file_operands program (literal_words (fst (unwrap_invocation_checked i))))"
| inline: "touches try_parse_shell (Suc d) cmd u token mode u'"
    if "try_parse_shell cmd = Some root_node" "i \<in> set (shell_command_invocations root_node cmd)"
      "shell_dash_c_script (fst (unwrap_invocation_checked i)) = LiteralAt index"
      "fst (unwrap_invocation_checked i) ! index = LiteralWord script"
      "touches try_parse_shell d script (invocation_unpinned (cwd_poison_positions root_node cmd) u i) token mode u'"

text \<open>The paths under which the policy is asked about an operand.\<close>

definition rule_cwd :: "rstring \<Rightarrow> bool \<Rightarrow> rstring \<Rightarrow> rstring option" where
  "rule_cwd cwd unpinned token = (if is_absolute_shell_path (normalize_shell_path token) \<or> \<not> unpinned then Some cwd else None)"

definition anchored :: "rstring \<Rightarrow> rstring \<Rightarrow> rstring" where
  "anchored cwd token = (let path = normalize_shell_path token in
     if is_absolute_shell_path path then path else normalize_shell_path (path_join cwd path))"

definition raw_anchored :: "rstring \<Rightarrow> rstring \<Rightarrow> rstring" where
  "raw_anchored cwd token = (let raw = normalize_shell_path_raw token in
     if is_absolute_shell_path raw then raw else normalize_shell_path_raw (path_join cwd raw))"

definition denotes :: "'g policy_env \<Rightarrow> rstring \<Rightarrow> bool \<Rightarrow> rstring \<Rightarrow> rstring \<Rightarrow> bool" where
  \<comment> \<open>as spelled, or in the known directory, absolute or behind a link\<close>
  "denotes env cwd unpinned token path \<longleftrightarrow> path = normalize_shell_path token \<or>
     \<not> unpinned \<and> (path = anchored cwd token \<or>
       follow_absolute_symlink env (raw_anchored cwd token) (anchored cwd token) = LinkTarget path)"

lemma rank_combine_le:
  "n \<le> gate.rank_of a \<Longrightarrow> n \<le> gate.rank_of (combine_gate_decisions a b)"
  "n \<le> gate.rank_of b \<Longrightarrow> n \<le> gate.rank_of (combine_gate_decisions a b)"
  by (simp_all add: gate.rank_of_combine)

lemma shell_path_rank:
  assumes "denotes env cwd u token path"
  shows "gate.rank_of (file_escalate env pol (rule_cwd cwd u token) (shell_access mode path)) \<le>
    gate.rank_of (evaluate_shell_path env pol token cwd mode u)"
  using assms unfolding denotes_def evaluate_shell_path_def Let_def rule_cwd_def anchored_def raw_anchored_def
  by (auto intro!: rank_combine_le(1) simp: gate.rank_of_combine split: if_splits)

lemma fold_decisions: "d \<in> set ds \<Longrightarrow> gate.rank_of d \<le> gate.rank_of (foldl combine_gate_decisions a ds)"
  using gate.fold_ge [of d ds "\<lambda>d. d" a] by simp

lemma redirect_rank:
  assumes "try_parse_shell cmd = Some root_node" "r \<in> set (shell_redirect_targets root_node cmd)"
  shows "gate.rank_of (evaluate_redirect env pol cwd (cwd_poison_positions root_node cmd) u r) \<le>
    gate.rank_of (evaluate_shell_script env try_parse_shell pol cwd inner entered cmd u)"
  using assms by (simp add: evaluate_shell_script_def Let_def del: foldl_append) (intro rank_combine_le(1) fold_decisions; simp)

lemma invocation_rank:
  assumes "try_parse_shell cmd = Some root_node" "i \<in> set (shell_command_invocations root_node cmd)"
    and "d \<in> set (fst (evaluate_invocation env pol cwd inner (cwd_poison_positions root_node cmd) u (has_error root_node) i))"
  shows "gate.rank_of d \<le> gate.rank_of (evaluate_shell_script env try_parse_shell pol cwd inner entered cmd u)"
  using assms by (auto simp: evaluate_shell_script_def Let_def intro!: rank_combine_le(1) fold_decisions)

lemma depth_rank:
  "(\<And>inner. n \<le> gate.rank_of (evaluate_shell_script env try_parse_shell pol cwd inner entered cmd u)) \<Longrightarrow>
     n \<le> gate.rank_of (evaluate_shell_file_access_inner env try_parse_shell pol cwd d entered cmd u)"
  by (cases d) auto

lemma inline_rank:
  assumes "try_parse_shell cmd = Some root_node" "i \<in> set (shell_command_invocations root_node cmd)"
    and "shell_dash_c_script (fst (unwrap_invocation_checked i)) = LiteralAt index"
    and "fst (unwrap_invocation_checked i) ! index = LiteralWord script"
  shows "gate.rank_of (evaluate_shell_file_access_inner env try_parse_shell pol cwd d True script
      (invocation_unpinned (cwd_poison_positions root_node cmd) u i)) \<le>
    gate.rank_of (evaluate_shell_file_access_inner env try_parse_shell pol cwd (Suc d) entered cmd u)"
proof -
  let ?f = "evaluate_shell_file_access_inner env try_parse_shell pol cwd d True"
  have "?f script (invocation_unpinned (cwd_poison_positions root_node cmd) u i) \<in>
      set (fst (evaluate_invocation env pol cwd (Some ?f) (cwd_poison_positions root_node cmd) u (has_error root_node) i))"
    using assms(3,4) by (simp add: evaluate_invocation_def evaluate_inline_def case_prod_unfold Let_def)
  then show ?thesis
    using invocation_rank [of try_parse_shell cmd root_node i, OF assms(1,2)] by simp
qed

lemma touches_path_rank:
  assumes "touches try_parse_shell d cmd u token mode u'"
  shows "gate.rank_of (evaluate_shell_path env pol token cwd mode u') \<le>
    gate.rank_of (evaluate_shell_file_access_inner env try_parse_shell pol cwd d entered cmd u)"
  using assms
proof (induction arbitrary: entered rule: touches.induct)
  case (redirect cmd root_node r token d u)
  show ?case
    using redirect_rank [of try_parse_shell cmd root_node r env pol cwd u, OF redirect(1,2)] redirect(3)
    by (intro depth_rank) (simp add: evaluate_redirect_def)
next
  case (operand cmd root_node i program token mode d u)
  have "evaluate_shell_path env pol token cwd mode (invocation_unpinned (cwd_poison_positions root_node cmd) u i) \<in>
      set (fst (evaluate_invocation env pol cwd inner (cwd_poison_positions root_node cmd) u (has_error root_node) i))" for inner
    using operand(3,4) by (force simp: evaluate_invocation_def evaluate_operands_def case_prod_unfold Let_def)
  then show ?case
    by (intro depth_rank invocation_rank [of try_parse_shell cmd root_node i, OF operand(1,2)])
next
  case (inline cmd root_node i index script d u token mode u')
  show ?case
    by (rule order_trans [OF inline.IH inline_rank [of try_parse_shell cmd root_node i, OF inline.hyps(1-4)]])
qed

lemmas touches_rank = order_trans [OF shell_path_rank touches_path_rank]

section \<open>No file escapes its rules\<close>

lemma file_hit_restrictive:
  assumes "hit env config (shell_access mode path) cwd act" "act \<noteq> Allow"
  shows "has_file_restrictions (policy_new env config)"
proof -
  from assms(1) obtain r where "r \<in> set (rules config)" "action r = act"
    "tool_filter_matches (shell_access mode path) (tool r)"
    by (auto simp: hit_def applies_def rule_applies_def)
  with assms(2) show ?thesis
    by (cases act; cases "tool r"; cases mode)
      (auto simp: policy_new_def list_ex_iff restrictive_def tool_filter_matches_def shell_access_def)
qed

lemma file_escalate_rank:
  "hit env config access cwd Deny \<Longrightarrow> 4 \<le> gate.rank_of (file_escalate env (policy_new env config) cwd access)"
  "hit env config access cwd Ask \<Longrightarrow> 3 \<le> gate.rank_of (file_escalate env (policy_new env config) cwd access)"
  using find_deny [of env access cwd config]
  by (auto simp: file_escalate_def evaluate_lexical_eq gate.rank_of_def split: option.split)

lemma file_gate_rank:
  assumes "touches try_parse_shell MAX_INLINE_SHELL_DEPTH cmd False token mode u" "denotes env cwd u token path"
    and "hit env config (shell_access mode path) (rule_cwd cwd u token) act" "act \<noteq> Allow"
  shows "(if act = Deny then 4 else 3) \<le>
    gate.rank_of (evaluate_shell_file_access_gate env try_parse_shell (policy_new env config) cmd cwd)"
proof -
  have "gate.rank_of (file_escalate env (policy_new env config) (rule_cwd cwd u token) (shell_access mode path)) \<le>
      gate.rank_of (evaluate_shell_file_access_gate env try_parse_shell (policy_new env config) cmd cwd)"
    using touches_rank [OF assms(2,1), of "policy_new env config" False] file_hit_restrictive [OF assms(3,4)]
    by (simp add: evaluate_shell_file_access_gate_def)
  then show ?thesis using file_escalate_rank [of env config] assms(3,4) by (cases act) (fastforce intro: order_trans)+
qed

lemma gate_rank_cases:
  assumes "(if act = Deny then 4 else 3) \<le> gate.rank_of g" "act \<noteq> Allow"
  shows "(\<exists>why. g = Some (GateReject why)) \<or> act = Ask \<and> g = Some AskRuleMatch"
  using assms by (cases act; cases g; cases "the g") (auto simp: gate.rank_of_def)

text \<open>
  C4. A rule on files holds for shell commands: if a script, at any place and through up to eight levels
  of inline scripts and any wrappers, redirects to a file or names it as an operand of a program known
  to read or write it, and a rule for reading or editing covers the file as spelled, in the working
  directory, or behind the link it is, then a deny rule makes the gate reject the command, and an ask
  rule makes it reject or ask with the provenance of a rule.
\<close>

theorem file_gate_complete:
  assumes "touches try_parse_shell MAX_INLINE_SHELL_DEPTH cmd False token mode u" and "denotes env cwd u token path"
    and "hit env config (shell_access mode path) (rule_cwd cwd u token) act" and "act \<noteq> Allow"
  shows "(\<exists>why. evaluate_shell_file_access_gate env try_parse_shell (policy_new env config) cmd cwd = Some (GateReject why)) \<or>
    act = Ask \<and> evaluate_shell_file_access_gate env try_parse_shell (policy_new env config) cmd cwd = Some AskRuleMatch"
  by (rule gate_rank_cases [OF file_gate_rank [OF assms] assms(4)])

definition inner_script :: rstring where "inner_script = lit ''cat .env''"

definition outer_script :: rstring where "outer_script = lit ''bash -c '' @ [39] @ inner_script @ [39]"

definition demo_parser :: shell_parser where
  "demo_parser s =
     (if s = outer_script then Some (inner_node ''program'' 0 18 [inner_node ''command'' 0 18
        [inner_node ''command_name'' 0 4 [leaf ''word'' True 0 4], leaf ''word'' True 5 7, leaf ''raw_string'' True 8 18]])
      else if s = inner_script then Some (inner_node ''program'' 0 8 [inner_node ''command'' 0 8
        [inner_node ''command_name'' 0 3 [leaf ''word'' True 0 3], leaf ''word'' True 4 8]])
      else None)"

definition deny_read :: permission_rule where
  "deny_read = \<lparr>action = Deny, tool = ReadTool, pattern = None, pattern_mode = Glob\<rparr>"

definition invocation_at :: "rstring \<Rightarrow> shell_invocation" where
  "invocation_at s = hd (shell_command_invocations (the (demo_parser s)) s)"

lemma demo_outer:
  "shell_command_invocations (the (demo_parser outer_script)) outer_script = [invocation_at outer_script]"
  "demo_parser outer_script = Some (the (demo_parser outer_script))"
  "shell_dash_c_script (fst (unwrap_invocation_checked (invocation_at outer_script))) = LiteralAt 2"
  "fst (unwrap_invocation_checked (invocation_at outer_script)) ! 2 = LiteralWord inner_script"
  "\<not> invocation_unpinned (cwd_poison_positions (the (demo_parser outer_script)) outer_script) False (invocation_at outer_script)"
  by code_simp+

lemma demo_inner:
  "shell_command_invocations (the (demo_parser inner_script)) inner_script = [invocation_at inner_script]"
  "demo_parser inner_script = Some (the (demo_parser inner_script))"
  "invocation_program (fst (unwrap_invocation_checked (invocation_at inner_script))) = Some (lit ''cat'')"
  "file_operands (lit ''cat'') (literal_words (fst (unwrap_invocation_checked (invocation_at inner_script)))) =
     [(lit ''.env'', ReadMode)]"
  "\<not> invocation_unpinned (cwd_poison_positions (the (demo_parser inner_script)) inner_script) False (invocation_at inner_script)"
  by code_simp+

lemma demo_touches: "touches demo_parser MAX_INLINE_SHELL_DEPTH outer_script False (lit ''.env'') ReadMode False"
proof -
  have "touches demo_parser 7 inner_script False (lit ''.env'') ReadMode False"
    using touches.operand [where try_parse_shell = demo_parser and cmd = inner_script and i = "invocation_at inner_script" and
        root_node = "the (demo_parser inner_script)" and program = "lit ''cat''" and token = "lit ''.env''" and
        mode = ReadMode and d = 7 and u = False] demo_inner
    by simp
  then show ?thesis
    using touches.inline [where try_parse_shell = demo_parser and cmd = outer_script and i = "invocation_at outer_script" and
        root_node = "the (demo_parser outer_script)" and index = 2 and script = inner_script and token = "lit ''.env''" and
        mode = ReadMode and d = 7 and u = False and u' = False] demo_outer
    by (simp add: MAX_INLINE_SHELL_DEPTH_def)
qed

lemma demo_hit: "hit plain_env (config_of_rules [deny_read]) (shell_access ReadMode (lit ''.env'')) (rule_cwd (lit ''/w'') False (lit ''.env'')) Deny"
proof -
  have "applies plain_env (shell_access ReadMode (lit ''.env'')) (rule_cwd (lit ''/w'') False (lit ''.env'')) deny_read" by code_simp
  then show ?thesis by (simp add: hit_def config_of_rules_def deny_read_def)
qed

lemma demo_denotes: "denotes env cwd False (lit ''.env'') (lit ''.env'')"
proof -
  have "normalize_shell_path (lit ''.env'') = lit ''.env''" by code_simp
  then show ?thesis by (simp add: denotes_def)
qed

theorem file_gate_complete_witness:
  "\<exists>why. evaluate_shell_file_access_gate plain_env demo_parser (policy_new plain_env (config_of_rules [deny_read]))
     outer_script (lit ''/w'') = Some (GateReject why)"
  using file_gate_complete [OF demo_touches demo_denotes demo_hit] by simp

section \<open>What cannot be pinned down\<close>

inductive uncertain :: "shell_parser \<Rightarrow> nat \<Rightarrow> bool \<Rightarrow> rstring \<Rightarrow> bool \<Rightarrow> bool" for try_parse_shell where
  unparsed: "uncertain try_parse_shell d True cmd u" if "try_parse_shell cmd = None"
| malformed: "uncertain try_parse_shell d True cmd u" if "try_parse_shell cmd = Some root_node" "has_error root_node"
| expanded_redirect: "uncertain try_parse_shell d entered cmd u"
    if "try_parse_shell cmd = Some root_node" "r \<in> set (shell_redirect_targets root_node cmd)"
      "rt_ambiguous r"
| moved: "uncertain try_parse_shell d entered cmd u"
    if "touches try_parse_shell d cmd u token mode True" "\<not> is_absolute_shell_path (normalize_shell_path token)"
| unpeeled: "uncertain try_parse_shell d entered cmd u"
    if "try_parse_shell cmd = Some root_node" "i \<in> set (shell_command_invocations root_node cmd)"
      "snd (unwrap_invocation_checked i) = peel"
      "exhausted peel \<or> has_split_string peel \<or> env_options_uncertain peel \<or> ambiguous peel"
| unread_script: "uncertain try_parse_shell d entered cmd u"
    if "try_parse_shell cmd = Some root_node" "i \<in> set (shell_command_invocations root_node cmd)"
      "shell_dash_c_script (fst (unwrap_invocation_checked i)) \<in> {Untrusted, Unrecognized}"
| too_deep: "uncertain try_parse_shell 0 entered cmd u"
    if "try_parse_shell cmd = Some root_node" "i \<in> set (shell_command_invocations root_node cmd)"
      "shell_dash_c_script (fst (unwrap_invocation_checked i)) = LiteralAt index"
| expanded_operand: "uncertain try_parse_shell d entered cmd u"
    if "try_parse_shell cmd = Some root_node" "i \<in> set (shell_command_invocations root_node cmd)"
      "fst (unwrap_invocation_checked i) = words" "invocation_program words = Some program"
      "is_known_program program (literal_words words)" "UntrustedWord \<in> set words"
| recursive: "uncertain try_parse_shell d entered cmd u"
    if "try_parse_shell cmd = Some root_node" "i \<in> set (shell_command_invocations root_node cmd)"
      "fst (unwrap_invocation_checked i) = words" "invocation_program words = Some program"
      "recursive_reader program (literal_words words)"
| nested: "uncertain try_parse_shell (Suc d) entered cmd u"
    if "try_parse_shell cmd = Some root_node" "i \<in> set (shell_command_invocations root_node cmd)"
      "shell_dash_c_script (fst (unwrap_invocation_checked i)) = LiteralAt index"
      "fst (unwrap_invocation_checked i) ! index = LiteralWord script"
      "uncertain try_parse_shell d True script (invocation_unpinned (cwd_poison_positions root_node cmd) u i)"

lemma closed_rank: "b \<Longrightarrow> 1 \<le> gate.rank_of (combine_gate_decisions d (fail_closed_if b))"
  by (rule rank_combine_le(2)) (simp add: fail_closed_if_def gate.rank_of_def)

lemma forced_rank:
  assumes "try_parse_shell cmd = Some root_node" "i \<in> set (shell_command_invocations root_node cmd)"
    and "snd (evaluate_invocation env pol cwd inner (cwd_poison_positions root_node cmd) u (has_error root_node) i)"
  shows "1 \<le> gate.rank_of (evaluate_shell_script env try_parse_shell pol cwd inner entered cmd u)"
proof -
  have "list_ex snd (map (evaluate_invocation env pol cwd inner (cwd_poison_positions root_node cmd) u (has_error root_node))
      (shell_command_invocations root_node cmd))" using assms(2,3) by (auto simp: list_ex_iff)
  then show ?thesis using assms(1)
    by (simp only: evaluate_shell_script_def Let_def option.case) (rule closed_rank, simp)
qed

lemma moved_rank:
  "\<not> is_absolute_shell_path (normalize_shell_path token) \<Longrightarrow> 1 \<le> gate.rank_of (evaluate_shell_path env pol token cwd mode True)"
  by (simp only: evaluate_shell_path_def Let_def) (rule closed_rank, simp)

lemma uncertain_rank:
  assumes "uncertain try_parse_shell d entered cmd u"
  shows "1 \<le> gate.rank_of (evaluate_shell_file_access_inner env try_parse_shell pol cwd d entered cmd u)"
  using assms
proof (induction rule: uncertain.induct)
  case (moved d cmd u token mode entered)
  then show ?case using order_trans [OF moved_rank touches_path_rank] by blast
next
  case (nested cmd root_node i index script d u entered)
  then show ?case using order_trans [OF nested.IH inline_rank [of try_parse_shell cmd root_node i, OF nested.hyps(1-4)]] by simp
next
  case (too_deep cmd root_node i index entered u)
  then have "snd (evaluate_invocation env pol cwd None (cwd_poison_positions root_node cmd) u (has_error root_node) i)"
    by (simp add: evaluate_invocation_def evaluate_inline_def case_prod_unfold Let_def)
  with forced_rank [of try_parse_shell cmd root_node i, OF too_deep(1,2)] show ?case by simp
next
  case (unpeeled cmd root_node i peel d entered u)
  then show ?case
    by (intro depth_rank forced_rank [of try_parse_shell cmd root_node i])
      (auto simp: evaluate_invocation_def case_prod_unfold Let_def)
next
  case (unread_script cmd root_node i d entered u)
  then show ?case
    by (intro depth_rank forced_rank [of try_parse_shell cmd root_node i])
      (auto simp: evaluate_invocation_def evaluate_inline_def case_prod_unfold Let_def)
next
  case (expanded_operand cmd root_node i words program d entered u)
  then show ?case
    by (intro depth_rank forced_rank [of try_parse_shell cmd root_node i])
      (auto simp: evaluate_invocation_def evaluate_operands_def case_prod_unfold Let_def)
next
  case (recursive cmd root_node i words program d entered u)
  then show ?case
    by (intro depth_rank forced_rank [of try_parse_shell cmd root_node i])
      (auto simp: evaluate_invocation_def evaluate_operands_def case_prod_unfold Let_def)
next
  case (unparsed cmd d u)
  then show ?case by (intro depth_rank) (simp add: evaluate_shell_script_def fail_closed_if_def gate.rank_of_def)
next
  case (malformed cmd root_node d u)
  then show ?case by (intro depth_rank) (simp only: evaluate_shell_script_def Let_def option.case, rule closed_rank, simp)
next
  case (expanded_redirect cmd root_node r d entered u)
  then have "list_ex rt_ambiguous (shell_redirect_targets root_node cmd)" by (auto simp: list_ex_iff)
  with expanded_redirect(1) show ?case
    by (intro depth_rank) (simp only: evaluate_shell_script_def Let_def option.case, rule closed_rank, simp)
qed


definition opaque_script :: rstring where "opaque_script = lit ''bash -c '' @ [39, 40, 39]"

definition opaque_parser :: shell_parser where
  \<comment> \<open>the inline script is a lone parenthesis, which does not parse\<close>
  "opaque_parser s = (if s = opaque_script then Some (inner_node ''program'' 0 11 [inner_node ''command'' 0 11
     [inner_node ''command_name'' 0 4 [leaf ''word'' True 0 4], leaf ''word'' True 5 7, leaf ''raw_string'' True 8 11]])
   else None)"

definition opaque_invocation :: shell_invocation where
  "opaque_invocation = hd (shell_command_invocations (the (opaque_parser opaque_script)) opaque_script)"

lemma opaque_facts:
  "opaque_parser opaque_script = Some (the (opaque_parser opaque_script))"
  "shell_command_invocations (the (opaque_parser opaque_script)) opaque_script = [opaque_invocation]"
  "shell_dash_c_script (fst (unwrap_invocation_checked opaque_invocation)) = LiteralAt 2"
  "fst (unwrap_invocation_checked opaque_invocation) ! 2 = LiteralWord [40]"
  "opaque_parser [40] = None"
  by code_simp+

lemma opaque_uncertain: "uncertain opaque_parser MAX_INLINE_SHELL_DEPTH False opaque_script False"
  using uncertain.nested [where try_parse_shell = opaque_parser and cmd = opaque_script and i = opaque_invocation and
      root_node = "the (opaque_parser opaque_script)" and index = 2 and script = "[40]" and d = 7 and u = False and entered = False]
    uncertain.unparsed [of opaque_parser "[40]"] opaque_facts
  by (simp add: MAX_INLINE_SHELL_DEPTH_def)


end
