(* ===== verification/Shell_Manager.thy ===== *)
theory Shell_Manager
  imports File_Gate_Safety Manager_Safety
begin

text \<open>
  The permission manager on top of a shell parser: what \<open>Permission_Manager\<close> takes as arguments for a
  script is read off its syntax tree, as \<open>evaluate_bash\<close> of \<open>permission/manager/mod.rs\<close> does, and the
  gate for files is the one of \<open>Shell_File_Access\<close>.
\<close>

definition tree_policy_env :: "shell_parser \<Rightarrow> 'g policy_env \<Rightarrow> 'g policy_env" where
  "tree_policy_env try_parse_shell env = env\<lparr>all_commands_from_script :=
     (\<lambda>script. map_option (map pc_words) (word_only_commands (tree_shell_env try_parse_shell) script))\<rparr>"

definition tree_manager_env :: "shell_parser \<Rightarrow> 'g manager_env \<Rightarrow> 'g manager_env" where
  "tree_manager_env try_parse_shell env =
     env\<lparr>me_policy := tree_policy_env try_parse_shell (me_policy env), me_shell := tree_shell_env try_parse_shell,
       me_file_gate := evaluate_shell_file_access_gate (tree_policy_env try_parse_shell (me_policy env)) try_parse_shell\<rparr>"

text \<open>
  C2. Rules on files hold for every request: when the managed policy denies reading or editing a file,
  a request for a Bash command that reads or writes it, by a redirect or as an operand, wrapped, nested
  in inline scripts or behind a link, is answered with the denial of the policy in every mode, or not
  at all when the requester has gone.
\<close>

theorem managed_file_deny_holds:
  assumes "rq_access rq = BashAccess cmd" and "env = tree_manager_env try_parse_shell env'"
    and "mc_policy cfg = Some (policy_new (me_policy env) config)"
    and "touches try_parse_shell MAX_INLINE_SHELL_DEPTH cmd False token mode u"
    and "denotes (me_policy env) (request_cwd cfg rq) u token path"
    and "hit (me_policy env) config (shell_access mode path) (rule_cwd (request_cwd cfg rq) u token) Deny"
  shows "h_sent (fst (handle_request env cfg w rq m)) \<in> {None} \<union> range (\<lambda>why. Some (PolicyDeny why))"
proof -
  have g: "me_file_gate env = evaluate_shell_file_access_gate (me_policy env) try_parse_shell"
    by (simp add: assms(2) tree_manager_env_def)
  obtain r where "evaluate_shell_file_access_gate (me_policy env) try_parse_shell (policy_new (me_policy env) config) cmd
      (request_cwd cfg rq) = Some (GateReject r)"
    using gate_rank_cases [OF file_gate_rank [OF assms(4-6)]] by auto
  then have "shell_file (rf_preflight (facts env cfg w rq m)) = Some (GateReject r)"
    by (simp add: facts_preflight assms(1,3) bash_gates_def preflight_evaluate_def g case_prod_unfold Let_def)
  then obtain why where "policy_decision (rf_preflight (facts env cfg w rq m)) = Some (Reject why)"
    using preflight_rejects [OF facts_preflight, of env cfg w rq m] by (auto simp: dec.rank_of_def)
  from rejected_request [OF this] show ?thesis by auto
qed

definition tree_demo_env :: "unit manager_env" where
  "tree_demo_env = tree_manager_env demo_parser demo_env"

definition tree_demo_config :: "unit manager_config" where
  "tree_demo_config = (demo_config [])\<lparr>mc_policy := Some (policy_new (me_policy tree_demo_env) (config_of_rules [deny_read]))\<rparr>"

theorem managed_file_deny_holds_witness:
  "h_sent (fst (handle_request tree_demo_env tree_demo_config (demo_world AllowOnce)
     (demo_request (BashAccess outer_script) False) demo_manager)) \<in> {None} \<union> range (\<lambda>why. Some (PolicyDeny why))"
proof (rule managed_file_deny_holds [OF _ _ _ demo_touches])
  let ?rq = "demo_request (BashAccess outer_script) False"
  show "rq_access ?rq = BashAccess outer_script" by (simp add: demo_request_def)
  show "tree_demo_env = tree_manager_env demo_parser demo_env" by (fact tree_demo_env_def)
  show "mc_policy tree_demo_config = Some (policy_new (me_policy tree_demo_env) (config_of_rules [deny_read]))"
    by (simp add: tree_demo_config_def)
  show "denotes (me_policy tree_demo_env) (request_cwd tree_demo_config ?rq) False (lit ''.env'') (lit ''.env'')"
    by (rule demo_denotes)
  have "applies (me_policy tree_demo_env) (shell_access ReadMode (lit ''.env''))
      (rule_cwd (request_cwd tree_demo_config ?rq) False (lit ''.env'')) deny_read" by code_simp
  then show "hit (me_policy tree_demo_env) (config_of_rules [deny_read]) (shell_access ReadMode (lit ''.env''))
      (rule_cwd (request_cwd tree_demo_config ?rq) False (lit ''.env'')) Deny"
    by (simp add: hit_def config_of_rules_def deny_read_def)
qed

end
