(* ===== verification/Soft_Breaks.thy ===== *)
theory Soft_Breaks
  imports Shell_Tree "HOL-Library.Product_Lexorder"
begin

text \<open>
  Where a prompt may break the text of a script (\<open>permission/bash_command_splitting.rs\<close>, from the
  section on display soft breaks): after real operators, never inside strings, comments or heredocs.
\<close>

section \<open>Offsets\<close>

definition PAYLOAD_NODE_KINDS :: "rstring list" where
  "PAYLOAD_NODE_KINDS = map lit [''heredoc_body'', ''simple_heredoc_body'', ''heredoc_content'', ''heredoc_end'', ''string'',
     ''raw_string'', ''string_content'', ''ansi_c_string'', ''translated_string'', ''comment'']"

definition is_soft_break_operator_kind :: "rstring \<Rightarrow> bool" where
  "is_soft_break_operator_kind kind \<longleftrightarrow> kind \<in> set (map lit [''&&'', ''||'', ''|'', '';''])"

definition is_payload_node_kind :: "rstring \<Rightarrow> bool" where
  "is_payload_node_kind kind \<longleftrightarrow> kind \<in> set PAYLOAD_NODE_KINDS"

definition break_after :: "rstring \<Rightarrow> shell_node \<Rightarrow> nat option" where
  "break_after script n =
     (if \<not> is_payload_node_kind (node_kind n) \<and> is_soft_break_operator_kind (node_kind n) \<and>
         0 < end_byte n \<and> end_byte n \<le> byte_len script \<and> is_char_boundary script (end_byte n)
      then Some (end_byte n) else None)"

definition soft_break_offsets_after_operators :: "shell_parser \<Rightarrow> rstring \<Rightarrow> nat list" where
  "soft_break_offsets_after_operators try_parse_shell script = (case try_parse_shell script of
     None \<Rightarrow> []
   | Some root_node \<Rightarrow>
       if has_error root_node then []
       else remdups_adj (sort (List.map_filter (break_after script)
              (map fst (walk_outer is_payload_node_kind [(root_node, [])])))))"

definition HEREDOC_PAYLOAD :: "rstring list" where
  "HEREDOC_PAYLOAD = map lit [''heredoc_body'', ''simple_heredoc_body'', ''heredoc_content'']"

definition heredoc_payload_byte_ranges :: "shell_parser \<Rightarrow> rstring \<Rightarrow> (nat \<times> nat) list" where
  "heredoc_payload_byte_ranges try_parse_shell script = (case try_parse_shell script of
     None \<Rightarrow> []
   | Some root_node \<Rightarrow>
       if has_error root_node then []
       else remdups_adj (sort (map (\<lambda>n. (start_byte n, end_byte n))
              (filter (\<lambda>n. node_kind n \<in> set HEREDOC_PAYLOAD \<and> start_byte n < end_byte n \<and> end_byte n \<le> byte_len script)
                (map fst (walk_outer (\<lambda>k. k \<in> set HEREDOC_PAYLOAD) [(root_node, [])]))))))"

definition range_fully_inside :: "nat \<Rightarrow> nat \<Rightarrow> (nat \<times> nat) list \<Rightarrow> bool" where
  "range_fully_inside a b ranges = (if b < a then False else list_ex (\<lambda>(rs, re). rs \<le> a \<and> b \<le> re) ranges)"

section \<open>Pieces\<close>

definition byte_slice :: "nat \<Rightarrow> nat \<Rightarrow> rstring \<Rightarrow> rstring" where
  \<comment> \<open>\<open>&text[start..end]\<close>\<close>
  "byte_slice a b s = byte_suffix a (byte_prefix b s)"

fun chunk_loop :: "rstring \<Rightarrow> nat \<Rightarrow> nat list \<Rightarrow> rstring list" where
  \<comment> \<open>for one line the offsets beyond the text are dropped before the loop, here in it\<close>
  "chunk_loop s start [] = (if start < byte_len s then [byte_suffix start s] else [])"
| "chunk_loop s start (b # bs) =
     (if start < b \<and> b \<le> byte_len s then byte_slice start b s # chunk_loop s b bs else chunk_loop s start bs)"

definition split_physical_line_at_soft_breaks :: "rstring \<Rightarrow> nat \<Rightarrow> nat list \<Rightarrow> rstring list" where
  "split_physical_line_at_soft_breaks l line_start breaks =
     (let line_end = line_start + byte_len l;
          rel = remdups_adj (filter (is_char_boundary l)
            (map (\<lambda>b. b - line_start) (filter (\<lambda>b. line_start < b \<and> b < line_end) breaks)));
          chunks = chunk_loop l 0 rel
      in if rel = [] then [l] else if chunks = [] then [l] else chunks)"

definition soft_break_chunks :: "shell_parser \<Rightarrow> rstring \<Rightarrow> rstring list" where
  "soft_break_chunks try_parse_shell script =
     (let breaks = soft_break_offsets_after_operators try_parse_shell script in
      if breaks = [] then [script] else chunk_loop script 0 breaks)"

section \<open>No break inside a payload\<close>

definition outside :: "(rstring \<Rightarrow> bool) \<Rightarrow> located \<Rightarrow> bool" where
  "outside shut x \<longleftrightarrow> list_all (\<lambda>(a, i). \<not> shut (node_kind a)) (snd x)"

lemma walk_outer_outside: "list_all (outside shut) st \<Longrightarrow> list_all (outside shut) (walk_outer shut st)"
proof (induction shut st rule: walk_outer.induct)
  case (2 shut x stack)
  then have "list_all (outside shut) (located_children x)" if "\<not> shut (node_kind (fst x))"
    using that by (auto simp: located_children_def outside_def list_all_iff)
  with 2 show ?case by simp
qed simp

lemma breaks_outside_payload:
  assumes "try_parse_shell script = Some root_node" "b \<in> set (soft_break_offsets_after_operators try_parse_shell script)"
  shows "\<exists>x. outside is_payload_node_kind x \<and> is_soft_break_operator_kind (node_kind (fst x)) \<and> end_byte (fst x) = b"
proof -
  obtain x where x: "x \<in> set (walk_outer is_payload_node_kind [(root_node, [])])" "break_after script (fst x) = Some b"
    using assms by (auto simp: soft_break_offsets_after_operators_def map_filter_def simp del: walk_outer.simps split: if_splits)
  have "outside is_payload_node_kind (root_node, [])" by (simp add: outside_def)
  then have "list_all (outside is_payload_node_kind) (walk_outer is_payload_node_kind [(root_node, [])])"
    by (intro walk_outer_outside) simp
  with x(1) have "outside is_payload_node_kind x" by (simp only: list_all_iff)
  with x(2) show ?thesis by (intro exI [of _ x]) (simp add: break_after_def split: if_splits)
qed

section \<open>Breaking keeps the text\<close>

lemma len_utf8_nonzero: "len_utf8 c \<noteq> 0"
  using len_utf8_pos [of c] by simp

lemma byte_slice_suffix:
  assumes "is_char_boundary s a" "is_char_boundary s b" "a \<le> b"
  shows "byte_slice a b s @ byte_suffix b s = byte_suffix a s"
proof -
  obtain p q where b: "s = p @ q" "byte_len p = b" using assms(2) by (auto simp: boundary_iff)
  obtain p' q' where a: "s = p' @ q'" "byte_len p' = a" using assms(1) by (auto simp: boundary_iff)
  have "length p' \<le> length p"
  proof (rule ccontr)
    assume "\<not> length p' \<le> length p"
    then obtain r where "p' = p @ r" "r \<noteq> []" using a b by (auto simp: append_eq_append_conv2)
    then show False using a b assms(3) by (cases r) (auto simp: len_utf8_nonzero)
  qed
  then obtain r where "p = p' @ r" using a b by (auto simp: append_eq_append_conv2)
  then have s: "s = p' @ (r @ q)" "byte_prefix b s = p' @ r" "byte_suffix b s = q" "byte_prefix a (p' @ r) = p'"
    using a b byte_prefix_append [of p q] by (auto simp: byte_suffix_def)
  then show ?thesis using byte_prefix_append [of p' "r @ q"] a by (simp add: byte_slice_def byte_suffix_def)
qed

lemma chunk_loop_concat:
  assumes "is_char_boundary s start" "list_all (is_char_boundary s) bs"
  shows "concat (chunk_loop s start bs) = byte_suffix start s"
  using assms
proof (induction s start bs rule: chunk_loop.induct)
  case (1 s start)
  then obtain p q where "s = p @ q" "byte_len p = start" by (auto simp: boundary_iff)
  then show ?case using byte_prefix_append [of p q] by (cases q) (auto simp: byte_suffix_def)
qed (simp_all add: byte_slice_suffix)

lemma breaks_are_boundaries:
  "list_all (is_char_boundary script) (soft_break_offsets_after_operators try_parse_shell script)"
  by (auto simp: soft_break_offsets_after_operators_def list_all_iff map_filter_def break_after_def split: option.split if_splits)

text \<open>
  Breaking a script for display keeps every character: the pieces of a script, and of any line of
  it at any offsets, put together again are the text itself.
\<close>

theorem soft_breaks_lossless:
  "concat (soft_break_chunks try_parse_shell script) = script \<and>
   concat (split_physical_line_at_soft_breaks l line_start breaks) = l"
proof -
  have [simp]: "byte_suffix 0 s = s" for s by (cases s) (simp_all add: byte_suffix_def not_le len_utf8_nonzero)
  show ?thesis
    using chunk_loop_concat [OF _ breaks_are_boundaries, of script 0 try_parse_shell]
    by (auto simp: soft_break_chunks_def split_physical_line_at_soft_breaks_def Let_def chunk_loop_concat list_all_iff)
qed

end
