(* ===== verification/Heuristic_Classifier.thy ===== *)
theory Heuristic_Classifier
  imports Auto_Mode Shell_File_Access
begin

text \<open>
  The classifier that needs no model (\<open>permission/auto_mode/mod.rs\<close>): a command is routine when every
  command of the script is a well-known one that writes nowhere and sets nothing that matters, seen
  through wrappers and the launchers of package managers.  The two functions that call each other
  through a launcher are one mutual recursion; a launched command is shorter than its launcher.
\<close>

section \<open>The transcript\<close>

definition neutralize_line :: "rstring \<Rightarrow> rstring" where
  "neutralize_line l = (let heading = trim_start l in
     if starts_with heading [35] then take (length l - length heading) l @ [92] @ heading else l)"

definition neutralize_headings :: "rstring \<Rightarrow> rstring" where
  "neutralize_headings t = join [NL] (map neutralize_line (str_lines t))"

definition render_untrusted :: "classifier_turn \<Rightarrow> rstring option" where
  "render_untrusted turn = (case turn of
     UserText t \<Rightarrow> Some (lit ''User: '' @ neutralize_headings t)
   | AssistantToolUse name args \<Rightarrow> Some (neutralize_headings name @ [32] @ neutralize_headings args)
   | PermissionDecisionTurn _ _ _ \<Rightarrow> None)"

definition transcript_text :: "classifier_context \<Rightarrow> rstring" where
  "transcript_text cx = join [NL] (List.map_filter render_untrusted (cx_turns cx))"

section \<open>Package managers\<close>

definition launcher_subcommand :: "rstring \<Rightarrow> rstring list \<Rightarrow> rstring option" where
  "launcher_subcommand head inner = (case inner of
     _ # sub # _ \<Rightarrow>
       let node_tool = head \<in> set (map lit [''npm'', ''pnpm'', ''yarn'']) in
       Some (if node_tool \<and> sub = lit ''x'' then lit ''exec'' else if node_tool \<and> sub = lit ''innit'' then lit ''init'' else sub)
   | _ \<Rightarrow> None)"

definition word_at :: "rstring list \<Rightarrow> nat \<Rightarrow> rstring option" where
  \<comment> \<open>\<open>slice.get(i)\<close>\<close>
  "word_at ws i = (if i < length ws then Some (ws ! i) else None)"

definition is_remote_launcher :: "rstring \<Rightarrow> rstring list \<Rightarrow> bool" where
  "is_remote_launcher head inner =
     (if head = lit ''npx'' \<or> head = lit ''uvx'' then True
      else if head = lit ''uv'' \<and> word_at inner 1 = Some (lit ''tool'') \<and> word_at inner 2 = Some (lit ''run'') then True
      else case launcher_subcommand head inner of
        None \<Rightarrow> False
      | Some sub \<Rightarrow> head \<in> set (map lit [''npm'', ''pnpm'', ''yarn'']) \<and>
          (sub \<in> set (map lit [''dlx'', ''create'', ''explore'']) \<or>
           sub = lit ''init'' \<and> (case word_at inner 2 of Some a \<Rightarrow> \<not> dashed a | None \<Rightarrow> False)))"

datatype launch_target = NotLauncher | Launched "rstring list" | Unresolved

definition launch_at :: "rstring list \<Rightarrow> nat \<Rightarrow> launch_target" where
  "launch_at inner start = (case word_at inner start of
     Some token \<Rightarrow> if \<not> dashed token then Launched (drop start inner) else Unresolved
   | None \<Rightarrow> Unresolved)"

definition explicit_launch_target :: "rstring \<Rightarrow> rstring list \<Rightarrow> launch_target" where
  "explicit_launch_target head inner = (case launcher_subcommand head inner of
     None \<Rightarrow> NotLauncher
   | Some sub \<Rightarrow>
       if head = lit ''uv'' \<and> sub = lit ''run'' then launch_at inner 2
       else if head = lit ''rustup'' \<and> sub = lit ''run'' then
         (case word_at inner 2 of
            Some toolchain \<Rightarrow> if \<not> dashed toolchain then launch_at inner 3 else Unresolved
          | None \<Rightarrow> Unresolved)
       else if head \<in> set (map lit [''npm'', ''pnpm'', ''yarn'']) \<and> sub = lit ''exec'' then
         launch_at inner (if word_at inner 2 = Some (lit ''--'') then 3 else 2)
       else NotLauncher)"

definition NPM_SAFE_SUBCOMMANDS :: "rstring list" where
  "NPM_SAFE_SUBCOMMANDS = map lit [''install'', ''i'', ''ci'', ''add'', ''remove'', ''rm'', ''uninstall'', ''update'', ''up'',
     ''upgrade'', ''test'', ''t'', ''run'', ''run-script'', ''start'', ''build'', ''audit'', ''list'', ''ls'', ''ll'', ''outdated'',
     ''why'', ''view'', ''info'', ''dedupe'', ''prune'', ''version'', ''pack'', ''config'', ''link'', ''unlink'', ''rebuild'',
     ''store'', ''fetch'', ''import'']"

definition UV_SAFE_SUBCOMMANDS :: "rstring list" where
  "UV_SAFE_SUBCOMMANDS = map lit [''sync'', ''pip'', ''lock'', ''venv'', ''add'', ''remove'', ''tree'', ''export'', ''build'',
     ''version'', ''python'', ''cache'', ''init'', ''self'', ''help'']"

definition RUSTUP_SAFE_SUBCOMMANDS :: "rstring list" where
  "RUSTUP_SAFE_SUBCOMMANDS = map lit [''show'', ''toolchain'', ''component'', ''target'', ''default'', ''update'', ''which'',
     ''doc'', ''self'', ''completions'', ''set'', ''override'']"

definition safe_subcommand :: "rstring \<Rightarrow> rstring list \<Rightarrow> bool" where
  "safe_subcommand prog inner = (case launcher_subcommand prog inner of
     None \<Rightarrow> False
   | Some sub \<Rightarrow>
       if prog \<in> set (map lit [''npm'', ''pnpm'', ''yarn'']) then sub \<in> set NPM_SAFE_SUBCOMMANDS
       else if prog = lit ''uv'' then sub \<in> set UV_SAFE_SUBCOMMANDS
       else if prog = lit ''rustup'' then sub \<in> set RUSTUP_SAFE_SUBCOMMANDS
       else False)"

definition launched_writes_nonsink :: "rstring list \<Rightarrow> bool" where
  "launched_writes_nonsink words = list_ex (\<lambda>p. \<not> is_safe_write_sink p) (command_words_write_paths words)"

section \<open>Routine commands\<close>

definition is_lone_wrapper :: "rstring list \<Rightarrow> bool" where
  "is_lone_wrapper words \<longleftrightarrow> length words = 1 \<and> is_wrapper_command words"

definition find_is_read_only :: "rstring list \<Rightarrow> bool" where
  "find_is_read_only words = list_all (\<lambda>w. w \<notin> set (map lit [''-delete'', ''-exec'', ''-execdir'', ''-ok'', ''-okdir'',
     ''-fprint'', ''-fprint0'', ''-fprintf'', ''-fls''])) words"

definition nonflag_tokens :: "rstring list \<Rightarrow> nat \<Rightarrow> rstring list" where
  "nonflag_tokens inner n = take n (filter (\<lambda>w. \<not> dashed w) (tl inner))"

definition gh_subcommand_is_read_only :: "rstring list \<Rightarrow> bool" where
  "gh_subcommand_is_read_only inner = (case nonflag_tokens inner 2 of
     [noun, sub] \<Rightarrow>
       noun \<in> set (map lit [''pr'', ''issue'', ''release'', ''run'', ''workflow'', ''repo'', ''gist'']) \<and>
         sub \<in> set (map lit [''view'', ''list'', ''status'', ''checks'', ''diff'']) \<or>
       noun = lit ''auth'' \<and> sub = lit ''status''
   | [only] \<Rightarrow> only = lit ''status''
   | _ \<Rightarrow> False)"

definition ROUTINE_PREFIXES :: "rstring list" where
  "ROUTINE_PREFIXES = map lit [''cargo '', ''git add'', ''git commit'', ''git checkout'', ''git switch'', ''git stash'',
     ''git pull'', ''git fetch'', ''git worktree list'', ''pytest'', ''python '', ''python3 '', ''node '', ''rustc '', ''rustfmt'',
     ''clippy'', ''make '', ''cmake '', ''cd'', ''pushd'', ''popd'', ''ls'', ''pwd'', ''echo '', ''printf '', ''cat '', ''head '',
     ''tail '', ''wc '', ''rg '', ''grep '', ''which '', ''type '', ''true'', ''false'', ''test '', ''sort '', ''uniq '', ''tr '',
     ''cut '', ''diff '', ''jq '', ''date'', ''whoami'', ''hostname'', ''uname'', ''nproc'', ''printenv'', ''stat '', ''file '',
     ''tree'', ''basename '', ''dirname '', ''realpath '', ''readlink '', ''strings '', ''sleep '', ''df '', ''du '', ''ps '',
     ''top'', ''htop'', ''bazel '', ''just '', ''go '', ''kubectl get'', ''kubectl logs'', ''kubectl describe'', ''set'']"

definition matches_routine_prefix :: "rstring list \<Rightarrow> bool" where
  "matches_routine_prefix inner = (let joined = to_ascii_lowercase (join [32] inner) in
     list_ex (\<lambda>p. let base = trim p in joined = base \<or> starts_with joined base \<and> starts_with (drop (length base) joined) [32])
       ROUTINE_PREFIXES)"

definition plain_command_is_routine :: "rstring \<Rightarrow> rstring list \<Rightarrow> bool" where
  \<comment> \<open>everything but package managers\<close>
  "plain_command_is_routine head inner =
     (if head = lit ''find'' then find_is_read_only inner
      else if head = lit ''git'' \<and> git_words_are_read_only_query inner then True
      else if head = lit ''git'' \<and> git_words_have_unsafe_query_option inner then False
      else if head = lit ''tree'' \<and> list_ex (\<lambda>w. dashed w \<and> \<not> starts_with w (lit ''--'') \<and> 111 \<in> set w \<or>
          starts_with w (lit ''--output'')) inner then False
      else if head = lit ''rg'' \<and> list_ex (\<lambda>w. w = lit ''--pre'' \<or> starts_with w (lit ''--pre='')) inner then False
      else if head = lit ''kubectl'' \<and> list_ex (\<lambda>w. before_equals w \<in> set KUBECTL_UNSAFE_FLAGS) (tl inner) then False
      else if head = lit ''gh'' then gh_subcommand_is_read_only inner
      else matches_routine_prefix inner)"

lemma unwrap_wrappers_suffix: "suffix (unwrap_wrappers ws) ws"
  using wrapper.steps_suffix(1) [OF unwrap_steps [of ws]] by (simp add: unwrap_wrappers_def)

lemma launch_at_shorter: "launch_at inner start = Launched w \<Longrightarrow> w = drop start inner \<and> start < length inner"
  by (auto simp: launch_at_def word_at_def split: if_splits)

lemma launched_shorter: "explicit_launch_target head inner = Launched w \<Longrightarrow> suffix w inner \<and> length w + 2 \<le> length inner"
  by (auto simp: explicit_launch_target_def suffix_drop dest!: launch_at_shorter split: option.splits if_splits)

function (sequential) bash_command_is_routine :: "rstring list \<Rightarrow> bool"
  and package_manager_subcommand_is_routine :: "rstring \<Rightarrow> rstring list \<Rightarrow> bool option" where
  "bash_command_is_routine words =
     (let inner = unwrap_wrappers words in
      if inner = [] \<or> is_lone_wrapper inner then True
      else let head = to_ascii_lowercase (basename (hd inner)) in
        (case package_manager_subcommand_is_routine head inner of
           Some routine \<Rightarrow> routine
         | None \<Rightarrow> plain_command_is_routine head inner))"
| "package_manager_subcommand_is_routine prog inner =
     (if prog \<notin> set (map lit [''uv'', ''uvx'', ''npm'', ''npx'', ''pnpm'', ''yarn'', ''rustup'']) then None
      else if is_remote_launcher prog inner then Some False
      else (case explicit_launch_target prog inner of
         Unresolved \<Rightarrow> Some False
       | Launched launched \<Rightarrow>
           Some (command_env_risk launched = SafeEnv \<and> \<not> launched_writes_nonsink launched \<and> bash_command_is_routine launched)
       | NotLauncher \<Rightarrow> Some (safe_subcommand prog inner)))"
  by pat_completeness auto
termination
proof (relation "measure (case_sum (\<lambda>ws. 2 * length ws + 1) (\<lambda>(p, ws). 2 * length ws))", goal_cases)
  case (2 words inner head)
  then show ?case using suffix_length_le [OF unwrap_wrappers_suffix [of words]] by simp
next
  case (3 prog inner launched)
  then show ?case using launched_shorter by fastforce
qed simp

declare bash_command_is_routine.simps [simp del] package_manager_subcommand_is_routine.simps [simp del]

section \<open>The verdict\<close>

definition classify_bash :: "shell_parser \<Rightarrow> rstring \<Rightarrow> classifier_verdict" where
  "classify_bash try_parse_shell cmd = (case try_parse_shell cmd of
     None \<Rightarrow> VerdictBlock
   | Some root_node \<Rightarrow> (case try_parse_word_only_commands_sequence root_node cmd of
       None \<Rightarrow> VerdictBlock
     | Some cmds \<Rightarrow>
         if script_env_risk (tree_shell_env try_parse_shell) cmd cmds \<noteq> SafeEnv then VerdictBlock
         else if list_ex (\<lambda>p. \<not> is_safe_write_sink p) (command_write_paths_in_tree root_node cmd) then VerdictBlock
         else if cmds \<noteq> [] \<and> list_all (\<lambda>c. bash_command_is_routine (pc_words c)) cmds then VerdictAllow
         else VerdictBlock))"

definition DANGEROUS_PATTERNS :: "rstring list" where
  "DANGEROUS_PATTERNS = map lit [''rm -rf /'', ''rm -rf /*'', ''mkfs'', ''dd if='', '':(){ :|:& };:'', ''curl | sh'', ''curl|sh'',
     ''curl | bash'', ''curl|bash'', ''wget | sh'', ''wget|sh'', ''wget | bash'', ''wget|bash'', ''chmod 777'', ''chmod -r 777'',
     ''chmod +x /tmp'', ''base64 -d'', ''base64 --decode'', ''nc -e'', ''ncat -e'', ''/dev/tcp/'', ''shutdown'', ''reboot'',
     ''useradd'', ''userdel'', ''passwd '', ''chown -r /'', ''iptables -f'', ''kill -9 1'', ''sudo rm'', ''sudo dd'', ''sudo mkfs'',
     ''exfiltrat'', ''steal credential'', ''send secrets'']"

definition HOSTILE_INTENT :: "rstring list" where
  "HOSTILE_INTENT = map lit [''delete all files'', ''wipe the disk'', ''exfiltrate'', ''steal secrets'', ''send my credentials'',
     ''ignore safety'', ''bypass permission'']"

definition pipes_to_shell :: "rstring \<Rightarrow> bool" where
  "pipes_to_shell blob \<longleftrightarrow> list_ex (\<lambda>p. contains blob (lit p)) [''curl'', ''wget'', ''fetch''] \<and>
     list_ex (\<lambda>p. contains blob (lit p)) [''| sh'', ''|sh'', ''| bash'', ''|bash'', ''| zsh'', ''|zsh'']"

definition classify_sync :: "shell_parser \<Rightarrow> rstring \<Rightarrow> access_kind \<Rightarrow> rstring option \<Rightarrow> classifier_context \<Rightarrow> classifier_verdict" where
  "classify_sync try_parse_shell tool_name access detail cx =
     (let d = to_ascii_lowercase (case detail of Some d \<Rightarrow> d | None \<Rightarrow> []);
          t = to_ascii_lowercase tool_name;
          transcript = to_ascii_lowercase (transcript_text cx);
          blob = t @ [32] @ d @ [32] @ transcript
      in if contains t (lit ''ask_user'') \<or> contains t (lit ''askuserquestion'') then VerdictBlock
         else if list_ex (contains blob) DANGEROUS_PATTERNS then VerdictBlock
         else if pipes_to_shell blob then VerdictBlock
         else if list_ex (contains transcript) HOSTILE_INTENT then VerdictBlock
         else (case access of
            BashAccess cmd \<Rightarrow> classify_bash try_parse_shell cmd
          | ReadAccess _ \<Rightarrow> VerdictAllow
          | GrepAccess _ _ \<Rightarrow> VerdictAllow
          | WebSearchAccess _ \<Rightarrow> VerdictAllow
          | _ \<Rightarrow> VerdictBlock))"

end
