(* ===== verification/Claude_Settings.thy ===== *)
theory Claude_Settings
  imports Permission_Rules Paths
begin

text \<open>
  The settings files of another agent that this one honours (\<open>permission/claude_settings.rs\<close>): the
  permissions, the default mode and the environment of one file, and which files count for a working
  directory that is trusted or not.  Reading files, parsing JSON, the home directory and the test for
  it are arguments; warnings that only reach the log are left out.
\<close>

section \<open>One file\<close>

record parsed_permissions =
  pp_allow :: "rstring list"
  pp_deny :: "rstring list"
  pp_ask :: "rstring list"

record claude_settings =
  cs_permissions :: "parsed_permissions option"
  cs_default_mode :: "rstring option"
  cs_additional_directories :: "rstring list option"
  cs_env :: "(rstring \<rightharpoonup> rstring) option"

fun show_rule_parse_error :: "rule_parse_error \<Rightarrow> rstring" where
  "show_rule_parse_error (UnsupportedToolPrefix p) = lit ''unsupported tool prefix: '' @ p"
| "show_rule_parse_error (UnknownToolPrefix p) = lit ''unknown tool prefix: '' @ p"
| "show_rule_parse_error (MalformedRule d) = lit ''malformed rule: '' @ d"

definition parsed_rules :: "rule_action \<Rightarrow> rstring list \<Rightarrow> permission_rule list" where
  "parsed_rules act entries = List.map_filter (\<lambda>s. case parse_permission_rule s act of Inr r \<Rightarrow> Some r | Inl _ \<Rightarrow> None) entries"

definition parse_warnings :: "rule_action \<Rightarrow> rstring \<Rightarrow> rstring list \<Rightarrow> rstring list" where
  "parse_warnings act label entries = List.map_filter (\<lambda>s. case parse_permission_rule s act of
     Inr _ \<Rightarrow> None | Inl e \<Rightarrow> Some (lit ''permissions.'' @ label @ lit '': '' @ s @ lit '' -- '' @ show_rule_parse_error e)) entries"

definition into_permission_config :: "parsed_permissions \<Rightarrow> permission_config \<times> rstring list" where
  "into_permission_config p =
     (config_of_rules (parsed_rules Allow (pp_allow p) @ parsed_rules Deny (pp_deny p) @ parsed_rules Ask (pp_ask p)),
      parse_warnings Allow (lit ''allow'') (pp_allow p) @ parse_warnings Deny (lit ''deny'') (pp_deny p) @
      parse_warnings Ask (lit ''ask'') (pp_ask p))"

definition json_get :: "json \<Rightarrow> string \<Rightarrow> json option" where
  \<comment> \<open>\<open>value.get(key)\<close>\<close>
  "json_get v key = (case v of JObject kvs \<Rightarrow> map_of kvs (lit key) | _ \<Rightarrow> None)"

definition extract_string_array :: "json option \<Rightarrow> rstring list" where
  "extract_string_array value = (case value of Some (JArray arr) \<Rightarrow> List.map_filter as_str arr | _ \<Rightarrow> [])"

definition extract_default_mode :: "json \<Rightarrow> rstring option" where
  "extract_default_mode value =
     (case Option.bind (json_get value ''permissions'') (\<lambda>perms. json_get perms ''defaultMode'') of
        Some dm \<Rightarrow> as_str dm
      | None \<Rightarrow> Option.bind (json_get value ''defaultMode'') as_str)"

definition extract_additional_directories :: "json \<Rightarrow> rstring list option" where
  "extract_additional_directories value =
     (case Option.bind (json_get value ''permissions'') (\<lambda>p. json_get p ''additionalDirectories'') of
        Some nested \<Rightarrow> (case nested of JArray arr \<Rightarrow> Some (List.map_filter as_str arr) | _ \<Rightarrow> None)
      | None \<Rightarrow> (case json_get value ''additionalDirectories'' of
          Some (JArray arr) \<Rightarrow> Some (List.map_filter as_str arr) | _ \<Rightarrow> None))"

definition env_value :: "json \<Rightarrow> rstring option" where
  "env_value v = (case v of
     JString s \<Rightarrow> Some s
   | JNumber n \<Rightarrow> Some n
   | JBool b \<Rightarrow> Some (if b then lit ''true'' else lit ''false'')
   | _ \<Rightarrow> None)"

definition extract_string_map :: "json option \<Rightarrow> (rstring \<rightharpoonup> rstring) option" where
  "extract_string_map value = (case value of
     Some (JObject kvs) \<Rightarrow>
       let kept = List.map_filter (\<lambda>(k, v). map_option (Pair k) (env_value v)) kvs in
       if kept = [] then None else Some (map_of kept)
   | _ \<Rightarrow> None)"

definition settings_permissions :: "json \<Rightarrow> parsed_permissions option" where
  "settings_permissions value = Option.bind (json_get value ''permissions'') (\<lambda>p.
     let allow = extract_string_array (json_get p ''allow'');
         deny = extract_string_array (json_get p ''deny'');
         ask = extract_string_array (json_get p ''ask'')
     in if allow = [] \<and> deny = [] \<and> ask = [] then None
        else Some \<lparr>pp_allow = allow, pp_deny = deny, pp_ask = ask\<rparr>)"

section \<open>The files that count\<close>

record settings_env =
  se_home :: "rstring option"
  se_is_home :: "rstring \<Rightarrow> bool"
  se_exists :: "rstring \<Rightarrow> bool"
  se_read :: "rstring \<Rightarrow> rstring option"
  se_json :: "rstring \<Rightarrow> json option"
  se_import_marked :: bool

text \<open>\<open>se_read\<close> gives the text of a regular file that can be read, and nothing otherwise.\<close>

definition load_claude_settings :: "settings_env \<Rightarrow> rstring \<Rightarrow> claude_settings option" where
  "load_claude_settings se path = Option.bind (se_read se path) (\<lambda>content. Option.bind (se_json se content) (\<lambda>value.
     Some \<lparr>cs_permissions = settings_permissions value, cs_default_mode = extract_default_mode value,
           cs_additional_directories = extract_additional_directories value,
           cs_env = extract_string_map (json_get value ''env'')\<rparr>))"

fun walk_up :: "component list \<Rightarrow> component list list" where
  \<comment> \<open>reversed components, and what \<open>parent\<close> leaves of them until there is none\<close>
  "walk_up [] = [[]]"
| "walk_up (RootDir # r) = [RootDir # r]"
| "walk_up (c # r) = (c # r) # walk_up r"

definition ancestors :: "rstring \<Rightarrow> rstring list" where
  "ancestors p = p # map (\<lambda>r. path_of (rev r)) (tl (walk_up (rev (components p))))"

fun take_until :: "('a \<Rightarrow> bool) \<Rightarrow> 'a list \<Rightarrow> 'a list" where
  "take_until P [] = []"
| "take_until P (x # xs) = (if P x then [x] else x # take_until P xs)"

definition find_repo_root :: "settings_env \<Rightarrow> rstring \<Rightarrow> rstring option" where
  "find_repo_root se start = List.find (\<lambda>p. se_exists se (path_join p (lit ''.git''))) (ancestors start)"

definition claude_files :: "rstring \<Rightarrow> rstring list" where
  "claude_files dir = (let claude_dir = path_join dir (lit ''.claude'') in
     [path_join claude_dir (lit ''settings.local.json''), path_join claude_dir (lit ''settings.json'')])"

definition collect_project_claude_paths :: "settings_env \<Rightarrow> rstring \<Rightarrow> rstring list" where
  "collect_project_claude_paths se cwd =
     (let repo_root = (case find_repo_root se cwd of
            Some found \<Rightarrow> if se_is_home se found then cwd else found | None \<Rightarrow> cwd)
      in concat (map claude_files (take_until (\<lambda>p. components p = components repo_root) (ancestors cwd))))"

definition global_claude_settings_paths :: "settings_env \<Rightarrow> rstring list" where
  "global_claude_settings_paths se = (case se_home se of Some home \<Rightarrow> claude_files home | None \<Rightarrow> [])"

definition find_claude_settings_paths :: "settings_env \<Rightarrow> rstring \<Rightarrow> rstring list" where
  "find_claude_settings_paths se cwd = collect_project_claude_paths se cwd @ global_claude_settings_paths se"

definition claude_settings_paths_for_trust :: "settings_env \<Rightarrow> rstring \<Rightarrow> bool \<Rightarrow> rstring list" where
  "claude_settings_paths_for_trust se cwd project_trusted =
     (if project_trusted then find_claude_settings_paths se cwd else global_claude_settings_paths se)"

definition has_claude_compat :: "settings_env \<Rightarrow> rstring \<Rightarrow> bool" where
  "has_claude_compat se cwd = list_ex (se_exists se) (find_claude_settings_paths se cwd)"

definition project_claude_settings_present :: "settings_env \<Rightarrow> (rstring \<Rightarrow> bool) \<Rightarrow> rstring \<Rightarrow> bool" where
  "project_claude_settings_present se is_file cwd = list_ex is_file (collect_project_claude_paths se cwd)"

definition load_claude_env_with_project :: "settings_env \<Rightarrow> rstring \<Rightarrow> bool \<Rightarrow> (rstring \<rightharpoonup> rstring)" where
  "load_claude_env_with_project se cwd project_trusted =
     (if se_import_marked se then Map.empty
      else foldl (\<lambda>merged path. case Option.bind (load_claude_settings se path) cs_env of
                    Some e \<Rightarrow> merged ++ e | None \<Rightarrow> merged)
             Map.empty (rev (claude_settings_paths_for_trust se cwd project_trusted)))"

section \<open>Which file gives a variable\<close>

lemma foldl_map_add:
  "foldl (\<lambda>merged path. case f path of Some e \<Rightarrow> merged ++ e | None \<Rightarrow> merged) m (rev paths) k =
   (case List.find (\<lambda>path. \<exists>e. f path = Some e \<and> k \<in> dom e) paths of
      Some path \<Rightarrow> the (f path) k | None \<Rightarrow> m k)"
  by (induction paths) (auto simp: map_add_dom_app_simps map_add_def split: option.splits)

lemma claude_env_lookup:
  "load_claude_env_with_project se cwd trusted k =
     (if se_import_marked se then None
      else case List.find (\<lambda>p. \<exists>e. Option.bind (load_claude_settings se p) cs_env = Some e \<and> k \<in> dom e)
             (claude_settings_paths_for_trust se cwd trusted) of
        Some p \<Rightarrow> the (Option.bind (load_claude_settings se p) cs_env) k | None \<Rightarrow> None)"
  unfolding load_claude_env_with_project_def by (simp add: foldl_map_add)

end
