(* ===== verification/Permission_Resolution.thy ===== *)
theory Permission_Resolution
  imports Claude_Settings Permission_Manager
begin

text \<open>
  How a session gets its permission configuration (\<open>permission/resolution.rs\<close> and the permission
  setup of \<open>session/acp_session_impl/spawn.rs\<close>): rules from requirements, managed settings, managed
  and own configuration files and the settings of the other agent are merged with their origin, the
  default mode of the highest scope adds its synthetic rules, and the pin against always-approve drops
  the rules that would stand in for it.  What the loaders read, the deserialiser of verbose sections
  and the managed settings file are arguments.
\<close>

section \<open>Data\<close>

datatype toml = TString rstring | TInteger int | TFloat rstring | TBoolean bool | TDatetime rstring
  | TArray "toml list" | TTable "(rstring \<times> toml) list"

definition toml_get :: "toml \<Rightarrow> string \<Rightarrow> toml option" where
  "toml_get v key = (case v of TTable kvs \<Rightarrow> map_of kvs (lit key) | _ \<Rightarrow> None)"

definition toml_str :: "toml \<Rightarrow> rstring option" where
  "toml_str v = (case v of TString s \<Rightarrow> Some s | _ \<Rightarrow> None)"

definition toml_bool :: "toml \<Rightarrow> bool option" where
  "toml_bool v = (case v of TBoolean b \<Rightarrow> Some b | _ \<Rightarrow> None)"

datatype requirement_source = UnknownSource | Requirements rstring | SystemRequirements rstring
  | ManagedSettingsFile rstring | ManagedConfig rstring | ConfigFile rstring | SettingsFile rstring

record sourced =
  sourced_value :: permission_rule
  sourced_from :: requirement_source

record toml_layer =
  tl_value :: toml
  tl_label :: rstring
  tl_is_system :: bool

record managed_features =
  disable_telemetry :: "bool option"
  disable_feedback :: "bool option"
  disable_yolo :: "bool option"
  source_path :: "rstring option"

record managed_settings =
  ms_features :: managed_features
  ms_permissions :: "sourced list"
  ms_default_mode :: "default_permission_mode option"

record skipped_permission =
  skip_rule :: rstring
  skip_reason :: rstring

datatype yolo_pin_reason = DisableBypassPermissionsMode | LegacyYoloFalse

fun pin_message :: "yolo_pin_reason \<Rightarrow> rstring" where
  "pin_message DisableBypassPermissionsMode =
     lit ''always-approve disabled by managed policy ([ui] disable_bypass_permissions_mode = true in requirements.toml)''"
| "pin_message LegacyYoloFalse = lit ''always-approve disabled by managed policy ([ui] yolo = false in requirements.toml)''"

record yolo_policy_lock =
  lock_source :: rstring
  lock_reason :: yolo_pin_reason

record resolved_permissions =
  rp_config :: permission_config
  rp_sources :: "requirement_source list"
  rp_skipped :: "skipped_permission list"
  rp_lock :: "yolo_policy_lock option"

text \<open>What one resolution reads.\<close>

record resolve_world =
  requirements_layers :: "toml_layer list"
  managed_config_layers :: "toml_layer list"
  global_config :: "(rstring \<times> toml) option"
  project_configs :: "rstring \<Rightarrow> (rstring \<times> toml) list"
  config_of_toml :: "toml \<Rightarrow> permission_rule list option"
  rw_settings :: settings_env
  rw_managed :: managed_settings

section \<open>The pin\<close>

definition requirements_lock_bool :: "toml option \<Rightarrow> string \<Rightarrow> bool option" where
  "requirements_lock_bool ui key = Option.bind ui (\<lambda>u. Option.bind (toml_get u key) toml_bool)"

fun resolve_yolo_policy_block :: "toml_layer list \<Rightarrow> yolo_policy_lock option" where
  "resolve_yolo_policy_block [] = None"
| "resolve_yolo_policy_block (layer # layers) =
     (let ui = toml_get (tl_value layer) ''ui'' in
      if requirements_lock_bool ui ''disable_bypass_permissions_mode'' = Some True
      then Some \<lparr>lock_source = tl_label layer, lock_reason = DisableBypassPermissionsMode\<rparr>
      else if requirements_lock_bool ui ''yolo'' = Some False
      then Some \<lparr>lock_source = tl_label layer, lock_reason = LegacyYoloFalse\<rparr>
      else resolve_yolo_policy_block layers)"

definition current_yolo_lock :: "resolve_world \<Rightarrow> yolo_policy_lock option" where
  "current_yolo_lock w = resolve_yolo_policy_block (requirements_layers w)"

definition yolo_disabled_by_policy :: "resolve_world \<Rightarrow> rstring option" where
  "yolo_disabled_by_policy w = map_option (\<lambda>l. pin_message (lock_reason l)) (current_yolo_lock w)"

section \<open>Default modes\<close>

definition plain_allow :: "tool_filter \<Rightarrow> permission_rule" where
  "plain_allow t = \<lparr>action = Allow, tool = t, pattern = None, pattern_mode = Glob\<rparr>"

definition synthetic_rules_for_default_mode ::
  "default_permission_mode \<Rightarrow> rstring option \<Rightarrow> permission_rule list \<times> skipped_permission list \<times> bool" where
  "synthetic_rules_for_default_mode mode policy_block =
     (if bypass_permissions (effects mode) then
        (case policy_block of
           Some why \<Rightarrow> ([], [\<lparr>skip_rule = lit ''defaultMode=bypassPermissions'', skip_reason = why\<rparr>], True)
         | None \<Rightarrow> ([plain_allow AnyTool], [], False))
      else if accept_edits (effects mode) then ([plain_allow EditTool], [], False)
      else ([], [], False))"

definition parse_default_mode_claiming_scope :: "rstring \<Rightarrow> default_permission_mode \<times> skipped_permission list" where
  "parse_default_mode_claiming_scope raw = (case mode_from_str raw of
     Inr mode \<Rightarrow> (mode, [])
   | Inl invalid \<Rightarrow> (ModeDefault,
       [\<lparr>skip_rule = lit ''defaultMode='' @ invalid, skip_reason = lit ''unrecognized value; treated as default''\<rparr>]))"

section \<open>Configuration files\<close>

definition compact_list :: "toml \<Rightarrow> rule_action \<times> string \<Rightarrow> permission_rule list option" where
  \<comment> \<open>nothing when the key is absent or no array\<close>
  "compact_list v = (\<lambda>(act, key). case toml_get v key of
     Some (TArray arr) \<Rightarrow> Some (parsed_rules act (List.map_filter toml_str arr))
   | _ \<Rightarrow> None)"

definition COMPACT_KEYS :: "(rule_action \<times> string) list" where
  "COMPACT_KEYS = [(Deny, ''deny''), (Allow, ''allow''), (Ask, ''ask'')]"

definition parse_toml_permission_section :: "resolve_world \<Rightarrow> toml \<Rightarrow> permission_rule list option" where
  "parse_toml_permission_section w v =
     (let found = List.map_filter (compact_list v) COMPACT_KEYS in
      if found \<noteq> [] then Some (concat found) else config_of_toml w v)"

definition extract_toml_permissions :: "resolve_world \<Rightarrow> toml \<Rightarrow> requirement_source \<Rightarrow> sourced list" where
  "extract_toml_permissions w config source = (case toml_get config ''permission'' of
     None \<Rightarrow> []
   | Some permission_value \<Rightarrow> (case parse_toml_permission_section w permission_value of
       Some rs \<Rightarrow> map (\<lambda>r. \<lparr>sourced_value = r, sourced_from = source\<rparr>) rs
     | None \<Rightarrow> []))"

definition load_requirements_permissions :: "resolve_world \<Rightarrow> sourced list" where
  "load_requirements_permissions w = concat (map (\<lambda>layer. extract_toml_permissions w (tl_value layer)
     (if tl_is_system layer then SystemRequirements (tl_label layer) else Requirements (tl_label layer))) (requirements_layers w))"

definition load_config_toml_permissions :: "resolve_world \<Rightarrow> rstring \<Rightarrow> bool \<Rightarrow> sourced list" where
  "load_config_toml_permissions w cwd project_trusted =
     (case global_config w of Some (path, value) \<Rightarrow> extract_toml_permissions w value (ConfigFile path) | None \<Rightarrow> []) @
     (if project_trusted
      then concat (map (\<lambda>(path, value). extract_toml_permissions w value (ConfigFile path)) (project_configs w cwd)) else [])"

definition managed_config_permissions :: "resolve_world \<Rightarrow> sourced list" where
  "managed_config_permissions w =
     concat (map (\<lambda>layer. extract_toml_permissions w (tl_value layer) (ManagedConfig (tl_label layer))) (managed_config_layers w))"

section \<open>The settings of the other agent\<close>

datatype user_default_mode_load = ApplyMode | SkipManagedOwns

fun split_once_str :: "rstring \<Rightarrow> rstring \<Rightarrow> (rstring \<times> rstring) option" where
  \<comment> \<open>\<open>s.split_once(pat)\<close> at the first occurrence\<close>
  "split_once_str pat [] = (if pat = [] then Some ([], []) else None)"
| "split_once_str pat (c # s) = (case strip_prefix (c # s) pat of
     Some rest \<Rightarrow> Some ([], rest)
   | None \<Rightarrow> map_option (\<lambda>(a, b). (c # a, b)) (split_once_str pat s))"

definition skipped_of_warning :: "rstring \<Rightarrow> skipped_permission" where
  "skipped_of_warning w =
     (case (case split_once_str [32, 8212, 32] w of Some p \<Rightarrow> Some p | None \<Rightarrow> split_once_str (lit '' -- '') w) of
        Some (rule, why) \<Rightarrow> \<lparr>skip_rule = rule, skip_reason = why\<rparr>
      | None \<Rightarrow> \<lparr>skip_rule = w, skip_reason = []\<rparr>)"

record settings_scan =
  all_rules :: "permission_rule list"
  all_skipped :: "skipped_permission list"
  primary_source_path :: "rstring option"
  default_mode_source :: "rstring option"
  applied_mode :: "default_permission_mode option"

definition scan_start :: settings_scan where
  "scan_start = \<lparr>all_rules = [], all_skipped = [], primary_source_path = None, default_mode_source = None, applied_mode = None\<rparr>"

definition claim_mode :: "user_default_mode_load \<Rightarrow> rstring \<Rightarrow> rstring option \<Rightarrow> settings_scan \<Rightarrow> settings_scan" where
  "claim_mode load path raw sc = (case raw of
     Some r \<Rightarrow> if load = ApplyMode \<and> default_mode_source sc = None
       then let (mode, skipped) = parse_default_mode_claiming_scope r in
         sc\<lparr>default_mode_source := Some path, applied_mode := Some mode, all_skipped := all_skipped sc @ skipped\<rparr>
       else sc
   | None \<Rightarrow> sc)"

definition take_permissions :: "rstring \<Rightarrow> parsed_permissions option \<Rightarrow> settings_scan \<Rightarrow> settings_scan" where
  "take_permissions path perms sc = (case perms of
     Some p \<Rightarrow>
       let (cfg, warnings) = into_permission_config p in
       sc\<lparr>primary_source_path := (if (rules cfg \<noteq> [] \<or> warnings \<noteq> []) \<and> primary_source_path sc = None
              then Some path else primary_source_path sc),
          all_rules := all_rules sc @ rules cfg,
          all_skipped := all_skipped sc @ map skipped_of_warning warnings\<rparr>
   | None \<Rightarrow> sc)"

definition scan_settings_file :: "resolve_world \<Rightarrow> user_default_mode_load \<Rightarrow> settings_scan \<Rightarrow> rstring \<Rightarrow> settings_scan" where
  "scan_settings_file w load sc path = (case load_claude_settings (rw_settings w) path of
     None \<Rightarrow> sc
   | Some settings \<Rightarrow> take_permissions path (cs_permissions settings) (claim_mode load path (cs_default_mode settings) sc))"

definition mode_prompt_policy :: "default_permission_mode option \<Rightarrow> prompt_policy" where
  "mode_prompt_policy mode = (case mode of Some m \<Rightarrow> effect_prompt_policy (effects m) | None \<Rightarrow> PromptAsk)"

definition resolve_claude_settings_inner ::
  "resolve_world \<Rightarrow> rstring \<Rightarrow> bool \<Rightarrow> rstring option \<Rightarrow> user_default_mode_load \<Rightarrow>
     (permission_config \<times> skipped_permission list \<times> rstring) option" where
  "resolve_claude_settings_inner w cwd project_trusted policy_block load =
     (let sc = foldl (scan_settings_file w load) scan_start (claude_settings_paths_for_trust (rw_settings w) cwd project_trusted);
          (syn_rules, syn_skipped, bypass_blocked) = (case applied_mode sc of
             Some mode \<Rightarrow> synthetic_rules_for_default_mode mode policy_block | None \<Rightarrow> ([], [], False));
          rs = all_rules sc @ syn_rules; skipped = all_skipped sc @ syn_skipped;
          policy = mode_prompt_policy (applied_mode sc)
      in if rs = [] \<and> policy = PromptAsk \<and> \<not> bypass_blocked \<and> default_mode_source sc = None \<and> skipped = [] then None
         else Some (\<lparr>rules = rs, prompt_policy = policy, default_mode_configured = (applied_mode sc \<noteq> None)\<rparr>, skipped,
           case primary_source_path sc of Some p \<Rightarrow> p
           | None \<Rightarrow> (case default_mode_source sc of Some p \<Rightarrow> p | None \<Rightarrow> cwd)))"

section \<open>Merging\<close>

definition is_catchall_allow :: "'g policy_env \<Rightarrow> permission_rule \<Rightarrow> bool" where
  "is_catchall_allow env rule =
     (if action rule \<noteq> Allow then False
      else if tool rule \<in> {ReadTool, EditTool, GrepTool} then False
      else rule_is_catchall env rule)"

fun is_admin_source :: "requirement_source \<Rightarrow> bool" where
  "is_admin_source (SystemRequirements _) = True"
| "is_admin_source (ManagedSettingsFile _) = True"
| "is_admin_source _ = False"

definition dropped_by_pin :: "'g policy_env \<Rightarrow> sourced \<Rightarrow> bool" where
  "dropped_by_pin env s \<longleftrightarrow> is_catchall_allow env (sourced_value s) \<and> \<not> is_admin_source (sourced_from s)"

definition drop_untrusted_catchall_allows ::
  "'g policy_env \<Rightarrow> sourced list \<Rightarrow> rstring option \<Rightarrow> sourced list \<times> skipped_permission list" where
  "drop_untrusted_catchall_allows env rs policy_block = (case policy_block of
     None \<Rightarrow> (rs, [])
   | Some why \<Rightarrow> (filter (\<lambda>s. \<not> dropped_by_pin env s) rs,
       map (\<lambda>s. \<lparr>skip_rule = lit ''allow '' @ (case pattern (sourced_value s) of Some p \<Rightarrow> p | None \<Rightarrow> lit ''*'') @ lit '' (catch-all)'',
                 skip_reason = why\<rparr>) (filter (dropped_by_pin env) rs)))"

definition tag_with_source :: "requirement_source \<Rightarrow> permission_rule list \<Rightarrow> sourced list" where
  "tag_with_source source rs = map (\<lambda>r. \<lparr>sourced_value = r, sourced_from = source\<rparr>) rs"

definition managed_mode_rules :: "managed_settings \<Rightarrow> rstring option \<Rightarrow> sourced list \<times> skipped_permission list" where
  "managed_mode_rules managed policy_block = (case ms_default_mode managed of
     None \<Rightarrow> ([], [])
   | Some mode \<Rightarrow>
       let path = (case source_path (ms_features managed) of Some p \<Rightarrow> p | None \<Rightarrow> lit ''managed-settings.json'');
           (syn_rules, syn_skipped, _) = synthetic_rules_for_default_mode mode policy_block
       in (tag_with_source (ManagedSettingsFile path) syn_rules, syn_skipped))"

definition user_settings ::
  "resolve_world \<Rightarrow> rstring \<Rightarrow> bool \<Rightarrow> rstring option \<Rightarrow> (permission_config \<times> skipped_permission list \<times> rstring) option" where
  "user_settings w cwd project_trusted policy_block =
     (if se_import_marked (rw_settings w) then None
      else resolve_claude_settings_inner w cwd project_trusted policy_block
        (if ms_default_mode (rw_managed w) \<noteq> None then SkipManagedOwns else ApplyMode))"

definition merged_rules :: "resolve_world \<Rightarrow> rstring \<Rightarrow> bool \<Rightarrow> rstring option \<Rightarrow> sourced list" where
  \<comment> \<open>\<open>all_rules\<close> before the pin\<close>
  "merged_rules w cwd project_trusted policy_block =
     load_requirements_permissions w @ ms_permissions (rw_managed w) @ fst (managed_mode_rules (rw_managed w) policy_block) @
     managed_config_permissions w @ load_config_toml_permissions w cwd project_trusted @
     (case user_settings w cwd project_trusted policy_block of
        Some (config, _, path) \<Rightarrow> tag_with_source (SettingsFile path) (rules config) | None \<Rightarrow> [])"

definition resolve_permissions_with_provenance_inner ::
  "'g policy_env \<Rightarrow> resolve_world \<Rightarrow> rstring \<Rightarrow> bool \<Rightarrow> yolo_policy_lock option \<Rightarrow> resolved_permissions option" where
  "resolve_permissions_with_provenance_inner env w cwd project_trusted yolo_lock =
     (let policy_block = map_option (\<lambda>l. pin_message (lock_reason l)) yolo_lock;
          managed_mode = ms_default_mode (rw_managed w);
          user = user_settings w cwd project_trusted policy_block;
          policy = (case managed_mode of Some mode \<Rightarrow> effect_prompt_policy (effects mode)
            | None \<Rightarrow> (case user of Some (config, _) \<Rightarrow> prompt_policy config | None \<Rightarrow> PromptAsk));
          configured = (case managed_mode of Some _ \<Rightarrow> True
            | None \<Rightarrow> (case user of Some (config, _) \<Rightarrow> default_mode_configured config | None \<Rightarrow> False));
          (kept, dropped) = drop_untrusted_catchall_allows env (merged_rules w cwd project_trusted policy_block) policy_block;
          skipped = snd (managed_mode_rules (rw_managed w) policy_block) @
            (case user of Some (_, user_skipped, _) \<Rightarrow> user_skipped | None \<Rightarrow> []) @ dropped
      in if kept = [] \<and> policy = PromptAsk \<and> skipped = [] \<and> \<not> configured then None
         else Some \<lparr>rp_config = \<lparr>rules = map sourced_value kept, prompt_policy = policy, default_mode_configured = configured\<rparr>,
                    rp_sources = map sourced_from kept, rp_skipped = skipped, rp_lock = yolo_lock\<rparr>)"

definition resolve_permissions_with_provenance ::
  "'g policy_env \<Rightarrow> resolve_world \<Rightarrow> rstring \<Rightarrow> bool \<Rightarrow> yolo_policy_lock option \<times> resolved_permissions option" where
  "resolve_permissions_with_provenance env w cwd project_trusted =
     (let yolo_lock = current_yolo_lock w in
      (yolo_lock, resolve_permissions_with_provenance_inner env w cwd project_trusted yolo_lock))"

definition resolve_permission_config_with_fallback_pinned ::
  "'g policy_env \<Rightarrow> resolve_world \<Rightarrow> rstring \<Rightarrow> bool \<Rightarrow> yolo_policy_lock option \<Rightarrow> permission_config option" where
  "resolve_permission_config_with_fallback_pinned env w cwd project_trusted yolo_lock =
     map_option rp_config (resolve_permissions_with_provenance_inner env w cwd project_trusted yolo_lock)"

section \<open>The managed settings file\<close>

definition json_as_i64 :: "rstring \<Rightarrow> int option" where
  \<comment> \<open>\<open>Number::as_i64\<close> on the text of a number\<close>
  "json_as_i64 n = (if n \<noteq> [] \<and> hd n = 45
     then (if tl n = [] then None else map_option (\<lambda>k. - int k) (parse_digits (2 ^ 63) 0 (tl n)))
     else if n = [] then None else map_option int (parse_digits (2 ^ 63 - 1) 0 n))"

definition json_env_flag :: "json option \<Rightarrow> string \<Rightarrow> bool option" where
  "json_env_flag env key = Option.bind env (\<lambda>e. Option.bind (json_get e key) (\<lambda>val. case val of
     JNumber n \<Rightarrow> Some ((case json_as_i64 n of Some i \<Rightarrow> i | None \<Rightarrow> 0) \<noteq> 0)
   | JBool b \<Rightarrow> Some b
   | JString s \<Rightarrow> Some (s \<noteq> [] \<and> s \<notin> set (map lit [''0'', ''false'']))
   | _ \<Rightarrow> None))"

definition parse_disable_bypass_permissions :: "json \<Rightarrow> bool option" where
  "parse_disable_bypass_permissions j = Option.bind (json_get j ''permissions'') (\<lambda>p.
     map_option (\<lambda>v. as_str v = Some (lit ''disable'')) (json_get p ''disableBypassPermissionsMode''))"

definition parse_managed_settings_permissions ::
  "(json \<Rightarrow> parsed_permissions option) \<Rightarrow> json \<Rightarrow> rstring \<Rightarrow> sourced list" where
  \<comment> \<open>the first argument is the deserialiser of a typed permissions block\<close>
  "parse_managed_settings_permissions from_value j path = (case json_get j ''permissions'' of
     None \<Rightarrow> []
   | Some perms_value \<Rightarrow> (case from_value perms_value of
       None \<Rightarrow> []
     | Some p \<Rightarrow> tag_with_source (ManagedSettingsFile path) (rules (fst (into_permission_config p)))))"

definition parse_managed_settings_base :: "(json \<Rightarrow> parsed_permissions option) \<Rightarrow> json \<Rightarrow> rstring \<Rightarrow> managed_settings" where
  "parse_managed_settings_base from_value j path =
     \<lparr>ms_features = \<lparr>disable_telemetry = json_env_flag (json_get j ''env'') ''DISABLE_TELEMETRY'',
        disable_feedback = json_env_flag (json_get j ''env'') ''DISABLE_FEEDBACK_COMMAND'',
        disable_yolo = parse_disable_bypass_permissions j, source_path = Some path\<rparr>,
      ms_permissions = parse_managed_settings_permissions from_value j path,
      ms_default_mode = map_option (\<lambda>raw. fst (parse_default_mode_claiming_scope raw)) (extract_default_mode j)\<rparr>"

definition claude_bypass_lock_request :: "managed_features \<Rightarrow> bool" where
  "claude_bypass_lock_request f \<longleftrightarrow> source_path f \<noteq> None \<and> disable_yolo f = Some True"

section \<open>The configuration of a session\<close>

definition PERMISSION_MODE_ALWAYS_ALLOW :: rstring where
  "PERMISSION_MODE_ALWAYS_ALLOW = lit ''alwaysAllow''"

definition apply_permission_mode_hint ::
  "permission_config option \<Rightarrow> rstring option \<Rightarrow> rstring option \<Rightarrow> permission_config option \<times> bool" where
  "apply_permission_mode_hint config requested policy_block = (case requested of
     None \<Rightarrow> (config, False)
   | Some mode \<Rightarrow>
       if mode \<noteq> PERMISSION_MODE_ALWAYS_ALLOW then (config, False)
       else if policy_block \<noteq> None then (config, False)
       else let c = (case config of Some c \<Rightarrow> c | None \<Rightarrow> config_of_rules []) in
         if default_mode_configured c then (Some c, False) else (Some (c\<lparr>prompt_policy := PromptAllow\<rparr>), True))"

definition deny_read_globs_from_config :: "permission_config \<Rightarrow> rstring list" where
  "deny_read_globs_from_config config =
     List.map_filter pattern (filter (\<lambda>r. action r = Deny \<and> tool r \<in> {ReadTool, GrepTool, AnyTool}) (rules config))"

definition drop_cli_catchall_allows ::
  "'g policy_env \<Rightarrow> permission_rule list \<Rightarrow> rstring option \<Rightarrow> permission_rule list \<times> permission_rule list" where
  "drop_cli_catchall_allows env rs policy_block =
     (if policy_block = None then (rs, []) else (filter (\<lambda>r. \<not> is_catchall_allow env r) rs, filter (is_catchall_allow env) rs))"

definition merge_cli_rules :: "permission_rule list \<Rightarrow> permission_config option \<Rightarrow> permission_config option" where
  "merge_cli_rules cli config =
     (if cli = [] then config
      else case config of Some c \<Rightarrow> Some (c\<lparr>rules := cli @ rules c\<rparr>) | None \<Rightarrow> Some (config_of_rules cli))"

definition session_permission_config ::
  "'g policy_env \<Rightarrow> resolve_world \<Rightarrow> rstring \<Rightarrow> bool \<Rightarrow> permission_rule list \<Rightarrow> rstring option \<Rightarrow>
     permission_config option \<times> rstring list \<times> rstring option" where
  \<comment> \<open>the configuration, the globs no search may read, and the pin that the manager is given\<close>
  "session_permission_config env w cwd project_trusted cli_rules hint =
     (let yolo_lock = current_yolo_lock w;
          yolo_pin = map_option (\<lambda>l. pin_message (lock_reason l)) yolo_lock;
          resolved = resolve_permission_config_with_fallback_pinned env w cwd project_trusted yolo_lock;
          merged = merge_cli_rules (fst (drop_cli_catchall_allows env cli_rules yolo_pin)) resolved;
          config = fst (apply_permission_mode_hint merged hint yolo_pin)
      in (config, case config of Some c \<Rightarrow> deny_read_globs_from_config c | None \<Rightarrow> [], yolo_pin))"

end
