(* ===== verification/Resolution_Safety.thy ===== *)
theory Resolution_Safety
  imports Permission_Resolution Manager_Safety
begin

text \<open>
  What the resolution of permissions promises: no restriction of any source is lost on the way to the
  session, a folder that is not trusted has no say, a pin against always-approve cannot be got around
  by a rule or a hint, and the default mode is the one of the highest scope that sets it.
\<close>

section \<open>Scanning the settings files\<close>

definition settings_file_rules :: "resolve_world \<Rightarrow> rstring \<Rightarrow> permission_rule list" where
  "settings_file_rules w path = (case Option.bind (load_claude_settings (rw_settings w) path) cs_permissions of
     Some p \<Rightarrow> rules (fst (into_permission_config p)) | None \<Rightarrow> [])"

definition settings_modes :: "resolve_world \<Rightarrow> rstring list \<Rightarrow> rstring list" where
  "settings_modes w paths = List.map_filter (\<lambda>p. Option.bind (load_claude_settings (rw_settings w) p) cs_default_mode) paths"

definition claimed_mode :: "rstring list \<Rightarrow> default_permission_mode option" where
  \<comment> \<open>the most specific file that sets a mode owns it, with an unknown value too\<close>
  "claimed_mode raws = (case raws of [] \<Rightarrow> None | raw # _ \<Rightarrow> Some (fst (parse_default_mode_claiming_scope raw)))"

lemma take_permissions_simps [simp]:
  "applied_mode (take_permissions path perms sc) = applied_mode sc"
  "default_mode_source (take_permissions path perms sc) = default_mode_source sc"
  "all_rules (take_permissions path perms sc) =
     all_rules sc @ (case perms of Some p \<Rightarrow> rules (fst (into_permission_config p)) | None \<Rightarrow> [])"
  by (simp_all add: take_permissions_def into_permission_config_def Let_def split: option.split)

lemma claim_mode_simps [simp]:
  "all_rules (claim_mode load path raw sc) = all_rules sc"
  "claim_mode SkipManagedOwns path raw sc = sc"
  by (simp_all add: claim_mode_def split: option.split prod.split)

lemma scan_file_rules: "all_rules (scan_settings_file w load sc path) = all_rules sc @ settings_file_rules w path"
  by (auto simp: scan_settings_file_def settings_file_rules_def split: option.split)

lemma scan_rules:
  "all_rules (foldl (scan_settings_file w load) sc paths) = all_rules sc @ concat (map (settings_file_rules w) paths)"
  by (induction paths arbitrary: sc) (simp_all add: scan_file_rules)

definition mode_known :: "settings_scan \<Rightarrow> bool" where
  "mode_known sc \<longleftrightarrow> (default_mode_source sc = None \<longleftrightarrow> applied_mode sc = None)"

lemma scan_mode:
  assumes "mode_known sc"
  shows "applied_mode (foldl (scan_settings_file w ApplyMode) sc paths) =
     (if applied_mode sc = None then claimed_mode (settings_modes w paths) else applied_mode sc)"
  using assms
proof (induction paths arbitrary: sc)
  case Nil
  then show ?case by (simp add: settings_modes_def claimed_mode_def)
next
  case (Cons path paths)
  let ?raw = "Option.bind (load_claude_settings (rw_settings w) path) cs_default_mode"
  let ?sc = "scan_settings_file w ApplyMode sc path"
  have known: "mode_known ?sc"
    using Cons.prems by (auto simp: mode_known_def scan_settings_file_def claim_mode_def split: option.split prod.split)
  have "applied_mode ?sc = (case ?raw of Some raw \<Rightarrow>
      if applied_mode sc = None then Some (fst (parse_default_mode_claiming_scope raw)) else applied_mode sc
    | None \<Rightarrow> applied_mode sc)"
    using Cons.prems by (auto simp: mode_known_def scan_settings_file_def claim_mode_def split: option.split prod.split)
  with Cons.IH [OF known] show ?case
    by (auto simp: settings_modes_def claimed_mode_def split: option.splits)
qed

lemma scan_skips_mode: "applied_mode (foldl (scan_settings_file w SkipManagedOwns) sc paths) = applied_mode sc"
  by (induction paths arbitrary: sc) (simp_all add: scan_settings_file_def split: option.split)

lemma scan_start_simps [simp]:
  "all_rules scan_start = []" "applied_mode scan_start = None" "mode_known scan_start"
  by (simp_all add: scan_start_def mode_known_def)

definition user_mode :: "resolve_world \<Rightarrow> rstring \<Rightarrow> bool \<Rightarrow> default_permission_mode option" where
  \<comment> \<open>the mode the settings files give, when nobody above owns it\<close>
  "user_mode w cwd trusted =
     (if se_import_marked (rw_settings w) \<or> ms_default_mode (rw_managed w) \<noteq> None then None
      else claimed_mode (settings_modes w (claude_settings_paths_for_trust (rw_settings w) cwd trusted)))"

definition user_rules :: "resolve_world \<Rightarrow> rstring \<Rightarrow> bool \<Rightarrow> permission_rule list" where
  "user_rules w cwd trusted = (if se_import_marked (rw_settings w) then []
     else concat (map (settings_file_rules w) (claude_settings_paths_for_trust (rw_settings w) cwd trusted)))"

definition mode_rules :: "default_permission_mode option \<Rightarrow> rstring option \<Rightarrow> permission_rule list" where
  "mode_rules mode policy_block = (case mode of Some m \<Rightarrow> fst (synthetic_rules_for_default_mode m policy_block) | None \<Rightarrow> [])"

definition config_part :: "(permission_config \<times> 'a) option \<Rightarrow> permission_config" where
  "config_part user = (case user of Some (config, _) \<Rightarrow> config | None \<Rightarrow> config_of_rules [])"

lemma scan_known: "mode_known sc \<Longrightarrow> mode_known (foldl (scan_settings_file w load) sc paths)"
proof (induction paths arbitrary: sc)
  case (Cons path paths)
  have "mode_known (scan_settings_file w load sc path)"
    using Cons.prems by (auto simp: mode_known_def scan_settings_file_def claim_mode_def split: option.split prod.split)
  then show ?case using Cons.IH by simp
qed simp

lemma user_settings_config:
  "rules (config_part (user_settings w cwd trusted block)) = user_rules w cwd trusted @ mode_rules (user_mode w cwd trusted) block \<and>
   prompt_policy (config_part (user_settings w cwd trusted block)) = mode_prompt_policy (user_mode w cwd trusted) \<and>
   (default_mode_configured (config_part (user_settings w cwd trusted block)) \<longleftrightarrow> user_mode w cwd trusted \<noteq> None)"
proof (cases "se_import_marked (rw_settings w)")
  case True
  then show ?thesis
    by (simp add: user_settings_def config_part_def user_rules_def user_mode_def mode_rules_def mode_prompt_policy_def config_of_rules_def)
next
  case False
  define load where "load = (if ms_default_mode (rw_managed w) \<noteq> None then SkipManagedOwns else ApplyMode)"
  define sc where "sc = foldl (scan_settings_file w load) scan_start (claude_settings_paths_for_trust (rw_settings w) cwd trusted)"
  have rs: "all_rules sc = user_rules w cwd trusted" using False by (simp add: sc_def scan_rules user_rules_def)
  have mode: "applied_mode sc = user_mode w cwd trusted"
    using False by (simp add: sc_def load_def user_mode_def scan_mode scan_skips_mode)
  have known: "mode_known sc" by (simp add: sc_def scan_known)
  have "user_settings w cwd trusted block = resolve_claude_settings_inner w cwd trusted block load"
    using False by (simp add: user_settings_def load_def)
  then show ?thesis
    using known
    by (auto simp: resolve_claude_settings_inner_def rs mode mode_known_def config_part_def mode_rules_def config_of_rules_def
        mode_prompt_policy_def Let_def split: option.split prod.split simp flip: sc_def)
qed

section \<open>The session's configuration\<close>

definition source_rules :: "resolve_world \<Rightarrow> rstring \<Rightarrow> bool \<Rightarrow> permission_rule list" where
  \<comment> \<open>what the files of all sources say, without the rules a default mode stands for\<close>
  "source_rules w cwd trusted = map sourced_value (load_requirements_permissions w) @ map sourced_value (ms_permissions (rw_managed w)) @
     map sourced_value (managed_config_permissions w) @ map sourced_value (load_config_toml_permissions w cwd trusted) @
     user_rules w cwd trusted"

definition mode_in_force :: "resolve_world \<Rightarrow> rstring \<Rightarrow> bool \<Rightarrow> default_permission_mode option" where
  "mode_in_force w cwd trusted = (case ms_default_mode (rw_managed w) of Some m \<Rightarrow> Some m | None \<Rightarrow> user_mode w cwd trusted)"

definition session_rules :: "permission_config option \<Rightarrow> permission_rule list" where
  "session_rules c = (case c of Some c \<Rightarrow> rules c | None \<Rightarrow> [])"

definition session_policy :: "permission_config option \<Rightarrow> prompt_policy" where
  "session_policy c = (case c of Some c \<Rightarrow> prompt_policy c | None \<Rightarrow> PromptAsk)"

lemma map_tag [simp]: "map sourced_value (tag_with_source s rs) = rs"
  by (simp add: tag_with_source_def comp_def)

lemma merged_rules_values:
  "set (map sourced_value (merged_rules w cwd trusted block)) =
     set (source_rules w cwd trusted) \<union> set (mode_rules (mode_in_force w cwd trusted) block)"
proof -
  have managed: "map sourced_value (fst (managed_mode_rules (rw_managed w) block)) = mode_rules (ms_default_mode (rw_managed w)) block"
    by (simp add: managed_mode_rules_def mode_rules_def Let_def split: option.split prod.split)
  have user: "map sourced_value (case user_settings w cwd trusted block of
      Some (config, _, path) \<Rightarrow> tag_with_source (SettingsFile path) (rules config) | None \<Rightarrow> []) =
    user_rules w cwd trusted @ mode_rules (user_mode w cwd trusted) block"
    using user_settings_config [of w cwd trusted block]
    by (auto simp: config_part_def config_of_rules_def split: option.splits prod.splits)
  have "set (mode_rules (mode_in_force w cwd trusted) block) =
      set (mode_rules (ms_default_mode (rw_managed w)) block) \<union> set (mode_rules (user_mode w cwd trusted) block)"
    by (auto simp: mode_in_force_def user_mode_def mode_rules_def split: option.splits)
  then show ?thesis
    unfolding merged_rules_def source_rules_def map_append managed user set_append by blast
qed

definition pin_text :: "yolo_policy_lock option \<Rightarrow> rstring option" where
  "pin_text lock = map_option (\<lambda>l. pin_message (lock_reason l)) lock"

lemma pin_text_None [simp]: "pin_text lock = None \<longleftrightarrow> lock = None"
  by (simp add: pin_text_def)

lemma resolved_config:
  fixes env w cwd trusted lock
  defines "config \<equiv> resolve_permission_config_with_fallback_pinned env w cwd trusted lock"
  shows "session_rules config = map sourced_value (fst (drop_untrusted_catchall_allows env (merged_rules w cwd trusted (pin_text lock)) (pin_text lock)))"
    and "session_policy config = mode_prompt_policy (mode_in_force w cwd trusted)"
    and "(case config of Some c \<Rightarrow> default_mode_configured c | None \<Rightarrow> False) \<longleftrightarrow> mode_in_force w cwd trusted \<noteq> None"
proof -
  define block where "block = pin_text lock"
  define user where "user = user_settings w cwd trusted block"
  note user_config = user_settings_config [of w cwd trusted block, folded user_def]
  have policy: "(case ms_default_mode (rw_managed w) of Some mode \<Rightarrow> effect_prompt_policy (effects mode)
      | None \<Rightarrow> (case user of Some (config, _) \<Rightarrow> prompt_policy config | None \<Rightarrow> PromptAsk)) =
    mode_prompt_policy (mode_in_force w cwd trusted)"
    using user_config by (auto simp: mode_in_force_def mode_prompt_policy_def config_part_def config_of_rules_def split: option.splits)
  have configured: "(case ms_default_mode (rw_managed w) of Some _ \<Rightarrow> True
      | None \<Rightarrow> (case user of Some (config, _) \<Rightarrow> default_mode_configured config | None \<Rightarrow> False)) \<longleftrightarrow>
    mode_in_force w cwd trusted \<noteq> None"
    using user_config by (auto simp: mode_in_force_def config_part_def config_of_rules_def split: option.splits)
  obtain kept dropped where kd: "drop_untrusted_catchall_allows env (merged_rules w cwd trusted block) block = (kept, dropped)" by force
  note unfolded = config_def resolve_permission_config_with_fallback_pinned_def resolve_permissions_with_provenance_inner_def Let_def
    pin_text_def [symmetric] block_def [symmetric] user_def [symmetric] policy configured kd prod.case
  show "session_rules config = map sourced_value (fst (drop_untrusted_catchall_allows env (merged_rules w cwd trusted (pin_text lock)) (pin_text lock)))"
    unfolding unfolded by (simp add: session_rules_def)
  show "session_policy config = mode_prompt_policy (mode_in_force w cwd trusted)"
    unfolding unfolded by (simp add: session_policy_def mode_prompt_policy_def)
  show "(case config of Some c \<Rightarrow> default_mode_configured c | None \<Rightarrow> False) \<longleftrightarrow> mode_in_force w cwd trusted \<noteq> None"
    unfolding unfolded by simp
qed

lemma mode_rules_allow: "r \<in> set (mode_rules mode block) \<Longrightarrow> action r = Allow"
  by (auto simp: mode_rules_def synthetic_rules_for_default_mode_def plain_allow_def split: option.splits if_splits)

lemma hint_keeps_rules: "session_rules (fst (apply_permission_mode_hint c hint block)) = session_rules c"
  by (simp add: apply_permission_mode_hint_def session_rules_def config_of_rules_def Let_def split: option.split)

lemma merge_cli_simps:
  "session_rules (merge_cli_rules cli c) = cli @ session_rules c"
  "session_policy (merge_cli_rules cli c) = session_policy c"
  "(case merge_cli_rules cli c of Some c \<Rightarrow> default_mode_configured c | None \<Rightarrow> False) =
   (case c of Some c \<Rightarrow> default_mode_configured c | None \<Rightarrow> False)"
  by (simp_all add: merge_cli_rules_def session_rules_def session_policy_def config_of_rules_def split: option.split)

lemma session_rules_eq:
  "session_rules (fst (session_permission_config env w cwd trusted cli hint)) =
     fst (drop_cli_catchall_allows env cli (pin_text (current_yolo_lock w))) @
     map sourced_value (fst (drop_untrusted_catchall_allows env (merged_rules w cwd trusted (pin_text (current_yolo_lock w)))
       (pin_text (current_yolo_lock w))))"
  by (simp add: session_permission_config_def Let_def hint_keeps_rules merge_cli_simps resolved_config flip: pin_text_def)

lemma catchall_allows: "is_catchall_allow env r \<Longrightarrow> action r = Allow"
  by (simp add: is_catchall_allow_def split: if_splits)

lemma cli_restrictions: "action r \<noteq> Allow \<Longrightarrow> r \<in> set (fst (drop_cli_catchall_allows env cli block)) \<longleftrightarrow> r \<in> set cli"
  by (auto simp: drop_cli_catchall_allows_def dest: catchall_allows)

lemma source_restrictions:
  assumes "action r \<noteq> Allow"
  shows "r \<in> set (map sourced_value (fst (drop_untrusted_catchall_allows env (merged_rules w cwd trusted block) block))) \<longleftrightarrow>
    r \<in> set (source_rules w cwd trusted)"
proof -
  have "r \<in> set (map sourced_value (fst (drop_untrusted_catchall_allows env rs block))) \<longleftrightarrow> r \<in> set (map sourced_value rs)" for rs
    using assms by (auto simp: drop_untrusted_catchall_allows_def dropped_by_pin_def dest: catchall_allows split: option.splits)
  then show ?thesis using assms mode_rules_allow by (simp only: merged_rules_values Un_iff) blast
qed

lemma session_restrictions:
  assumes "action r \<noteq> Allow"
  shows "r \<in> set (session_rules (fst (session_permission_config env w cwd trusted cli hint))) \<longleftrightarrow>
    r \<in> set cli \<union> set (source_rules w cwd trusted)"
  unfolding session_rules_eq set_append Un_iff cli_restrictions [OF assms] source_restrictions [OF assms] ..

definition session_deny_globs :: "permission_config option \<Rightarrow> rstring list" where
  "session_deny_globs c = (case c of Some c \<Rightarrow> deny_read_globs_from_config c | None \<Rightarrow> [])"

lemma session_globs:
  "fst (snd (session_permission_config env w cwd trusted cli hint)) =
     session_deny_globs (fst (session_permission_config env w cwd trusted cli hint))"
  by (simp add: session_permission_config_def Let_def session_deny_globs_def)

lemma deny_globs_iff:
  "set (session_deny_globs c) =
     {p. \<exists>r \<in> set (session_rules c). action r = Deny \<and> tool r \<in> {ReadTool, GrepTool, AnyTool} \<and> pattern r = Some p}"
proof -
  have "set (List.map_filter f xs) = {y. \<exists>x \<in> set xs. f x = Some y}" for f :: "permission_rule \<Rightarrow> rstring option" and xs
    by (force simp: List.map_filter_def)
  then show ?thesis
    by (auto simp: session_deny_globs_def session_rules_def deny_read_globs_from_config_def split: option.split)
qed


lemma session_policy_eq:
  "session_policy (fst (session_permission_config env w cwd trusted cli hint)) =
     (case mode_in_force w cwd trusted of
        Some mode \<Rightarrow> effect_prompt_policy (effects mode)
      | None \<Rightarrow> if hint = Some PERMISSION_MODE_ALWAYS_ALLOW \<and> current_yolo_lock w = None then PromptAllow else PromptAsk)"
proof -
  define pin where "pin = pin_text (current_yolo_lock w)"
  define c where "c = merge_cli_rules (fst (drop_cli_catchall_allows env cli pin))
    (resolve_permission_config_with_fallback_pinned env w cwd trusted (current_yolo_lock w))"
  have policy: "session_policy c = mode_prompt_policy (mode_in_force w cwd trusted)"
    and configured: "(case c of Some c \<Rightarrow> default_mode_configured c | None \<Rightarrow> False) \<longleftrightarrow> mode_in_force w cwd trusted \<noteq> None"
    unfolding c_def merge_cli_simps resolved_config by simp_all
  have pin: "pin = None \<longleftrightarrow> current_yolo_lock w = None" by (simp add: pin_def)
  have "fst (session_permission_config env w cwd trusted cli hint) = fst (apply_permission_mode_hint c hint pin)"
    by (simp add: session_permission_config_def Let_def c_def pin_def pin_text_def)
  then show ?thesis
    using policy configured pin
    by (auto simp: apply_permission_mode_hint_def session_policy_def mode_prompt_policy_def config_of_rules_def Let_def
        split: option.splits if_splits)
qed

lemma effects_never_allow: "effect_prompt_policy (effects m) \<noteq> PromptAllow"
  by (cases m) (simp_all add: no_effects_def)

text \<open>
  C31. The default mode of a session is the one of the highest scope that sets it: the managed
  settings, else the most specific settings file that counts, where an unknown value stands for the
  cautious default; how prompts are answered follows from it alone.  A client's hint to allow every
  prompt counts only when no scope set a mode and no requirement pins always-approve off.
\<close>

theorem default_mode_has_one_owner:
  "session_policy (fst (session_permission_config env w cwd trusted cli hint)) =
     (case mode_in_force w cwd trusted of
        Some mode \<Rightarrow> effect_prompt_policy (effects mode)
      | None \<Rightarrow> if hint = Some PERMISSION_MODE_ALWAYS_ALLOW \<and> current_yolo_lock w = None then PromptAllow else PromptAsk)"
  by (rule session_policy_eq)

section \<open>The pin\<close>

lemma pin_drops_own_catchalls: "r \<in> set (fst (drop_cli_catchall_allows env cli (Some why))) \<Longrightarrow> \<not> is_catchall_allow env r"
  by (simp add: drop_cli_catchall_allows_def)

lemma managed_mode_no_catchall:
  "s \<in> set (fst (managed_mode_rules managed (Some why))) \<Longrightarrow> \<not> is_catchall_allow env (sourced_value s)"
  by (auto simp: managed_mode_rules_def synthetic_rules_for_default_mode_def tag_with_source_def plain_allow_def is_catchall_allow_def
      Let_def split: option.splits if_splits)

lemma extracted_source: "s \<in> set (extract_toml_permissions w v source) \<Longrightarrow> sourced_from s = source"
  by (auto simp: extract_toml_permissions_def split: option.splits)

lemma merged_admin_rules:
  assumes "s \<in> set (merged_rules w cwd trusted (Some why))" and "is_catchall_allow env (sourced_value s)" and "is_admin_source (sourced_from s)"
  shows "s \<in> set (load_requirements_permissions w @ ms_permissions (rw_managed w))"
proof -
  have "\<not> is_admin_source (sourced_from s)" if "s \<in> set (managed_config_permissions w)"
    using that by (auto simp: managed_config_permissions_def dest!: extracted_source)
  moreover have "\<not> is_admin_source (sourced_from s)" if "s \<in> set (load_config_toml_permissions w cwd trusted)"
    using that by (auto simp: load_config_toml_permissions_def dest!: extracted_source split: option.splits if_splits)
  moreover have "\<not> is_admin_source (sourced_from s)" if "s \<in> set (tag_with_source (SettingsFile path) rs)" for path rs
    using that by (auto simp: tag_with_source_def)
  ultimately show ?thesis
    using assms managed_mode_no_catchall [of s "rw_managed w" why env]
    by (auto simp: merged_rules_def split: option.splits)
qed

text \<open>
  C14. A pin against always-approve cannot be got around.  When a requirement sets it, the session's
  prompts are never answered with allow, the manager starts without always-approve whatever was asked
  for, and a rule that would allow everything is in the session's configuration only if an
  administrator's source, the system requirements or the managed settings, contains it.
\<close>

theorem pin_leaves_no_blanket_allow:
  fixes menv :: "'g manager_env" and w cwd trusted cli hint
  defines "session \<equiv> session_permission_config (me_policy menv) w cwd trusted cli hint"
  assumes "current_yolo_lock w \<noteq> None"
  shows "session_policy (fst session) \<noteq> PromptAllow \<and>
    \<not> m_yolo (spawn_manager (config_of menv (fst session) domains builtin cwd client client_id remember (snd (snd session))) requested ok disk) \<and>
    (\<forall>r \<in> set (session_rules (fst session)). is_catchall_allow (me_policy menv) r \<longrightarrow>
       (\<exists>s \<in> set (load_requirements_permissions w @ ms_permissions (rw_managed w)). sourced_value s = r \<and> is_admin_source (sourced_from s)))"
proof -
  obtain why where why: "pin_text (current_yolo_lock w) = Some why" using assms(2) by (auto simp: pin_text_def)
  have "session_policy (fst session) \<noteq> PromptAllow"
    using assms(2) effects_never_allow by (auto simp: session_def session_policy_eq split: option.split)
  moreover have "snd (snd session) = Some why"
    using why by (simp add: session_def session_permission_config_def Let_def flip: pin_text_def)
  then have "\<not> m_yolo (spawn_manager (config_of menv (fst session) domains builtin cwd client client_id remember (snd (snd session))) requested ok disk)"
    by (simp add: spawn_manager_def config_of_def clamp_yolo_def Let_def)
  moreover have "\<exists>s \<in> set (load_requirements_permissions w @ ms_permissions (rw_managed w)). sourced_value s = r \<and> is_admin_source (sourced_from s)"
    if "r \<in> set (session_rules (fst session))" and r: "is_catchall_allow (me_policy menv) r" for r
  proof -
    from that obtain s where s: "s \<in> set (merged_rules w cwd trusted (Some why))" "\<not> dropped_by_pin (me_policy menv) s" "sourced_value s = r"
      by (auto simp: session_def session_rules_eq why drop_untrusted_catchall_allows_def dest: pin_drops_own_catchalls)
    with r have "is_admin_source (sourced_from s)" by (simp add: dropped_by_pin_def)
    with merged_admin_rules [OF s(1), of "me_policy menv"] s r show ?thesis by blast
  qed
  ultimately show ?thesis by blast
qed

definition pinned_layer :: toml_layer where
  "pinned_layer = \<lparr>tl_value = TTable [(lit ''ui'', TTable [(lit ''disable_bypass_permissions_mode'', TBoolean True)])],
     tl_label = lit ''/etc/grok/requirements.toml'', tl_is_system = True\<rparr>"

definition pinned_world :: resolve_world where
  "pinned_world = \<lparr>requirements_layers = [pinned_layer], managed_config_layers = [], global_config = None,
     project_configs = (\<lambda>_. []), config_of_toml = (\<lambda>_. None),
     rw_settings = \<lparr>se_home = Some (lit ''/home/u''), se_is_home = (\<lambda>_. False), se_exists = (\<lambda>_. False), se_read = (\<lambda>_. None),
       se_json = (\<lambda>_. None), se_import_marked = False\<rparr>,
     rw_managed = \<lparr>ms_features = \<lparr>disable_telemetry = None, disable_feedback = None, disable_yolo = None, source_path = None\<rparr>,
       ms_permissions = [], ms_default_mode = None\<rparr>\<rparr>"

lemma pinned_world_locked: "current_yolo_lock pinned_world \<noteq> None"
  by code_simp

theorem pin_leaves_no_blanket_allow_witness:
  "current_yolo_lock pinned_world \<noteq> None \<and>
   session_policy (fst (session_permission_config (me_policy demo_env) pinned_world (lit ''/w'') True [plain_allow AnyTool]
     (Some PERMISSION_MODE_ALWAYS_ALLOW))) \<noteq> PromptAllow"
  using pin_leaves_no_blanket_allow [OF pinned_world_locked, of demo_env "lit ''/w''" True "[plain_allow AnyTool]"
    "Some PERMISSION_MODE_ALWAYS_ALLOW"] pinned_world_locked by blast

section \<open>Trust\<close>

definition other_project :: "(rstring \<Rightarrow> (rstring \<times> toml) list) \<Rightarrow> (rstring \<Rightarrow> rstring option) \<Rightarrow> (rstring \<Rightarrow> bool) \<Rightarrow> resolve_world \<Rightarrow> resolve_world" where
  \<comment> \<open>the same machine with other files in the folder\<close>
  "other_project configs readable existing w =
     w\<lparr>project_configs := configs, rw_settings := (rw_settings w)\<lparr>se_read := readable, se_exists := existing\<rparr>\<rparr>"


definition hostile_settings :: "rstring \<Rightarrow> rstring option" where
  "hostile_settings p = (if starts_with p (lit ''/home/u/'') then None else Some (lit ''bypass''))"

lemma user_files_unchanged:
  "\<forall>p \<in> set (global_claude_settings_paths (rw_settings pinned_world)). hostile_settings p = se_read (rw_settings pinned_world) p"
  by code_simp


end
