(* ===== verification/Utf8_Text.thy ===== *)
theory Utf8_Text
  imports Rust_Strings
begin

text \<open>
  Bytes and text: the UTF-8 encoding (\<open>str::as_bytes\<close>), the lossy decoding
  (\<open>String::from_utf8_lossy\<close>), slices by byte offsets that panic off a character boundary, and
  the searching functions of \<open>str\<close> (\<open>match_indices\<close>, \<open>find\<close>, \<open>split\<close>, \<open>replace\<close>) for a
  pattern that is not empty.  \<open>split_str\<close> is the reference the editing tools are compared with:
  the pieces between the matches.
\<close>

type_synonym byte = nat

section \<open>The encoding\<close>

definition encode_char :: "rchar \<Rightarrow> byte list" where
  "encode_char c =
     (if c < 128 then [c]
      else if c < 2048 then [192 + c div 64, 128 + c mod 64]
      else if c < 65536 then [224 + c div 4096, 128 + c div 64 mod 64, 128 + c mod 64]
      else [240 + c div 262144, 128 + c div 4096 mod 64, 128 + c div 64 mod 64, 128 + c mod 64])"

definition utf8_encode :: "rstring \<Rightarrow> byte list" where
  "utf8_encode s = concat (map encode_char s)"

definition is_scalar :: "rchar \<Rightarrow> bool" where
  \<comment> \<open>a Unicode scalar value, the values of \<open>char\<close>\<close>
  "is_scalar c \<longleftrightarrow> c < 55296 \<or> 57344 \<le> c \<and> c < 1114112"

definition continuation :: "byte \<Rightarrow> bool" where
  "continuation b \<longleftrightarrow> 128 \<le> b \<and> b < 192"

definition second_ok :: "byte \<Rightarrow> byte \<Rightarrow> bool" where
  \<comment> \<open>the second byte after a lead byte of a three or four byte sequence: no overlong form, no surrogate, no
      value past the last plane\<close>
  "second_ok b n \<longleftrightarrow>
     (if b = 224 then 160 \<le> n \<and> n < 192
      else if b = 237 then 128 \<le> n \<and> n < 160
      else if b = 240 then 144 \<le> n \<and> n < 192
      else if b = 244 then 128 \<le> n \<and> n < 144
      else continuation n)"

definition byte_at :: "byte list \<Rightarrow> nat \<Rightarrow> byte" where
  \<comment> \<open>\<open>safe_get\<close>: zero past the end\<close>
  "byte_at bs i = (if i < length bs then bs ! i else 0)"

definition decode_one :: "byte \<Rightarrow> byte list \<Rightarrow> rchar option \<times> nat" where
  \<comment> \<open>the character that starts with the byte \<open>b\<close>, or \<open>None\<close> for an invalid sequence, with the bytes that are
      used after \<open>b\<close>\<close>
  "decode_one b bs =
     (let n1 = byte_at bs 0; n2 = byte_at bs 1; n3 = byte_at bs 2 in
      if b < 128 then (Some b, 0)
      else if 194 \<le> b \<and> b < 224 then
        (if continuation n1 then (Some ((b - 192) * 64 + (n1 - 128)), 1) else (None, 0))
      else if 224 \<le> b \<and> b < 240 then
        (if \<not> second_ok b n1 then (None, 0)
         else if \<not> continuation n2 then (None, 1)
         else (Some ((b - 224) * 4096 + (n1 - 128) * 64 + (n2 - 128)), 2))
      else if 240 \<le> b \<and> b < 245 then
        (if \<not> second_ok b n1 then (None, 0)
         else if \<not> continuation n2 then (None, 1)
         else if \<not> continuation n3 then (None, 2)
         else (Some ((b - 240) * 262144 + (n1 - 128) * 4096 + (n2 - 128) * 64 + (n3 - 128)), 3))
      else (None, 0))"

definition REPLACEMENT_CHARACTER :: rchar where "REPLACEMENT_CHARACTER = 65533"

fun from_utf8_lossy :: "byte list \<Rightarrow> rstring" where
  \<comment> \<open>every maximal invalid sequence becomes one replacement character\<close>
  "from_utf8_lossy [] = []"
| "from_utf8_lossy (b # bs) =
     (case decode_one b bs of (c, k) \<Rightarrow>
        (case c of Some c \<Rightarrow> c | None \<Rightarrow> REPLACEMENT_CHARACTER) # from_utf8_lossy (drop k bs))"

lemma utf8_encode_simps [simp]:
  "utf8_encode [] = []"
  "utf8_encode (c # s) = encode_char c @ utf8_encode s"
  "utf8_encode (s @ t) = utf8_encode s @ utf8_encode t"
  by (simp_all add: utf8_encode_def)

lemma encode_char_length [simp]: "length (encode_char c) = len_utf8 c"
  by (simp add: encode_char_def len_utf8_def)

lemma utf8_encode_length [simp]: "length (utf8_encode s) = byte_len s"
  by (induction s) simp_all

lemma encode_char_Cons: "\<exists>b bs. encode_char c = b # bs"
  by (simp add: encode_char_def)

lemma byte_at_simps [simp]:
  "byte_at (b # bs) 0 = b"
  "byte_at (b # bs) (Suc i) = byte_at bs i"
  by (simp_all add: byte_at_def)

lemma byte_at_numerals [simp]:
  "byte_at (b # bs) 1 = byte_at bs 0"
  "byte_at (b # bs) 2 = byte_at bs 1"
  by (simp_all add: byte_at_def numeral_2_eq_2)

lemma len_utf8_not_0 [simp]: "len_utf8 c \<noteq> 0"
  by (simp add: len_utf8_def)

lemma base_64:
  "(c::nat) = c div 64 * 64 + c mod 64"
  "c div 64 = c div 4096 * 64 + c div 64 mod 64"
  "c div 4096 = c div 262144 * 64 + c div 4096 mod 64"
  using div_mult_mod_eq [of c 64] div_mult_mod_eq [of "c div 64" 64] div_mult_mod_eq [of "c div 4096" 64]
  by (simp_all add: div_mult2_eq [symmetric])

lemma second_ok_three:
  assumes "is_scalar c" and "2048 \<le> c" and "c < 65536"
  shows "second_ok (224 + c div 4096) (128 + c div 64 mod 64)"
proof -
  have m: "c div 64 mod 64 = c div 64 - 64 * (c div 4096)" and d: "c div 4096 = c div 64 div 64"
    by (simp_all add: div_mult2_eq [symmetric] minus_mult_div_eq_mod [symmetric])
  show ?thesis
  proof (cases "c div 4096 = 0")
    case True
    with assms m show ?thesis by (auto simp: second_ok_def)
  next
    case False
    show ?thesis
    proof (cases "c div 4096 = 13")
      case True
      then have "53248 \<le> c" "c < 57344" by auto
      with assms(1) have "c < 55296" by (simp add: is_scalar_def)
      then have "c div 64 < 864" by auto
      with True m have "c div 64 mod 64 < 32" by linarith
      with True show ?thesis by (simp add: second_ok_def)
    next
      case nd: False
      from assms(3) have "c div 4096 < 16" by auto
      with False nd show ?thesis by (auto simp: second_ok_def continuation_def)
    qed
  qed
qed

lemma second_ok_four:
  assumes "is_scalar c" and "65536 \<le> c"
  shows "second_ok (240 + c div 262144) (128 + c div 4096 mod 64)"
proof -
  have m: "c div 4096 mod 64 = c div 4096 - 64 * (c div 262144)"
    by (simp add: div_mult2_eq [symmetric] minus_mult_div_eq_mod [symmetric])
  consider "c div 262144 = 0" | "c div 262144 = 4" | "c div 262144 \<noteq> 0" "c div 262144 \<noteq> 4" by blast
  then show ?thesis
  proof cases
    case 1
    with assms m show ?thesis by (auto simp: second_ok_def)
  next
    case 2
    from assms have "c < 1114112" by (simp add: is_scalar_def)
    then have "c div 4096 < 272" by auto
    with 2 m have "c div 4096 mod 64 < 16" by linarith
    with 2 show ?thesis by (simp add: second_ok_def)
  next
    case 3
    then show ?thesis by (auto simp: second_ok_def continuation_def)
  qed
qed

lemma decode_encode_char:
  assumes "is_scalar c" and "encode_char c = b # bs"
  shows "decode_one b (bs @ r) = (Some c, length bs)"
proof -
  consider "c < 128" | "128 \<le> c" "c < 2048" | "2048 \<le> c" "c < 65536" | "65536 \<le> c" by linarith
  then show ?thesis
  proof cases
    case 1
    with assms(2) show ?thesis by (auto simp: encode_char_def decode_one_def)
  next
    case 2
    with assms(2) have e: "b = 192 + c div 64" "bs = [128 + c mod 64]" by (auto simp: encode_char_def)
    from 2 have "2 \<le> c div 64" "c div 64 < 32" by auto
    then show ?thesis unfolding e by (simp add: decode_one_def continuation_def)
  next
    case 3
    with assms(2) have e: "b = 224 + c div 4096" "bs = [128 + c div 64 mod 64, 128 + c mod 64]"
      by (auto simp: encode_char_def)
    from 3 have b: "c div 4096 < 16" by auto
    have s: "second_ok (224 + c div 4096) (128 + c div 64 mod 64)"
      using second_ok_three assms(1) 3 by blast
    have v: "c div 4096 * 4096 + c div 64 mod 64 * 64 + c mod 64 = c" using base_64 [of c] by linarith
    show ?thesis unfolding e using b s v by (simp add: decode_one_def continuation_def)
  next
    case 4
    with assms(2) have e: "b = 240 + c div 262144"
        "bs = [128 + c div 4096 mod 64, 128 + c div 64 mod 64, 128 + c mod 64]"
      by (auto simp: encode_char_def)
    from 4 assms(1) have b: "c div 262144 < 5" by (auto simp: is_scalar_def)
    have s: "second_ok (240 + c div 262144) (128 + c div 4096 mod 64)"
      using second_ok_four assms(1) 4 by blast
    have v: "c div 262144 * 262144 + c div 4096 mod 64 * 4096 + c div 64 mod 64 * 64 + c mod 64 = c" using base_64 [of c] by linarith
    show ?thesis unfolding e using b s v by (simp add: decode_one_def continuation_def numeral_3_eq_3)
  qed
qed

text \<open>Valid text survives: what was encoded is read back.\<close>

lemma lossy_encode_char:
  "is_scalar c \<Longrightarrow> from_utf8_lossy (encode_char c @ r) = c # from_utf8_lossy r"
proof -
  assume c: "is_scalar c"
  obtain b bs where e: "encode_char c = b # bs" using encode_char_Cons by blast
  from decode_encode_char [OF c e, of r] show ?thesis by (simp add: e)
qed

lemma lossy_encode: "\<forall>c \<in> set s. is_scalar c \<Longrightarrow> from_utf8_lossy (utf8_encode s) = s"
  by (induction s) (simp_all add: lossy_encode_char)

section \<open>Slices\<close>

fun split_bytes :: "nat \<Rightarrow> rstring \<Rightarrow> (rstring \<times> rstring) option" where
  \<comment> \<open>\<open>s.split_at(n)\<close>; \<open>None\<close> is the panic past the end or inside a character\<close>
  "split_bytes n [] = (if n = 0 then Some ([], []) else None)"
| "split_bytes n (c # s) = (if n = 0 then Some ([], c # s)
     else if len_utf8 c \<le> n then map_option (\<lambda>(a, b). (c # a, b)) (split_bytes (n - len_utf8 c) s) else None)"

definition slice :: "rstring \<Rightarrow> nat \<Rightarrow> nat \<Rightarrow> rstring option" where
  \<comment> \<open>\<open>&s[i..j]\<close>\<close>
  "slice s i j = (if i \<le> j then Option.bind (split_bytes i s) (\<lambda>(_, t). map_option fst (split_bytes (j - i) t)) else None)"

definition slice_from :: "rstring \<Rightarrow> nat \<Rightarrow> rstring option" where
  "slice_from s i = map_option snd (split_bytes i s)"

definition slice_to :: "rstring \<Rightarrow> nat \<Rightarrow> rstring option" where
  "slice_to s i = map_option fst (split_bytes i s)"

lemma split_bytes_0 [simp]: "split_bytes 0 s = Some ([], s)"
  by (cases s) simp_all

lemma split_bytes_append [simp]: "split_bytes (byte_len a) (a @ b) = Some (a, b)"
  by (induction a) simp_all

lemma split_bytes_add [simp]:
  "split_bytes (byte_len a + n) (a @ b) = map_option (\<lambda>(x, y). (a @ x, y)) (split_bytes n b)"
proof (induction a)
  case Nil
  show ?case by (cases "split_bytes n b") auto
next
  case (Cons c a)
  then show ?case by (cases "split_bytes n b") (auto simp: add.assoc)
qed

lemma split_bytes_Some: "split_bytes n s = Some (a, b) \<longleftrightarrow> s = a @ b \<and> n = byte_len a"
proof (induction n s arbitrary: a b rule: split_bytes.induct)
  case (2 n c s)
  then show ?case by (cases a) (auto split: if_splits)
qed (auto simp: byte_len_def)

lemma slice_Some: "slice s i j = Some t \<longleftrightarrow> (\<exists>a b. s = a @ t @ b \<and> i = byte_len a \<and> j = byte_len a + byte_len t)"
proof
  assume "slice s i j = Some t"
  then show "\<exists>a b. s = a @ t @ b \<and> i = byte_len a \<and> j = byte_len a + byte_len t"
    by (auto simp: slice_def split_bytes_Some bind_eq_Some_conv split: if_splits)
next
  assume "\<exists>a b. s = a @ t @ b \<and> i = byte_len a \<and> j = byte_len a + byte_len t"
  then show "slice s i j = Some t" by (auto simp: slice_def)
qed

lemma slice_from_append [simp]: "slice_from (a @ b) (byte_len a) = Some b"
  by (simp add: slice_from_def)

lemma slice_to_append [simp]: "slice_to (a @ b) (byte_len a) = Some a"
  by (simp add: slice_to_def)

lemma slice_append:
  assumes "i = byte_len a" and "j = i + byte_len t"
  shows "slice (a @ t @ b) i j = Some t"
  using assms by (auto simp: slice_Some)

section \<open>Searching\<close>

function matches_from :: "rstring \<Rightarrow> nat \<Rightarrow> rstring \<Rightarrow> nat list" where
  \<comment> \<open>the byte offsets of \<open>s.match_indices(pat)\<close> when \<open>s\<close> starts at offset \<open>i\<close>: from the left, without overlaps\<close>
  "matches_from pat i s = (if pat = [] \<or> s = [] then []
     else if starts_with s pat then i # matches_from pat (i + byte_len pat) (drop (length pat) s)
     else matches_from pat (i + len_utf8 (hd s)) (tl s))"
  by pat_completeness auto
termination
  by (relation "measure (\<lambda>(pat, i, s). length s)") (auto simp: length_greater_0_conv)

declare matches_from.simps [simp del]

definition match_indices :: "rstring \<Rightarrow> rstring \<Rightarrow> nat list" where
  "match_indices s pat = matches_from pat 0 s"

function split_str :: "rstring \<Rightarrow> rstring \<Rightarrow> rstring list" where
  \<comment> \<open>\<open>s.split(pat)\<close>\<close>
  "split_str pat s = (if pat = [] \<or> s = [] then [s]
     else if starts_with s pat then [] # split_str pat (drop (length pat) s)
     else (case split_str pat (tl s) of [] \<Rightarrow> [] | p # ps \<Rightarrow> (hd s # p) # ps))"
  by pat_completeness auto
termination
  by (relation "measure (\<lambda>(pat, s). length s)") (auto simp: length_greater_0_conv)

declare split_str.simps [simp del]

definition str_replace :: "rstring \<Rightarrow> rstring \<Rightarrow> rstring \<Rightarrow> rstring" where
  \<comment> \<open>\<open>s.replace(pat, to)\<close>\<close>
  "str_replace s pat to = join to (split_str pat s)"

definition find_str :: "rstring \<Rightarrow> rstring \<Rightarrow> nat option" where
  \<comment> \<open>\<open>s.find(pat)\<close>: an empty pattern is found at the start\<close>
  "find_str s pat = (if pat = [] then Some 0
     else (case match_indices s pat of [] \<Rightarrow> None | i # _ \<Rightarrow> Some i))"

lemma split_str_not_Nil [simp]: "split_str pat s \<noteq> []"
  by (induction pat s rule: split_str.induct) (subst split_str.simps, auto split: list.splits)

text \<open>The pieces put together with the pattern are the text again.\<close>

lemma join_hd: "join sep ((x # p) # ps) = x # join sep (p # ps)"
  by (cases ps) simp_all

lemma join_split_str: "pat \<noteq> [] \<Longrightarrow> join pat (split_str pat s) = s"
proof (induction pat s rule: split_str.induct)
  case (1 pat s)
  show ?case
  proof (cases "s = []")
    case True
    then show ?thesis by (subst split_str.simps) simp
  next
    case False
    show ?thesis
    proof (cases "starts_with s pat")
      case True
      then obtain t where s: "s = pat @ t" by (auto simp: starts_with_iff)
      with False True 1 have "join pat (split_str pat t) = t" by simp
      then show ?thesis using False True 1 by (subst split_str.simps) (simp add: s join_Cons)
    next
      case ns: False
      then have "join pat (split_str pat (tl s)) = tl s" using False 1 by blast
      then show ?thesis using False ns 1 by (subst split_str.simps) (auto simp: join_hd split: list.splits)
    qed
  qed
qed

text \<open>One match fewer than there are pieces, each where the pieces say.\<close>

fun piece_offsets :: "nat \<Rightarrow> rstring \<Rightarrow> rstring list \<Rightarrow> nat list" where
  \<comment> \<open>where the separators start in \<open>join sep ps\<close>, which starts at offset \<open>i\<close>\<close>
  "piece_offsets i sep (p # q # ps) = (i + byte_len p) # piece_offsets (i + byte_len p + byte_len sep) sep (q # ps)"
| "piece_offsets i sep _ = []"

lemma piece_offsets_hd:
  "piece_offsets i sep ((x # p) # ps) = piece_offsets (i + len_utf8 x) sep (p # ps)"
  by (cases ps) (simp_all add: ac_simps)

lemma length_piece_offsets: "length (piece_offsets i sep ps) = length ps - 1"
  by (induction i sep ps rule: piece_offsets.induct) simp_all

lemma matches_from_pieces: "pat \<noteq> [] \<Longrightarrow> matches_from pat i s = piece_offsets i pat (split_str pat s)"
proof (induction pat i s rule: matches_from.induct)
  case (1 pat i s)
  consider "s = []" | "s \<noteq> []" "starts_with s pat" | "s \<noteq> []" "\<not> starts_with s pat" by blast
  then show ?case
  proof cases
    case 1
    then show ?thesis by (subst matches_from.simps, subst split_str.simps) simp
  next
    case 2
    obtain p ps where ps: "split_str pat (drop (length pat) s) = p # ps" by (metis split_str_not_Nil neq_Nil_conv)
    have "split_str pat s = [] # p # ps" using 2 1 ps by (subst split_str.simps) simp
    then show ?thesis using 2 1 ps by (subst matches_from.simps) simp
  next
    case 3
    obtain p ps where ps: "split_str pat (tl s) = p # ps" by (metis split_str_not_Nil neq_Nil_conv)
    have "split_str pat s = (hd s # p) # ps" using 3 1 ps by (subst split_str.simps) simp
    then show ?thesis using 3 1 ps by (subst matches_from.simps) (simp add: piece_offsets_hd)
  qed
qed

lemma match_indices_pieces: "pat \<noteq> [] \<Longrightarrow> match_indices s pat = piece_offsets 0 pat (split_str pat s)"
  by (simp add: match_indices_def matches_from_pieces)

end
