(* ===== verification/Confusables.thy ===== *)
theory Confusables
  imports Utf8_Text
begin

text \<open>
  Typography that looks like ASCII (\<open>xai-grok-tools/src/util/unicode_confusables.rs\<close>) and the
  string-edit helpers of the \<open>search_replace\<close> tool
  (\<open>implementations/grok_build/search_replace/helpers.rs\<close>): exact and normalized matches, the
  replacement at byte positions, and the snippets around an edit.  Positions are byte offsets; a
  slice off a character boundary, an index past a vector and an underflow are panics, the value
  \<open>None\<close>.
\<close>

section \<open>Confusable characters\<close>

definition CONFUSABLE_MAP :: "(rchar \<times> rstring) list" where
  "CONFUSABLE_MAP = [(8220, [34]), (8221, [34]), (8216, [39]), (8217, [39]), (8212, [45, 45]), (8211, [45]),
     (8230, [46, 46, 46]), (160, [32])]"

record confusable_hit =
  hit_byte_offset :: nat
  hit_unicode_char :: rchar
  hit_ascii_replacement :: rstring
  hit_line_number :: nat

definition lookup_confusable :: "rchar \<Rightarrow> rstring option" where
  "lookup_confusable c = map_option snd (List.find (\<lambda>(ch, _). ch = c) CONFUSABLE_MAP)"

definition has_confusables :: "rstring \<Rightarrow> bool" where
  "has_confusables s \<longleftrightarrow> list_ex (\<lambda>c. lookup_confusable c \<noteq> None) s"

fun normalize_confusables :: "rstring \<Rightarrow> rstring" where
  "normalize_confusables [] = []"
| "normalize_confusables (c # s) = (case lookup_confusable c of
     Some replacement \<Rightarrow> replacement @ normalize_confusables s
   | None \<Rightarrow> c # normalize_confusables s)"

fun detect_loop :: "nat \<Rightarrow> (nat \<times> rchar) list \<Rightarrow> confusable_hit list" where
  "detect_loop line [] = []"
| "detect_loop line ((byte_offset, c) # cs) =
     (case lookup_confusable c of
        Some replacement \<Rightarrow> [\<lparr>hit_byte_offset = byte_offset, hit_unicode_char = c,
          hit_ascii_replacement = replacement, hit_line_number = line\<rparr>]
      | None \<Rightarrow> []) @ detect_loop (if c = NL then line + 1 else line) cs"

definition detect_confusables :: "rstring \<Rightarrow> confusable_hit list" where
  "detect_confusables s = detect_loop 1 (char_indices 0 s)"

fun offset_loop :: "(nat \<times> rchar) list \<Rightarrow> rstring \<times> nat list" where
  "offset_loop [] = ([], [])"
| "offset_loop ((orig_byte_offset, c) # cs) = (case offset_loop cs of (normalized, offset_map) \<Rightarrow>
     (case lookup_confusable c of
        Some replacement \<Rightarrow>
          (replacement @ normalized, replicate (byte_len replacement) orig_byte_offset @ offset_map)
      | None \<Rightarrow> (c # normalized, map (\<lambda>i. orig_byte_offset + i) [0..<len_utf8 c] @ offset_map)))"

definition build_offset_map :: "rstring \<Rightarrow> rstring \<times> nat list" where
  "build_offset_map s = (case offset_loop (char_indices 0 s) of (normalized, offset_map) \<Rightarrow>
     (normalized, offset_map @ [byte_len s]))"

section \<open>Replacing at positions\<close>

fun replace_loop :: "rstring \<Rightarrow> rstring \<Rightarrow> (nat \<times> nat) list \<Rightarrow> nat \<Rightarrow> rstring \<Rightarrow> nat list \<Rightarrow>
    (rstring \<times> nat list) option" where
  \<comment> \<open>the loop the two replacing functions share: a span is its start and its length\<close>
  "replace_loop text new_string [] last_end new_text new_positions =
     map_option (\<lambda>r. (new_text @ r, new_positions)) (slice_from text last_end)"
| "replace_loop text new_string ((pos, len) # spans) last_end new_text new_positions =
     Option.bind (slice text last_end pos) (\<lambda>gap.
       replace_loop text new_string spans (pos + len) (new_text @ gap @ new_string)
         (new_positions @ [byte_len (new_text @ gap)]))"

definition replace_using_positions ::
  "rstring \<Rightarrow> nat list \<Rightarrow> rstring \<Rightarrow> rstring \<Rightarrow> (rstring \<times> nat list) option" where
  "replace_using_positions text match_positions old_string new_string =
     replace_loop text new_string (map (\<lambda>pos. (pos, byte_len old_string)) match_positions) 0 [] []"

section \<open>Snippets\<close>

record line_range =
  start_line :: nat
  end_line :: nat

fun split_inclusive :: "rchar \<Rightarrow> rstring \<Rightarrow> rstring list" where
  \<comment> \<open>\<open>s.split_inclusive(c)\<close>: every piece keeps its terminator, no empty last piece\<close>
  "split_inclusive c [] = []"
| "split_inclusive c (x # s) =
     (if x = c then [x] # split_inclusive c s
      else (case split_inclusive c s of [] \<Rightarrow> [[x]] | p # ps \<Rightarrow> (x # p) # ps))"

definition count_newlines :: "rstring \<Rightarrow> nat" where
  \<comment> \<open>\<open>s.matches('\n').count()\<close>\<close>
  "count_newlines s = length (filter (\<lambda>c. c = NL) s)"

definition compute_line_range :: "rstring \<Rightarrow> nat \<Rightarrow> rstring \<Rightarrow> line_range option" where
  "compute_line_range text start_pos inserted_text = map_option (\<lambda>before.
     let first = count_newlines before;
         lines_in_inserted = max (length (split_inclusive NL inserted_text)) 1
     in \<lparr>start_line = first, end_line = first + lines_in_inserted - 1\<rparr>) (slice_to text start_pos)"

definition vec_slice :: "'a list \<Rightarrow> nat \<Rightarrow> nat \<Rightarrow> 'a list option" where
  \<comment> \<open>\<open>&v[i..j]\<close>\<close>
  "vec_slice v i j = (if i \<le> j \<and> j \<le> length v then Some (take (j - i) (drop i v)) else None)"

definition numbered_line :: "nat \<Rightarrow> rstring \<Rightarrow> rstring" where
  "numbered_line line_num l = show_nat (line_num + 1) @ [8594] @ l"

definition render_snippet :: "rstring \<Rightarrow> rstring \<Rightarrow> nat \<Rightarrow> nat \<Rightarrow> (rstring \<times> rstring \<times> rstring) option" where
  "render_snippet new_text new_string start_pos context_size =
     Option.bind (compute_line_range new_text start_pos new_string) (\<lambda>r.
       let total_lines_count = length (split_inclusive NL new_text);
           ls = split_inclusive NL new_text;
           snippet_start = start_line r - context_size;
           snippet_end = min (end_line r + context_size) (total_lines_count - 1)
       in Option.bind (if snippet_start < start_line r then map_option concat (vec_slice ls snippet_start (start_line r))
                       else Some []) (\<lambda>before_context.
          Option.bind (if end_line r < snippet_end then map_option concat (vec_slice ls (end_line r + 1) (snippet_end + 1))
                       else Some []) (\<lambda>after_context.
          if snippet_end < snippet_start then None
          else Some (concat (take (snippet_end - snippet_start + 1) (drop snippet_start
                 (map (\<lambda>(line_num, l). numbered_line line_num l) (List.enumerate 0 ls)))), before_context, after_context))))"

record search_replace_edit_detail =
  ed_old_string :: rstring
  ed_old_line :: nat
  ed_new_string :: rstring
  ed_new_line :: nat
  ed_context_before :: rstring
  ed_context_after :: rstring
  ed_line_prefix :: rstring

definition line_prefix_of :: "rstring \<Rightarrow> rstring" where
  \<comment> \<open>the text after the last newline: \<open>rfind\<close>, then the slice behind it\<close>
  "line_prefix_of before = rev (takeWhile (\<lambda>c. c \<noteq> NL) (rev before))"

definition edit_detail_at ::
  "rstring \<Rightarrow> rstring \<Rightarrow> rstring \<Rightarrow> nat \<Rightarrow> nat \<Rightarrow> search_replace_edit_detail option" where
  "edit_detail_at new_text old_string new_string context_lines start_pos =
     Option.bind (render_snippet new_text new_string start_pos context_lines) (\<lambda>(_, context_before, context_after).
     Option.bind (compute_line_range new_text start_pos new_string) (\<lambda>line_range_new.
     Option.bind (slice_to new_text start_pos) (\<lambda>before.
       Some \<lparr>ed_old_string = old_string, ed_old_line = start_line line_range_new + 1, ed_new_string = new_string,
         ed_new_line = start_line line_range_new + 1, ed_context_before = context_before,
         ed_context_after = context_after, ed_line_prefix = line_prefix_of before\<rparr>)))"

fun build_edit_details ::
  "rstring \<Rightarrow> rstring \<Rightarrow> rstring \<Rightarrow> nat list \<Rightarrow> nat \<Rightarrow> search_replace_edit_detail list option" where
  "build_edit_details new_text old_string new_string [] context_lines = Some []"
| "build_edit_details new_text old_string new_string (start_pos # ps) context_lines =
     Option.bind (edit_detail_at new_text old_string new_string context_lines start_pos) (\<lambda>d.
       map_option ((#) d) (build_edit_details new_text old_string new_string ps context_lines))"

section \<open>Normalized matches\<close>

record normalized_match =
  original_start :: nat
  original_len :: nat

datatype normalized_match_result = NormNoMatch | NormMatches "normalized_match list" | NormAmbiguous

fun validate_candidates ::
  "rstring \<Rightarrow> rstring \<Rightarrow> nat list \<Rightarrow> nat list \<Rightarrow> (normalized_match list \<times> bool) option" where
  \<comment> \<open>the loop over the matches of the normalized text: the spans that pass and whether one was rejected\<close>
  "validate_candidates text norm_pattern offset_map [] = Some ([], False)"
| "validate_candidates text norm_pattern offset_map (norm_start # starts) =
     (let norm_end = norm_start + byte_len norm_pattern in
      if length offset_map \<le> norm_end then None
      else
        let orig_start = offset_map ! norm_start; orig_end = offset_map ! norm_end;
            rest = validate_candidates text norm_pattern offset_map starts
        in if orig_end \<le> orig_start then map_option (\<lambda>(v, _). (v, True)) rest
           else Option.bind (slice text orig_start orig_end) (\<lambda>orig_slice.
             if normalize_confusables orig_slice \<noteq> norm_pattern then map_option (\<lambda>(v, _). (v, True)) rest
             else map_option (\<lambda>(v, r). (\<lparr>original_start = orig_start, original_len = orig_end - orig_start\<rparr> # v, r)) rest))"

fun spans_overlap :: "normalized_match list \<Rightarrow> bool" where
  \<comment> \<open>\<open>windows(2)\<close>\<close>
  "spans_overlap (a # b # ms) \<longleftrightarrow> original_start b < original_start a + original_len a \<or> spans_overlap (b # ms)"
| "spans_overlap _ \<longleftrightarrow> False"

definition find_normalized_match_positions :: "rstring \<Rightarrow> rstring \<Rightarrow> normalized_match_result option" where
  "find_normalized_match_positions text pattern =
     (case build_offset_map text of (norm_text, offset_map) \<Rightarrow>
      let norm_pattern = normalize_confusables pattern in
      if norm_pattern = [] then Some NormNoMatch
      else map_option (\<lambda>(validated, had_rejected_candidates).
             if validated = [] then (if had_rejected_candidates then NormAmbiguous else NormNoMatch)
             else if spans_overlap validated then NormAmbiguous
             else NormMatches validated)
           (validate_candidates text norm_pattern offset_map (match_indices norm_text norm_pattern)))"

definition replace_normalized_matches ::
  "rstring \<Rightarrow> normalized_match list \<Rightarrow> rstring \<Rightarrow> (rstring \<times> nat list) option" where
  "replace_normalized_matches text ms new_string =
     replace_loop text new_string (map (\<lambda>m. (original_start m, original_len m)) ms) 0 [] []"

end
