(* ===== verification/Text_Edits.thy ===== *)
theory Text_Edits
  imports Confusables
begin

text \<open>
  What the string-edit helpers do, over the pieces of a text: \<open>weave ps os\<close> puts the old spans
  \<open>os\<close> between the pieces \<open>ps\<close>, and replacing at the spans gives \<open>join new ps\<close>, with the new
  positions where the pieces say.  The exact matches of a pattern and the validated normalized
  matches are both such spans, so neither replacement panics; nor do the snippets.
\<close>

section \<open>Pieces and spans\<close>

fun weave :: "rstring list \<Rightarrow> rstring list \<Rightarrow> rstring" where
  "weave (p # ps) (old # os) = p @ old @ weave ps os"
| "weave (p # ps) [] = p"
| "weave [] os = []"

fun weave_spans :: "nat \<Rightarrow> rstring list \<Rightarrow> rstring list \<Rightarrow> (nat \<times> nat) list" where
  "weave_spans i (p # ps) (old # os) =
     (i + byte_len p, byte_len old) # weave_spans (i + byte_len p + byte_len old) ps os"
| "weave_spans i _ _ = []"

lemma replace_loop_weave:
  assumes "length ps = Suc (length os)" and "text = pre @ weave ps os"
  shows "replace_loop text new (weave_spans (byte_len pre) ps os) (byte_len pre) acc qs =
    Some (acc @ join new ps, qs @ piece_offsets (byte_len acc) new ps)"
  using assms
proof (induction os arbitrary: ps pre acc qs)
  case Nil
  then obtain p where "ps = [p]" by (auto simp: length_Suc_conv)
  with Nil show ?case by simp
next
  case (Cons old os)
  then obtain p q ps' where ps: "ps = p # q # ps'" by (auto simp: length_Suc_conv)
  have g: "slice text (byte_len pre) (byte_len pre + byte_len p) = Some p"
    using Cons.prems by (auto simp: ps slice_Some)
  have t: "text = (pre @ p @ old) @ weave (q # ps') os" using Cons.prems by (simp add: ps)
  have "replace_loop text new (weave_spans (byte_len (pre @ p @ old)) (q # ps') os) (byte_len (pre @ p @ old))
      (acc @ p @ new) (qs @ [byte_len (acc @ p)]) =
    Some ((acc @ p @ new) @ join new (q # ps'),
      (qs @ [byte_len (acc @ p)]) @ piece_offsets (byte_len (acc @ p @ new)) new (q # ps'))"
    by (rule Cons.IH) (use Cons.prems t in \<open>simp_all add: ps\<close>)
  then show ?case by (simp add: ps g add.assoc)
qed

lemma weave_replicate: "length ps = Suc n \<Longrightarrow> weave ps (replicate n sep) = join sep ps"
  by (induction n arbitrary: ps) (auto simp: length_Suc_conv)

lemma weave_spans_replicate:
  "length ps = Suc n \<Longrightarrow> weave_spans i ps (replicate n sep) = map (\<lambda>p. (p, byte_len sep)) (piece_offsets i sep ps)"
  by (induction n arbitrary: ps i) (auto simp: length_Suc_conv)

text \<open>Exact replacement is \<open>str::replace\<close>, and it reports where the new strings are.\<close>

lemma replace_exact:
  assumes "old \<noteq> []"
  shows "replace_using_positions text (match_indices text old) old new =
    Some (str_replace text old new, piece_offsets 0 new (split_str old text))"
proof -
  let ?ps = "split_str old text" and ?n = "length (split_str old text) - 1"
  have l: "length ?ps = Suc ?n" using split_str_not_Nil [of old "text"] by (cases ?ps) simp_all
  have w: "text = weave ?ps (replicate ?n old)"
    by (simp only: weave_replicate [OF l] join_split_str [OF assms])
  have "replace_loop text new (weave_spans (byte_len []) ?ps (replicate ?n old)) (byte_len []) [] [] =
    Some ([] @ join new ?ps, [] @ piece_offsets (byte_len []) new ?ps)"
    by (rule replace_loop_weave) (use l w in simp_all)
  then show ?thesis
    unfolding replace_using_positions_def match_indices_pieces [OF assms] str_replace_def weave_spans_replicate [OF l]
    by simp
qed

lemma match_count: "old \<noteq> [] \<Longrightarrow> length (split_str old text) = Suc (length (match_indices text old))"
  using split_str_not_Nil [of old "text"]
  by (cases "split_str old text") (simp_all add: match_indices_pieces length_piece_offsets)

section \<open>The offset map\<close>

lemma normalize_append [simp]: "normalize_confusables (a @ b) = normalize_confusables a @ normalize_confusables b"
  by (induction a) (auto split: option.splits)

lemma lookup_cases:
  "lookup_confusable c = Some r \<Longrightarrow> r \<noteq> [] \<and> (\<forall>x \<in> set r. x < 128)"
  by (auto simp: lookup_confusable_def CONFUSABLE_MAP_def split: if_splits)

lemma ascii_byte_len: "\<forall>x \<in> set r. x < 128 \<Longrightarrow> byte_len r = length r"
  by (induction r) (simp_all add: len_utf8_def)

lemma offset_loop_text: "fst (offset_loop (char_indices i s)) = normalize_confusables s"
  by (induction s arbitrary: i) (auto simp: case_prod_beta split: option.splits)

lemma offset_loop_length: "length (snd (offset_loop (char_indices i s))) = byte_len (normalize_confusables s)"
  by (induction s arbitrary: i) (auto simp: case_prod_beta split: option.splits)

lemma build_offset_map_facts:
  "fst (build_offset_map s) = normalize_confusables s"
  "length (snd (build_offset_map s)) = byte_len (normalize_confusables s) + 1"
  using offset_loop_text [of 0 s] offset_loop_length [of 0 s]
  by (simp_all add: build_offset_map_def case_prod_beta)

text \<open>
  A character boundary of the normalized text is sent to a character boundary of the original:
  behind the characters whose normal form is before it.
\<close>

lemma offset_boundary:
  assumes "normalize_confusables s = u @ v"
  shows "\<exists>a b. s = a @ b \<and> (snd (offset_loop (char_indices i s)) @ [i + byte_len s]) ! byte_len u = i + byte_len a"
  using assms
proof (induction s arbitrary: i u)
  case Nil
  then show ?case by simp
next
  case (Cons c s)
  obtain nt om where o: "offset_loop (char_indices (i + len_utf8 c) s) = (nt, om)" by fastforce
  show ?case
  proof (cases "u = []")
    case True
    have "(snd (offset_loop (char_indices i (c # s))) @ [i + byte_len (c # s)]) ! 0 = i"
    proof (cases "lookup_confusable c")
      case None
      then show ?thesis using o by (simp add: nth_append)
    next
      case (Some r)
      with lookup_cases [OF Some] have "0 < byte_len r" by (simp add: ascii_byte_len)
      with Some o show ?thesis by (simp add: nth_append)
    qed
    with True show ?thesis by - (rule exI [of _ "[]"], simp)
  next
    case False
    \<comment> \<open>behind the whole normal form of \<open>c\<close>\<close>
    have behind: ?thesis if n: "normalize_confusables s = u' @ v" and om': "snd (offset_loop (char_indices i (c # s))) = hs @ om"
        and k: "byte_len u = length hs + byte_len u'" for u' hs
    proof -
      from Cons.IH [OF n, of "i + len_utf8 c"] obtain a b where
        ab: "s = a @ b" "(om @ [i + len_utf8 c + byte_len s]) ! byte_len u' = i + len_utf8 c + byte_len a"
        using o by auto
      have "(snd (offset_loop (char_indices i (c # s))) @ [i + byte_len (c # s)]) ! byte_len u = i + byte_len (c # a)"
        unfolding om' using ab(2) by (simp add: k add.assoc)
      with ab(1) show ?thesis by - (rule exI [of _ "c # a"], simp)
    qed
    show ?thesis
    proof (cases "lookup_confusable c")
      case None
      then obtain u' where u: "u = c # u'" "normalize_confusables s = u' @ v"
        using Cons.prems False by (cases u) auto
      show ?thesis
        by (rule behind [OF u(2), of "map (\<lambda>k. i + k) [0..<len_utf8 c]"]) (use None o u in simp_all)
    next
      case (Some r)
      note r = lookup_cases [OF Some]
      have n: "r @ normalize_confusables s = u @ v" using Cons.prems Some by simp
      show ?thesis
      proof (cases "length r \<le> length u")
        case True
        then obtain u' where u: "u = r @ u'" "normalize_confusables s = u' @ v"
          using n by (metis append_eq_append_conv_if append_take_drop_id)
        show ?thesis
          by (rule behind [OF u(2), of "replicate (byte_len r) i"]) (use Some o u in simp_all)
      next
        case False
        then have "\<forall>x \<in> set u. x < 128" using n r
          by (metis append_eq_append_conv_if in_set_takeD nle_le)
        then have k: "byte_len u < byte_len r" using False r by (simp add: ascii_byte_len)
        then have "(snd (offset_loop (char_indices i (c # s))) @ [i + byte_len (c # s)]) ! byte_len u = i"
          using Some o by (simp add: nth_append)
        then show ?thesis by - (rule exI [of _ "[]"], simp)
      qed
    qed
  qed
qed

lemma offset_map_boundary:
  assumes "normalize_confusables s = u @ v"
  obtains a b where "s = a @ b" and "snd (build_offset_map s) ! byte_len u = byte_len a"
proof -
  from offset_boundary [OF assms, of 0] obtain a b where
    "s = a @ b" "snd (build_offset_map s) ! byte_len u = byte_len a"
    by (auto simp: build_offset_map_def case_prod_beta)
  then show thesis by (rule that)
qed

section \<open>Normalized matches\<close>

lemma piece_offsets_split:
  "i \<in> set (piece_offsets k sep ps) \<Longrightarrow> \<exists>u v. join sep ps = u @ sep @ v \<and> i = k + byte_len u"
proof (induction k sep ps rule: piece_offsets.induct)
  case (1 k sep p q ps)
  then consider "i = k + byte_len p" | "i \<in> set (piece_offsets (k + byte_len p + byte_len sep) sep (q # ps))" by auto
  then show ?case
  proof cases
    case 1
    then show ?thesis by - (rule exI [of _ p], simp)
  next
    case 2
    with "1.IH" obtain u v where "join sep (q # ps) = u @ sep @ v" "i = k + byte_len p + byte_len sep + byte_len u"
      by blast
    then show ?thesis by - (rule exI [of _ "p @ sep @ u"], simp)
  qed
qed simp_all

lemma match_at:
  assumes "pat \<noteq> []" and "i \<in> set (match_indices s pat)"
  shows "\<exists>u v. s = u @ pat @ v \<and> i = byte_len u"
  using piece_offsets_split [of i 0 pat "split_str pat s"] assms
  by (simp add: match_indices_pieces join_split_str)

definition matched_span :: "rstring \<Rightarrow> rstring \<Rightarrow> normalized_match \<Rightarrow> bool" where
  \<comment> \<open>a span of whole characters that reads as the pattern\<close>
  "matched_span text norm_pattern m \<longleftrightarrow>
     (case slice text (original_start m) (original_start m + original_len m) of
        Some old \<Rightarrow> normalize_confusables old = norm_pattern | None \<Rightarrow> False)"

lemma boundary_slice:
  assumes "text = a @ b" and "text = c @ d" and "byte_len a < byte_len c"
  shows "\<exists>old. slice text (byte_len a) (byte_len c) = Some old"
proof -
  from assms(1,2) have "a @ b = c @ d" by simp
  then obtain us where "a = c @ us \<and> us @ b = d \<or> a @ us = c \<and> b = us @ d" by (auto simp: append_eq_append_conv2)
  with assms(3) have "c = a @ us" "b = us @ d" by auto
  with assms(1) show ?thesis by (auto simp: slice_Some)
qed

lemma validate_candidates_spec:
  assumes "pat \<noteq> []" and "\<forall>i \<in> set starts. \<exists>u v. normalize_confusables text = u @ pat @ v \<and> i = byte_len u"
  shows "\<exists>v r. validate_candidates text pat (snd (build_offset_map text)) starts = Some (v, r) \<and>
    (\<forall>m \<in> set v. matched_span text pat m) \<and> (v = [] \<and> \<not> r \<longrightarrow> starts = [])"
  using assms(2)
proof (induction starts)
  case Nil
  show ?case by (rule exI [of _ "[]"], rule exI [of _ False]) simp
next
  case (Cons i starts)
  from Cons obtain v r where ih: "validate_candidates text pat (snd (build_offset_map text)) starts = Some (v, r)"
    "\<forall>m \<in> set v. matched_span text pat m" by auto
  from Cons.prems obtain u w where n: "normalize_confusables text = u @ pat @ w" and i: "i = byte_len u" by auto
  from n have n': "normalize_confusables text = (u @ pat) @ w" by simp
  obtain a b where ab: "text = a @ b" "snd (build_offset_map text) ! byte_len u = byte_len a"
    by (rule offset_map_boundary [OF n])
  obtain c d where cd: "text = c @ d" "snd (build_offset_map text) ! byte_len (u @ pat) = byte_len c"
    by (rule offset_map_boundary [OF n'])
  have len: "i + byte_len pat < length (snd (build_offset_map text))"
    by (simp add: build_offset_map_facts n i)
  show ?case
  proof (cases "byte_len c \<le> byte_len a")
    case True
    then show ?thesis using ih len ab(2) cd(2) by (auto simp: i)
  next
    case False
    then obtain old where s: "slice text (byte_len a) (byte_len c) = Some old"
      using boundary_slice [OF ab(1) cd(1)] by auto
    then have "normalize_confusables old = pat \<Longrightarrow>
        matched_span text pat \<lparr>original_start = byte_len a, original_len = byte_len c - byte_len a\<rparr>"
      using False by (simp add: matched_span_def)
    then show ?thesis using False ih len ab(2) cd(2) s
      by (cases "normalize_confusables old = pat") (auto simp: i Let_def)
  qed
qed

lemma spans_weave:
  assumes "\<not> spans_overlap ms" and "\<forall>m \<in> set ms. matched_span text pat m"
    and "text = pre @ rest" and "ms \<noteq> [] \<Longrightarrow> byte_len pre \<le> original_start (hd ms)"
  shows "\<exists>ps os. length ps = Suc (length os) \<and> text = pre @ weave ps os \<and>
    map (\<lambda>m. (original_start m, original_len m)) ms = weave_spans (byte_len pre) ps os \<and>
    length os = length ms \<and> (\<forall>old \<in> set os. normalize_confusables old = pat)"
  using assms
proof (induction ms arbitrary: pre rest)
  case Nil
  then show ?case by (intro exI [of _ "[rest]"] exI [of _ "[]"]) simp
next
  case (Cons m ms)
  from Cons.prems(2) obtain old where
    o: "slice text (original_start m) (original_start m + original_len m) = Some old" "normalize_confusables old = pat"
    by (auto simp: matched_span_def split: option.splits)
  then obtain a b where t: "text = a @ old @ b" "original_start m = byte_len a" "original_len m = byte_len old"
    by (auto simp: slice_Some)
  from t(1) Cons.prems(3) have "a @ old @ b = pre @ rest" by simp
  moreover have "byte_len pre \<le> byte_len a" using Cons.prems(4) t(2) by simp
  ultimately obtain p where p: "a = pre @ p"
    by (auto simp: append_eq_append_conv2 byte_len_def sum_list_eq_0_iff)
  have h: "ms \<noteq> [] \<Longrightarrow> byte_len (pre @ p @ old) \<le> original_start (hd ms)"
    using Cons.prems(1) t p by (cases ms) auto
  have n: "\<not> spans_overlap ms" using Cons.prems(1) by (cases ms) simp_all
  have tt: "text = (pre @ p @ old) @ b" using t(1) p by simp
  have "\<forall>m \<in> set ms. matched_span text pat m" using Cons.prems(2) by simp
  from Cons.IH [OF n this tt h] obtain ps os where
    "length ps = Suc (length os)" "text = (pre @ p @ old) @ weave ps os"
    "map (\<lambda>m. (original_start m, original_len m)) ms = weave_spans (byte_len (pre @ p @ old)) ps os"
    "length os = length ms" "\<forall>old \<in> set os. normalize_confusables old = pat"
    by blast
  then show ?case using o(2) t p
    by (intro exI [of _ "p # ps"] exI [of _ "old # os"]) (simp add: add.assoc)
qed

lemma normalized_matches_spec:
  "\<exists>r. find_normalized_match_positions text pattern = Some r \<and>
     (r = NormNoMatch \<longrightarrow> normalize_confusables pattern = [] \<or>
        match_indices (normalize_confusables text) (normalize_confusables pattern) = []) \<and>
     (\<forall>ms new. r = NormMatches ms \<longrightarrow> ms \<noteq> [] \<and> (\<exists>ps os. length ps = Suc (length os) \<and> length os = length ms \<and>
        text = weave ps os \<and> (\<forall>old \<in> set os. normalize_confusables old = normalize_confusables pattern) \<and>
        replace_normalized_matches text ms new = Some (join new ps, piece_offsets 0 new ps)))"
proof (cases "normalize_confusables pattern = []")
  case True
  then show ?thesis by (simp add: find_normalized_match_positions_def case_prod_beta)
next
  case False
  let ?pat = "normalize_confusables pattern" and ?starts = "match_indices (normalize_confusables text) (normalize_confusables pattern)"
  obtain v r where v: "validate_candidates text ?pat (snd (build_offset_map text)) ?starts = Some (v, r)"
    "\<forall>m \<in> set v. matched_span text ?pat m" "v = [] \<and> \<not> r \<longrightarrow> ?starts = []"
    using validate_candidates_spec [OF False, of ?starts] match_at [OF False] by blast
  have f: "find_normalized_match_positions text pattern = Some
      (if v = [] then (if r then NormAmbiguous else NormNoMatch) else if spans_overlap v then NormAmbiguous else NormMatches v)"
    using False v(1) by (simp add: find_normalized_match_positions_def case_prod_beta build_offset_map_facts)
  have w: "\<exists>ps os. length ps = Suc (length os) \<and> length os = length v \<and> text = weave ps os \<and>
      (\<forall>old \<in> set os. normalize_confusables old = ?pat) \<and>
      replace_normalized_matches text v new = Some (join new ps, piece_offsets 0 new ps)"
    if "\<not> spans_overlap v" for new
  proof -
    from spans_weave [OF that v(2), of "[]" "text"] obtain ps os where
      w: "length ps = Suc (length os)" "text = weave ps os" "length os = length v"
        "map (\<lambda>m. (original_start m, original_len m)) v = weave_spans 0 ps os"
        "\<forall>old \<in> set os. normalize_confusables old = ?pat" by auto
    have "replace_normalized_matches text v new = Some (join new ps, piece_offsets 0 new ps)"
      using replace_loop_weave [OF w(1), of "text" "[]" new "[]" "[]"] w(2,4)
      by (simp add: replace_normalized_matches_def)
    with w show ?thesis by blast
  qed
  show ?thesis using v(3) w by (auto simp: f)
qed

section \<open>Snippets\<close>

lemma split_inclusive_length: "count_newlines s \<le> length (split_inclusive NL s)"
  by (induction s) (auto simp: count_newlines_def split: list.splits)

lemma vec_slice_total: "i \<le> j \<Longrightarrow> j \<le> length v \<Longrightarrow> \<exists>w. vec_slice v i j = Some w"
  by (simp add: vec_slice_def)

lemma snippet_total:
  assumes before: "slice_to new_text pos = Some before" and "0 < context_lines"
    and lines: "count_newlines before \<le> length (split_inclusive NL new_text)"
  shows "\<exists>x. render_snippet new_text new pos context_lines = Some x"
proof -
  define ls where "ls = split_inclusive NL new_text"
  define first where "first = count_newlines before"
  define last_line where "last_line = first + max (length (split_inclusive NL new)) 1 - 1"
  define e where "e = min (last_line + context_lines) (length ls - 1)"
  have r: "compute_line_range new_text pos new = Some \<lparr>start_line = first, end_line = last_line\<rparr>"
    by (simp add: compute_line_range_def before Let_def first_def last_line_def)
  have "first \<le> length ls" using lines by (simp add: first_def ls_def)
  then obtain b where b: "vec_slice ls (first - context_lines) first = Some b"
    using vec_slice_total [of "first - context_lines" first ls] by auto
  have "\<exists>w. vec_slice ls (last_line + 1) (e + 1) = Some w" if "last_line < e"
    using that by (intro vec_slice_total) (auto simp: e_def min_def split: if_splits)
  then obtain w where w: "last_line < e \<Longrightarrow> vec_slice ls (last_line + 1) (e + 1) = Some w" by blast
  have "first \<le> last_line" by (simp add: last_line_def)
  then have ne: "\<not> e < first - context_lines"
    using \<open>first \<le> length ls\<close> assms(2) by (auto simp: e_def min_def)
  obtain bc where bc: "(if first - context_lines < first
      then map_option concat (vec_slice ls (first - context_lines) first) else Some []) = Some bc"
    using b by (metis option.simps(9))
  obtain ac where ac: "(if last_line < e then map_option concat (vec_slice ls (last_line + 1) (e + 1)) else Some []) = Some ac"
    using w by (metis option.simps(9))
  show ?thesis
    unfolding render_snippet_def r Let_def bind.bind_lunit line_range.simps ls_def [symmetric] e_def [symmetric] bc ac
    using ne by simp
qed

lemma edit_detail_total:
  assumes "new_text = a @ b" and "0 < context_lines"
  shows "\<exists>d. edit_detail_at new_text old new context_lines (byte_len a) = Some d \<and>
    ed_new_line d = count_newlines a + 1 \<and> ed_old_line d = count_newlines a + 1"
proof -
  have "count_newlines a \<le> length (split_inclusive NL new_text)"
    using split_inclusive_length [of new_text] by (simp add: assms(1) count_newlines_def)
  with snippet_total [OF _ assms(2)] obtain x where
    r: "render_snippet new_text new (byte_len a) context_lines = Some x"
    using assms(1) by (metis slice_to_append)
  obtain range where "compute_line_range new_text (byte_len a) new = Some range" "start_line range = count_newlines a"
    by (simp add: compute_line_range_def assms(1) Let_def)
  with r show ?thesis by (simp add: edit_detail_at_def assms(1) case_prod_beta)
qed

lemma edit_details_total:
  assumes "0 < context_lines"
  shows "\<exists>ds. build_edit_details (join new ps) old new (piece_offsets 0 new ps) context_lines = Some ds \<and>
    length ds = length ps - 1"
proof -
  have "\<forall>i \<in> set is. \<exists>u v. t = u @ v \<and> i = byte_len u \<Longrightarrow>
      \<exists>ds. build_edit_details t old new is context_lines = Some ds \<and> length ds = length is" for t "is"
  proof (induction "is")
    case (Cons i "is")
    from Cons.prems obtain u v where "t = u @ v" "i = byte_len u" by auto
    with edit_detail_total [of t u v, OF _ assms] obtain d where
      "edit_detail_at t old new context_lines i = Some d" by blast
    moreover from Cons obtain ds where
      "build_edit_details t old new is context_lines = Some ds" "length ds = length is" by auto
    ultimately show ?case by simp
  qed simp
  from this [of "piece_offsets 0 new ps" "join new ps"] show ?thesis
    unfolding length_piece_offsets using piece_offsets_split [of _ 0 new ps] by simp blast
qed

end
