(* ===== verification/Path_Hints.thy ===== *)
theory Path_Hints
  imports Paths Text_Truncation
begin

text \<open>
  What the file tools do around a path (\<open>xai-grok-tools/src/util\<close>): the fallback to a file name
  with other spaces (\<open>fs.rs\<close>), the hints of a not-found message (\<open>path_suggestions.rs\<close>), the
  \<open>.gitignore\<close> check (\<open>gitignore.rs\<close>, \<open>types/resources.rs\<close>) and the installed query tools
  (\<open>query_tools.rs\<close>).  What the host answers (canonical paths, listings, existence, the probe of
  \<open>$PATH\<close>, the compiled ignore rules, Unicode lower case) is the record \<open>path_host\<close>; names are
  valid UTF-8 and paths are Unix paths.
\<close>

section \<open>The host\<close>

datatype error_kind = KNotFound | KAlreadyExists | KInvalidFilename | KIsADirectory | KPermissionDenied | KOther

record path_host =
  host_tilde :: "rstring \<Rightarrow> rstring"
  host_canonicalize :: "rstring \<Rightarrow> (rstring, error_kind) result"
  host_is_dir :: "rstring \<Rightarrow> bool"
  host_exists :: "rstring \<Rightarrow> bool"
  host_read_dir :: "rstring \<Rightarrow> rstring list option"
  host_filename_timeout :: bool \<comment> \<open>the fallback scan ran out of time\<close>
  host_hint_timeout :: bool \<comment> \<open>the hint probe ran out of time\<close>
  host_lowercase :: "rstring \<Rightarrow> rstring"
  host_command_available :: "rstring \<Rightarrow> bool"

section \<open>File names with other spaces\<close>

definition FILENAME_SPECIAL_CHARACTER_MAP :: "(rchar \<times> rchar) list" where
  "FILENAME_SPECIAL_CHARACTER_MAP = [(8239, 32), (160, 32)]"

definition normalize_filename :: "rstring \<Rightarrow> rstring" where
  "normalize_filename s = map (\<lambda>c. case List.find (\<lambda>(from, _). from = c) FILENAME_SPECIAL_CHARACTER_MAP of
     Some (_, replacement) \<Rightarrow> replacement | None \<Rightarrow> c) s"

record unicode_path_match =
  resolved_path :: rstring
  match_note :: rstring

definition hex_digit :: "nat \<Rightarrow> rchar" where
  "hex_digit d = (if d < 10 then 48 + d else 55 + d)"

fun show_hex :: "nat \<Rightarrow> rstring" where
  "show_hex n = (if n < 16 then [hex_digit n] else show_hex (n div 16) @ [hex_digit (n mod 16)])"

declare show_hex.simps [simp del]

definition code_point :: "rchar \<Rightarrow> rstring" where
  \<comment> \<open>\<open>U+{:04X}\<close>\<close>
  "code_point c = lit ''U+'' @ replicate (4 - length (show_hex c)) 48 @ show_hex c"

definition unicode_note :: "rstring \<Rightarrow> rstring \<Rightarrow> rstring" where
  "unicode_note matched_name file_name =
     (let differing_chars = map (\<lambda>(actual, _). code_point actual) (filter (\<lambda>(a, b). a \<noteq> b) (zip matched_name file_name));
          chars_list = (if differing_chars = [] then [] else lit '' ('' @ join (lit '', '') differing_chars @ lit '')'')
      in lit ''The specified filename did not exist exactly as given. A file was found by normalizing Unicode characters'' @
         chars_list @ lit '' to their ASCII equivalents. The actual filename is: '' @ matched_name @ [NL] @
         lit ''For shell commands referencing this file, use glob patterns to avoid the mismatch.'')"

fun scan_entries :: "rstring \<Rightarrow> rstring \<Rightarrow> rstring list \<Rightarrow> rstring list option" where
  \<comment> \<open>the names that match; \<open>None\<close> when the exact name exists after all\<close>
  "scan_entries file_name normalized_target [] = Some []"
| "scan_entries file_name normalized_target (entry # entries) =
     (if entry = file_name then None
      else map_option (\<lambda>ms. if normalize_filename entry = normalized_target then entry # ms else ms)
        (scan_entries file_name normalized_target entries))"

definition try_resolve_unicode_filename_inner :: "path_host \<Rightarrow> rstring \<Rightarrow> unicode_path_match option" where
  "try_resolve_unicode_filename_inner h path =
     Option.bind (path_file_name path) (\<lambda>file_name.
     Option.bind (path_parent path) (\<lambda>parent.
     Option.bind (host_read_dir h (path_of parent)) (\<lambda>entries.
     Option.bind (scan_entries file_name (normalize_filename file_name) entries) (\<lambda>names.
       case names of
         [matched_name] \<Rightarrow> Some \<lparr>resolved_path = path_join (path_of parent) matched_name,
           match_note = unicode_note matched_name file_name\<rparr>
       | _ \<Rightarrow> None))))"

definition try_resolve_unicode_filename :: "path_host \<Rightarrow> rstring \<Rightarrow> unicode_path_match option" where
  "try_resolve_unicode_filename h path =
     (if host_filename_timeout h then None else try_resolve_unicode_filename_inner h path)"

section \<open>Hints for a path that was not found\<close>

definition MAX_SIMILAR :: nat where "MAX_SIMILAR = 3"
definition MIN_LEAF_LEN :: nat where "MIN_LEAF_LEN = 2"
definition MIN_REVERSE_STEM_LEN :: nat where "MIN_REVERSE_STEM_LEN = 4"

record path_not_found_hint =
  hint_suggestion :: "rstring option"
  hint_similar :: "rstring list"
  hint_cwd_note :: rstring

definition show_hint :: "path_not_found_hint \<Rightarrow> rstring" where
  "show_hint hint =
     (case hint_suggestion hint of
        Some s \<Rightarrow> lit '' Did you mean '' @ s @ lit ''?''
      | None \<Rightarrow> if hint_similar hint = [] then []
          else [NL] @ lit ''Similar entries in parent directory: '' @
            join (lit '', '') (List.map_filter path_file_name (hint_similar hint))) @
     [NL] @ hint_cwd_note hint"

definition try_suggest_under_cwd :: "path_host \<Rightarrow> rstring \<Rightarrow> rstring \<Rightarrow> rstring option" where
  "try_suggest_under_cwd h path cwd =
     (if \<not> is_absolute path \<or> take (length (components cwd)) (components path) = components cwd then None
      else Option.bind (path_parent cwd) (\<lambda>parent.
        let cwd_parent = path_of parent in
        Option.bind (path_strip_prefix path cwd_parent) (\<lambda>rel_from_parent.
          if (case components rel_from_parent of
                Normal first # _ \<Rightarrow> components (path_join cwd_parent first) \<noteq> components cwd \<and>
                  host_exists h (path_join cwd_parent first)
              | _ \<Rightarrow> False) then None
          else let candidate = path_join cwd rel_from_parent in
            if host_exists h candidate then Some candidate else None)))"

definition file_stem :: "rstring \<Rightarrow> rstring" where
  \<comment> \<open>\<open>Path::new(name).file_stem()\<close> of one name: up to its last dot, unless that is the first character\<close>
  "file_stem name = (if name = [DOT, DOT] then name else case find_from (\<lambda>i. name ! i = DOT \<and> DOT \<notin> set (drop (i + 1) name)) 0 (length name) of
     Some i \<Rightarrow> if i = 0 then name else take i name | None \<Rightarrow> name)"

definition similar_name :: "path_host \<Rightarrow> rstring \<Rightarrow> rstring \<Rightarrow> rstring \<Rightarrow> bool" where
  "similar_name h base base_stem entry =
     (let name = host_lowercase h entry in
      if name = base then False
      else
        let name_stem = host_lowercase h (file_stem name); forward = contains name_stem base_stem
        in forward \<or> MIN_REVERSE_STEM_LEN \<le> byte_len name_stem \<and> contains base_stem name_stem)"

definition find_similar_entries :: "path_host \<Rightarrow> rstring \<Rightarrow> rstring list" where
  \<comment> \<open>the loop stops at the \<open>MAX_SIMILAR\<close>-th match\<close>
  "find_similar_entries h path = (case path_parent path of None \<Rightarrow> [] | Some parent \<Rightarrow>
     (case path_file_name path of None \<Rightarrow> [] | Some leaf \<Rightarrow>
        if byte_len leaf < MIN_LEAF_LEN then []
        else
          let base = host_lowercase h leaf; base_stem = host_lowercase h (file_stem base) in
          (case host_read_dir h (path_of parent) of None \<Rightarrow> []
           | Some entries \<Rightarrow> map (path_join (path_of parent)) (take MAX_SIMILAR (filter (similar_name h base base_stem) entries)))))"

definition collect_hints :: "path_host \<Rightarrow> rstring \<Rightarrow> rstring \<Rightarrow> rstring option \<times> rstring list" where
  "collect_hints h path cwd = (case try_suggest_under_cwd h path cwd of
     Some corrected \<Rightarrow> (Some corrected, []) | None \<Rightarrow> (None, find_similar_entries h path))"

definition build_path_hint :: "path_host \<Rightarrow> rstring \<Rightarrow> rstring \<Rightarrow> rstring \<Rightarrow> path_not_found_hint" where
  \<comment> \<open>\<open>path_not_found_hint\<close>\<close>
  "build_path_hint h path cwd display_cwd =
     (case (if host_hint_timeout h then (None, []) else collect_hints h path cwd) of (suggestion, similar) \<Rightarrow>
        \<lparr>hint_suggestion = map_option (\<lambda>corrected. case path_strip_prefix corrected cwd of
             Some rel \<Rightarrow> path_join display_cwd rel | None \<Rightarrow> corrected) suggestion,
         hint_similar = similar,
         hint_cwd_note = lit ''Note: your current working directory is '' @ display_cwd\<rparr>)"

definition format_not_found_error :: "path_host \<Rightarrow> rstring \<Rightarrow> rstring \<Rightarrow> rstring \<Rightarrow> rstring \<Rightarrow> bool \<Rightarrow> rstring" where
  "format_not_found_error h display_path resolved cwd display_cwd hints_enabled =
     (let base = lit ''Error: '' @ display_path @ lit '' does not exist.'' in
      if \<not> hints_enabled then base else base @ show_hint (build_path_hint h resolved cwd display_cwd))"

section \<open>Ignored files\<close>

record gitignore_filter =
  gf_matches :: "rstring \<Rightarrow> bool \<Rightarrow> bool"
    \<comment> \<open>\<open>Gitignore::matched_path_or_any_parents(path, is_dir).is_ignore()\<close>\<close>
  gf_git_root :: rstring

definition gitignore_is_ignored :: "path_host \<Rightarrow> (rstring \<Rightarrow> bool \<Rightarrow> bool) \<Rightarrow> rstring \<Rightarrow> rstring option \<Rightarrow> bool" where
  "gitignore_is_ignored h gitignore path git_root =
     (case git_root of
        Some root_dir \<Rightarrow> (case path_strip_prefix path root_dir of
            Some relative \<Rightarrow> gitignore relative (host_is_dir h relative) | None \<Rightarrow> False)
      | None \<Rightarrow> if is_absolute path then False else gitignore path (host_is_dir h path))"

definition filter_is_ignored :: "path_host \<Rightarrow> gitignore_filter \<Rightarrow> rstring \<Rightarrow> bool" where
  \<comment> \<open>\<open>GitignoreFilter::is_ignored\<close>\<close>
  "filter_is_ignored h f path =
     (let normalized = (case host_canonicalize h path of
          Inr p \<Rightarrow> p
        | Inl _ \<Rightarrow> (case path_parent path of
              None \<Rightarrow> path
            | Some parent \<Rightarrow> (case host_canonicalize h (path_of parent) of
                  Inr p \<Rightarrow> path_join p (case path_file_name path of Some n \<Rightarrow> n | None \<Rightarrow> []) | Inl _ \<Rightarrow> path)))
      in gitignore_is_ignored h (gf_matches f) normalized (Some (gf_git_root f)))"

section \<open>Query tools\<close>

record query_tools =
  qt_jq :: "rstring option"
  qt_python :: "rstring option"
  qt_sed :: "rstring option"
  qt_cut :: "rstring option"

definition tool_present :: "path_host \<Rightarrow> rstring \<Rightarrow> rstring option" where
  "tool_present h name = (if host_command_available h name then Some name else None)"

definition query_tools_detect :: "path_host \<Rightarrow> query_tools" where
  "query_tools_detect h = \<lparr>qt_jq = tool_present h (lit ''jq''),
     qt_python = (case tool_present h (lit ''python3'') of Some p \<Rightarrow> Some p | None \<Rightarrow> tool_present h (lit ''python'')),
     qt_sed = tool_present h (lit ''sed''), qt_cut = tool_present h (lit ''cut'')\<rparr>"

definition wrap_tools :: "rstring option list \<Rightarrow> rstring list" where
  "wrap_tools tools = List.map_filter (map_option (\<lambda>t. [96] @ t @ [96])) tools"

definition json_tools :: "query_tools \<Rightarrow> rstring list" where
  "json_tools q = wrap_tools [qt_jq q, qt_python q]"

definition text_tools :: "query_tools \<Rightarrow> rstring list" where
  "text_tools q = wrap_tools [qt_python q, qt_sed q, qt_cut q]"

definition edit_tools :: "query_tools \<Rightarrow> rstring list" where
  "edit_tools q = wrap_tools [qt_python q, qt_sed q]"

definition examples_clause :: "rstring list \<Rightarrow> rstring" where
  "examples_clause tools = (case tools of
     [] \<Rightarrow> []
   | [a] \<Rightarrow> lit '' (e.g. '' @ a @ lit '')''
   | [a, b] \<Rightarrow> lit '' (e.g. '' @ a @ lit '' or '' @ b @ lit '')''
   | _ \<Rightarrow> lit '' (e.g. '' @ join (lit '', '') (butlast tools) @ lit '', or '' @ last tools @ lit '')'')"

end
