(* ===== verification/Search_Replace.thy ===== *)
theory Search_Replace
  imports Text_Edits Path_Hints Patch_Tool Protected_Edits Exec_Risk
begin

text \<open>
  The \<open>search_replace\<close> tool
  (\<open>xai-grok-tools/src/implementations/grok_build/search_replace/mod.rs\<close>), its concise variant
  and the legacy wording of its errors (\<open>versions/legacy_0_4_10.rs\<close>).  A run reads and writes
  bytes through the session's file system, sends a \<open>FileWritten\<close> notification and returns an
  output or a \<open>ToolError\<close>; \<open>None\<close> is a panic.  The resources of the call, the template
  renderer and the host's answers are the record \<open>edit_env\<close>.
\<close>

section \<open>The file system\<close>

datatype computer_error = IOError rstring "error_kind option" | CommandNotQuoted

fun io_error_kind :: "computer_error \<Rightarrow> error_kind option" where
  "io_error_kind (IOError _ kind) = kind"
| "io_error_kind CommandNotQuoted = None"

fun show_computer_error :: "computer_error \<Rightarrow> rstring" where
  "show_computer_error (IOError msg _) = lit ''IO Error: '' @ msg"
| "show_computer_error CommandNotQuoted = lit ''UnQuoted command''"

record 's byte_fs =
  read_bytes :: "'s \<Rightarrow> rstring \<Rightarrow> (byte list, computer_error) result"
  write_bytes :: "rstring \<Rightarrow> byte list \<Rightarrow> 's \<Rightarrow> (unit, computer_error) result \<times> 's"

section \<open>Inputs and outputs\<close>

datatype search_replace_version = CurrentVersion | Legacy0_4_10

definition from_contract :: "rstring option \<Rightarrow> search_replace_version" where
  "from_contract v = (if v = Some (lit ''legacy-0.4.10'') then Legacy0_4_10 else CurrentVersion)"

definition is_legacy :: "search_replace_version \<Rightarrow> bool" where
  "is_legacy v \<longleftrightarrow> v = Legacy0_4_10"

record search_replace_input =
  in_file_path :: rstring
  in_old_string :: rstring
  in_new_string :: rstring
  in_replace_all :: bool

record search_replace_params =
  empty_old_string_does_not_override :: bool
  unicode_normalized_fallback :: bool
  include_user_edit_hint :: bool

datatype tool_error = MissingResource rstring | InvalidArguments rstring | ExecutionError rstring

record search_replace_edits_applied =
  ea_old_string :: rstring
  ea_new_string :: rstring
  ea_output :: rstring
  ea_output_concise :: "rstring option"
  ea_absolute_path :: rstring
  ea_details :: "search_replace_edit_detail list"
  ea_unicode_normalized :: bool

datatype search_replace_output =
    FileAlreadyExists rstring
  | EditsApplied search_replace_edits_applied
  | MultipleMatchesFound rstring
  | NoMatchesFound rstring rstring \<comment> \<open>the message and the path\<close>
  | InvalidInput rstring
  | FileNotFound rstring
  | FilenameTooLong rstring

record 's edit_env =
  ctx_cwd :: "rstring option"
  ctx_behavior_version :: "rstring option"
  ctx_call_id :: rstring
  res_cwd :: "rstring option"
  res_display_cwd :: "rstring option"
  res_fs :: "'s byte_fs option"
  res_notification_handle :: bool
  res_path_not_found_hints :: "bool option"
  res_respect_gitignore :: "bool option"
  res_gitignore_filter :: "gitignore_filter option"
  res_params :: "search_replace_params option"
  res_renderer :: "(rstring \<Rightarrow> (rstring, rstring) result) option"
  host :: path_host

type_synonym 's sr_result = "((search_replace_output, tool_error) result \<times> file_written list \<times> 's) option"

definition resolve_template :: "'s edit_env \<Rightarrow> string \<Rightarrow> (rstring, tool_error) result" where
  \<comment> \<open>\<open>TemplateRenderer::resolve\<close>, and the \<open>require\<close> and \<open>render\<close> the handlers write out\<close>
  "resolve_template env template = (case res_renderer env of
     None \<Rightarrow> Inl (MissingResource (lit ''TemplateRenderer''))
   | Some render \<Rightarrow> (case render (lit template) of Inl e \<Rightarrow> Inl (InvalidArguments e) | Inr name \<Rightarrow> Inr name))"

definition returns :: "search_replace_output \<Rightarrow> 's \<Rightarrow> 's sr_result" where
  "returns out s = Some (Inr out, [], s)"

definition with_name :: "'s edit_env \<Rightarrow> string \<Rightarrow> 's \<Rightarrow> (rstring \<Rightarrow> 's sr_result) \<Rightarrow> 's sr_result" where
  "with_name env template s k = (case resolve_template env template of
     Inl e \<Rightarrow> Some (Inl e, [], s) | Inr name \<Rightarrow> k name)"

section \<open>Messages\<close>

definition NAME_MAX :: nat where "NAME_MAX = 255"
definition CONTEXT_LINES :: nat where "CONTEXT_LINES = 3"

definition long_name :: "component \<Rightarrow> nat option" where
  "long_name c = (case c of
     Normal name \<Rightarrow> if NAME_MAX < byte_len name then Some (byte_len name) else None | _ \<Rightarrow> None)"

definition validate_path_length :: "rstring \<Rightarrow> search_replace_output option" where
  "validate_path_length file_path = (case List.map_filter long_name (components file_path) of
     [] \<Rightarrow> None
   | len # _ \<Rightarrow> Some (FilenameTooLong (lit ''Error: file name exceeds the '' @ show_nat NAME_MAX @
       lit ''-character limit ('' @ show_nat len @ lit '' characters). Please use a shorter file name.'')))"

definition NAME_TOO_LONG :: search_replace_output where
  "NAME_TOO_LONG = FilenameTooLong (lit ''Error: file name exceeds the '' @ show_nat NAME_MAX @
     lit ''-character limit. Please use a shorter file name.'')"

definition not_found_output :: "'s edit_env \<Rightarrow> rstring \<Rightarrow> rstring \<Rightarrow> rstring \<Rightarrow> rstring option \<Rightarrow> bool \<Rightarrow> search_replace_output" where
  "not_found_output env file_path path cwd display_cwd hints_enabled =
     (let display_dcwd = (case display_cwd of Some d \<Rightarrow> d | None \<Rightarrow> cwd) in
      FileNotFound (format_not_found_error (host env) (path_join display_dcwd file_path) path cwd display_dcwd hints_enabled))"

fun last_longest :: "rstring \<Rightarrow> rstring list \<Rightarrow> rstring" where
  \<comment> \<open>\<open>max_by_key(len)\<close>: the last of the longest\<close>
  "last_longest best [] = best"
| "last_longest best (w # ws) = last_longest (if byte_len best \<le> byte_len w then w else best) ws"

definition build_nearest_match_hint :: "rstring \<Rightarrow> rstring \<Rightarrow> rstring" where
  "build_nearest_match_hint file old_string =
     (let first = (case str_lines old_string of [] \<Rightarrow> [] | l # _ \<Rightarrow> l);
          keyword = last_longest [] (split_whitespace first)
      in if keyword = [] then []
         else (case List.find (\<lambda>(_, l). contains l keyword) (List.enumerate 0 (str_lines file)) of
             None \<Rightarrow> []
           | Some (i, l) \<Rightarrow> truncate_str_with_marker
               ([NL, NL] @ lit ''Nearest match: line '' @ show_nat (i + 1) @ lit '': '' @ trim_end l) 200))"

definition MAX_LISTED_LINES :: nat where "MAX_LISTED_LINES = 8"

definition line_summary :: "nat list \<Rightarrow> rstring" where
  "line_summary affected_lines =
     (if length affected_lines \<le> MAX_LISTED_LINES then join (lit '', '') (map show_nat affected_lines)
      else join (lit '', '') (map show_nat (take MAX_LISTED_LINES affected_lines)) @ lit '' (and '' @
        show_nat (length affected_lines - MAX_LISTED_LINES) @ lit '' more)'')"

definition build_confusable_hint ::
  "rstring \<Rightarrow> rstring \<Rightarrow> query_tools \<Rightarrow> rstring \<Rightarrow> rstring \<Rightarrow> rstring \<Rightarrow> rstring option option" where
  \<comment> \<open>the outer \<open>None\<close> is a panic\<close>
  "build_confusable_hint file old_string tools read_tool_name old_string_param execute_tool_name =
     (if \<not> has_confusables file then Some None
      else case build_offset_map file of (norm_file, offset_map) \<Rightarrow>
        let norm_old = normalize_confusables old_string in
        (case find_str norm_file norm_old of
           None \<Rightarrow> Some None
         | Some norm_start \<Rightarrow>
             if length offset_map \<le> norm_start + byte_len norm_old then None
             else
               Option.bind (slice_to file (offset_map ! norm_start)) (\<lambda>before.
               Option.bind (slice_to file (offset_map ! (norm_start + byte_len norm_old))) (\<lambda>through.
                 let match_start_line = count_newlines before + 1;
                     match_end_line = count_newlines through + 1;
                     affected_lines = remdups_adj (map hit_line_number (filter (\<lambda>h. match_start_line \<le> hit_line_number h \<and>
                       hit_line_number h \<le> match_end_line) (detect_confusables file)));
                     read_qualifier = (if read_tool_name = [] then [] else lit '' in '' @ read_tool_name @ lit '' output'');
                     param_name = (if old_string_param = [] then lit ''old_string'' else old_string_param);
                     terminal_fallback = (if edit_tools tools = [] \<or> execute_tool_name = [] then []
                       else lit '', or use '' @ execute_tool_name @ lit '' with a short script'' @
                         examples_clause (edit_tools tools) @ lit '' to edit the file directly'')
                 in if affected_lines = [] then Some None
                    else Some (Some ([NL, NL] @ lit ''The nearest matching region contains Unicode typography characters '' @
                      lit ''(smart quotes, em-dashes, etc.) on lines '' @ line_summary affected_lines @
                      lit '' that look identical to ASCII'' @ read_qualifier @
                      lit '' but differ at the byte level. Re-read the file and use a shorter '' @ param_name @
                      lit '' anchored on nearby ASCII-only context'' @ terminal_fallback @ lit ''.''))))))"

section \<open>Creating a file\<close>

definition create_write_error :: "'s edit_env \<Rightarrow> rstring \<Rightarrow> rstring \<Rightarrow> rstring \<Rightarrow> rstring option \<Rightarrow> bool \<Rightarrow> computer_error \<Rightarrow> search_replace_output" where
  "create_write_error env file_path path cwd display_cwd hints_enabled e = (case io_error_kind e of
     Some KNotFound \<Rightarrow> not_found_output env file_path path cwd display_cwd hints_enabled
   | Some KAlreadyExists \<Rightarrow> InvalidInput (lit ''Error: cannot create '' @ file_path @
       lit ''. A component of the path already exists as a file where a directory is expected.'')
   | Some KInvalidFilename \<Rightarrow> NAME_TOO_LONG
   | _ \<Rightarrow> InvalidInput (lit ''Error: failed to write '' @ file_path @ lit '': '' @ show_computer_error e))"

definition created_output :: "search_replace_input \<Rightarrow> rstring \<Rightarrow> search_replace_output" where
  "created_output inp path = EditsApplied \<lparr>ea_old_string = in_old_string inp, ea_new_string = in_new_string inp,
     ea_output = lit ''The file '' @ in_file_path inp @ lit '' has been created successfully.'',
     ea_output_concise = Some (lit ''The file '' @ in_file_path inp @ lit '' has been created.''),
     ea_absolute_path = path,
     ea_details = [\<lparr>ed_old_string = in_old_string inp, ed_old_line = 1, ed_new_string = in_new_string inp, ed_new_line = 1,
       ed_context_before = [], ed_context_after = [], ed_line_prefix = []\<rparr>],
     ea_unicode_normalized = False\<rparr>"

definition handle_new_file_creation ::
  "'s edit_env \<Rightarrow> 's byte_fs \<Rightarrow> search_replace_input \<Rightarrow> rstring \<Rightarrow> rstring \<Rightarrow> bool \<Rightarrow> bool \<Rightarrow> 's \<Rightarrow> 's sr_result" where
  "handle_new_file_creation env fs inp path cwd hints_enabled does_not_override s =
     (let file_exists = (case read_bytes fs s path of Inr bytes \<Rightarrow> bytes \<noteq> [] | Inl _ \<Rightarrow> False);
          old_text = (case read_bytes fs s path of Inr bytes \<Rightarrow> Some (from_utf8_lossy bytes) | Inl _ \<Rightarrow> None)
      in if file_exists \<and> does_not_override then
           with_name env ''${{ params.edit.old_string }}'' s (\<lambda>old_string_name.
             returns (FileAlreadyExists (old_string_name @
               lit '' is empty, which is only allowed when creating a new file or when the file is empty.'')) s)
         else (case write_bytes fs path (utf8_encode (in_new_string inp)) s of
           (Inl e, s') \<Rightarrow>
             returns (create_write_error env (in_file_path inp) path cwd (res_display_cwd env) hints_enabled e) s'
         | (Inr _, s') \<Rightarrow>
             let note = (case old_text of
                 Some t \<Rightarrow> if file_exists \<and> \<not> does_not_override
                   then written (ctx_call_id env) path (in_new_string inp) (Some t) False
                   else written (ctx_call_id env) path (in_new_string inp) None True
               | None \<Rightarrow> written (ctx_call_id env) path (in_new_string inp) None True)
             in Some (Inr (created_output inp path), [note], s')))"

section \<open>Replacing in a file\<close>

definition read_error_output ::
  "'s edit_env \<Rightarrow> rstring \<Rightarrow> rstring \<Rightarrow> rstring \<Rightarrow> bool \<Rightarrow> computer_error \<Rightarrow> (search_replace_output, tool_error) result" where
  "read_error_output env file_path path cwd hints_enabled e = (case io_error_kind e of
     Some KNotFound \<Rightarrow> Inr (not_found_output env file_path path cwd (res_display_cwd env) hints_enabled)
   | Some KIsADirectory \<Rightarrow> Inr (InvalidInput (lit ''Error: '' @ file_path @ lit '' is a directory, not a file.''))
   | Some KInvalidFilename \<Rightarrow> Inr NAME_TOO_LONG
   | Some KPermissionDenied \<Rightarrow> Inr (InvalidInput (lit ''Error: permission denied reading '' @ file_path @ lit ''.''))
   | _ \<Rightarrow> Inl (ExecutionError (show_computer_error e)))"

definition replace_write_error :: "rstring \<Rightarrow> computer_error \<Rightarrow> search_replace_output" where
  "replace_write_error file_path e = (case io_error_kind e of
     Some KAlreadyExists \<Rightarrow> InvalidInput (lit ''Error: cannot write '' @ file_path @
       lit ''. A component of the path already exists as a file where a directory is expected.'')
   | Some KInvalidFilename \<Rightarrow> NAME_TOO_LONG
   | _ \<Rightarrow> InvalidInput (lit ''Error: failed to write '' @ file_path @ lit '': '' @ show_computer_error e))"

definition no_matches_output ::
  "'s edit_env \<Rightarrow> search_replace_input \<Rightarrow> rstring \<Rightarrow> rstring \<Rightarrow> bool \<Rightarrow> bool \<Rightarrow> 's \<Rightarrow> 's sr_result" where
  "no_matches_output env inp path match_text legacy user_edit_hint s =
     with_name env ''${{ tools.by_kind.read }}'' s (\<lambda>read_name.
     with_name env ''${{ params.edit.old_string }}'' s (\<lambda>old_string_param.
     with_name env ''${{ tools.by_kind.execute }}'' s (\<lambda>execute_name.
       let hint = (if legacy then [] else build_nearest_match_hint match_text (in_old_string inp));
           confusable = (if legacy then Some []
             else map_option (\<lambda>h. case h of Some m \<Rightarrow> m | None \<Rightarrow> [])
               (build_confusable_hint match_text (in_old_string inp) (query_tools_detect (host env))
                 read_name old_string_param execute_name));
           edit_hint = (if user_edit_hint then lit '' The user may have changed the file since you last read it.'' else [])
       in Option.bind confusable (\<lambda>confusable_hint.
         returns (NoMatchesFound (lit ''The string to replace was not found in the file, use the '' @ read_name @
           lit '' tool to see the correct string.'' @ edit_hint @ hint @ confusable_hint) path) s))))"

definition CRLF :: rstring where "CRLF = [CR, NL]"

definition to_lf :: "rstring \<Rightarrow> rstring" where
  "to_lf t = str_replace t CRLF [NL]"

definition to_crlf :: "rstring \<Rightarrow> rstring" where
  "to_crlf t = str_replace (to_lf t) [NL] CRLF"

definition updated_output ::
  "search_replace_input \<Rightarrow> rstring \<Rightarrow> search_replace_edit_detail list \<Rightarrow> nat \<Rightarrow> bool \<Rightarrow> search_replace_output" where
  "updated_output inp path details n normalized = EditsApplied
     \<lparr>ea_old_string = in_old_string inp, ea_new_string = in_new_string inp,
      ea_output = lit ''The file '' @ in_file_path inp @ (if n = 1 then lit '' has been updated successfully.''
        else lit '' has been updated. All occurrences were successfully replaced.''),
      ea_output_concise = Some (lit ''The file '' @ in_file_path inp @ (if n = 1 then lit '' has been updated.''
        else lit '' has been updated. All occurrences were replaced.'')),
      ea_absolute_path = path, ea_details = details, ea_unicode_normalized = normalized\<rparr>"

definition write_edit ::
  "'s edit_env \<Rightarrow> 's byte_fs \<Rightarrow> search_replace_input \<Rightarrow> rstring \<Rightarrow> rstring \<Rightarrow> bool \<Rightarrow> rstring \<times> nat list \<Rightarrow> 's \<Rightarrow> 's sr_result" where
  \<comment> \<open>from \<open>write_text\<close> on: the line endings of the file, the write, the notification and the output\<close>
  "write_edit env fs inp path old_text normalized edit s = (case edit of (new_text, new_positions) \<Rightarrow>
     let write_text = (if contains old_text CRLF then to_crlf new_text else new_text) in
     (case write_bytes fs path (utf8_encode write_text) s of
        (Inl e, s') \<Rightarrow> returns (replace_write_error (in_file_path inp) e) s'
      | (Inr _, s') \<Rightarrow>
          Option.bind (build_edit_details new_text (in_old_string inp) (in_new_string inp) new_positions CONTEXT_LINES) (\<lambda>edits.
            Some (Inr (updated_output inp path edits (length new_positions) normalized),
              [written (ctx_call_id env) path write_text (Some old_text) False], s'))))"

definition many_matches_output :: "'s edit_env \<Rightarrow> string \<Rightarrow> string \<Rightarrow> string \<Rightarrow> 's \<Rightarrow> 's sr_result" where
  "many_matches_output env template before after s = with_name env template s (\<lambda>name.
     returns (MultipleMatchesFound (lit before @ name @ lit after)) s)"

definition match_text_of :: "rstring \<Rightarrow> rstring" where
  \<comment> \<open>\<open>match_text\<close>: matched with plain newlines\<close>
  "match_text_of old_text = (if contains old_text CRLF then to_lf old_text else old_text)"

definition replace_matches ::
  "'s edit_env \<Rightarrow> 's byte_fs \<Rightarrow> search_replace_input \<Rightarrow> rstring \<Rightarrow> rstring \<Rightarrow> bool \<Rightarrow> bool \<Rightarrow> 's \<Rightarrow> 's sr_result" where
  \<comment> \<open>\<open>handle_replacement\<close> after the read; the second search for normalized matches gives what the first gave, so
      the matches are kept\<close>
  "replace_matches env fs inp path old_text legacy user_edit_hint s =
    (let match_text = match_text_of old_text;
         old_string = in_old_string inp; new_string = in_new_string inp;
         positions = match_indices match_text old_string;
         fallback_enabled = (case res_params env of Some p \<Rightarrow> unicode_normalized_fallback p | None \<Rightarrow> False)
     in if positions \<noteq> [] then
          (if 1 < length positions \<and> \<not> in_replace_all inp then
             many_matches_output env ''${{ params.edit.replace_all }}''
               ''The string to replace was found multiple times in the file. Use ''
               '' to replace all occurrences, or include more context to only edit one occurrence.'' s
           else Option.bind (replace_using_positions match_text positions old_string new_string) (\<lambda>edit.
             write_edit env fs inp path old_text False edit s))
        else if \<not> fallback_enabled then no_matches_output env inp path match_text legacy user_edit_hint s
        else Option.bind (find_normalized_match_positions match_text old_string) (\<lambda>found. case found of
            NormNoMatch \<Rightarrow> no_matches_output env inp path match_text legacy user_edit_hint s
          | NormAmbiguous \<Rightarrow> many_matches_output env ''${{ params.edit.old_string }}''
              ''The string to replace was found via Unicode normalization but the match is ambiguous (partial or overlapping). Use a more specific ''
              '' that avoids lines with Unicode typography characters.'' s
          | NormMatches normalized_matches \<Rightarrow>
              if 1 < length normalized_matches \<and> \<not> in_replace_all inp then
                many_matches_output env ''${{ params.edit.replace_all }}''
                  ''The string to replace was found multiple times in the file (via Unicode normalization). Use ''
                  '' to replace all occurrences, or include more context to only edit one occurrence.'' s
              else if normalized_matches = [] then no_matches_output env inp path match_text legacy user_edit_hint s
              else Option.bind (replace_normalized_matches match_text normalized_matches new_string) (\<lambda>edit.
                write_edit env fs inp path old_text True edit s)))"

definition handle_replacement ::
  "'s edit_env \<Rightarrow> 's byte_fs \<Rightarrow> search_replace_input \<Rightarrow> rstring \<Rightarrow> rstring \<Rightarrow> bool \<Rightarrow> bool \<Rightarrow> bool \<Rightarrow> 's \<Rightarrow> 's sr_result" where
  "handle_replacement env fs inp path cwd hints_enabled legacy user_edit_hint s = (case read_bytes fs s path of
     Inl e \<Rightarrow> Some (read_error_output env (in_file_path inp) path cwd hints_enabled e, [], s)
   | Inr bytes \<Rightarrow> replace_matches env fs inp path (from_utf8_lossy bytes) legacy user_edit_hint s)"

section \<open>The tool\<close>

definition target_path :: "'s edit_env \<Rightarrow> rstring \<Rightarrow> rstring \<Rightarrow> rstring" where
  "target_path env cwd file_path =
     (let resolved = resolve_model_path (host_tilde (host env)) cwd (res_display_cwd env) file_path in
      case host_canonicalize (host env) resolved of
        Inr p \<Rightarrow> p
      | Inl KNotFound \<Rightarrow> (case try_resolve_unicode_filename (host env) resolved of
            Some m \<Rightarrow> resolved_path m | None \<Rightarrow> resolved)
      | Inl _ \<Rightarrow> resolved)"

definition ignored_target :: "'s edit_env \<Rightarrow> rstring \<Rightarrow> bool" where
  "ignored_target env path \<longleftrightarrow> res_respect_gitignore env \<noteq> Some False \<and>
     (case res_gitignore_filter env of Some f \<Rightarrow> filter_is_ignored (host env) f path | None \<Rightarrow> False)"

definition call_cwd :: "'s edit_env \<Rightarrow> rstring option" where
  "call_cwd env = (case ctx_cwd env of Some d \<Rightarrow> Some d | None \<Rightarrow> res_cwd env)"

definition run_search_replace :: "'s edit_env \<Rightarrow> search_replace_input \<Rightarrow> 's \<Rightarrow> 's sr_result" where
  "run_search_replace env inp s = (case call_cwd env of
     None \<Rightarrow> Some (Inl (MissingResource (lit ''Cwd'')), [], s)
   | Some cwd \<Rightarrow> (case res_fs env of
       None \<Rightarrow> Some (Inl (MissingResource (lit ''FileSystem'')), [], s)
     | Some fs \<Rightarrow>
         if \<not> res_notification_handle env then Some (Inl (MissingResource (lit ''NotificationHandle'')), [], s)
         else
           let hints_enabled = (res_path_not_found_hints env = Some True);
               path = target_path env cwd (in_file_path inp);
               legacy = is_legacy (from_contract (ctx_behavior_version env));
               does_not_override = (case res_params env of Some p \<Rightarrow> empty_old_string_does_not_override p | None \<Rightarrow> False);
               user_edit_hint = (case res_params env of Some p \<Rightarrow> include_user_edit_hint p | None \<Rightarrow> True)
           in (case validate_path_length (in_file_path inp) of
             Some err \<Rightarrow> returns err s
           | None \<Rightarrow>
               if host_is_dir (host env) path then returns (InvalidInput (lit ''File path is a directory'')) s
               else if \<not> legacy \<and> ignored_target env path then
                 returns (InvalidInput (lit ''Error: '' @ in_file_path inp @ lit '' is ignored by .gitignore and cannot be edited.'')) s
               else if in_old_string inp = in_new_string inp then
                 returns (InvalidInput (lit ''Old string and new string are the same'')) s
               else if in_old_string inp = [] then
                 handle_new_file_creation env fs inp path cwd hints_enabled does_not_override s
               else handle_replacement env fs inp path cwd hints_enabled legacy user_edit_hint s)))"

section \<open>The legacy wording and the concise variant\<close>

datatype legacy_error_kind = LFileAlreadyExists | LFileNotFound | LMultipleMatchesFound | LNoMatchesFound

record render_context =
  rc_file_path :: rstring
  rc_read_tool_name :: rstring
  rc_replace_all_param_name :: rstring
  rc_old_string_param_name :: rstring

fun render_error :: "legacy_error_kind \<Rightarrow> render_context \<Rightarrow> rstring" where
  "render_error LFileAlreadyExists ctx = rc_old_string_param_name ctx @
     lit '' is empty, which is only allowed when creating a new file or when the file is empty.''"
| "render_error LFileNotFound ctx = lit ''File not found: '' @ rc_file_path ctx @ lit ''. Please check the path and try again.''"
| "render_error LMultipleMatchesFound ctx = lit ''The string to replace was found multiple times in the file. Use '' @
     rc_replace_all_param_name ctx @ lit '' to replace all occurrences, or include more context to only edit one occurrence.''"
| "render_error LNoMatchesFound ctx = lit ''The string to replace was not found in the file, use the '' @
     rc_read_tool_name ctx @ lit '' tool to see the correct string.''"

definition build_render_context :: "'s edit_env \<Rightarrow> rstring \<Rightarrow> (render_context, tool_error) result" where
  "build_render_context env file_path =
     try_res (resolve_template env ''${{ tools.by_kind.read }}'') (\<lambda>read_tool_name.
     try_res (resolve_template env ''${{ params.edit.replace_all }}'') (\<lambda>replace_all_param_name.
     try_res (resolve_template env ''${{ params.edit.old_string }}'') (\<lambda>old_string_param_name.
       Inr \<lparr>rc_file_path = file_path, rc_read_tool_name = read_tool_name,
         rc_replace_all_param_name = replace_all_param_name, rc_old_string_param_name = old_string_param_name\<rparr>)))"

fun downgraded :: "render_context \<Rightarrow> search_replace_output \<Rightarrow> search_replace_output" where
  "downgraded ctx (FileAlreadyExists _) = InvalidInput (render_error LFileAlreadyExists ctx)"
| "downgraded ctx (FileNotFound _) = InvalidInput (render_error LFileNotFound ctx)"
| "downgraded ctx (FilenameTooLong msg) = InvalidInput msg"
| "downgraded ctx (MultipleMatchesFound _) = InvalidInput (render_error LMultipleMatchesFound ctx)"
| "downgraded ctx (NoMatchesFound _ _) = InvalidInput (render_error LNoMatchesFound ctx)"
| "downgraded ctx out = out"

definition downgrade_structured_errors ::
  "'s edit_env \<Rightarrow> rstring \<Rightarrow> search_replace_output \<Rightarrow> (search_replace_output, tool_error) result" where
  "downgrade_structured_errors env file_path out =
     try_res (build_render_context env file_path) (\<lambda>ctx. Inr (downgraded ctx out))"

definition search_replace_run :: "'s edit_env \<Rightarrow> search_replace_input \<Rightarrow> 's \<Rightarrow> 's sr_result" where
  "search_replace_run env inp s = map_option (\<lambda>(result, notes, s').
     (case result of
        Inl e \<Rightarrow> Inl e
      | Inr out \<Rightarrow> if is_legacy (from_contract (ctx_behavior_version env))
          then downgrade_structured_errors env (in_file_path inp) out else Inr out,
      notes, s')) (run_search_replace env inp s)"

fun concise :: "search_replace_output \<Rightarrow> search_replace_output" where
  "concise (EditsApplied applied) = (case ea_output_concise applied of
     Some concise_text \<Rightarrow> EditsApplied (applied\<lparr>ea_output := concise_text, ea_output_concise := None\<rparr>)
   | None \<Rightarrow> EditsApplied applied)"
| "concise out = out"

definition search_replace_concise_run :: "'s edit_env \<Rightarrow> search_replace_input \<Rightarrow> 's \<Rightarrow> 's sr_result" where
  "search_replace_concise_run env inp s = map_option (\<lambda>(result, notes, s').
     (case result of Inl e \<Rightarrow> Inl e | Inr out \<Rightarrow> Inr (concise out), notes, s')) (run_search_replace env inp s)"

end
