(* ===== verification/Search_Replace_Safety.thy ===== *)
theory Search_Replace_Safety
  imports Search_Replace
begin

text \<open>
  What an edit does: a run of \<open>search_replace\<close> never panics, touches one file, and what it
  writes is the file with the matched spans exchanged, in the file's own line endings.  The locale
  \<open>byte_store\<close> states what the tool relies on; the in-memory \<open>MockFs\<close> satisfies it.
\<close>

section \<open>The file system as the tool sees it\<close>

locale byte_store =
  fixes fs :: "'s byte_fs" and view :: "'s \<Rightarrow> rstring \<rightharpoonup> byte list"
  assumes read_view: "read_bytes fs s p = Inr bs \<Longrightarrow> view s p = Some bs"
    and write_view: "write_bytes fs p bs s = (Inr u, s') \<Longrightarrow> view s' = (view s)(p \<mapsto> bs)"
    and write_elsewhere: "write_bytes fs p bs s = (r, s') \<Longrightarrow> q \<noteq> p \<Longrightarrow> view s' q = view s q"

definition mock_read_bytes :: "(rstring \<rightharpoonup> byte list) \<Rightarrow> rstring \<Rightarrow> (byte list, computer_error) result" where
  "mock_read_bytes files path = (case files path of
     Some data \<Rightarrow> Inr data
   | None \<Rightarrow> Inl (IOError (lit ''File not found: '' @ path) (Some KNotFound)))"

definition mock_write_bytes ::
  "rstring \<Rightarrow> byte list \<Rightarrow> (rstring \<rightharpoonup> byte list) \<Rightarrow> (unit, computer_error) result \<times> (rstring \<rightharpoonup> byte list)" where
  "mock_write_bytes path data files = (Inr (), files(path \<mapsto> data))"

definition mock_byte_fs :: "(rstring \<rightharpoonup> byte list) byte_fs" where
  "mock_byte_fs = \<lparr>read_bytes = mock_read_bytes, write_bytes = mock_write_bytes\<rparr>"

interpretation mock_bytes: byte_store mock_byte_fs "\<lambda>files. files"
  by unfold_locales
     (auto simp: mock_byte_fs_def mock_read_bytes_def mock_write_bytes_def split: option.splits)

section \<open>Outcomes of a replacement\<close>

definition not_applied :: "(search_replace_output, tool_error) result \<Rightarrow> bool" where
  "not_applied r \<longleftrightarrow> (\<forall>a. r \<noteq> Inr (EditsApplied a))"

lemma not_applied_simps [simp]:
  "not_applied (Inl e)"
  "not_applied (Inr (FileAlreadyExists m))" "not_applied (Inr (MultipleMatchesFound m))"
  "not_applied (Inr (NoMatchesFound m p))" "not_applied (Inr (InvalidInput m))"
  "not_applied (Inr (FileNotFound m))" "not_applied (Inr (FilenameTooLong m))"
  "\<not> not_applied (Inr (EditsApplied a))"
  by (simp_all add: not_applied_def)

definition stays :: "'s sr_result \<Rightarrow> 's \<Rightarrow> bool" where
  \<comment> \<open>an answer without an edit: the state as it was and no notification\<close>
  "stays res s \<longleftrightarrow> (\<exists>r. res = Some (r, [], s) \<and> not_applied r)"

lemma stays_returns [simp]: "not_applied (Inr out) \<Longrightarrow> stays (returns out s) s"
  by (simp add: stays_def returns_def)

lemma stays_with_name: "(\<And>name. stays (k name) s) \<Longrightarrow> stays (with_name env template s k) s"
  by (auto simp: with_name_def stays_def split: sum.splits)

lemma stays_many [simp]: "stays (many_matches_output env template before after s) s"
  by (simp add: many_matches_output_def stays_with_name)

lemma confusable_hint_total:
  "\<exists>h. build_confusable_hint file old_string tools read_name old_param execute_name = Some h"
proof (cases "has_confusables file")
  case True
  let ?n = "normalize_confusables old_string" and ?m = "snd (build_offset_map file)"
  have b: "fst (build_offset_map file) = normalize_confusables file" by (rule build_offset_map_facts)
  show ?thesis
  proof (cases "find_str (normalize_confusables file) ?n")
    case None
    with True b show ?thesis by (simp add: build_confusable_hint_def case_prod_beta)
  next
    case (Some i)
    have "\<exists>u v. normalize_confusables file = u @ ?n @ v \<and> i = byte_len u"
    proof (cases "?n = []")
      case True
      with Some have "i = 0" by (simp add: find_str_def)
      with True show ?thesis by - (rule exI [of _ "[]"], simp)
    next
      case False
      with Some have "i \<in> set (match_indices (normalize_confusables file) ?n)"
        by (auto simp: find_str_def split: list.splits)
      from match_at [OF False this] show ?thesis .
    qed
    then obtain u v where uv: "normalize_confusables file = u @ ?n @ v" "i = byte_len u" by blast
    then have uv': "normalize_confusables file = (u @ ?n) @ v" by simp
    obtain a a' where "file = a @ a'" "?m ! i = byte_len a"
      using offset_map_boundary [OF uv(1)] uv(2) by metis
    then have s1: "slice_to file (?m ! i) = Some a" by simp
    obtain c c' where "file = c @ c'" "?m ! (i + byte_len ?n) = byte_len c"
      using offset_map_boundary [OF uv'] uv(2) by (metis byte_len_simps(3))
    then have s2: "slice_to file (?m ! (i + byte_len ?n)) = Some c" by simp
    have "\<not> length ?m \<le> i + byte_len ?n" by (simp add: build_offset_map_facts uv)
    with True Some b s1 s2 show ?thesis
      by (simp add: build_confusable_hint_def case_prod_beta Let_def)
  qed
qed (simp add: build_confusable_hint_def)

lemma stays_no_matches [simp]: "stays (no_matches_output env inp path m legacy hint s) s"
proof -
  have "stays (Option.bind (if legacy then Some [] else map_option (\<lambda>h. case h of Some m \<Rightarrow> m | None \<Rightarrow> [])
      (build_confusable_hint m (in_old_string inp) tools r p e)) (\<lambda>c. returns (NoMatchesFound (f c) path) s)) s"
    for tools r p e f
    using confusable_hint_total [of m "in_old_string inp" tools r p e] by auto
  then show ?thesis by (simp add: no_matches_output_def Let_def stays_with_name)
qed

definition edit_pieces :: "search_replace_input \<Rightarrow> rstring \<Rightarrow> bool \<Rightarrow> rstring list \<Rightarrow> rstring list \<Rightarrow> bool" where
  \<comment> \<open>the text is the pieces \<open>ps\<close> with the matched spans \<open>os\<close> between them\<close>
  "edit_pieces inp m normalized ps os \<longleftrightarrow>
     m = weave ps os \<and> length ps = Suc (length os) \<and> os \<noteq> [] \<and> (in_replace_all inp \<or> length os = 1) \<and>
     (if normalized then match_indices m (in_old_string inp) = [] \<and>
        (\<forall>old \<in> set os. normalize_confusables old = normalize_confusables (in_old_string inp))
      else split_str (in_old_string inp) m = ps \<and> (\<forall>old \<in> set os. old = in_old_string inp))"

definition line_endings :: "rstring \<Rightarrow> rstring \<Rightarrow> rstring" where
  "line_endings old_text t = (if contains old_text CRLF then to_crlf t else t)"

lemma exact_pieces:
  assumes "in_old_string inp \<noteq> []" and "match_indices m (in_old_string inp) \<noteq> []"
    and "in_replace_all inp \<or> length (match_indices m (in_old_string inp)) \<le> 1"
  shows "edit_pieces inp m False (split_str (in_old_string inp) m)
    (replicate (length (match_indices m (in_old_string inp))) (in_old_string inp))"
  using assms match_count [OF assms(1), of m]
  by (auto simp: edit_pieces_def weave_replicate join_split_str le_Suc_eq)

lemma replacement_outcome:
  assumes old: "in_old_string inp \<noteq> []"
  shows "stays (replace_matches env fs inp path t legacy hint s) s \<or>
    (\<exists>normalized ps os. edit_pieces inp (match_text_of t) normalized ps os \<and>
       replace_matches env fs inp path t legacy hint s = write_edit env fs inp path t normalized
         (join (in_new_string inp) ps, piece_offsets 0 (in_new_string inp) ps) s)"
proof -
  define m where "m = match_text_of t"
  define ms where "ms = match_indices m (in_old_string inp)"
  note def = replace_matches_def [of env fs inp path t legacy hint s] Let_def m_def [symmetric] ms_def [symmetric]
  show ?thesis
  proof (cases "ms = []")
    case False
    show ?thesis
    proof (cases "1 < length ms \<and> \<not> in_replace_all inp")
      case True
      with False have "stays (replace_matches env fs inp path t legacy hint s) s"
        by (simp add: def)
      then show ?thesis ..
    next
      case one: False
      have "replace_matches env fs inp path t legacy hint s = write_edit env fs inp path t False
          (join (in_new_string inp) (split_str (in_old_string inp) m), piece_offsets 0 (in_new_string inp) (split_str (in_old_string inp) m)) s"
        using False one replace_exact [OF old, of m "in_new_string inp"]
        by (auto simp: def str_replace_def)
      moreover have "edit_pieces inp m False (split_str (in_old_string inp) m) (replicate (length ms) (in_old_string inp))"
        unfolding ms_def by (rule exact_pieces [OF old]) (use False one in \<open>auto simp: ms_def\<close>)
      ultimately show ?thesis by (auto simp: m_def)
    qed
  next
    case True
    obtain r where r: "find_normalized_match_positions m (in_old_string inp) = Some r"
      "\<And>xs new. r = NormMatches xs \<Longrightarrow> xs \<noteq> [] \<and> (\<exists>ps os. length ps = Suc (length os) \<and> length os = length xs \<and>
        m = weave ps os \<and> (\<forall>old \<in> set os. normalize_confusables old = normalize_confusables (in_old_string inp)) \<and>
        replace_normalized_matches m xs new = Some (join new ps, piece_offsets 0 new ps))"
      using normalized_matches_spec [of m "in_old_string inp"] by blast
    define fb where "fb = (case res_params env of Some p \<Rightarrow> unicode_normalized_fallback p | None \<Rightarrow> False)"
    have h: "replace_matches env fs inp path t legacy hint s =
      (if \<not> fb then no_matches_output env inp path m legacy hint s else (case r of
          NormNoMatch \<Rightarrow> no_matches_output env inp path m legacy hint s
        | NormAmbiguous \<Rightarrow> many_matches_output env ''${{ params.edit.old_string }}''
            ''The string to replace was found via Unicode normalization but the match is ambiguous (partial or overlapping). Use a more specific ''
            '' that avoids lines with Unicode typography characters.'' s
        | NormMatches xs \<Rightarrow> if 1 < length xs \<and> \<not> in_replace_all inp then
              many_matches_output env ''${{ params.edit.replace_all }}''
                ''The string to replace was found multiple times in the file (via Unicode normalization). Use ''
                '' to replace all occurrences, or include more context to only edit one occurrence.'' s
            else if xs = [] then no_matches_output env inp path m legacy hint s
            else Option.bind (replace_normalized_matches m xs (in_new_string inp)) (\<lambda>edit.
              write_edit env fs inp path t True edit s)))"
      unfolding def fb_def [symmetric] r(1) bind.bind_lunit True by simp
    show ?thesis
    proof (cases "\<exists>xs. fb \<and> r = NormMatches xs \<and> \<not> (1 < length xs \<and> \<not> in_replace_all inp)")
      case False
      have "stays (replace_matches env fs inp path t legacy hint s) s"
        unfolding h using False by (auto split: normalized_match_result.splits)
      then show ?thesis ..
    next
      case yes: True
      then obtain xs where xs: "fb" "r = NormMatches xs" "\<not> (1 < length xs \<and> \<not> in_replace_all inp)" by blast
      from r(2) [OF xs(2), of "in_new_string inp"] obtain ps os where
        w: "xs \<noteq> []" "length ps = Suc (length os)" "length os = length xs" "m = weave ps os"
        "\<forall>old \<in> set os. normalize_confusables old = normalize_confusables (in_old_string inp)"
        "replace_normalized_matches m xs (in_new_string inp) = Some (join (in_new_string inp) ps, piece_offsets 0 (in_new_string inp) ps)"
        by blast
      have "edit_pieces inp m True ps os"
        using w xs(3) True by (auto simp: edit_pieces_def ms_def Suc_lessI)
      moreover have "replace_matches env fs inp path t legacy hint s = write_edit env fs inp path t True
          (join (in_new_string inp) ps, piece_offsets 0 (in_new_string inp) ps) s"
        unfolding h using xs w(1,6) by auto
      ultimately show ?thesis unfolding m_def by blast
    qed
  qed
qed

text \<open>The four ways a run ends: no edit, a write that failed, a file created, an edit made.\<close>

definition failed_write :: "'s byte_fs \<Rightarrow> rstring \<Rightarrow> 's \<Rightarrow> 's sr_result \<Rightarrow> bool" where
  "failed_write fs path s res \<longleftrightarrow>
     (\<exists>bs e s' r. write_bytes fs path bs s = (Inl e, s') \<and> res = Some (r, [], s') \<and> not_applied r)"

definition created :: "'s edit_env \<Rightarrow> 's byte_fs \<Rightarrow> search_replace_input \<Rightarrow> rstring \<Rightarrow> 's \<Rightarrow> 's sr_result \<Rightarrow> bool" where
  "created env fs inp path s res \<longleftrightarrow> in_old_string inp = [] \<and>
     (\<exists>u s'. write_bytes fs path (utf8_encode (in_new_string inp)) s = (Inr u, s') \<and>
        res = Some (Inr (created_output inp path), [case read_bytes fs s path of
            Inr (b # bs) \<Rightarrow> written (ctx_call_id env) path (in_new_string inp) (Some (from_utf8_lossy (b # bs))) False
          | _ \<Rightarrow> written (ctx_call_id env) path (in_new_string inp) None True], s'))"

definition edited :: "'s edit_env \<Rightarrow> 's byte_fs \<Rightarrow> search_replace_input \<Rightarrow> rstring \<Rightarrow> 's \<Rightarrow> byte list \<Rightarrow> bool \<Rightarrow>
    rstring list \<Rightarrow> rstring list \<Rightarrow> 's sr_result \<Rightarrow> bool" where
  "edited env fs inp path s bytes normalized ps os res \<longleftrightarrow>
     in_old_string inp \<noteq> [] \<and> read_bytes fs s path = Inr bytes \<and>
     edit_pieces inp (match_text_of (from_utf8_lossy bytes)) normalized ps os \<and>
     (\<exists>content ds u s'. content = line_endings (from_utf8_lossy bytes) (join (in_new_string inp) ps) \<and>
        length ds = length os \<and> write_bytes fs path (utf8_encode content) s = (Inr u, s') \<and>
        res = Some (Inr (updated_output inp path ds (length os) normalized),
          [written (ctx_call_id env) path content (Some (from_utf8_lossy bytes)) False], s'))"

lemma not_found_not_applied [simp]: "not_applied (Inr (not_found_output env f path cwd d hints))"
  by (simp add: not_found_output_def Let_def)

lemma errors_not_applied [simp]:
  "not_applied (read_error_output env f path cwd hints e)"
  "not_applied (Inr (replace_write_error f e))"
  "not_applied (Inr (create_write_error env f path cwd d hints e))"
  by (simp_all add: read_error_output_def replace_write_error_def create_write_error_def NAME_TOO_LONG_def
      split: option.splits error_kind.splits)

lemma write_edit_outcome:
  assumes "edit_pieces inp (match_text_of (from_utf8_lossy bytes)) normalized ps os"
    and "in_old_string inp \<noteq> []" and "read_bytes fs s path = Inr bytes"
    and "res = write_edit env fs inp path (from_utf8_lossy bytes) normalized
      (join (in_new_string inp) ps, piece_offsets 0 (in_new_string inp) ps) s"
  shows "failed_write fs path s res \<or> edited env fs inp path s bytes normalized ps os res"
proof -
  let ?t = "from_utf8_lossy bytes"
  let ?c = "line_endings ?t (join (in_new_string inp) ps)"
  have n: "length (piece_offsets 0 (in_new_string inp) ps) = length os"
    using assms(1) by (simp add: edit_pieces_def length_piece_offsets)
  obtain ds where ds: "build_edit_details (join (in_new_string inp) ps) (in_old_string inp) (in_new_string inp)
      (piece_offsets 0 (in_new_string inp) ps) CONTEXT_LINES = Some ds" "length ds = length os"
    using edit_details_total [of CONTEXT_LINES "in_new_string inp" ps "in_old_string inp"] n
    by (auto simp: CONTEXT_LINES_def length_piece_offsets)
  obtain w s' where w: "write_bytes fs path (utf8_encode ?c) s = (w, s')" by fastforce
  have res: "res = (case w of Inl e \<Rightarrow> returns (replace_write_error (in_file_path inp) e) s'
    | Inr _ \<Rightarrow> Some (Inr (updated_output inp path ds (length os) normalized),
        [written (ctx_call_id env) path ?c (Some ?t) False], s'))"
    using w ds(1) n unfolding assms(4) write_edit_def line_endings_def by (auto split: sum.split)
  show ?thesis
  proof (cases w)
    case (Inl e)
    with res w have "failed_write fs path s res"
      unfolding failed_write_def returns_def by (metis errors_not_applied(2) sum.case(1))
    then show ?thesis ..
  next
    case (Inr u)
    with res w ds(2) assms(1-3) have "edited env fs inp path s bytes normalized ps os res"
      unfolding edited_def by auto
    then show ?thesis ..
  qed
qed

lemma replacement_cases:
  assumes "in_old_string inp \<noteq> []" and "res = handle_replacement env fs inp path cwd hints legacy hint s"
  shows "stays res s \<or> failed_write fs path s res \<or>
    (\<exists>bytes normalized ps os. edited env fs inp path s bytes normalized ps os res)"
proof (cases "read_bytes fs s path")
  case (Inl e)
  then show ?thesis by (simp add: assms(2) handle_replacement_def stays_def)
next
  case (Inr bytes)
  then have r: "res = replace_matches env fs inp path (from_utf8_lossy bytes) legacy hint s"
    by (simp add: assms(2) handle_replacement_def)
  from replacement_outcome [OF assms(1), of env fs path "from_utf8_lossy bytes" legacy hint s]
  show ?thesis unfolding r [symmetric]
    using write_edit_outcome [OF _ assms(1) Inr] by blast
qed

lemma creation_cases:
  assumes "in_old_string inp = []" and "res = handle_new_file_creation env fs inp path cwd hints guard s"
  shows "stays res s \<or> failed_write fs path s res \<or> created env fs inp path s res"
proof -
  let ?exists = "case read_bytes fs s path of Inr bytes \<Rightarrow> bytes \<noteq> [] | Inl _ \<Rightarrow> False"
  show ?thesis
  proof (cases "?exists \<and> guard")
    case True
    then have "stays res s" unfolding assms(2) handle_new_file_creation_def Let_def
      by (simp add: stays_with_name)
    then show ?thesis ..
  next
    case False
    obtain w s' where w: "write_bytes fs path (utf8_encode (in_new_string inp)) s = (w, s')" by fastforce
    show ?thesis
    proof (cases w)
      case (Inl e)
      with w False have "failed_write fs path s res"
        unfolding failed_write_def assms(2) handle_new_file_creation_def returns_def Let_def by auto
      then show ?thesis by blast
    next
      case (Inr u)
      with w False have "created env fs inp path s res"
        unfolding created_def assms handle_new_file_creation_def Let_def
        by (auto split: sum.splits list.splits)
      then show ?thesis by blast
    qed
  qed
qed

lemma run_cases:
  assumes "res_fs env = Some fs" and "path = target_path env (the (call_cwd env)) (in_file_path inp)"
    and "res = run_search_replace env inp s"
  shows "stays res s \<or> failed_write fs path s res \<or> created env fs inp path s res \<or>
    (\<exists>bytes normalized ps os. edited env fs inp path s bytes normalized ps os res)"
proof (cases "call_cwd env")
  case None
  then show ?thesis by (simp add: assms(3) run_search_replace_def stays_def)
next
  case (Some cwd)
  show ?thesis
  proof (cases "stays res s")
    case False
    note run = assms(3) [unfolded run_search_replace_def Some assms(1) option.case Let_def]
    note tgt = assms(2) [unfolded Some option.sel, symmetric]
    have 1: "res_notification_handle env"
      by (rule ccontr) (use False run in \<open>simp add: stays_def\<close>)
    have 2: "validate_path_length (in_file_path inp) = None"
    proof (rule ccontr)
      assume "validate_path_length (in_file_path inp) \<noteq> None"
      then obtain e where e: "validate_path_length (in_file_path inp) = Some e" by blast
      then have "not_applied (Inr e)" by (auto simp: validate_path_length_def split: list.splits)
      with False run 1 e show False by simp
    qed
    note run = run [unfolded 2 option.case tgt]
    have 3: "\<not> host_is_dir (host env) path"
      by (rule ccontr) (use False run 1 in simp)
    have 4: "(\<not> is_legacy (from_contract (ctx_behavior_version env)) \<and> ignored_target env path) = False"
      by (rule ccontr) (use False run 1 3 in simp)
    note run = run [unfolded 4 if_False]
    have 5: "in_old_string inp \<noteq> in_new_string inp"
      by (rule ccontr) (use False run 1 3 in simp)
    have ne: "in_old_string inp \<noteq> [] \<Longrightarrow> \<exists>hints legacy hint.
        res = handle_replacement env fs inp path cwd hints legacy hint s"
      and e: "in_old_string inp = [] \<Longrightarrow> \<exists>hints guard. res = handle_new_file_creation env fs inp path cwd hints guard s"
      using run 1 3 5 by (simp_all, blast+)
    show ?thesis
    proof (cases "in_old_string inp = []")
      case True
      from e [OF True] obtain hints guard where
        "res = handle_new_file_creation env fs inp path cwd hints guard s" by blast
      from creation_cases [OF True this] show ?thesis by blast
    next
      case False
      from ne [OF False] obtain hints legacy hint where
        "res = handle_replacement env fs inp path cwd hints legacy hint s" by blast
      from replacement_cases [OF False this] show ?thesis by blast
    qed
  qed simp
qed

section \<open>Line endings\<close>

definition crlf :: "rstring \<Rightarrow> rstring" where
  \<comment> \<open>every newline with a carriage return before it\<close>
  "crlf t = concat (map (\<lambda>c. if c = NL then CRLF else [c]) t)"

lemma crlf_simps [simp]:
  "crlf [] = []" "crlf (c # t) = (if c = NL then [CR, NL] else [c]) @ crlf t" "crlf (t @ u) = crlf t @ crlf u"
  by (simp_all add: crlf_def CRLF_def)

lemma replace_newlines: "str_replace t [NL] CRLF = crlf t"
proof (induction t)
  case Nil
  show ?case by (simp add: str_replace_def split_str.simps)
next
  case (Cons c t)
  obtain p ps where ps: "split_str [NL] t = p # ps" by (metis split_str_not_Nil neq_Nil_conv)
  have "split_str [NL] (c # t) = (if c = NL then [] # p # ps else (c # p) # ps)"
    by (subst split_str.simps) (simp add: starts_with_def ps)
  with Cons ps show ?case by (simp add: str_replace_def join_hd CRLF_def)
qed

lemma to_lf_plain:
  assumes "CR \<notin> set t"
  shows "to_lf t = t"
proof -
  have "split_str CRLF t = [t]" using assms
  proof (induction t)
    case (Cons c t)
    then show ?case by (subst split_str.simps) (simp add: starts_with_def CRLF_def)
  qed (simp add: split_str.simps)
  then show ?thesis by (simp add: to_lf_def str_replace_def)
qed

lemma to_crlf_plain: "CR \<notin> set t \<Longrightarrow> to_crlf t = crlf t"
  by (simp add: to_crlf_def to_lf_plain replace_newlines)

lemma to_lf_crlf:
  assumes "CR \<notin> set t"
  shows "to_lf (crlf t) = t"
  using assms
proof (induction t)
  case Nil
  show ?case by (simp add: to_lf_def str_replace_def split_str.simps)
next
  case (Cons c t)
  obtain p ps where ps: "split_str CRLF (crlf t) = p # ps" by (metis split_str_not_Nil neq_Nil_conv)
  have "split_str CRLF (crlf (c # t)) = (if c = NL then [] # p # ps else (c # p) # ps)"
    using Cons.prems by (subst split_str.simps) (auto simp: starts_with_def CRLF_def ps [unfolded CRLF_def])
  with Cons ps show ?case by (simp add: to_lf_def str_replace_def join_hd)
qed

lemma contains_crlf: "NL \<in> set t \<Longrightarrow> contains (crlf t) CRLF"
proof -
  assume "NL \<in> set t"
  then obtain a b where "t = a @ NL # b" by (metis split_list)
  then have "crlf t = crlf a @ CRLF @ crlf b" by (simp add: CRLF_def)
  then have "starts_with (drop (length (crlf a)) (crlf t)) CRLF" and "length (crlf a) < Suc (length (crlf t))"
    by (simp_all add: starts_with_def)
  then show ?thesis unfolding contains_def list_ex_iff by (metis atLeastLessThan_iff le0 set_upt)
qed

lemma starts_with_crlf:
  "CR \<notin> set t \<Longrightarrow> CR \<notin> set old \<Longrightarrow> starts_with (crlf t) (crlf old) \<longleftrightarrow> starts_with t old"
proof (induction old arbitrary: t)
  case (Cons c old)
  then show ?case by (cases t) (auto simp: starts_with_def)
qed (simp add: starts_with_def)

lemma split_crlf:
  assumes "CR \<notin> set t" and "CR \<notin> set old" and "old \<noteq> []"
  shows "split_str (crlf old) (crlf t) = map crlf (split_str old t)"
  using assms
proof (induction old t rule: split_str.induct)
  case (1 old t)
  have old: "crlf old \<noteq> []" and hd: "\<not> starts_with (NL # x) (crlf old)" for x
    using 1(5,4) by (cases old; auto simp: starts_with_def)+
  consider "t = []" | u where "t = old @ u" | c u where "t = c # u" "\<not> starts_with t old"
    by (metis list.exhaust starts_with_iff)
  then show ?case
  proof cases
    case 1
    then show ?thesis by (simp add: split_str.simps)
  next
    case (2 u)
    have "\<not> (old = [] \<or> t = [])" and "starts_with t old" using "1.prems"(3) by (auto simp: 2)
    from "1.IH"(1) [OF this] "1.prems" have ih: "split_str (crlf old) (crlf u) = map crlf (split_str old u)"
      by (auto simp: 2)
    have "split_str old t = [] # split_str old u"
      using "1.prems" by (subst split_str.simps) (simp add: 2)
    moreover have "split_str (crlf old) (crlf t) = [] # split_str (crlf old) (crlf u)"
      using old by (subst split_str.simps) (simp add: 2)
    ultimately show ?thesis by (simp add: ih)
  next
    case (3 c u)
    have ih: "split_str (crlf old) (crlf u) = map crlf (split_str old u)"
      using "1.IH"(2) "1.prems" 3 by simp
    obtain p ps where ps: "split_str old u = p # ps" by (metis split_str_not_Nil neq_Nil_conv)
    have l: "split_str old t = (c # p) # ps"
      using "1.prems" 3 by (subst split_str.simps) (simp add: ps)
    have n: "\<not> starts_with (crlf t) (crlf old)" using "1.prems" 3 starts_with_crlf by blast
    have u: "split_str (crlf old) (NL # crlf u) = (NL # crlf p) # map crlf ps"
      using old hd by (subst split_str.simps) (simp add: ih ps)
    have "split_str (crlf old) (crlf t) = crlf (c # p) # map crlf ps"
      using old n 3 u by (subst split_str.simps) (auto simp: ih ps)
    then show ?thesis by (simp add: l)
  qed
qed

lemma join_crlf: "crlf (join new ps) = join (crlf new) (map crlf ps)"
  by (induction new ps rule: join.induct) simp_all

lemma set_pieces_join: "q \<in> set ps \<Longrightarrow> set q \<subseteq> set (join sep ps)"
  by (induction sep ps rule: join.induct) auto

lemma set_join: "set (join sep ps) \<subseteq> set sep \<union> (\<Union>q \<in> set ps. set q)"
  by (induction sep ps rule: join.induct) auto

lemma replace_crlf:
  "CR \<notin> set t \<Longrightarrow> CR \<notin> set old \<Longrightarrow> old \<noteq> [] \<Longrightarrow> str_replace (crlf t) (crlf old) (crlf new) = crlf (str_replace t old new)"
  by (simp add: str_replace_def split_crlf join_crlf)

section \<open>What a run does\<close>

context byte_store
begin

lemma stays_view: "stays (Some (r, notes, s')) s \<Longrightarrow> view s' = view s \<and> notes = [] \<and> not_applied r"
  by (simp add: stays_def)

lemma run_frame:
  assumes "res_fs env = Some fs" and "path = target_path env (the (call_cwd env)) (in_file_path inp)"
    and "run_search_replace env inp s = Some (r, notes, s')" and "q \<noteq> path"
  shows "view s' q = view s q"
  using run_cases [OF assms(1,2), of "Some (r, notes, s')" s] assms(3,4) write_elsewhere
  by (auto simp: stays_def failed_write_def created_def edited_def)

lemma run_notes:
  assumes "res_fs env = Some fs" and "path = target_path env (the (call_cwd env)) (in_file_path inp)"
    and "run_search_replace env inp s = Some (r, notes, s')"
  shows "notes = [] \<and> not_applied r \<and> (view s' = view s \<or> (\<exists>bs e. write_bytes fs path bs s = (Inl e, s'))) \<or>
    (\<exists>n. notes = [n] \<and> \<not> not_applied r \<and> fw_absolute_path n = path \<and>
       view s' path = Some (utf8_encode (fw_content n)) \<and>
       (\<forall>bs. bs \<noteq> [] \<longrightarrow> read_bytes fs s path = Inr bs \<longrightarrow> fw_previous_content n = Some (from_utf8_lossy bs)))"
proof -
  have w: "view s' path = Some bs" if "write_bytes fs path bs s = (Inr u, s')" for bs u
    using write_view [OF that] by simp
  consider "stays (Some (r, notes, s')) s" | "failed_write fs path s (Some (r, notes, s'))"
    | "created env fs inp path s (Some (r, notes, s'))"
    | bytes normalized ps os where "edited env fs inp path s bytes normalized ps os (Some (r, notes, s'))"
    using run_cases [OF assms(1,2), of "Some (r, notes, s')" s] assms(3) by auto
  then show ?thesis
  proof cases
    case 1
    then show ?thesis by (simp add: stays_def)
  next
    case 2
    then show ?thesis by (auto simp: failed_write_def)
  next
    case 3
    then show ?thesis
      by (auto simp: created_def created_output_def written_def w split: sum.splits list.splits)
  next
    case 4
    then show ?thesis by (auto simp: edited_def updated_output_def written_def w)
  qed
qed

end

text \<open>
  C39. A run of \<open>search_replace\<close> always returns: for every environment, input and state it ends
  with an output or a tool error, never with a panic.  No slice leaves a character boundary, no
  index leaves its vector and no line arithmetic underflows, whatever the file, the strings and
  the matches.
\<close>

theorem search_replace_never_panics:
  "search_replace_run env inp s \<noteq> None \<and> search_replace_concise_run env inp s \<noteq> None"
proof -
  have "run_search_replace env inp s \<noteq> None"
  proof (cases "res_fs env")
    case None
    then show ?thesis by (simp add: run_search_replace_def split: option.splits)
  next
    case (Some fs)
    from run_cases [OF this refl refl, of inp s] show ?thesis
      by (auto simp: stays_def failed_write_def created_def edited_def)
  qed
  then show ?thesis by (auto simp: search_replace_run_def search_replace_concise_run_def)
qed

lemma applied_pieces:
  assumes "res_fs env = Some fs" and "in_old_string inp \<noteq> []"
    and "run_search_replace env inp s = Some (Inr (EditsApplied a), notes, s')"
  obtains bytes ps os where "read_bytes fs s (ea_absolute_path a) = Inr bytes"
    and "edit_pieces inp (match_text_of (from_utf8_lossy bytes)) (ea_unicode_normalized a) ps os"
    and "length (ea_details a) = length os"
    and "notes = [written (ctx_call_id env) (ea_absolute_path a)
      (line_endings (from_utf8_lossy bytes) (join (in_new_string inp) ps)) (Some (from_utf8_lossy bytes)) False]"
proof -
  let ?path = "target_path env (the (call_cwd env)) (in_file_path inp)"
  from run_cases [OF assms(1) refl refl, of inp s] assms(2,3) obtain bytes normalized ps os where
    e: "edited env fs inp ?path s bytes normalized ps os (Some (Inr (EditsApplied a), notes, s'))"
    by (auto simp: stays_def failed_write_def created_def)
  then obtain ds where a: "EditsApplied a = updated_output inp ?path ds (length os) normalized" and ds: "length ds = length os"
    and ns: "notes = [written (ctx_call_id env) ?path
      (line_endings (from_utf8_lossy bytes) (join (in_new_string inp) ps)) (Some (from_utf8_lossy bytes)) False]"
    by (auto simp: edited_def)
  from a have f: "ea_absolute_path a = ?path" "ea_details a = ds" "ea_unicode_normalized a = normalized"
    by (simp_all add: updated_output_def)
  from e have "read_bytes fs s ?path = Inr bytes" "edit_pieces inp (match_text_of (from_utf8_lossy bytes)) normalized ps os"
    by (simp_all add: edited_def)
  with ds ns show thesis by (intro that [of bytes ps os]) (simp_all only: f)
qed

lemma exact_spans:
  "edit_pieces inp m False ps os \<Longrightarrow> old \<in> set os \<Longrightarrow> old = in_old_string inp"
  by (simp add: edit_pieces_def)

text \<open>
  C19. What an applied edit writes: the text the matches were searched in is the pieces with the
  matched spans between them, the written content is the pieces with the new string between
  them, in the file's line endings.  Without \<open>replace_all\<close> there is one span; an exact edit has
  the old string as its spans and all its matches replaced; the normalized fallback was used
  only when there is no exact match, and its spans read as the old string.
\<close>

theorem applied_edit_exchanges_the_matches:
  assumes "res_fs env = Some fs" and "in_old_string inp \<noteq> []"
    and "run_search_replace env inp s = Some (Inr (EditsApplied a), notes, s')"
  shows "\<exists>bytes ps os. read_bytes fs s (ea_absolute_path a) = Inr bytes \<and>
    match_text_of (from_utf8_lossy bytes) = weave ps os \<and> length ps = Suc (length os) \<and> os \<noteq> [] \<and>
    (in_replace_all inp \<or> length os = 1) \<and> length (ea_details a) = length os \<and>
    (if ea_unicode_normalized a
     then match_indices (weave ps os) (in_old_string inp) = [] \<and>
       (\<forall>old \<in> set os. normalize_confusables old = normalize_confusables (in_old_string inp))
     else split_str (in_old_string inp) (weave ps os) = ps \<and> (\<forall>old \<in> set os. old = in_old_string inp)) \<and>
    notes = [written (ctx_call_id env) (ea_absolute_path a) (line_endings (from_utf8_lossy bytes) (join (in_new_string inp) ps))
      (Some (from_utf8_lossy bytes)) False]"
proof -
  obtain bytes ps os where e: "read_bytes fs s (ea_absolute_path a) = Inr bytes"
    "edit_pieces inp (match_text_of (from_utf8_lossy bytes)) (ea_unicode_normalized a) ps os"
    "length (ea_details a) = length os"
    "notes = [written (ctx_call_id env) (ea_absolute_path a)
      (line_endings (from_utf8_lossy bytes) (join (in_new_string inp) ps)) (Some (from_utf8_lossy bytes)) False]"
    by (rule applied_pieces [OF assms])
  from e(2) have m: "match_text_of (from_utf8_lossy bytes) = weave ps os" by (simp add: edit_pieces_def)
  have i: "if ea_unicode_normalized a
     then match_indices (weave ps os) (in_old_string inp) = [] \<and>
       (\<forall>old \<in> set os. normalize_confusables old = normalize_confusables (in_old_string inp))
     else split_str (in_old_string inp) (weave ps os) = ps \<and> (\<forall>old \<in> set os. old = in_old_string inp)"
    using e(2) by (simp add: m edit_pieces_def)
  show ?thesis
    by (rule exI [of _ bytes], rule exI [of _ ps], rule exI [of _ os], intro conjI e(1,3,4) m i)
       (use e(2) in \<open>simp_all add: edit_pieces_def\<close>)
qed

text \<open>A session with one file, for examples.\<close>

definition sample_host :: path_host where
  "sample_host = \<lparr>host_tilde = (\<lambda>p. p), host_canonicalize = (\<lambda>p. Inr p), host_is_dir = (\<lambda>_. False),
     host_exists = (\<lambda>_. True), host_read_dir = (\<lambda>_. None), host_filename_timeout = False, host_hint_timeout = False,
     host_lowercase = to_ascii_lowercase, host_command_available = (\<lambda>_. False)\<rparr>"

definition edit_session :: "bool \<Rightarrow> bool \<Rightarrow> rstring option \<Rightarrow> (rstring \<rightharpoonup> byte list) edit_env" where
  "edit_session guard fallback version = \<lparr>ctx_cwd = None, ctx_behavior_version = version, ctx_call_id = lit ''c1'',
     res_cwd = Some (lit ''/w''), res_display_cwd = None, res_fs = Some mock_byte_fs, res_notification_handle = True,
     res_path_not_found_hints = None, res_respect_gitignore = None, res_gitignore_filter = None,
     res_params = Some \<lparr>empty_old_string_does_not_override = guard, unicode_normalized_fallback = fallback,
       include_user_edit_hint = True\<rparr>, res_renderer = None, host = sample_host\<rparr>"

definition edit_request :: "rstring \<Rightarrow> rstring \<Rightarrow> bool \<Rightarrow> search_replace_input" where
  "edit_request old new replace_all = \<lparr>in_file_path = lit ''f'', in_old_string = old, in_new_string = new,
     in_replace_all = replace_all\<rparr>"

definition one_file :: "byte list \<Rightarrow> rstring \<rightharpoonup> byte list" where
  "one_file bytes = [lit ''/w/f'' \<mapsto> bytes]"

definition edit_result :: "'s sr_result \<Rightarrow> (bool \<times> rstring \<times> rstring option \<times> nat list) option" where
  \<comment> \<open>of an applied edit: whether it was normalized, the content and the previous content, and the old lines\<close>
  "edit_result res = (case res of
     Some (Inr (EditsApplied a), [n], _) \<Rightarrow>
       Some (ea_unicode_normalized a, fw_content n, fw_previous_content n, map ed_old_line (ea_details a))
   | _ \<Rightarrow> None)"

lemma edit_result_Some:
  assumes "edit_result res = Some (normalized, content, prev, nums)"
  obtains a n s' where "res = Some (Inr (EditsApplied a), [n], s')" and "ea_unicode_normalized a = normalized"
    and "fw_content n = content"
  using assms by (auto simp: edit_result_def split: option.splits sum.splits search_replace_output.splits list.splits)

lemma sample_bytes: "from_utf8_lossy [97, 10, 98, 10, 97] = [97, 10, 98, 10, 97]"
  by code_simp

lemma sample_exact:
  "edit_result (run_search_replace (edit_session False False None) (edit_request (lit ''b'') (lit ''cd'') False)
     (one_file [97, 10, 98, 10, 97])) =
   Some (False, [97, 10, 99, 100, 10, 97], Some [97, 10, 98, 10, 97], [2])"
  by code_simp

theorem applied_edit_exchanges_the_matches_witness:
  "\<exists>a notes s' ps os. run_search_replace (edit_session False False None) (edit_request (lit ''b'') (lit ''cd'') False)
      (one_file [97, 10, 98, 10, 97]) = Some (Inr (EditsApplied a), notes, s') \<and>
    weave ps os = [97, 10, 98, 10, 97] \<and> length os = 1 \<and>
    map fw_content notes = [join (lit ''cd'') ps]"
proof -
  let ?env = "edit_session False False None" and ?inp = "edit_request (lit ''b'') (lit ''cd'') False"
    and ?s = "one_file [97, 10, 98, 10, 97]"
  obtain a n s' where run: "run_search_replace ?env ?inp ?s = Some (Inr (EditsApplied a), [n], s')"
    and norm: "\<not> ea_unicode_normalized a" using sample_exact by (rule edit_result_Some) blast
  have fs: "res_fs ?env = Some mock_byte_fs" and old: "in_old_string ?inp \<noteq> []" and all: "\<not> in_replace_all ?inp"
    and new: "in_new_string ?inp = lit ''cd''"
    by (simp_all add: edit_session_def edit_request_def lit_def)
  from applied_edit_exchanges_the_matches [OF fs old run] all obtain bytes ps os where
    e: "read_bytes mock_byte_fs ?s (ea_absolute_path a) = Inr bytes" "match_text_of (from_utf8_lossy bytes) = weave ps os"
      "length os = 1" "[n] = [written (ctx_call_id ?env) (ea_absolute_path a)
        (line_endings (from_utf8_lossy bytes) (join (lit ''cd'') ps)) (Some (from_utf8_lossy bytes)) False]"
    unfolding new by blast
  have "?s (ea_absolute_path a) = Some bytes" by (rule mock_bytes.read_view [OF e(1)])
  then have b: "bytes = [97, 10, 98, 10, 97]" by (auto simp: one_file_def split: if_splits)
  have c: "\<not> contains [97, 10, 98, 10, 97] CRLF" by code_simp
  have w: "weave ps os = [97, 10, 98, 10, 97]" using e(2) c by (simp only: b sample_bytes match_text_of_def if_False)
  have n: "map fw_content [n] = [join (lit ''cd'') ps]"
    unfolding e(4) using c by (simp only: b sample_bytes line_endings_def if_False written_def list.map file_written.simps)
  show ?thesis
    by (rule exI [of _ a], rule exI [of _ "[n]"], rule exI [of _ s'], rule exI [of _ ps], rule exI [of _ os])
       (intro conjI run w e(3) n)
qed

text \<open>
  C20. One file at a time: a run changes the target path only.  Without a notification nothing was
  applied, and the target too is as it was unless the write itself failed; an applied edit sends
  one notification, for the target, whose content is what the target now holds and whose previous
  content is what a readable file that was not empty held before, so that writing it back restores
  a file that is valid UTF-8.
\<close>

theorem search_replace_touches_one_file:
  assumes "byte_store fs view" and "res_fs env = Some fs"
    and "run_search_replace env inp s = Some (r, notes, s')"
    and "path = target_path env (the (call_cwd env)) (in_file_path inp)"
  shows "(\<forall>q. q \<noteq> path \<longrightarrow> view s' q = view s q) \<and>
    (case notes of
       [] \<Rightarrow> not_applied r \<and> (view s' = view s \<or> (\<exists>bs e. write_bytes fs path bs s = (Inl e, s')))
     | n # rest \<Rightarrow> rest = [] \<and> \<not> not_applied r \<and> fw_absolute_path n = path \<and>
         view s' path = Some (utf8_encode (fw_content n)) \<and>
         (\<forall>u. u \<noteq> [] \<and> (\<forall>c \<in> set u. is_scalar c) \<and> read_bytes fs s path = Inr (utf8_encode u) \<longrightarrow>
            (view s')(path \<mapsto> utf8_encode (the (fw_previous_content n))) = view s))"
proof -
  have frame: "\<forall>q. q \<noteq> path \<longrightarrow> view s' q = view s q"
    using byte_store.run_frame [OF assms(1,2,4,3)] by blast
  have undo: "(view s')(path \<mapsto> utf8_encode u) = view s" if "read_bytes fs s path = Inr (utf8_encode u)" for u
    using frame byte_store.read_view [OF assms(1) that] by auto
  from byte_store.run_notes [OF assms(1,2,4,3)] show ?thesis
  proof (elim disjE exE)
    assume "notes = [] \<and> not_applied r \<and> (view s' = view s \<or> (\<exists>bs e. write_bytes fs path bs s = (Inl e, s')))"
    with frame show ?thesis by simp
  next
    fix n
    assume n: "notes = [n] \<and> \<not> not_applied r \<and> fw_absolute_path n = path \<and>
       view s' path = Some (utf8_encode (fw_content n)) \<and>
       (\<forall>bs. bs \<noteq> [] \<longrightarrow> read_bytes fs s path = Inr bs \<longrightarrow> fw_previous_content n = Some (from_utf8_lossy bs))"
    have "fw_previous_content n = Some u"
      if "u \<noteq> []" "\<forall>c \<in> set u. is_scalar c" "read_bytes fs s path = Inr (utf8_encode u)" for u
      using n that lossy_encode [OF that(2)] encode_char_Cons by (cases u) (auto simp: Cons_eq_append_conv)
    with n frame undo show ?thesis by auto
  qed
qed

theorem search_replace_touches_one_file_witness:
  "\<exists>n s'. run_search_replace (edit_session False False None) (edit_request (lit ''b'') (lit ''cd'') False)
      (one_file [97, 10, 98, 10, 97]) = Some (n, s') \<and>
    snd s' (lit ''/w/f'') = Some [97, 10, 99, 100, 10, 97] \<and>
    (snd s')(lit ''/w/f'' \<mapsto> utf8_encode (the (fw_previous_content (hd (fst s'))))) = one_file [97, 10, 98, 10, 97]"
proof -
  let ?env = "edit_session False False None" and ?inp = "edit_request (lit ''b'') (lit ''cd'') False"
    and ?s = "one_file [97, 10, 98, 10, 97]"
  obtain a n s' where run: "run_search_replace ?env ?inp ?s = Some (Inr (EditsApplied a), [n], s')"
    and c: "fw_content n = [97, 10, 99, 100, 10, 97]" using sample_exact by (rule edit_result_Some) blast
  have fs: "res_fs ?env = Some mock_byte_fs" by (simp add: edit_session_def)
  have path: "lit ''/w/f'' = target_path ?env (the (call_cwd ?env)) (in_file_path ?inp)" by code_simp
  have read: "read_bytes mock_byte_fs ?s (lit ''/w/f'') = Inr (utf8_encode [97, 10, 98, 10, 97])" by code_simp
  note t = search_replace_touches_one_file [OF mock_bytes.byte_store_axioms fs run path]
  have "s' (lit ''/w/f'') = Some (utf8_encode (fw_content n))" using t by simp
  then have "s' (lit ''/w/f'') = Some [97, 10, 99, 100, 10, 97]" by (simp add: c encode_char_def)
  moreover have "s'(lit ''/w/f'' \<mapsto> utf8_encode (the (fw_previous_content n))) = ?s"
  proof -
    have "\<forall>c \<in> set [97, 10, 98, 10, 97]. is_scalar c" by (simp add: is_scalar_def)
    then show ?thesis using t read by (simp only: list.case) blast
  qed
  ultimately show ?thesis using run by auto
qed

text \<open>
  C38. Editing a file with Windows line endings: on a file whose newlines all have their carriage
  return, an exact edit writes what replacing the old by the new string, both in Windows line
  endings, gives on the file itself, and that is the edit of the plain text with its line endings
  put back: no other line changes.
\<close>

theorem crlf_edit_is_the_lf_edit:
  assumes "res_fs env = Some fs" and "in_old_string inp \<noteq> []"
    and "run_search_replace env inp s = Some (Inr (EditsApplied a), notes, s')" and "\<not> ea_unicode_normalized a"
    and "read_bytes fs s (ea_absolute_path a) = Inr (utf8_encode (crlf t))"
    and "\<forall>c \<in> set t. is_scalar c" and "CR \<notin> set t" and "NL \<in> set t" and "CR \<notin> set (in_new_string inp)"
  shows "map fw_content notes = [str_replace (crlf t) (crlf (in_old_string inp)) (crlf (in_new_string inp))] \<and>
    map fw_content notes = [crlf (str_replace t (in_old_string inp) (in_new_string inp))]"
proof -
  obtain bytes ps os where e: "read_bytes fs s (ea_absolute_path a) = Inr bytes"
    "edit_pieces inp (match_text_of (from_utf8_lossy bytes)) (ea_unicode_normalized a) ps os"
    "notes = [written (ctx_call_id env) (ea_absolute_path a)
      (line_endings (from_utf8_lossy bytes) (join (in_new_string inp) ps)) (Some (from_utf8_lossy bytes)) False]"
    by (rule applied_pieces [OF assms(1-3)])
  have sc: "\<forall>c \<in> set (crlf t). is_scalar c" using assms(6) by (auto simp: crlf_def CRLF_def is_scalar_def)
  have b: "from_utf8_lossy bytes = crlf t" using e(1) assms(5) lossy_encode [OF sc] by simp
  note has = contains_crlf [OF assms(8)]
  have m: "match_text_of (crlf t) = t" by (simp add: match_text_of_def has to_lf_crlf assms(7))
  from e(2) assms(4) have pieces: "edit_pieces inp t False ps os" by (simp add: b m)
  then have p: "split_str (in_old_string inp) t = ps" "t = weave ps os" "os \<noteq> []" "length ps = Suc (length os)"
    unfolding edit_pieces_def if_False by blast+
  obtain o1 os' where o1: "os = o1 # os'" using p(3) by (cases os) auto
  moreover obtain p1 ps' where "ps = p1 # ps'" using p(4) by (cases ps) auto
  moreover have "o1 = in_old_string inp" by (rule exact_spans [OF pieces]) (simp add: o1)
  ultimately have "t = p1 @ in_old_string inp @ weave ps' os'" using p(2) by simp
  with assms(7) have old: "CR \<notin> set (in_old_string inp)" by auto
  have j: "join (in_new_string inp) ps = str_replace t (in_old_string inp) (in_new_string inp)"
    by (simp add: str_replace_def p(1))
  have "set t = set (join (in_old_string inp) ps)" using join_split_str [OF assms(2), of t] p(1) by simp
  then have "\<forall>q \<in> set ps. CR \<notin> set q" using assms(7) set_pieces_join [of _ ps] by blast
  then have "CR \<notin> set (join (in_new_string inp) ps)" using set_join [of "in_new_string inp" ps] assms(9) by auto
  then have "line_endings (crlf t) (join (in_new_string inp) ps) = crlf (str_replace t (in_old_string inp) (in_new_string inp))"
    by (simp add: line_endings_def has to_crlf_plain flip: j)
  then have "map fw_content notes = [crlf (str_replace t (in_old_string inp) (in_new_string inp))]"
    by (simp add: e(3) b written_def)
  then show ?thesis by (simp add: replace_crlf [OF assms(7) old assms(2)])
qed

lemma sample_crlf:
  "edit_result (run_search_replace (edit_session False False None) (edit_request [98, 10] [99, 10, 10] False)
     (one_file [97, 13, 10, 98, 13, 10, 97])) =
   Some (False, [97, 13, 10, 99, 13, 10, 13, 10, 97], Some [97, 13, 10, 98, 13, 10, 97], [2])"
  by code_simp

theorem crlf_edit_is_the_lf_edit_witness:
  "\<exists>a n s'. run_search_replace (edit_session False False None) (edit_request [98, 10] [99, 10, 10] False)
      (one_file [97, 13, 10, 98, 13, 10, 97]) = Some (Inr (EditsApplied a), [n], s') \<and>
    fw_content n = str_replace [97, 13, 10, 98, 13, 10, 97] [98, 13, 10] [99, 13, 10, 13, 10]"
proof -
  let ?env = "edit_session False False None" and ?inp = "edit_request [98, 10] [99, 10, 10] False"
    and ?s = "one_file [97, 13, 10, 98, 13, 10, 97]" and ?t = "[97, 10, 98, 10, 97]"
  obtain a n s' where run: "run_search_replace ?env ?inp ?s = Some (Inr (EditsApplied a), [n], s')"
    and norm: "\<not> ea_unicode_normalized a" using sample_crlf by (rule edit_result_Some) blast
  have fs: "res_fs ?env = Some mock_byte_fs" and inp: "in_old_string ?inp = [98, 10]" "in_new_string ?inp = [99, 10, 10]"
    by (simp_all add: edit_session_def edit_request_def)
  then have old: "in_old_string ?inp \<noteq> []" by simp
  obtain bytes ps os where e: "read_bytes mock_byte_fs ?s (ea_absolute_path a) = Inr bytes"
    using applied_pieces [OF fs old run] by blast
  have "?s (ea_absolute_path a) = Some bytes" by (rule mock_bytes.read_view [OF e])
  then have "bytes = [97, 13, 10, 98, 13, 10, 97]" by (auto simp: one_file_def split: if_splits)
  with e have read: "read_bytes mock_byte_fs ?s (ea_absolute_path a) = Inr (utf8_encode (crlf ?t))"
    by (simp add: encode_char_def)
  have "fw_content n = str_replace (crlf ?t) (crlf (in_old_string ?inp)) (crlf (in_new_string ?inp))"
    using crlf_edit_is_the_lf_edit [OF fs old run norm read] by (simp add: inp is_scalar_def)
  with run show ?thesis by (simp add: inp)
qed

section \<open>Where the tool does less than it says\<close>

text \<open>
  The documented invariant of the offset map (every normalized byte range is the normal form of
  the original range) fails inside an expansion: the second half of an em-dash's two hyphens is
  mapped to the whole character.
\<close>

lemma offset_map_splits_expansions:
  "build_offset_map [8212] = ([45, 45], [0, 0, 3])"
  "map_option normalize_confusables (slice [8212] 0 3) = Some [45, 45]"
  "slice [45, 45] 1 2 = Some [45]"
  by (simp_all add: build_offset_map_def lookup_confusable_def CONFUSABLE_MAP_def len_utf8_def slice_def
      numeral_2_eq_2)

text \<open>Matches are searched without overlaps, so a string that occurs twice can pass as unique.\<close>

lemma overlapping_occurrence_edited:
  "edit_result (run_search_replace (edit_session False False None) (edit_request (lit ''aa'') (lit ''b'') False)
     (one_file (lit ''aaa''))) = Some (False, lit ''ba'', Some (lit ''aaa''), [1])"
  by code_simp

text \<open>In a file of mixed line endings every plain newline gets a carriage return, also on lines the edit does not touch.\<close>

lemma mixed_line_endings_rewritten:
  "edit_result (run_search_replace (edit_session False False None) (edit_request (lit ''c'') (lit ''d'') False)
     (one_file [97, 13, 10, 98, 10, 99])) = Some (False, [97, 13, 10, 98, 13, 10, 100], Some [97, 13, 10, 98, 10, 99], [3])"
  by code_simp

text \<open>Bytes that are not UTF-8 are written back as replacement characters, wherever they are in the file.\<close>

lemma invalid_bytes_not_preserved: "utf8_encode (from_utf8_lossy [255, 97]) = [239, 191, 189, 97]"
  by (simp add: decode_one_def REPLACEMENT_CHARACTER_def encode_char_def)

text \<open>The line an edit had in the original file is counted in the new text.\<close>

lemma old_line_counted_in_new_text:
  "edit_result (run_search_replace (edit_session False False None) (edit_request (lit ''a'') [120, 10, 121] True)
     (one_file [97, 10, 97])) = Some (False, [120, 10, 121, 10, 120, 10, 121], Some [97, 10, 97], [1, 3])"
  by code_simp

text \<open>
  The guard against overwriting takes a file that cannot be read for one that does not exist: the
  write goes through, with no previous content in the notification.
\<close>

lemma guard_passes_unreadable_file:
  assumes "in_old_string inp = []" and "read_bytes fs s path = Inl e"
    and "write_bytes fs path (utf8_encode (in_new_string inp)) s = (Inr u, s')"
  shows "handle_new_file_creation env fs inp path cwd hints True s =
    Some (Inr (created_output inp path), [written (ctx_call_id env) path (in_new_string inp) None True], s')"
  using assms by (simp add: handle_new_file_creation_def)

text \<open>
  Under the legacy contract the wording is rendered before the outcome is looked at: without a
  template renderer the tool fails after the edit was written and announced.
\<close>

lemma legacy_error_after_edit:
  assumes "run_search_replace env inp s = Some (Inr (EditsApplied a), notes, s')"
    and "ctx_behavior_version env = Some (lit ''legacy-0.4.10'')" and "res_renderer env = None"
  shows "search_replace_run env inp s = Some (Inl (MissingResource (lit ''TemplateRenderer'')), notes, s')"
  using assms by (simp add: search_replace_run_def from_contract_def is_legacy_def downgrade_structured_errors_def
      build_render_context_def resolve_template_def)

end
