(* ===== verification/Prompt_Origin.thy ===== *)
theory Prompt_Origin
  imports Rust_Strings
begin

text \<open>
  Where a turn's input comes from and what each origin may do: \<open>PromptOrigin\<close> of
  \<open>xai-grok-shell/src/session/mod.rs\<close>, the policy classes of
  \<open>xai-agent-lifecycle/src/send/contributors/turn_lifecycle.rs\<close> and the queue permissions of
  \<open>acp_session_impl/queue_mutation.rs\<close>.
\<close>

section \<open>Policy classes\<close>

datatype input_authority = HumanIntent | ModelAuthoredUntrusted | RuntimeControl

fun is_human_intent :: "input_authority \<Rightarrow> bool" where
  "is_human_intent HumanIntent = True"
| "is_human_intent _ = False"

datatype turn_boundary = Conversational | MidTurn | NoBoundary

datatype analytics_class = HumanPrompt | AgentMessageClass | RuntimeWake

fun is_human_prompt :: "analytics_class \<Rightarrow> bool" where
  "is_human_prompt HumanPrompt = True"
| "is_human_prompt _ = False"

datatype compaction_class = HumanAnchor | ConversationalAgentAnchor | RuntimeEphemera

datatype queue_policy = VisibleProtected | VisibleEditable | Hidden

fun policy_is_visible :: "queue_policy \<Rightarrow> bool" where
  "policy_is_visible Hidden = False"
| "policy_is_visible _ = True"

fun policy_is_editable :: "queue_policy \<Rightarrow> bool" where
  "policy_is_editable VisibleEditable = True"
| "policy_is_editable _ = False"

datatype shutdown_policy = Drain | CancelWithProducer | DropEphemeral

record input_policy =
  authority :: input_authority
  boundary :: turn_boundary
  analytics :: analytics_class
  compaction :: compaction_class
  queue_class :: queue_policy
  shutdown :: shutdown_policy

section \<open>Origins\<close>

datatype prompt_origin =
    User
  | TaskCompleted rstring
  | SubagentCompleted rstring
  | ParentAgentMessage rstring rstring  \<comment> \<open>message id, sender session id\<close>
  | WorkflowCompleted rstring
  | NotificationDrain
  | GoalSummary
  | GoalClassifierNudge
  | SchedulerFired
  | PlanResume

definition from_prompt_id :: "rstring \<Rightarrow> prompt_origin" where
  "from_prompt_id pid =
     (case strip_prefix pid (lit ''task-completed-'') of Some i \<Rightarrow> TaskCompleted i
      | None \<Rightarrow> (case strip_prefix pid (lit ''subagent-completed-'') of Some i \<Rightarrow> SubagentCompleted i
      | None \<Rightarrow> (case strip_prefix pid (lit ''parent-message-'') of Some i \<Rightarrow> ParentAgentMessage i []
      | None \<Rightarrow> (case strip_prefix pid (lit ''workflow-completed-'') of Some i \<Rightarrow> WorkflowCompleted i
      | None \<Rightarrow>
          if starts_with pid (lit ''notifications-'') then NotificationDrain
          else if starts_with pid (lit ''goal-summary-'') then GoalSummary
          else if starts_with pid (lit ''goal-classifier-nudge-'') then GoalClassifierNudge
          else if starts_with pid (lit ''scheduler-fired-'') then SchedulerFired
          else if starts_with pid (lit ''plan-resume-'') then PlanResume
          else User))))"

definition wake_policy :: "shutdown_policy \<Rightarrow> input_policy" where
  "wake_policy sd = \<lparr>authority = RuntimeControl, boundary = Conversational, analytics = RuntimeWake,
     compaction = RuntimeEphemera, queue_class = Hidden, shutdown = sd\<rparr>"

fun origin_policy :: "prompt_origin \<Rightarrow> input_policy" where
  "origin_policy User = \<lparr>authority = HumanIntent, boundary = Conversational, analytics = HumanPrompt,
     compaction = HumanAnchor, queue_class = VisibleEditable, shutdown = Drain\<rparr>"
| "origin_policy (ParentAgentMessage _ _) =
     \<lparr>authority = ModelAuthoredUntrusted, boundary = Conversational, analytics = AgentMessageClass,
      compaction = ConversationalAgentAnchor, queue_class = VisibleProtected, shutdown = Drain\<rparr>"
| "origin_policy (TaskCompleted _) = wake_policy CancelWithProducer"
| "origin_policy (SubagentCompleted _) = wake_policy CancelWithProducer"
| "origin_policy (WorkflowCompleted _) = wake_policy CancelWithProducer"
| "origin_policy SchedulerFired = wake_policy CancelWithProducer"
| "origin_policy NotificationDrain = wake_policy DropEphemeral"
| "origin_policy GoalSummary = wake_policy DropEphemeral"
| "origin_policy GoalClassifierNudge = wake_policy DropEphemeral"
| "origin_policy PlanResume = wake_policy DropEphemeral"

definition is_synthetic :: "prompt_origin \<Rightarrow> bool" where
  "is_synthetic origin \<longleftrightarrow> origin \<noteq> User"

fun is_auto_wake :: "prompt_origin \<Rightarrow> bool" where
  "is_auto_wake (TaskCompleted _) = True"
| "is_auto_wake (SubagentCompleted _) = True"
| "is_auto_wake (WorkflowCompleted _) = True"
| "is_auto_wake (ParentAgentMessage _ _) = True"
| "is_auto_wake NotificationDrain = True"
| "is_auto_wake _ = False"

fun hide_user_echo_from_scrollback :: "prompt_origin \<Rightarrow> bool" where
  "hide_user_echo_from_scrollback User = False"
| "hide_user_echo_from_scrollback (ParentAgentMessage _ _) = False"
| "hide_user_echo_from_scrollback SchedulerFired = False"
| "hide_user_echo_from_scrollback PlanResume = False"
| "hide_user_echo_from_scrollback _ = True"

fun completion_id :: "prompt_origin \<Rightarrow> rstring option" where
  "completion_id (TaskCompleted i) = Some i"
| "completion_id (SubagentCompleted i) = Some i"
| "completion_id (WorkflowCompleted i) = Some i"
| "completion_id _ = None"

definition is_preemptible_runtime_wake :: "prompt_origin \<Rightarrow> bool" where
  "is_preemptible_runtime_wake origin \<longleftrightarrow> shutdown (origin_policy origin) \<noteq> Drain"

section \<open>Queue permissions\<close>

record queue_mutation_policy =
  qp_visible :: bool
  qp_editable :: bool

definition qp_hidden :: queue_mutation_policy where
  "qp_hidden = \<lparr>qp_visible = False, qp_editable = False\<rparr>"

definition is_protected :: "queue_mutation_policy \<Rightarrow> bool" where
  "is_protected p \<longleftrightarrow> qp_visible p \<and> \<not> qp_editable p"

fun permissions_of :: "queue_policy \<Rightarrow> queue_mutation_policy" where
  "permissions_of VisibleProtected = \<lparr>qp_visible = True, qp_editable = False\<rparr>"
| "permissions_of VisibleEditable = \<lparr>qp_visible = True, qp_editable = True\<rparr>"
| "permissions_of Hidden = qp_hidden"

definition from_input_origin :: "prompt_origin \<Rightarrow> queue_mutation_policy" where
  "from_input_origin origin = permissions_of (queue_class (origin_policy origin))"

section \<open>What the classes guarantee\<close>

lemma origin_editable_iff: "qp_editable (from_input_origin origin) \<longleftrightarrow> origin = User"
  by (cases origin) (simp_all add: from_input_origin_def wake_policy_def qp_hidden_def)

lemma origin_visible_iff: "qp_visible (from_input_origin origin) \<longleftrightarrow> shutdown (origin_policy origin) = Drain"
  by (cases origin) (simp_all add: from_input_origin_def wake_policy_def qp_hidden_def)

lemma preemptible_synthetic: "is_preemptible_runtime_wake origin \<Longrightarrow> is_synthetic origin"
  by (cases origin) (simp_all add: is_preemptible_runtime_wake_def is_synthetic_def)

lemma completion_preemptible: "completion_id origin \<noteq> None \<Longrightarrow> is_preemptible_runtime_wake origin"
  by (cases origin) (simp_all add: is_preemptible_runtime_wake_def wake_policy_def)

lemma human_intent_iff: "is_human_intent (authority (origin_policy origin)) \<longleftrightarrow> origin = User"
  by (cases origin) (simp_all add: wake_policy_def)

text \<open>
  Authority follows provenance: whatever its prompt id, an input may be edited in the queue, counts
  as human intent and enters the prompt history exactly when it is a user prompt; what the
  runtime may drop for a user prompt is hidden from the queue and synthetic; and what the queue
  shows is drained at shutdown.
\<close>

lemma origin_authority:
  "let origin = from_prompt_id pid; p = origin_policy origin; q = from_input_origin origin in
     (qp_editable q \<longleftrightarrow> origin = User) \<and>
     (is_human_intent (authority p) \<longleftrightarrow> origin = User) \<and> (is_human_prompt (analytics p) \<longleftrightarrow> origin = User) \<and>
     (is_preemptible_runtime_wake origin \<longleftrightarrow> \<not> qp_visible q) \<and>
     (qp_visible q \<longleftrightarrow> shutdown p = Drain) \<and>
     (completion_id origin = None \<or> is_preemptible_runtime_wake origin \<and> is_auto_wake origin \<and> is_synthetic origin)"
  unfolding Let_def
  by (cases "from_prompt_id pid")
     (simp_all add: from_input_origin_def wake_policy_def qp_hidden_def is_preemptible_runtime_wake_def is_synthetic_def)

end
