(* ===== verification/Prompt_Queue.thy ===== *)
theory Prompt_Queue
  imports Rust_Strings "HOL-Library.AList"
begin

text \<open>
  The crate \<open>xai-prompt-queue\<close>: the rows of the shared prompt queue as they go over the wire
  (\<open>types.rs\<close>), and the rules by which consecutive plain prompts are merged into one turn
  (\<open>combine.rs\<close>).
\<close>

section \<open>Rows\<close>

definition COMBINED_DISPLAY_TEXTS_META :: rstring where
  "COMBINED_DISPLAY_TEXTS_META = lit ''combinedDisplayTexts''"

record queue_entry_meta =
  qm_id :: rstring
  qm_version :: u64
  qm_owner :: "rstring option"
  qm_last_editor :: "rstring option"
  qm_kind :: rstring
  qm_text :: rstring
  qm_combined_texts :: "rstring list option"

record queue_entry_wire =
  qw_id :: rstring
  qw_version :: u64
  qw_owner :: "rstring option"
  qw_last_editor :: "rstring option"
  qw_kind :: rstring
  qw_text :: rstring
  qw_combined_texts :: "rstring list option"
  qw_position :: nat

record queue_changed =
  qc_session_id :: rstring
  qc_entries :: "queue_entry_wire list"
  qc_running_prompt_id :: "rstring option"
  qc_running_text :: "rstring option"
  qc_running_kind :: "rstring option"
  qc_running_combined_texts :: "rstring list option"

section \<open>Combining\<close>

definition TEXT_SEPARATOR :: rstring where
  "TEXT_SEPARATOR = [NL, NL]"

record combine_gate =
  cg_id :: rstring
  cg_is_plain_prompt :: bool
  cg_is_synthetic :: bool
  cg_is_expanded_skill :: bool
  cg_is_bash :: bool
  cg_has_images :: bool
  cg_text :: rstring

definition can_merge_front :: "combine_gate \<Rightarrow> bool" where
  "can_merge_front g \<longleftrightarrow> cg_is_plain_prompt g \<and> \<not> cg_is_synthetic g \<and> \<not> cg_is_expanded_skill g \<and>
     \<not> cg_is_bash g \<and> cg_text g \<noteq> []"

definition can_merge_follower :: "combine_gate \<Rightarrow> rstring list \<Rightarrow> bool" where
  "can_merge_follower g skip_ids \<longleftrightarrow> can_merge_front g \<and> \<not> cg_has_images g \<and> cg_id g \<notin> set skip_ids"

fun follower_loop :: "rstring list \<Rightarrow> nat \<Rightarrow> combine_gate list \<Rightarrow> nat" where
  "follower_loop skip_ids n [] = n"
| "follower_loop skip_ids n (g # gs) =
     (if \<not> can_merge_follower g skip_ids then n else follower_loop skip_ids (n + 1) gs)"

fun combine_prefix_len :: "combine_gate list \<Rightarrow> rstring list \<Rightarrow> nat" where
  "combine_prefix_len [] skip_ids = 0"
| "combine_prefix_len (front # rest) skip_ids =
     (if \<not> can_merge_front front then 1 else follower_loop skip_ids 1 rest)"

definition join_texts :: "rstring list \<Rightarrow> rstring" where
  "join_texts texts = join TEXT_SEPARATOR (filter (\<lambda>t. t \<noteq> []) texts)"

definition is_combined :: "rstring list \<Rightarrow> bool" where
  "is_combined segs \<longleftrightarrow> length segs \<ge> 2"

definition stamp_combined_display_texts ::
  "(rstring \<times> json) list \<Rightarrow> rstring list \<Rightarrow> (rstring \<times> json) list" where
  "stamp_combined_display_texts meta segs =
     (if \<not> is_combined segs then meta
      else AList.update COMBINED_DISPLAY_TEXTS_META (JArray (map JString segs)) meta)"

section \<open>The merged prefix\<close>

lemma follower_loop_eq:
  "follower_loop skip_ids n gs = n + length (takeWhile (\<lambda>g. can_merge_follower g skip_ids) gs)"
  by (induction skip_ids n gs rule: follower_loop.induct) simp_all

lemma combine_prefix_len_eq:
  "combine_prefix_len gates skip_ids = (case gates of [] \<Rightarrow> 0 | front # rest \<Rightarrow>
     if can_merge_front front then Suc (length (takeWhile (\<lambda>g. can_merge_follower g skip_ids) rest)) else 1)"
  by (cases gates) (simp_all add: follower_loop_eq)

lemma combine_prefix_len_le: "combine_prefix_len gates skip_ids \<le> length gates"
  by (cases gates) (auto simp: combine_prefix_len_eq intro: length_takeWhile_le)

lemma combine_prefix_members:
  assumes "2 \<le> combine_prefix_len gates skip_ids"
  shows "can_merge_front (hd gates)"
    and "g \<in> set (tl (take (combine_prefix_len gates skip_ids) gates)) \<Longrightarrow> can_merge_follower g skip_ids"
proof -
  from assms obtain front rest where gates: "gates = front # rest" and "can_merge_front front"
    by (cases gates) (auto split: if_splits)
  then show "can_merge_front (hd gates)" by simp
  show "can_merge_follower g skip_ids" if "g \<in> set (tl (take (combine_prefix_len gates skip_ids) gates))"
    using that gates \<open>can_merge_front front\<close>
    by (auto simp: combine_prefix_len_eq simp flip: takeWhile_eq_take dest: set_takeWhileD)
qed

end
