(* ===== verification/Session_Queue.thy ===== *)
theory Session_Queue
  imports Prompt_Origin Prompt_Queue Interjection Message_Delivery
begin

text \<open>
  The prompt queue of a session (\<open>xai-grok-shell/src/session\<close>: \<open>acp_session.rs\<close>,
  \<open>acp_session_impl/prompt_queue.rs\<close>, \<open>interjection.rs\<close>).  The session actor handles one
  command at a time under the lock of \<open>State\<close>, so every handler is a function on that state.
  What a handler sends out (queue broadcasts, replies on the response channels of prompts,
  interjection broadcasts, calls into other subsystems) is appended to \<open>outbox\<close>.  A response
  channel is a number, an image or an override payload is an opaque string; the fields of an
  input that only travel through the queue (trace configuration, screen mode, schema) are left out.
\<close>

section \<open>Items and state\<close>

type_synonym block_meta = "(rstring \<times> json) list"

datatype content_block = TextBlock rstring "block_meta option" | ImageBlock rstring | OtherBlock rstring

record input_item =
  in_prompt_id :: rstring
  in_blocks :: "content_block list"
  in_client :: "rstring option"
  in_origin :: prompt_origin
  in_overrides :: "rstring option"
  in_respond :: nat
  in_meta :: "queue_entry_meta option"
  in_policy :: queue_mutation_policy
  in_send_now :: bool

record agent_task =
  task_prompt_id :: rstring
  task_epoch :: u64
  task_identity :: nat

record finalization_gate =
  next_token :: u64
  gate_active :: "u64 option"

record parent_message =
  pm_prompt_id :: rstring
  pm_message_id :: rstring
  pm_text :: rstring

type_synonym parent_lifecycle = "(rstring, rstring, parent_message, nat, rstring, u64) lifecycle"

datatype cancel_category = HookDenied | PermissionRejected | PermissionCancelled | MidTurnAbort

datatype completion_kind = Completed | StationarityEnded | Cancelled "cancel_category option"
  | MaxTurnsReached nat | Rewound | RemovedFromQueue

datatype turn_result = TurnOk completion_kind | TurnErr rstring

datatype interjection_source = DirectSource | QueueSource

datatype effect =
    Broadcast queue_changed
  | Reply nat turn_result
  | BroadcastInterjection rstring "rstring option"
  | EmitInterjected interjection_source "32 word"
  | SteerPlanner rstring
  | InvalidateSideCalls
  | AppendPromptHistory rstring bool
  | MarkCompletionsReported rstring
  | ReleaseReservation rstring
  | ApplyToolOverrides rstring
  | ClearWakeSuppression
  | SetCurrentPromptId rstring
  | HeldRowsNotice nat
  | EmitTurnCompleted rstring turn_result
  | AbortTurnTask rstring u64
  | CancelCompaction
  | CancelSessionSubagents
  | RecordCancellation
  | KillForegroundCommands
  | KillBackgroundTasks
  | MoveCommandsToBackground
  | RepairDanglingCalls
  | ReportCancelledTurn rstring u64
  | TruncateHistory

record session_state =
  session_id :: rstring
  running_task :: "agent_task option"
  finalization_gate :: finalization_gate
  message_delivery :: parent_lifecycle
  pending_inputs :: "input_item list"
  edit_holds :: "(rstring \<times> instant) list"
  notifications_suppressed :: bool
  hook_block_held :: bool
  rewindable :: bool
  front_message_committed :: bool
  turn_epoch :: u64
  next_identity :: nat
  pending_interjections :: "rstring interjection event_queue"
  outbox :: "effect list"

definition emit :: "effect \<Rightarrow> session_state \<Rightarrow> session_state" where
  "emit e s = s\<lparr>outbox := outbox s @ [e]\<rparr>"

definition respond_removed_prompt :: "nat \<Rightarrow> session_state \<Rightarrow> session_state" where
  "respond_removed_prompt respond_to = emit (Reply respond_to (TurnOk RemovedFromQueue))"

definition running_prompt_id :: "session_state \<Rightarrow> rstring option" where
  "running_prompt_id s = map_option task_prompt_id (running_task s)"

definition take_hook_block_hold :: "session_state \<Rightarrow> bool \<times> session_state" where
  "take_hook_block_hold s = (hook_block_held s, s\<lparr>hook_block_held := False\<rparr>)"

definition is_queue_visible :: "input_item \<Rightarrow> bool" where
  "is_queue_visible item = qp_visible (in_policy item)"

definition is_queue_editable :: "input_item \<Rightarrow> bool" where
  "is_queue_editable item = qp_editable (in_policy item)"

definition is_queue_protected :: "input_item \<Rightarrow> bool" where
  "is_queue_protected item = is_protected (in_policy item)"

definition has_queue_id :: "rstring \<Rightarrow> input_item \<Rightarrow> bool" where
  "has_queue_id i item = (case in_meta item of None \<Rightarrow> False | Some meta \<Rightarrow> qm_id meta = i)"

definition editable_queue_meta_matches :: "rstring \<Rightarrow> u64 \<Rightarrow> rstring option \<Rightarrow> input_item \<Rightarrow> bool" where
  "editable_queue_meta_matches i expected_version owner item =
     (is_queue_editable item \<and> (case in_meta item of
        None \<Rightarrow> False
      | Some meta \<Rightarrow> qm_id meta = i \<and> qm_version meta = expected_version \<and>
          (case owner of None \<Rightarrow> True | Some expected \<Rightarrow> qm_owner meta = Some expected)))"

section \<open>Content blocks\<close>

fun text_of_block :: "content_block \<Rightarrow> rstring option" where
  "text_of_block (TextBlock t _) = Some t"
| "text_of_block _ = None"

definition is_text_block :: "content_block \<Rightarrow> bool" where
  "is_text_block b \<longleftrightarrow> text_of_block b \<noteq> None"

fun image_of_block :: "content_block \<Rightarrow> rstring option" where
  "image_of_block (ImageBlock i) = Some i"
| "image_of_block _ = None"

definition block_texts :: "content_block list \<Rightarrow> rstring list" where
  "block_texts blocks = List.map_filter text_of_block blocks"

definition prompt_block_meta :: "block_meta \<Rightarrow> rstring option option" where
  \<comment> \<open>\<open>PromptBlockMeta::from_value\<close>: an absent or null command is fine, any other type is an error\<close>
  "prompt_block_meta m = (case map_of m (lit ''bash_command'') of
     None \<Rightarrow> Some None | Some JNull \<Rightarrow> Some None | Some (JString c) \<Rightarrow> Some (Some c) | _ \<Rightarrow> None)"

fun extract_bash_command :: "content_block list \<Rightarrow> rstring option" where
  "extract_bash_command [] = None"
| "extract_bash_command (TextBlock t (Some m) # blocks) =
     (case prompt_block_meta m of Some command \<Rightarrow> command | None \<Rightarrow> extract_bash_command blocks)"
| "extract_bash_command (_ # blocks) = extract_bash_command blocks"

fun display_text :: "content_block \<Rightarrow> rstring option" where
  \<comment> \<open>the trimmed, non-empty \<open>displayText\<close> of a text block\<close>
  "display_text (TextBlock t (Some m)) = (case Option.bind (map_of m (lit ''displayText'')) as_str of
     None \<Rightarrow> None | Some d \<Rightarrow> if trim d = [] then None else Some (trim d))"
| "display_text _ = None"

definition spoken_text :: "content_block list \<Rightarrow> rstring" where
  \<comment> \<open>the non-empty trimmed texts, joined by a blank line\<close>
  "spoken_text blocks = join [NL, NL] (filter (\<lambda>t. t \<noteq> []) (map trim (block_texts blocks)))"

definition queue_text_from_blocks :: "content_block list \<Rightarrow> rstring" where
  "queue_text_from_blocks blocks = (case List.map_filter display_text blocks of
     d # _ \<Rightarrow> d | [] \<Rightarrow> spoken_text blocks)"

section \<open>Broadcasts\<close>

definition listed :: "rstring option \<Rightarrow> input_item \<Rightarrow> queue_entry_meta option" where
  "listed running_id item =
     (if \<not> is_queue_visible item then None
      else case in_meta item of
        None \<Rightarrow> None
      | Some meta \<Rightarrow> if running_id = Some (qm_id meta) then None else Some meta)"

definition wire_entry :: "queue_entry_meta \<Rightarrow> nat \<Rightarrow> queue_entry_wire" where
  "wire_entry meta pos = \<lparr>qw_id = qm_id meta, qw_version = qm_version meta, qw_owner = qm_owner meta,
     qw_last_editor = qm_last_editor meta, qw_kind = qm_kind meta, qw_text = qm_text meta,
     qw_combined_texts = qm_combined_texts meta, qw_position = pos\<rparr>"

fun wire_loop :: "rstring option \<Rightarrow> queue_entry_wire list \<Rightarrow> input_item list \<Rightarrow> queue_entry_wire list" where
  "wire_loop running_id out [] = out"
| "wire_loop running_id out (item # items) = (case listed running_id item of
     None \<Rightarrow> wire_loop running_id out items
   | Some meta \<Rightarrow> wire_loop running_id (out @ [wire_entry meta (length out)]) items)"

definition build_queue_wire :: "session_state \<Rightarrow> queue_entry_wire list" where
  "build_queue_wire s = wire_loop (running_prompt_id s) [] (pending_inputs s)"

record running_prompt_display =
  rd_id :: rstring
  rd_text :: rstring
  rd_kind :: rstring
  rd_combined_texts :: "rstring list option"

definition running_display_from_item :: "input_item \<Rightarrow> running_prompt_display" where
  "running_display_from_item item = \<lparr>rd_id = in_prompt_id item,
     rd_text = (case in_meta item of Some m \<Rightarrow> qm_text m | None \<Rightarrow> queue_text_from_blocks (in_blocks item)),
     rd_kind = (case in_meta item of Some m \<Rightarrow> qm_kind m | None \<Rightarrow> lit ''prompt''),
     rd_combined_texts = (case Option.bind (in_meta item) qm_combined_texts of
        Some v \<Rightarrow> if length v \<ge> 2 then Some v else None | None \<Rightarrow> None)\<rparr>"

definition renumber :: "queue_entry_wire list \<Rightarrow> queue_entry_wire list" where
  "renumber entries = map (\<lambda>(i, e). e\<lparr>qw_position := i\<rparr>) (enumerate 0 entries)"

definition queue_changed_payload :: "session_state \<Rightarrow> running_prompt_display option \<Rightarrow> queue_changed" where
  "queue_changed_payload s running = \<lparr>qc_session_id = session_id s,
     qc_entries = (case running of
        None \<Rightarrow> build_queue_wire s
      | Some r \<Rightarrow> renumber (filter (\<lambda>e. qw_id e \<noteq> rd_id r) (build_queue_wire s))),
     qc_running_prompt_id = map_option rd_id running,
     qc_running_text = map_option rd_text running,
     qc_running_kind = map_option rd_kind running,
     qc_running_combined_texts = Option.bind running rd_combined_texts\<rparr>"

definition broadcast_queue_changed_inner :: "running_prompt_display option \<Rightarrow> session_state \<Rightarrow> session_state" where
  "broadcast_queue_changed_inner running s = emit (Broadcast (queue_changed_payload s running)) s"

definition broadcast_queue_changed :: "session_state \<Rightarrow> session_state" where
  "broadcast_queue_changed s = broadcast_queue_changed_inner
     (Option.bind (running_prompt_id s) (\<lambda>pid.
        map_option running_display_from_item (find (\<lambda>i. in_prompt_id i = pid) (pending_inputs s)))) s"

definition broadcast_queue_changed_promoting :: "running_prompt_display \<Rightarrow> session_state \<Rightarrow> session_state" where
  "broadcast_queue_changed_promoting running = broadcast_queue_changed_inner (Some running)"

section \<open>Entering the queue\<close>

definition commit_queued_delivery :: "input_item \<Rightarrow> session_state \<Rightarrow> session_state" where
  "commit_queued_delivery item s =
     broadcast_queue_changed (s\<lparr>pending_inputs := pending_inputs s @ [item]\<rparr>)"

definition is_running_prompt :: "session_state \<Rightarrow> rstring \<Rightarrow> bool" where
  "is_running_prompt s pid \<longleftrightarrow> running_prompt_id s = Some pid"

definition front_is_running :: "session_state \<Rightarrow> rstring option \<Rightarrow> bool" where
  "front_is_running s running = (case (pending_inputs s, running) of
     (front # _, Some pid) \<Rightarrow> in_prompt_id front = pid | _ \<Rightarrow> False)"

definition front_awaiting_commit :: "session_state \<Rightarrow> bool" where
  "front_awaiting_commit s \<longleftrightarrow> \<not> front_message_committed s \<and> front_is_running s (running_prompt_id s)"

definition mark_front_message_committed :: "session_state \<Rightarrow> session_state" where
  "mark_front_message_committed s = s\<lparr>front_message_committed := True\<rparr>"

definition send_now_insert_index :: "session_state \<Rightarrow> rstring option \<Rightarrow> nat" where
  "send_now_insert_index s running_front_id =
     (let start = (if front_is_running s running_front_id then 1 else 0)
      in start + length (takeWhile in_send_now (drop start (pending_inputs s))))"

definition send_now_cancels_running_turn :: "session_state \<Rightarrow> bool \<Rightarrow> bool" where
  "send_now_cancels_running_turn s goal_active \<longleftrightarrow>
     running_prompt_id s \<noteq> None \<and> \<not> goal_active \<and> \<not> front_awaiting_commit s"

definition sweep_pending_inputs :: "(input_item \<Rightarrow> bool) \<Rightarrow> session_state \<Rightarrow> input_item list \<times> session_state" where
  "sweep_pending_inputs drop_if s =
     (let swept = (\<lambda>item. running_prompt_id s \<noteq> Some (in_prompt_id item) \<and> drop_if item)
      in (filter swept (pending_inputs s),
          s\<lparr>pending_inputs := filter (\<lambda>item. \<not> swept item) (pending_inputs s)\<rparr>))"

definition enqueue_prompt_as_planner_steering :: "input_item \<Rightarrow> session_state \<Rightarrow> session_state" where
  "enqueue_prompt_as_planner_steering item = emit (SteerPlanner (spoken_text (in_blocks item)))"

definition enqueue_prompt_as_interjection ::
  "input_item \<Rightarrow> interjection_source \<Rightarrow> session_state \<Rightarrow> session_state" where
  "enqueue_prompt_as_interjection item src s =
     (let txt = spoken_text (in_blocks item);
          images = List.map_filter image_of_block (in_blocks item);
          s = s\<lparr>pending_interjections :=
                queue_push \<lparr>ij_text = txt, ij_attachments = images\<rparr> (pending_interjections s)\<rparr>;
          s = emit (BroadcastInterjection txt (Some (in_prompt_id item))) s;
          s = emit (EmitInterjected src (of_nat (length images))) s
      in respond_removed_prompt (in_respond item) s)"

record queue_input_request =
  rq_blocks :: "content_block list"
  rq_prompt_id :: rstring
  rq_origin :: prompt_origin
  rq_client :: "rstring option"
  rq_send_now :: bool
  rq_overrides :: "rstring option"
  rq_respond :: nat

record queue_env =
  goal_active :: bool
  blocked_in_wait :: bool
  is_subagent :: bool

definition request_kind :: "queue_input_request \<Rightarrow> rstring" where
  "request_kind rq = (case rq_origin rq of
     ParentAgentMessage _ _ \<Rightarrow> lit ''parent_agent_message''
   | _ \<Rightarrow> if extract_bash_command (rq_blocks rq) \<noteq> None then lit ''bash'' else lit ''prompt'')"

definition item_of_request :: "queue_input_request \<Rightarrow> input_item" where
  "item_of_request rq =
     (let policy = from_input_origin (rq_origin rq) in
      \<lparr>in_prompt_id = rq_prompt_id rq, in_blocks = rq_blocks rq, in_client = rq_client rq,
       in_origin = rq_origin rq, in_overrides = rq_overrides rq, in_respond = rq_respond rq,
       in_meta = (if \<not> qp_visible policy then None
          else Some \<lparr>qm_id = rq_prompt_id rq, qm_version = 0, qm_owner = rq_client rq,
                 qm_last_editor = None, qm_kind = request_kind rq,
                 qm_text = queue_text_from_blocks (rq_blocks rq), qm_combined_texts = None\<rparr>),
       in_policy = policy, in_send_now = False\<rparr>)"

definition preempt_armed :: "session_state \<Rightarrow> bool" where
  "preempt_armed s = list_ex (\<lambda>i. completion_id (in_origin i) \<noteq> None \<and>
     running_prompt_id s \<noteq> Some (in_prompt_id i)) (pending_inputs s)"

definition preempt_runtime_wakes :: "session_state \<Rightarrow> session_state" where
  "preempt_runtime_wakes s =
     (if \<not> preempt_armed s then s
      else case sweep_pending_inputs (\<lambda>i. is_preemptible_runtime_wake (in_origin i)) s of
        (dropped, s) \<Rightarrow> fold (\<lambda>i. emit (ReleaseReservation i))
          (List.map_filter (\<lambda>i. completion_id (in_origin i)) dropped) s)"

definition announce_input :: "queue_env \<Rightarrow> queue_input_request \<Rightarrow> session_state \<Rightarrow> session_state" where
  \<comment> \<open>what \<open>queue_input\<close> does before it takes the lock\<close>
  "announce_input env rq s =
     (let raw = join [NL, NL] (map trim (block_texts (rq_blocks rq)));
          p = origin_policy (rq_origin rq);
          s = (if is_human_intent (authority p) then emit InvalidateSideCalls s else s);
          s = (if is_human_prompt (analytics p) \<and> raw \<noteq> [] \<and> \<not> is_subagent env
               then emit (AppendPromptHistory raw (extract_bash_command (rq_blocks rq) \<noteq> None)) s else s)
      in case rq_origin rq of SubagentCompleted i \<Rightarrow> emit (MarkCompletionsReported i) s | _ \<Rightarrow> s)"

definition held_user_queue :: "session_state \<Rightarrow> bool" where
  "held_user_queue s = list_ex (\<lambda>queued. shutdown (origin_policy (in_origin queued)) = Drain \<and>
     Some (in_prompt_id queued) \<noteq> running_prompt_id s) (pending_inputs s)"

definition queue_input :: "queue_env \<Rightarrow> queue_input_request \<Rightarrow> session_state \<Rightarrow> bool \<times> session_state" where
  "queue_input env rq s0 =
     (let s = announce_input env rq s0;
          s = (if is_human_intent (authority (origin_policy (rq_origin rq))) then preempt_runtime_wakes s else s);
          item = item_of_request rq;
          running_front_id = running_prompt_id s;
          turn_running = (running_front_id \<noteq> None);
          auto_send_now = (turn_running \<and> blocked_in_wait env \<and> \<not> held_user_queue s);
          send_now = (is_queue_editable item \<and> (rq_send_now rq \<or> auto_send_now));
          cancel_running_turn = (send_now \<and> send_now_cancels_running_turn s (goal_active env));
          merge_into_goal = (send_now \<and> turn_running \<and> goal_active env \<and>
             extract_bash_command (in_blocks item) = None);
          s = (if merge_into_goal then
                 enqueue_prompt_as_interjection item DirectSource (enqueue_prompt_as_planner_steering item s)
               else if send_now then
                 s\<lparr>pending_inputs := insert_at (send_now_insert_index s running_front_id)
                    (item\<lparr>in_send_now := True\<rparr>) (pending_inputs s)\<rparr>
               else commit_queued_delivery item s);
          s = (if merge_into_goal \<or> send_now then broadcast_queue_changed s else s)
      in (cancel_running_turn, s))"

definition queue_interjection_fallback_prompt ::
  "rstring \<Rightarrow> nat \<Rightarrow> rstring \<Rightarrow> rstring list \<Rightarrow> bool \<Rightarrow> session_state \<Rightarrow> session_state" where
  \<comment> \<open>the fresh id and the channel nobody listens to are arguments\<close>
  "queue_interjection_fallback_prompt uuid respond txt images front s0 =
     (let item = \<lparr>in_prompt_id = lit ''interject-fallback-'' @ uuid,
             in_blocks = TextBlock txt None # map ImageBlock images, in_client = None, in_origin = User,
             in_overrides = None, in_respond = respond, in_meta = None, in_policy = qp_hidden, in_send_now = front\<rparr>;
          s = emit InvalidateSideCalls s0
      in if front
         then s\<lparr>pending_inputs := insert_at (if front_is_running s (running_prompt_id s) then 1 else 0)
                 item (pending_inputs s)\<rparr>
         else s\<lparr>pending_inputs := pending_inputs s @ [item]\<rparr>)"

definition flush_stranded_interjections ::
  "(rstring \<times> nat) list \<Rightarrow> session_state \<Rightarrow> nat \<times> session_state" where
  \<comment> \<open>the ids and channels of the new rows are given in the order they are used\<close>
  "flush_stranded_interjections fresh s =
     (case queue_drain_all (pending_interjections s) of
        (stranded, q) \<Rightarrow>
          (length stranded,
           fold (\<lambda>(entry, uuid, respond). queue_interjection_fallback_prompt uuid respond (ij_text entry)
                    (ij_attachments entry) True)
             (zip (rev stranded) fresh) (s\<lparr>pending_interjections := q\<rparr>)))"

section \<open>Queries of the goal loop\<close>

definition EDIT_HOLD_TTL :: duration where
  "EDIT_HOLD_TTL = from_secs (10 * 60)"

definition elapsed :: "instant \<Rightarrow> instant \<Rightarrow> duration" where
  \<comment> \<open>\<open>Instant::elapsed\<close> saturates\<close>
  "elapsed now since = now - since"

definition has_runnable_queued_user_row :: "instant \<Rightarrow> session_state \<Rightarrow> bool" where
  "has_runnable_queued_user_row now s =
     (case find (\<lambda>item. \<not> is_synthetic (in_origin item))
             (filter (\<lambda>item. running_prompt_id s \<noteq> Some (in_prompt_id item)) (pending_inputs s)) of
        None \<Rightarrow> False
      | Some row \<Rightarrow> (case map_of (edit_holds s) (in_prompt_id row) of
          Some since \<Rightarrow> elapsed now since \<ge> EDIT_HOLD_TTL
        | None \<Rightarrow> True))"

definition has_pending_goal_continuation :: "session_state \<Rightarrow> bool" where
  "has_pending_goal_continuation s =
     list_ex (\<lambda>item. in_origin item = GoalSummary \<or> in_origin item = GoalClassifierNudge) (pending_inputs s)"

end
