(* ===== verification/Queue_Commands.thy ===== *)
theory Queue_Commands
  imports Session_Queue
begin

text \<open>
  The commands clients send to the shared prompt queue
  (\<open>acp_session_impl/prompt_queue.rs\<close>): steering with queued rows, removing, sending now,
  reordering, clearing, editing with last-write-wins versions, edit holds, and the merge of
  consecutive prompts when a turn starts.
\<close>

section \<open>Promotion into the running turn\<close>

definition promotable_row :: "rstring option \<Rightarrow> input_item \<Rightarrow> bool" where
  "promotable_row running item \<longleftrightarrow> Some (in_prompt_id item) \<noteq> running \<and>
     (is_queue_visible item \<or> \<not> is_synthetic (in_origin item))"

definition stops_promotion :: "rstring option \<Rightarrow> (rstring \<times> instant) list \<Rightarrow> input_item \<Rightarrow> bool" where
  "stops_promotion running_owner holds item \<longleftrightarrow>
     \<not> is_queue_editable item \<or> extract_bash_command (in_blocks item) \<noteq> None \<or> in_send_now item \<or>
     in_prompt_id item \<in> fst ` set holds \<or> Option.bind (in_meta item) qm_owner \<noteq> running_owner \<or>
     in_overrides item \<noteq> None"

lemma position_less: "position P xs = Some i \<Longrightarrow> i < length xs"
  by (erule position_Some_split) simp

function promote_loop ::
  "rstring option \<Rightarrow> rstring option \<Rightarrow> (rstring \<times> instant) list \<Rightarrow> input_item list \<Rightarrow> input_item list \<times> input_item list" where
  "promote_loop running owner holds items = (case position (promotable_row running) items of
     None \<Rightarrow> ([], items)
   | Some pos \<Rightarrow>
       if stops_promotion owner holds (items ! pos) then ([], items)
       else case promote_loop running owner holds (remove_at pos items) of
         (promoted, rest) \<Rightarrow> (items ! pos # promoted, rest))"
  by pat_completeness auto
termination
  by (relation "measure (\<lambda>(_, _, _, items). length items)") (auto simp: remove_at_def dest: position_less)

declare promote_loop.simps [simp del]

definition promote_queued_as_interjections :: "queue_env \<Rightarrow> session_state \<Rightarrow> session_state" where
  "promote_queued_as_interjections env s = (case running_prompt_id s of
     None \<Rightarrow> s
   | Some running \<Rightarrow>
       if is_auto_wake (from_prompt_id running) then s
       else
         let owner = Option.bind (find (\<lambda>item. in_prompt_id item = running) (pending_inputs s))
               (\<lambda>item. Option.bind (in_meta item) qm_owner)
         in case promote_loop (Some running) owner (edit_holds s) (pending_inputs s) of
           (promoted, rest) \<Rightarrow>
             if promoted = [] then s
             else broadcast_queue_changed (fold (\<lambda>item s.
                 enqueue_prompt_as_interjection item QueueSource
                   (if goal_active env then enqueue_prompt_as_planner_steering item s else s))
               promoted (s\<lparr>pending_inputs := rest\<rparr>)))"

section \<open>Removing and sending now\<close>

definition has_editable_row :: "session_state \<Rightarrow> rstring \<Rightarrow> bool" where
  "has_editable_row s i = list_ex (\<lambda>item. is_queue_editable item \<and> has_queue_id i item) (pending_inputs s)"

definition has_protected_row :: "session_state \<Rightarrow> rstring \<Rightarrow> bool" where
  "has_protected_row s i = list_ex (\<lambda>item. is_queue_protected item \<and> has_queue_id i item) (pending_inputs s)"

definition release_hold :: "rstring \<Rightarrow> session_state \<Rightarrow> session_state" where
  \<comment> \<open>a protected row keeps its hold\<close>
  "release_hold i s = (if has_protected_row s i then s else s\<lparr>edit_holds := AList.delete i (edit_holds s)\<rparr>)"

definition handle_remove_queued_prompt ::
  "rstring \<Rightarrow> u64 \<Rightarrow> rstring option \<Rightarrow> session_state \<Rightarrow> bool \<times> session_state" where
  "handle_remove_queued_prompt i expected_version owner s =
     (let (removed, s) =
        (if is_running_prompt s i then (False, s)
         else case position (editable_queue_meta_matches i expected_version owner) (pending_inputs s) of
           None \<Rightarrow> (False, s)
         | Some pos \<Rightarrow> (True, respond_removed_prompt (in_respond (pending_inputs s ! pos))
             (s\<lparr>pending_inputs := remove_at pos (pending_inputs s)\<rparr>)))
      in (removed, broadcast_queue_changed (release_hold i s)))"

fun bash_meta :: "rstring \<Rightarrow> bool \<Rightarrow> block_meta option" where
  "bash_meta new_text True = Some [(lit ''bash_command'', JString new_text)]"
| "bash_meta new_text False = None"

definition saturating_inc :: "u64 \<Rightarrow> u64" where
  "saturating_inc v = (if v = -1 then v else v + 1)"

definition apply_queued_prompt_edit :: "rstring \<Rightarrow> rstring option \<Rightarrow> input_item \<Rightarrow> input_item" where
  "apply_queued_prompt_edit new_text editor item = item\<lparr>
     in_blocks := TextBlock new_text (bash_meta new_text (extract_bash_command (in_blocks item) \<noteq> None)) #
       filter (\<lambda>b. image_of_block b \<noteq> None) (in_blocks item),
     in_meta := map_option (\<lambda>meta. meta\<lparr>qm_text := new_text, qm_combined_texts := None,
       qm_version := saturating_inc (qm_version meta), qm_last_editor := editor\<rparr>) (in_meta item)\<rparr>"

record send_now_outcome =
  cancel_running_turn :: bool
  mutated :: bool

definition non_blank :: "rstring option \<Rightarrow> rstring option" where
  "non_blank new_text = (case new_text of Some t \<Rightarrow> if trim t = [] then None else Some t | None \<Rightarrow> None)"

definition send_row_now ::
  "queue_env \<Rightarrow> rstring option \<Rightarrow> rstring option \<Rightarrow> nat \<Rightarrow> session_state \<Rightarrow> send_now_outcome \<times> session_state" where
  \<comment> \<open>the branch that found the row: it leaves its place, takes the client's text, and either
      steers the goal or is inserted to run next\<close>
  "send_row_now env owner new_text pos s0 =
     (let cancel_decision = send_now_cancels_running_turn s0 (goal_active env);
          running_front_id = running_prompt_id s0;
          item = pending_inputs s0 ! pos;
          s = s0\<lparr>pending_inputs := remove_at pos (pending_inputs s0)\<rparr>;
          item = (case non_blank new_text of Some t \<Rightarrow> apply_queued_prompt_edit t owner item | None \<Rightarrow> item)
      in if running_front_id \<noteq> None \<and> goal_active env \<and> extract_bash_command (in_blocks item) = None
         then (\<lparr>cancel_running_turn = False, mutated = True\<rparr>,
               enqueue_prompt_as_interjection item QueueSource (enqueue_prompt_as_planner_steering item s))
         else (\<lparr>cancel_running_turn = cancel_decision, mutated = True\<rparr>,
               s\<lparr>pending_inputs := insert_at (send_now_insert_index s running_front_id)
                   (item\<lparr>in_send_now := True\<rparr>) (pending_inputs s)\<rparr>))"

definition save_row_edit ::
  "(input_item \<Rightarrow> bool) \<Rightarrow> rstring option \<Rightarrow> rstring option \<Rightarrow> session_state \<Rightarrow> send_now_outcome \<times> session_state" where
  \<comment> \<open>the fallback: keep the edit of a row that was not sent\<close>
  "save_row_edit row_matches owner new_text s =
     (case (non_blank new_text, position row_matches (pending_inputs s)) of
        (Some t, Some pos) \<Rightarrow> (\<lparr>cancel_running_turn = False, mutated = True\<rparr>,
          s\<lparr>pending_inputs := (pending_inputs s)[pos := apply_queued_prompt_edit t owner (pending_inputs s ! pos)]\<rparr>)
      | _ \<Rightarrow> (\<lparr>cancel_running_turn = False, mutated = False\<rparr>, s))"

definition handle_interject_queued_prompt ::
  "queue_env \<Rightarrow> rstring \<Rightarrow> u64 \<Rightarrow> rstring option \<Rightarrow> rstring option \<Rightarrow> session_state \<Rightarrow> send_now_outcome \<times> session_state" where
  "handle_interject_queued_prompt env i expected_version owner new_text s =
     (let row_matches = editable_queue_meta_matches i expected_version owner;
          running_is_row = (running_prompt_id s = Some i);
          pos = (if running_is_row then None else position row_matches (pending_inputs s));
          (outcome, s) = (case pos of
             Some pos \<Rightarrow> send_row_now env owner new_text pos s
           | None \<Rightarrow>
               if running_is_row then (\<lparr>cancel_running_turn = False, mutated = False\<rparr>, s)
               else save_row_edit row_matches owner new_text s)
      in (outcome, broadcast_queue_changed (release_hold i s)))"

section \<open>Reordering\<close>

definition is_queueable :: "rstring option \<Rightarrow> input_item \<Rightarrow> bool" where
  "is_queueable running_id item \<longleftrightarrow> is_queue_editable item \<and>
     (case in_meta item of None \<Rightarrow> False | Some m \<Rightarrow> running_id \<noteq> Some (qm_id m))"

definition order_key :: "rstring list \<Rightarrow> input_item \<Rightarrow> nat" where
  "order_key ordered_ids item = (case Option.bind (in_meta item) (\<lambda>m. position (\<lambda>x. x = qm_id m) ordered_ids) of
     Some k \<Rightarrow> k | None \<Rightarrow> u64_max)"

fun refill :: "'a option list \<Rightarrow> 'a list \<Rightarrow> 'a list" where
  \<comment> \<open>an empty slot takes the next queued item; when there is none it disappears\<close>
  "refill [] rows = []"
| "refill (Some item # slots) rows = item # refill slots rows"
| "refill (None # slots) [] = refill slots []"
| "refill (None # slots) (item # rows) = item # refill slots rows"

definition reorder_items :: "rstring option \<Rightarrow> rstring list \<Rightarrow> input_item list \<Rightarrow> input_item list" where
  "reorder_items running_id ordered_ids items =
     refill (map (\<lambda>item. if is_queueable running_id item then None else Some item) items)
       (sort_key (order_key ordered_ids) (filter (is_queueable running_id) items))"

definition queue_ids :: "input_item list \<Rightarrow> rstring list" where
  "queue_ids items = List.map_filter (\<lambda>item. map_option qm_id (in_meta item)) items"

definition handle_reorder_queue :: "rstring list \<Rightarrow> session_state \<Rightarrow> bool \<times> session_state" where
  "handle_reorder_queue ordered_ids s =
     (let items = reorder_items (running_prompt_id s) ordered_ids (pending_inputs s)
      in (queue_ids (pending_inputs s) \<noteq> queue_ids items,
          broadcast_queue_changed (s\<lparr>pending_inputs := items\<rparr>)))"

section \<open>Clearing and editing\<close>

definition kept_by_clear :: "rstring option \<Rightarrow> rstring option \<Rightarrow> input_item \<Rightarrow> bool" where
  "kept_by_clear running_id owner item \<longleftrightarrow> \<not> is_queue_editable item \<or> (case in_meta item of
     None \<Rightarrow> True
   | Some meta \<Rightarrow> running_id = Some (qm_id meta) \<or>
       (case owner of Some o' \<Rightarrow> qm_owner meta \<noteq> Some o' | None \<Rightarrow> False))"

fun clear_loop :: "(input_item \<Rightarrow> bool) \<Rightarrow> input_item list \<Rightarrow> bool \<Rightarrow> input_item list \<Rightarrow> session_state \<Rightarrow> bool \<times> session_state" where
  "clear_loop keep kept cleared_any [] s = (cleared_any, s\<lparr>pending_inputs := kept\<rparr>)"
| "clear_loop keep kept cleared_any (item # items) s =
     (if keep item then clear_loop keep (kept @ [item]) cleared_any items s
      else clear_loop keep kept True items (respond_removed_prompt (in_respond item) s))"

definition handle_clear_queue :: "rstring option \<Rightarrow> session_state \<Rightarrow> bool \<times> session_state" where
  "handle_clear_queue owner s =
     (case clear_loop (kept_by_clear (running_prompt_id s) owner) [] False (pending_inputs s) s of
        (cleared_any, s) \<Rightarrow> (cleared_any, broadcast_queue_changed s))"

definition handle_edit_queued_prompt :: "rstring \<Rightarrow> rstring \<Rightarrow> rstring option \<Rightarrow> session_state \<Rightarrow> bool \<times> session_state" where
  "handle_edit_queued_prompt i new_text editor s =
     (let (should_broadcast, s) =
        (if trim new_text = [] then (False, s)
         else if is_running_prompt s i then (False, s)
         else case position (\<lambda>item. is_queue_editable item \<and> has_queue_id i item) (pending_inputs s) of
           Some pos \<Rightarrow> (True, s\<lparr>pending_inputs :=
             (pending_inputs s)[pos := apply_queued_prompt_edit new_text editor (pending_inputs s ! pos)]\<rparr>)
         | None \<Rightarrow> (False, s));
          s = release_hold i s
      in (should_broadcast, if should_broadcast then broadcast_queue_changed s else s))"

definition handle_hold_edit :: "instant \<Rightarrow> rstring \<Rightarrow> session_state \<Rightarrow> session_state" where
  "handle_hold_edit now i s =
     (if has_editable_row s i then s\<lparr>edit_holds := AList.update i now (edit_holds s)\<rparr> else s)"

definition handle_release_edit :: "rstring \<Rightarrow> session_state \<Rightarrow> session_state" where
  "handle_release_edit i s =
     (if has_editable_row s i then s\<lparr>edit_holds := AList.delete i (edit_holds s)\<rparr> else s)"

definition release_hook_block_hold :: "session_state \<Rightarrow> session_state" where
  "release_hook_block_hold s = snd (take_hook_block_hold s)"

section \<open>Combining\<close>

definition first_block_text :: "content_block list \<Rightarrow> rstring" where
  "first_block_text blocks = (case filter (\<lambda>t. t \<noteq> []) (block_texts blocks) of [] \<Rightarrow> [] | t # _ \<Rightarrow> t)"

definition has_display_text :: "content_block \<Rightarrow> bool" where
  "has_display_text b \<longleftrightarrow> display_text b \<noteq> None"

definition combine_gate_of :: "input_item \<Rightarrow> combine_gate" where
  "combine_gate_of item =
     (let is_bash = (extract_bash_command (in_blocks item) \<noteq> None);
          is_plain = (is_queue_editable item \<and> map_option qm_kind (in_meta item) = Some (lit ''prompt'') \<and> \<not> is_bash);
          has_text = list_ex (\<lambda>t. t \<noteq> []) (block_texts (in_blocks item));
          other = list_ex (\<lambda>b. text_of_block b = None \<and> image_of_block b = None) (in_blocks item);
          txt = (case in_meta item of Some m \<Rightarrow> qm_text m | None \<Rightarrow> [])
      in \<lparr>cg_id = in_prompt_id item,
          cg_is_plain_prompt = (is_plain \<and> has_text \<and> \<not> other \<and> in_overrides item = None),
          cg_is_synthetic = is_synthetic (in_origin item),
          cg_is_expanded_skill = list_ex has_display_text (in_blocks item),
          cg_is_bash = is_bash,
          cg_has_images = list_ex (\<lambda>b. image_of_block b \<noteq> None) (in_blocks item),
          cg_text = (if txt = [] then first_block_text (in_blocks item) else txt)\<rparr>)"

definition joined_text_blocks :: "content_block list \<Rightarrow> rstring" where
  "joined_text_blocks blocks = join_texts (block_texts blocks)"

fun append_to_first_text :: "rstring \<Rightarrow> content_block list \<Rightarrow> content_block list" where
  "append_to_first_text extra [] = []"
| "append_to_first_text extra (TextBlock t m # blocks) =
     TextBlock (if t = [] then extra else t @ TEXT_SEPARATOR @ extra) m # blocks"
| "append_to_first_text extra (b # blocks) = b # append_to_first_text extra blocks"

definition append_to_last_text :: "rstring \<Rightarrow> content_block list \<Rightarrow> content_block list" where
  "append_to_last_text extra blocks = rev (append_to_first_text extra (rev blocks))"

fun stamp_first_text :: "rstring list \<Rightarrow> content_block list \<Rightarrow> content_block list" where
  "stamp_first_text segs [] = []"
| "stamp_first_text segs (TextBlock t m # blocks) =
     TextBlock t (Some (stamp_combined_display_texts (case m of Some m \<Rightarrow> m | None \<Rightarrow> []) segs)) # blocks"
| "stamp_first_text segs (b # blocks) = b # stamp_first_text segs blocks"

definition stamp_combined_display_texts_meta :: "input_item \<Rightarrow> input_item" where
  "stamp_combined_display_texts_meta item = (case Option.bind (in_meta item) qm_combined_texts of
     None \<Rightarrow> item
   | Some segs \<Rightarrow> item\<lparr>in_blocks := stamp_first_text segs (in_blocks item)\<rparr>)"

definition append_text_to_prompt :: "rstring \<Rightarrow> input_item \<Rightarrow> input_item" where
  "append_text_to_prompt extra item =
     (if extra = [] then item
      else
        let item = item\<lparr>in_meta := map_option (\<lambda>meta. meta\<lparr>qm_combined_texts := Some
                (case qm_combined_texts meta of Some segs \<Rightarrow> segs @ [extra] | None \<Rightarrow> [qm_text meta, extra])\<rparr>) (in_meta item)\<rparr>;
            item = item\<lparr>in_blocks := append_to_last_text extra (in_blocks item)\<rparr>;
            item = item\<lparr>in_meta := map_option (\<lambda>meta. meta\<lparr>qm_text := queue_text_from_blocks (in_blocks item)\<rparr>) (in_meta item)\<rparr>
        in stamp_combined_display_texts_meta item)"

fun combine_loop :: "nat \<Rightarrow> input_item \<Rightarrow> input_item list \<Rightarrow> session_state \<Rightarrow> input_item list \<times> session_state" where
  \<comment> \<open>absorb the next \<open>n\<close> followers into the front\<close>
  "combine_loop (Suc n) front (item # rest) s =
     combine_loop n (append_text_to_prompt (joined_text_blocks (in_blocks item)) front) rest
       (respond_removed_prompt (in_respond item) s)"
| "combine_loop _ front rest s = (front # rest, s)"

definition combine_front_pending_inputs :: "rstring list \<Rightarrow> session_state \<Rightarrow> session_state" where
  "combine_front_pending_inputs skip_ids s = (case pending_inputs s of
     front # item # rest \<Rightarrow>
       let n = combine_prefix_len (map combine_gate_of (pending_inputs s)) skip_ids
       in if n < 2 then s
          else (case combine_loop (n - 1) front (item # rest) s of
                  (items, s) \<Rightarrow> s\<lparr>pending_inputs := items\<rparr>)
   | _ \<Rightarrow> s)"

text \<open>
  The edit that a send-now without effect is documented to save never takes place: the branch looks
  for the row with the predicate that has just found none.
\<close>

lemma edit_fallback_is_dead:
  "handle_interject_queued_prompt env i expected_version owner new_text s =
     (let row_matches = editable_queue_meta_matches i expected_version owner;
          (outcome, s) = (if running_prompt_id s = Some i then (\<lparr>cancel_running_turn = False, mutated = False\<rparr>, s)
             else case position row_matches (pending_inputs s) of
               None \<Rightarrow> (\<lparr>cancel_running_turn = False, mutated = False\<rparr>, s)
             | Some pos \<Rightarrow> send_row_now env owner new_text pos s)
      in (outcome, broadcast_queue_changed (release_hold i s)))"
  by (simp add: handle_interject_queued_prompt_def save_row_edit_def Let_def split: option.split)

end
