(* ===== verification/Session_Turns.thy ===== *)
theory Session_Turns
  imports Queue_Commands
begin

text \<open>
  Turns of a session: starting the front of the queue (\<open>maybe_start_running_task\<close> of
  \<open>notification_drain.rs\<close>), the finalization gate (\<open>turn_task.rs\<close>), the completion of a
  turn (\<open>turn_end.rs\<close>) and the messages of a parent agent (\<open>parent_message.rs\<close>), which
  live in the lifecycle of \<open>Message_Delivery\<close> while a turn runs and fall back to the queue
  when it ends.  The commands are handled one after the other, so a completion is one step.
\<close>

section \<open>The finalization gate\<close>

datatype finalization_binding = BoundTask rstring u64 nat | NoTask "rstring option"

record finalization_lease =
  lease_token :: u64
  lease_binding :: finalization_binding
  lease_finished :: bool

fun matches_task :: "finalization_binding \<Rightarrow> agent_task \<Rightarrow> bool" where
  "matches_task (BoundTask pid ep ident) task \<longleftrightarrow>
     task_prompt_id task = pid \<and> task_epoch task = ep \<and> task_identity task = ident"
| "matches_task (NoTask _) task \<longleftrightarrow> False"

definition gate_claim :: "finalization_binding \<Rightarrow> session_state \<Rightarrow> finalization_lease option \<times> session_state" where
  "gate_claim bd s = (let g = Session_Queue.finalization_gate s in
     if gate_active g \<noteq> None then (None, s)
     else let token = next_token g + 1
          in (Some \<lparr>lease_token = token, lease_binding = bd, lease_finished = False\<rparr>,
              s\<lparr>finalization_gate := \<lparr>next_token = token, gate_active = Some token\<rparr>\<rparr>))"

definition gate_is_active :: "session_state \<Rightarrow> bool" where
  "gate_is_active s \<longleftrightarrow> gate_active (Session_Queue.finalization_gate s) \<noteq> None"

definition front_prompt_id :: "session_state \<Rightarrow> rstring option" where
  "front_prompt_id s = (case pending_inputs s of [] \<Rightarrow> None | item # _ \<Rightarrow> Some (in_prompt_id item))"

definition task_matches :: "finalization_binding \<Rightarrow> session_state \<Rightarrow> bool" where
  "task_matches bd s = (case running_task s of None \<Rightarrow> False | Some task \<Rightarrow> matches_task bd task)"

definition claim_task_finalization ::
  "rstring \<Rightarrow> u64 \<Rightarrow> nat \<Rightarrow> session_state \<Rightarrow> finalization_lease option \<times> session_state" where
  "claim_task_finalization pid ep ident s =
     (if front_prompt_id s \<noteq> Some pid \<or> \<not> task_matches (BoundTask pid ep ident) s then (None, s)
      else gate_claim (BoundTask pid ep ident) s)"

definition claim_cancel_finalization :: "session_state \<Rightarrow> finalization_lease option \<times> session_state" where
  "claim_cancel_finalization s = (case running_task s of
     Some task \<Rightarrow>
       if front_prompt_id s \<noteq> Some (task_prompt_id task) then (None, s)
       else gate_claim (BoundTask (task_prompt_id task) (task_epoch task) (task_identity task)) s
   | None \<Rightarrow> gate_claim (NoTask (front_prompt_id s)) s)"

definition finalization_matches :: "finalization_lease \<Rightarrow> session_state \<Rightarrow> bool" where
  "finalization_matches lease s \<longleftrightarrow> gate_active (Session_Queue.finalization_gate s) = Some (lease_token lease)"

definition finalization_binding_is_current :: "finalization_lease \<Rightarrow> session_state \<Rightarrow> bool" where
  "finalization_binding_is_current lease s \<longleftrightarrow> finalization_matches lease s \<and>
     (case lease_binding lease of
        BoundTask pid _ _ \<Rightarrow> front_prompt_id s = Some pid \<and> task_matches (lease_binding lease) s
      | NoTask pid \<Rightarrow> running_task s = None \<and> front_prompt_id s = pid)"

definition release_finalizing_task :: "finalization_lease \<Rightarrow> session_state \<Rightarrow> bool \<times> session_state" where
  "release_finalizing_task lease s =
     (if \<not> finalization_matches lease s then (False, s)
      else if task_matches (lease_binding lease) s then (True, s\<lparr>running_task := None\<rparr>)
      else (False, s))"

definition finish_finalization :: "finalization_lease \<Rightarrow> session_state \<Rightarrow> bool \<times> session_state" where
  "finish_finalization lease s =
     (if \<not> finalization_matches lease s \<or> running_task s \<noteq> None then (False, s)
      else (True, s\<lparr>finalization_gate := (Session_Queue.finalization_gate s)\<lparr>gate_active := None\<rparr>\<rparr>))"

definition finish_finalization_lease :: "finalization_lease \<Rightarrow> session_state \<Rightarrow> bool \<times> session_state" where
  "finish_finalization_lease lease s = (case lease_binding lease of
     BoundTask _ _ _ \<Rightarrow> (case release_finalizing_task lease s of
        (False, s) \<Rightarrow> (False, s) | (True, s) \<Rightarrow> finish_finalization lease s)
   | NoTask _ \<Rightarrow> finish_finalization lease s)"

section \<open>Starting a turn\<close>

record start_env =
  goal_loop_active :: bool
  is_unreported_completion :: "rstring \<Rightarrow> nat \<Rightarrow> bool"
  combine_queued :: bool
  start_now :: instant

definition rsplit_once :: "rchar \<Rightarrow> rstring \<Rightarrow> (rstring \<times> rstring) option" where
  "rsplit_once c t = (if c \<in> set t
     then Some (butlast (rev (dropWhile (\<lambda>x. x \<noteq> c) (rev t))), rev (takeWhile (\<lambda>x. x \<noteq> c) (rev t))) else None)"

definition stale_front :: "start_env \<Rightarrow> input_item \<Rightarrow> bool" where
  "stale_front env item = (case in_origin item of
     WorkflowCompleted cid \<Rightarrow> (case rsplit_once 45 cid of
        None \<Rightarrow> True
      | Some (run_id, revision) \<Rightarrow> (case parse_uint u64_max revision of
          None \<Rightarrow> True
        | Some r \<Rightarrow> \<not> is_unreported_completion env run_id r))
   | GoalSummary \<Rightarrow> \<not> goal_loop_active env
   | GoalClassifierNudge \<Rightarrow> \<not> goal_loop_active env
   | _ \<Rightarrow> False)"

fun drop_stale :: "start_env \<Rightarrow> input_item list \<Rightarrow> session_state \<Rightarrow> session_state" where
  "drop_stale env [] s = s\<lparr>pending_inputs := []\<rparr>"
| "drop_stale env (item # items) s =
     (if stale_front env item then drop_stale env items (respond_removed_prompt (in_respond item) s)
      else s\<lparr>pending_inputs := item # items\<rparr>)"

definition expire_older_than :: "instant \<Rightarrow> (rstring \<times> instant) list \<Rightarrow> (rstring \<times> instant) list" where
  "expire_older_than now holds = filter (\<lambda>(_, since). elapsed now since < EDIT_HOLD_TTL) holds"

definition prune_holds :: "instant \<Rightarrow> session_state \<Rightarrow> session_state" where
  "prune_holds now s = s\<lparr>edit_holds :=
     expire_older_than now (filter (\<lambda>(i, _). i \<in> in_prompt_id ` set (pending_inputs s)) (edit_holds s))\<rparr>"

definition front_held :: "session_state \<Rightarrow> bool" where
  "front_held s = (case pending_inputs s of [] \<Rightarrow> False
     | front # _ \<Rightarrow> in_prompt_id front \<in> fst ` set (edit_holds s))"

definition start_front :: "session_state \<Rightarrow> session_state" where
  \<comment> \<open>promote the front of the queue to the running turn\<close>
  "start_front s = (case pending_inputs s of
     [] \<Rightarrow> s
   | front # rest \<Rightarrow>
       let s = s\<lparr>pending_inputs := front\<lparr>in_overrides := None\<rparr> # rest\<rparr>;
           s = (case in_overrides front of None \<Rightarrow> s | Some u \<Rightarrow> emit (ApplyToolOverrides u) s);
           s = (if is_human_intent (authority (origin_policy (in_origin front)))
                then (emit ClearWakeSuppression s)\<lparr>notifications_suppressed := False\<rparr> else s);
           s = emit (SetCurrentPromptId (in_prompt_id front)) s;
           s = s\<lparr>rewindable := True, front_message_committed := False\<rparr>;
           s = broadcast_queue_changed_promoting (running_display_from_item front) s;
           ep = turn_epoch s + 1
       in s\<lparr>turn_epoch := ep, next_identity := Suc (next_identity s),
            running_task := Some \<lparr>task_prompt_id = in_prompt_id front, task_epoch = ep,
              task_identity = next_identity s\<rparr>\<rparr>)"

definition maybe_start_running_task :: "start_env \<Rightarrow> session_state \<Rightarrow> session_state" where
  "maybe_start_running_task env s =
     (if running_task s \<noteq> None \<or> gate_is_active s \<or> pending_inputs s = [] then s
      else if hook_block_held s then s
      else
        let s = prune_holds (start_now env) (drop_stale env (pending_inputs s) s)
        in if front_held s then s
           else start_front
             (if combine_queued env then combine_front_pending_inputs (map fst (edit_holds s)) s else s))"

section \<open>Messages of the parent agent\<close>

definition parent_input :: "rstring \<Rightarrow> parent_message \<Rightarrow> nat \<Rightarrow> input_item" where
  \<comment> \<open>\<open>into_input\<close>\<close>
  "parent_input sender m respond_to =
     (let blocks = [TextBlock (pm_text m) None] in
      \<lparr>in_prompt_id = pm_prompt_id m, in_blocks = blocks, in_client = None,
       in_origin = ParentAgentMessage (pm_message_id m) sender, in_overrides = None, in_respond = respond_to,
       in_meta = Some \<lparr>qm_id = pm_prompt_id m, qm_version = 0, qm_owner = None, qm_last_editor = None,
          qm_kind = lit ''parent_agent_message'', qm_text = queue_text_from_blocks blocks, qm_combined_texts = None\<rparr>,
       in_policy = \<lparr>qp_visible = True, qp_editable = False\<rparr>, in_send_now = False\<rparr>)"

definition fallback_input :: "(rstring, rstring, parent_message, nat, rstring, u64) owned_delivery \<Rightarrow> input_item" where
  "fallback_input d = parent_input (source (message d)) (content (message d)) (completion d)"

definition transition_parent_messages ::
  "(rstring, u64) terminal_target \<Rightarrow> terminal_cause \<Rightarrow> session_state \<Rightarrow>
     ((rstring, rstring, parent_message, nat, rstring, u64) owned_delivery list \<times> bool) \<times> session_state" where
  "transition_parent_messages tgt cause s = (case transition tgt cause (message_delivery s) of
     (tr, slots) \<Rightarrow> ((completions tr, fallbacks tr \<noteq> []),
       s\<lparr>message_delivery := slots,
         pending_inputs := pending_inputs s @ map fallback_input (fallbacks tr)\<rparr>))"

definition settle_parent_message_completions ::
  "(rstring, rstring, parent_message, nat, rstring, u64) owned_delivery list \<Rightarrow> turn_result \<Rightarrow> session_state \<Rightarrow> session_state" where
  "settle_parent_message_completions ds r = fold (\<lambda>d. emit (Reply (completion d) r)) ds"

definition task_binding :: "agent_task \<Rightarrow> (rstring, u64) turn_binding" where
  "task_binding task = \<lparr>prompt_id = task_prompt_id task, epoch = task_epoch task\<rparr>"

definition contains_queued_identity :: "session_state \<Rightarrow> rstring \<Rightarrow> bool" where
  "contains_queued_identity s i = list_ex (\<lambda>item. case in_origin item of
     ParentAgentMessage m _ \<Rightarrow> m = i | _ \<Rightarrow> False) (pending_inputs s)"

definition MAX_PARENT_STEER_SLOTS :: nat where "MAX_PARENT_STEER_SLOTS = 32"

datatype admission = Admitted | Rejected

definition admit_parent_agent_message ::
  "bool \<Rightarrow> operation \<Rightarrow> rstring \<Rightarrow> rstring \<Rightarrow> rstring \<Rightarrow> nat \<Rightarrow> session_state \<Rightarrow> admission \<times> session_state" where
  \<comment> \<open>\<open>grant\<close>: whether the sender's admission commits; the operation is \<open>Queue\<close> or \<open>Steer\<close>\<close>
  "admit_parent_agent_message grant requested message_id sender txt respond_to s =
     (let m = \<lparr>pm_prompt_id = lit ''parent-message-'' @ message_id, pm_message_id = message_id, pm_text = txt\<rparr>;
          effective = (if requested = Steer \<and> running_task s \<noteq> None then Steer else Queue)
      in if contains_identity message_id (message_delivery s) \<or> contains_queued_identity s message_id then (Rejected, s)
         else if effective = Steer \<and> length (message_delivery s) \<ge> MAX_PARENT_STEER_SLOTS then (Rejected, s)
         else if \<not> grant then (Rejected, s)
         else (Admitted, case (effective, running_task s) of
           (Steer, Some task) \<Rightarrow> s\<lparr>message_delivery := snd (admit_pending (task_binding task)
               \<lparr>identity = message_id, source = sender, content = m\<rparr> respond_to (message_delivery s))\<rparr>
         | _ \<Rightarrow> commit_queued_delivery (parent_input sender m respond_to) s))"

definition drain_parent_messages_at_safe_point ::
  "bool \<Rightarrow> ((rstring, rstring, parent_message) delivery_message list \<Rightarrow> (unit, unit) result) \<Rightarrow> session_state \<Rightarrow> bool \<times> session_state" where
  \<comment> \<open>\<open>flushed\<close>: whether the persistence barrier succeeded; \<open>commit\<close>: the persistence and
      chat-state updates\<close>
  "drain_parent_messages_at_safe_point flushed commit s = (case running_task s of
     None \<Rightarrow> (False, s)
   | Some task \<Rightarrow> (case begin_delivery (task_binding task) (message_delivery s) of
       (msgs, slots) \<Rightarrow>
         if msgs = [] then (False, s\<lparr>message_delivery := slots\<rparr>)
         else if \<not> flushed then (False, s\<lparr>message_delivery := slots\<rparr>)
         else (case finish_delivery (task_binding task) commit slots of
                 (Inl _, slots) \<Rightarrow> (False, s\<lparr>message_delivery := slots\<rparr>)
               | (Inr delivered, slots) \<Rightarrow> (delivered \<noteq> [], s\<lparr>message_delivery := slots\<rparr>))))"

section \<open>Completion\<close>

definition finalizes :: "turn_result \<Rightarrow> bool" where
  "finalizes r \<longleftrightarrow> r \<noteq> TurnOk RemovedFromQueue"

definition pop_completed :: "rstring \<Rightarrow> turn_result \<Rightarrow> session_state \<Rightarrow> (bool \<times> bool) \<times> session_state" where
  \<comment> \<open>the first result says whether this completion owned the front, the second whether the
      queue has to be broadcast\<close>
  "pop_completed pid r s = (case pending_inputs s of
     front # rest \<Rightarrow>
       if in_prompt_id front = pid
       then ((True, in_meta front \<noteq> None), emit (Reply (in_respond front) r) (s\<lparr>pending_inputs := rest\<rparr>))
       else ((False, False), s)
   | [] \<Rightarrow> ((False, False), s))"

definition handle_completion :: "rstring \<Rightarrow> u64 \<Rightarrow> nat \<Rightarrow> turn_result \<Rightarrow> session_state \<Rightarrow> bool \<times> session_state" where
  "handle_completion pid ep ident r s0 = (case claim_task_finalization pid ep ident s0 of
     (None, s) \<Rightarrow> (False, s)
   | (Some lease, s) \<Rightarrow>
       let ((owned_completion, broadcast_queue), s) = pop_completed pid r s;
           ((message_completions, had_fallbacks), s) =
             transition_parent_messages (TurnTarget \<lparr>prompt_id = pid, epoch = ep\<rparr>) Completion s;
           finalizes_turn = (owned_completion \<and> finalizes r);
           notice = (finalizes_turn \<and> hook_block_held s \<and> pending_inputs s \<noteq> [] \<and>
             r = TurnOk (Cancelled (Some HookDenied)));
           held = length (pending_inputs s);
           s = (if broadcast_queue \<or> had_fallbacks then broadcast_queue_changed s else s);
           s = settle_parent_message_completions message_completions r s;
           s = (if notice then emit (HeldRowsNotice held) s else s);
           s = (if finalizes_turn then emit (EmitTurnCompleted pid r) s else s)
       in (case finish_finalization_lease lease s of
             (False, s) \<Rightarrow> (False, s) | (True, s) \<Rightarrow> (owned_completion, s)))"

end
