(* ===== verification/Session_Invariants.thy ===== *)
theory Session_Invariants
  imports Session_Turns "HOL-Library.Multiset"
begin

text \<open>
  The invariant of a session between commands, and that every operation of the queue and of the
  turns keeps it: the turn that runs is the front of the queue, so that its completion pops exactly
  its own row; the finalization gate is open; a row that clients may edit is a visible user row
  whose wire id is its prompt id.
\<close>

section \<open>Frames\<close>

named_theorems session_frame "fields an operation does not touch"

lemma emit_frame [simp, session_frame]:
  "pending_inputs (emit e s) = pending_inputs s" "running_task (emit e s) = running_task s"
  "finalization_gate (emit e s) = finalization_gate s" "message_delivery (emit e s) = message_delivery s"
  "edit_holds (emit e s) = edit_holds s" "hook_block_held (emit e s) = hook_block_held s"
  "pending_interjections (emit e s) = pending_interjections s" "session_id (emit e s) = session_id s"
  "turn_epoch (emit e s) = turn_epoch s" "next_identity (emit e s) = next_identity s"
  "outbox (emit e s) = outbox s @ [e]"
  by (simp_all add: emit_def)

lemma running_prompt_emit [simp]: "running_prompt_id (emit e s) = running_prompt_id s"
  by (simp add: running_prompt_id_def)

lemma gate_emit [simp]: "gate_is_active (emit e s) \<longleftrightarrow> gate_is_active s"
  by (simp add: gate_is_active_def)

lemma fold_emit_frame [simp]:
  "pending_inputs (fold (\<lambda>x. emit (f x)) xs s) = pending_inputs s"
  "running_task (fold (\<lambda>x. emit (f x)) xs s) = running_task s"
  "finalization_gate (fold (\<lambda>x. emit (f x)) xs s) = finalization_gate s"
  "message_delivery (fold (\<lambda>x. emit (f x)) xs s) = message_delivery s"
  "pending_interjections (fold (\<lambda>x. emit (f x)) xs s) = pending_interjections s"
  by (induction xs arbitrary: s) simp_all

lemma broadcast_eq: "\<exists>p. broadcast_queue_changed s = emit (Broadcast p) s"
  unfolding broadcast_queue_changed_def broadcast_queue_changed_inner_def by blast

lemma broadcast_frame [simp]:
  "pending_inputs (broadcast_queue_changed s) = pending_inputs s"
  "running_task (broadcast_queue_changed s) = running_task s"
  "finalization_gate (broadcast_queue_changed s) = finalization_gate s"
  "message_delivery (broadcast_queue_changed s) = message_delivery s"
  "pending_interjections (broadcast_queue_changed s) = pending_interjections s"
  "running_prompt_id (broadcast_queue_changed s) = running_prompt_id s"
  "gate_is_active (broadcast_queue_changed s) = gate_is_active s"
  by (simp_all add: broadcast_queue_changed_def broadcast_queue_changed_inner_def)

lemma respond_frame [simp]:
  "pending_inputs (respond_removed_prompt k s) = pending_inputs s"
  "running_task (respond_removed_prompt k s) = running_task s"
  "finalization_gate (respond_removed_prompt k s) = finalization_gate s"
  "message_delivery (respond_removed_prompt k s) = message_delivery s"
  "pending_interjections (respond_removed_prompt k s) = pending_interjections s"
  "running_prompt_id (respond_removed_prompt k s) = running_prompt_id s"
  by (simp_all add: respond_removed_prompt_def)

lemma release_hold_frame [simp]:
  "pending_inputs (release_hold i s) = pending_inputs s"
  "running_task (release_hold i s) = running_task s"
  "finalization_gate (release_hold i s) = finalization_gate s"
  "message_delivery (release_hold i s) = message_delivery s"
  "pending_interjections (release_hold i s) = pending_interjections s"
  "outbox (release_hold i s) = outbox s"
  by (simp_all add: release_hold_def)

lemma interjection_frame [simp]:
  "pending_inputs (enqueue_prompt_as_interjection item src s) = pending_inputs s"
  "running_task (enqueue_prompt_as_interjection item src s) = running_task s"
  "finalization_gate (enqueue_prompt_as_interjection item src s) = finalization_gate s"
  "message_delivery (enqueue_prompt_as_interjection item src s) = message_delivery s"
  by (simp_all add: enqueue_prompt_as_interjection_def Let_def)

lemma steering_frame [simp]:
  "pending_inputs (enqueue_prompt_as_planner_steering item s) = pending_inputs s"
  "running_task (enqueue_prompt_as_planner_steering item s) = running_task s"
  "finalization_gate (enqueue_prompt_as_planner_steering item s) = finalization_gate s"
  "message_delivery (enqueue_prompt_as_planner_steering item s) = message_delivery s"
  "pending_interjections (enqueue_prompt_as_planner_steering item s) = pending_interjections s"
  by (simp_all add: enqueue_prompt_as_planner_steering_def)

lemma announce_frame [simp]:
  "pending_inputs (announce_input env rq s) = pending_inputs s"
  "running_task (announce_input env rq s) = running_task s"
  "finalization_gate (announce_input env rq s) = finalization_gate s"
  "message_delivery (announce_input env rq s) = message_delivery s"
  "pending_interjections (announce_input env rq s) = pending_interjections s"
  by (simp_all add: announce_input_def Let_def split: prompt_origin.split)

section \<open>The invariant\<close>

definition ok_item :: "input_item \<Rightarrow> bool" where
  "ok_item item \<longleftrightarrow> (\<forall>m. in_meta item = Some m \<longrightarrow> qm_id m = in_prompt_id item) \<and>
     (is_queue_editable item \<longrightarrow> in_meta item \<noteq> None \<and> is_queue_visible item \<and> in_origin item = User)"

definition front_inv :: "rstring option \<Rightarrow> input_item list \<Rightarrow> bool" where
  "front_inv running items \<longleftrightarrow> (case running of None \<Rightarrow> True
     | Some pid \<Rightarrow> items \<noteq> [] \<and> in_prompt_id (hd items) = pid)"

definition session_inv :: "session_state \<Rightarrow> bool" where
  "session_inv s \<longleftrightarrow> front_inv (running_prompt_id s) (pending_inputs s) \<and> \<not> gate_is_active s \<and>
     list_all ok_item (pending_inputs s)"

lemma ok_item_simps [simp]:
  "ok_item (item\<lparr>in_send_now := b\<rparr>) = ok_item item" "ok_item (item\<lparr>in_overrides := v\<rparr>) = ok_item item"
  "ok_item (item\<lparr>in_blocks := bs\<rparr>) = ok_item item"
  by (simp_all add: ok_item_def is_queue_editable_def is_queue_visible_def)

lemma ok_item_edit [simp]: "ok_item (apply_queued_prompt_edit t e item) \<longleftrightarrow> ok_item item"
  by (cases "in_meta item")
     (simp_all add: apply_queued_prompt_edit_def ok_item_def is_queue_editable_def is_queue_visible_def)

lemma edit_prompt_id [simp]: "in_prompt_id (apply_queued_prompt_edit t e item) = in_prompt_id item"
  "in_respond (apply_queued_prompt_edit t e item) = in_respond item"
  by (simp_all add: apply_queued_prompt_edit_def)

lemma ok_item_request [simp]: "ok_item (item_of_request rq)"
  using origin_editable_iff [of "rq_origin rq"] origin_visible_iff [of "rq_origin rq"]
  by (auto simp: ok_item_def item_of_request_def Let_def is_queue_editable_def is_queue_visible_def)

lemma ok_item_parent [simp]: "ok_item (parent_input sender m k)" "ok_item (fallback_input d)"
  by (simp_all add: ok_item_def parent_input_def fallback_input_def Let_def is_queue_editable_def)

lemma front_inv_Cons [simp]: "front_inv running (x # xs) \<longleftrightarrow> running = None \<or> running = Some (in_prompt_id x)"
  by (auto simp: front_inv_def split: option.split)

lemma front_inv_None [simp]: "front_inv None items"
  by (simp add: front_inv_def)

lemma front_inv_append: "front_inv running xs \<Longrightarrow> front_inv running (xs @ ys)"
  by (cases running) (auto simp: front_inv_def)

lemma front_is_running_iff:
  "front_is_running s running \<longleftrightarrow> running \<noteq> None \<and> pending_inputs s \<noteq> [] \<and> front_inv running (pending_inputs s)"
  by (auto simp: front_is_running_def front_inv_def split: list.split option.split)

lemma front_inv_filter:
  assumes "front_inv running xs" and "\<And>x. running = Some (in_prompt_id x) \<Longrightarrow> x \<in> set xs \<Longrightarrow> P x"
  shows "front_inv running (filter P xs)"
  using assms by (cases running; cases xs) (auto simp: front_inv_def)

lemma front_inv_insert:
  assumes "front_inv running (pending_inputs s)"
  shows "front_inv running (insert_at (send_now_insert_index s running) item (pending_inputs s))"
    and "front_inv running (insert_at (if front_is_running s running then 1 else 0) item (pending_inputs s))"
  using assms
  by (cases running; cases "pending_inputs s";
      simp add: send_now_insert_index_def front_is_running_iff insert_at_def front_inv_def Let_def)+

lemma front_inv_remove:
  assumes "front_inv running xs" and "position P xs = Some i"
    and "\<And>x. running = Some (in_prompt_id x) \<Longrightarrow> x \<in> set xs \<Longrightarrow> \<not> P x"
  shows "front_inv running (remove_at i xs)"
  using assms(2)
proof (rule position_Some_split)
  fix ys x zs
  assume xs: "xs = ys @ x # zs" "length ys = i" "P x"
  then have "remove_at i xs = ys @ zs" by simp
  then show ?thesis using assms(1,3) xs by (cases running; cases ys) (auto simp: front_inv_def)
qed

lemma front_inv_update:
  assumes "front_inv running xs" and "in_prompt_id y = in_prompt_id (xs ! i)"
  shows "front_inv running (xs[i := y])"
  using assms by (cases running; cases xs; cases i) (auto simp: front_inv_def)

lemma set_remove_at: "set (remove_at i xs) \<subseteq> set xs"
  by (auto simp: remove_at_def dest: in_set_takeD in_set_dropD)

lemma session_invI:
  assumes "session_inv s" and "running_task s' = running_task s" and "finalization_gate s' = finalization_gate s"
    and "front_inv (running_prompt_id s) (pending_inputs s')" and "list_all ok_item (pending_inputs s')"
  shows "session_inv s'"
  using assms by (simp add: session_inv_def running_prompt_id_def gate_is_active_def)

lemma session_inv_same:
  assumes "session_inv s" and "running_task s' = running_task s" and "finalization_gate s' = finalization_gate s"
    and "pending_inputs s' = pending_inputs s"
  shows "session_inv s'"
  using assms by (simp add: session_inv_def running_prompt_id_def gate_is_active_def)

lemma session_invD:
  assumes "session_inv s"
  shows "front_inv (running_prompt_id s) (pending_inputs s)" "\<not> gate_is_active s"
    "item \<in> set (pending_inputs s) \<Longrightarrow> ok_item item" "list_all ok_item (pending_inputs s)"
  using assms by (auto simp: session_inv_def list_all_iff)

section \<open>Every operation keeps the invariant\<close>

lemma preempt_frame [simp]:
  "running_task (preempt_runtime_wakes s) = running_task s"
  "finalization_gate (preempt_runtime_wakes s) = finalization_gate s"
  "message_delivery (preempt_runtime_wakes s) = message_delivery s"
  by (simp_all add: preempt_runtime_wakes_def sweep_pending_inputs_def Let_def)

lemma preempt_pending:
  "pending_inputs (preempt_runtime_wakes s) = filter (\<lambda>i. \<not> (preempt_armed s \<and>
     running_prompt_id s \<noteq> Some (in_prompt_id i) \<and> is_preemptible_runtime_wake (in_origin i))) (pending_inputs s)"
  by (simp add: preempt_runtime_wakes_def sweep_pending_inputs_def Let_def)

lemma update_pending_frame [simp]:
  "running_prompt_id (s\<lparr>pending_inputs := items\<rparr>) = running_prompt_id s"
  "running_prompt_id (s\<lparr>pending_interjections := q\<rparr>) = running_prompt_id s"
  "gate_is_active (s\<lparr>pending_inputs := items\<rparr>) = gate_is_active s"
  "front_is_running (emit e s) running = front_is_running s running"
  "front_is_running (s\<lparr>pending_interjections := q\<rparr>) running = front_is_running s running"
  by (simp_all add: running_prompt_id_def gate_is_active_def front_is_running_def)

lemma preempt_inv:
  assumes "session_inv s"
  shows "session_inv (preempt_runtime_wakes s)"
proof (rule session_invI [OF assms])
  show "front_inv (running_prompt_id s) (pending_inputs (preempt_runtime_wakes s))"
    unfolding preempt_pending by (rule front_inv_filter [OF session_invD(1) [OF assms]]) simp
  show "list_all ok_item (pending_inputs (preempt_runtime_wakes s))"
    using session_invD(4) [OF assms] by (auto simp: preempt_pending list_all_iff)
qed simp_all

lemma announce_inv: "session_inv s \<Longrightarrow> session_inv (announce_input env rq s)"
  by (erule session_inv_same) simp_all

lemma insert_now_inv:
  assumes "session_inv s" and "ok_item item"
  shows "session_inv (s\<lparr>pending_inputs := insert_at (send_now_insert_index s (running_prompt_id s)) item (pending_inputs s)\<rparr>)"
proof (rule session_invI [OF assms(1)])
  show "list_all ok_item (pending_inputs (s\<lparr>pending_inputs :=
      insert_at (send_now_insert_index s (running_prompt_id s)) item (pending_inputs s)\<rparr>))"
    using assms session_invD(4) [OF assms(1)] by (simp add: list_all_iff)
qed (simp_all add: front_inv_insert session_invD(1) [OF assms(1)])

lemma commit_inv:
  assumes "session_inv s" and "ok_item item"
  shows "session_inv (commit_queued_delivery item s)"
  by (rule session_invI [OF assms(1)])
     (simp_all add: commit_queued_delivery_def front_inv_append session_invD(1,4) [OF assms(1)] assms(2))

lemma interjection_inv: "session_inv s \<Longrightarrow> session_inv (enqueue_prompt_as_interjection item src s)"
  by (erule session_inv_same) simp_all

lemma steering_inv: "session_inv s \<Longrightarrow> session_inv (enqueue_prompt_as_planner_steering item s)"
  by (erule session_inv_same) simp_all

lemma broadcast_inv: "session_inv s \<Longrightarrow> session_inv (broadcast_queue_changed s)"
  by (erule session_inv_same) simp_all

lemma queue_input_inv:
  assumes "session_inv s"
  shows "session_inv (snd (queue_input env rq s))"
proof -
  define s1 where "s1 = (let s = announce_input env rq s in
    if is_human_intent (authority (origin_policy (rq_origin rq))) then preempt_runtime_wakes s else s)"
  have s1: "session_inv s1" using assms by (simp add: s1_def Let_def announce_inv preempt_inv)
  have "session_inv (s1\<lparr>pending_inputs := insert_at (send_now_insert_index s1 (running_prompt_id s1))
      ((item_of_request rq)\<lparr>in_send_now := True\<rparr>) (pending_inputs s1)\<rparr>)"
    by (rule insert_now_inv [OF s1]) simp
  moreover note s1 [THEN steering_inv, THEN interjection_inv] commit_inv [OF s1 ok_item_request]
  ultimately show ?thesis
    unfolding queue_input_def Let_def s1_def [unfolded Let_def, symmetric]
    by (simp add: broadcast_inv)
qed

lemma fallback_prompt_inv:
  assumes "session_inv s"
  shows "session_inv (queue_interjection_fallback_prompt uuid k txt images front s)"
proof -
  define item where "item = \<lparr>in_prompt_id = lit ''interject-fallback-'' @ uuid,
    in_blocks = TextBlock txt None # map ImageBlock images, in_client = None, in_origin = User,
    in_overrides = None, in_respond = k, in_meta = None, in_policy = qp_hidden, in_send_now = front\<rparr>"
  have "ok_item item" by (simp add: item_def ok_item_def is_queue_editable_def qp_hidden_def)
  then show ?thesis
    unfolding queue_interjection_fallback_prompt_def Let_def item_def [symmetric]
    using session_invD(1,4) [OF assms]
    by (intro session_invI [OF assms]) (auto simp: front_inv_insert front_inv_append list_all_iff)
qed

lemma fallback_fold_inv:
  "session_inv s \<Longrightarrow> session_inv (fold (\<lambda>(entry, uuid, respond). queue_interjection_fallback_prompt uuid respond
     (ij_text entry) (ij_attachments entry) True) es s)"
  by (induction es arbitrary: s) (auto simp: fallback_prompt_inv)

lemma flush_inv:
  assumes "session_inv s"
  shows "session_inv (snd (flush_stranded_interjections fresh s))"
  unfolding flush_stranded_interjections_def queue_drain_all_def prod.case snd_conv
  by (rule fallback_fold_inv, rule session_inv_same [OF assms]) simp_all

lemma promote_loop_keeps:
  "front_inv running items \<Longrightarrow> front_inv running (snd (promote_loop running owner holds items))"
  "mset (fst (promote_loop running owner holds items)) + mset (snd (promote_loop running owner holds items)) = mset items"
proof (induction running owner holds items rule: promote_loop.induct)
  case (1 running owner holds items)
  {
    case 1
    show ?case
    proof (cases "position (promotable_row running) items")
      case (Some pos)
      have "front_inv running (remove_at pos items)"
        by (rule front_inv_remove [OF 1 Some]) (simp add: promotable_row_def)
      with Some "1.IH"(1) 1 show ?thesis
        by (subst promote_loop.simps) (auto split: prod.split)
    qed (simp add: promote_loop.simps 1)
  next
    case 2
    show ?case
    proof (cases "position (promotable_row running) items")
      case (Some pos)
      then obtain ys x zs where split: "items = ys @ x # zs" "length ys = pos" by (rule position_Some_split)
      show ?thesis
      proof (cases "stops_promotion owner holds (items ! pos)")
        case False
        with "1.IH"(2) [OF Some] split
        have "mset (fst (promote_loop running owner holds (ys @ zs))) +
            mset (snd (promote_loop running owner holds (ys @ zs))) = mset (ys @ zs)" by auto
        with Some False split show ?thesis
          by (subst (1 2) promote_loop.simps) (auto simp: nth_append split: prod.split)
      qed (subst (1 2) promote_loop.simps, simp add: Some)
    qed (simp add: promote_loop.simps)
  }
qed

lemma fold_interjection_frame [simp]:
  "pending_inputs (fold (\<lambda>item s. enqueue_prompt_as_interjection item src (if g then enqueue_prompt_as_planner_steering item s else s)) xs s) = pending_inputs s"
  "running_task (fold (\<lambda>item s. enqueue_prompt_as_interjection item src (if g then enqueue_prompt_as_planner_steering item s else s)) xs s) = running_task s"
  "finalization_gate (fold (\<lambda>item s. enqueue_prompt_as_interjection item src (if g then enqueue_prompt_as_planner_steering item s else s)) xs s) = finalization_gate s"
  "message_delivery (fold (\<lambda>item s. enqueue_prompt_as_interjection item src (if g then enqueue_prompt_as_planner_steering item s else s)) xs s) = message_delivery s"
  by (induction xs arbitrary: s) simp_all

lemma promote_eq:
  "\<exists>promoted rest. mset promoted + mset rest = mset (pending_inputs s) \<and>
     (front_inv (running_prompt_id s) (pending_inputs s) \<longrightarrow> front_inv (running_prompt_id s) rest) \<and>
     (promote_queued_as_interjections env s = s \<or>
      promote_queued_as_interjections env s = broadcast_queue_changed (fold (\<lambda>item s.
        enqueue_prompt_as_interjection item QueueSource
          (if goal_active env then enqueue_prompt_as_planner_steering item s else s)) promoted (s\<lparr>pending_inputs := rest\<rparr>)))"
proof (cases "running_prompt_id s")
  case None
  then show ?thesis
    by (intro exI [of _ "[]"] exI [of _ "pending_inputs s"]) (simp add: promote_queued_as_interjections_def)
next
  case (Some running)
  let ?l = "promote_loop (Some running) (Option.bind (find (\<lambda>item. in_prompt_id item = running) (pending_inputs s))
    (\<lambda>item. Option.bind (in_meta item) qm_owner)) (edit_holds s) (pending_inputs s)"
  show ?thesis
    using promote_loop_keeps [where running = "Some running" and items = "pending_inputs s"] Some
    by (intro exI [of _ "fst ?l"] exI [of _ "snd ?l"])
       (auto simp: promote_queued_as_interjections_def Let_def split: prod.split)
qed

lemma promote_inv:
  assumes "session_inv s"
  shows "session_inv (promote_queued_as_interjections env s)"
proof -
  from promote_eq [of s env] obtain promoted rest where m: "mset promoted + mset rest = mset (pending_inputs s)"
    and f: "front_inv (running_prompt_id s) rest"
    and e: "promote_queued_as_interjections env s = s \<or>
      promote_queued_as_interjections env s = broadcast_queue_changed (fold (\<lambda>item s.
        enqueue_prompt_as_interjection item QueueSource
          (if goal_active env then enqueue_prompt_as_planner_steering item s else s)) promoted (s\<lparr>pending_inputs := rest\<rparr>))"
    using session_invD(1) [OF assms] by blast
  have "set rest \<subseteq> set (pending_inputs s)" using m by (metis mset_subset_eq_add_right set_mset_mono set_mset_mset)
  then have "list_all ok_item rest" using session_invD(4) [OF assms] by (auto simp: list_all_iff)
  from e show ?thesis
  proof
    assume eq: "promote_queued_as_interjections env s = broadcast_queue_changed (fold (\<lambda>item s.
        enqueue_prompt_as_interjection item QueueSource
          (if goal_active env then enqueue_prompt_as_planner_steering item s else s)) promoted (s\<lparr>pending_inputs := rest\<rparr>))"
    show ?thesis unfolding eq using f \<open>list_all ok_item rest\<close>
      by (intro session_invI [OF assms]) simp_all
  qed (simp add: assms)
qed

lemma matches_not_running:
  assumes "ok_item item" and "editable_queue_meta_matches i v owner item" and "running \<noteq> Some i"
  shows "running \<noteq> Some (in_prompt_id item)"
  using assms by (auto simp: ok_item_def editable_queue_meta_matches_def split: option.splits)

lemma remove_row_inv:
  assumes "session_inv s" and "running_prompt_id s \<noteq> Some i"
    and "position (editable_queue_meta_matches i v owner) (pending_inputs s) = Some pos"
  shows "session_inv (s\<lparr>pending_inputs := remove_at pos (pending_inputs s)\<rparr>)"
proof (rule session_invI [OF assms(1)])
  show "front_inv (running_prompt_id s) (pending_inputs (s\<lparr>pending_inputs := remove_at pos (pending_inputs s)\<rparr>))"
    using front_inv_remove [OF session_invD(1) [OF assms(1)] assms(3)]
      matches_not_running [OF session_invD(3) [OF assms(1)] _ assms(2)] by auto
  show "list_all ok_item (pending_inputs (s\<lparr>pending_inputs := remove_at pos (pending_inputs s)\<rparr>))"
    using session_invD(4) [OF assms(1)] set_remove_at [of pos "pending_inputs s"] by (auto simp: list_all_iff)
qed simp_all

lemma respond_inv: "session_inv s \<Longrightarrow> session_inv (respond_removed_prompt k s)"
  by (erule session_inv_same) simp_all

lemma release_hold_inv: "session_inv s \<Longrightarrow> session_inv (release_hold i s)"
  by (erule session_inv_same) simp_all

lemma remove_inv:
  assumes "session_inv s"
  shows "session_inv (snd (handle_remove_queued_prompt i v owner s))"
  using assms remove_row_inv [OF assms]
  by (auto simp: handle_remove_queued_prompt_def Let_def is_running_prompt_def broadcast_inv release_hold_inv
      respond_inv split: option.split)

lemma position_nth_mem: "position P xs = Some i \<Longrightarrow> xs ! i \<in> set xs \<and> P (xs ! i)"
  by (erule position_Some_split) (auto simp: nth_append)

lemma send_row_inv:
  assumes "session_inv s" and "running_prompt_id s \<noteq> Some i"
    and pos: "position (editable_queue_meta_matches i v owner) (pending_inputs s) = Some pos"
  shows "session_inv (snd (send_row_now env owner txt pos s))"
proof -
  let ?s = "s\<lparr>pending_inputs := remove_at pos (pending_inputs s)\<rparr>"
  define item where "item = (case non_blank txt of
      Some t \<Rightarrow> apply_queued_prompt_edit t owner (pending_inputs s ! pos) | None \<Rightarrow> pending_inputs s ! pos)"
  have s: "session_inv ?s" by (rule remove_row_inv [OF assms])
  have "ok_item (pending_inputs s ! pos)" using session_invD(3) [OF assms(1)] position_nth_mem [OF pos] by simp
  then have "ok_item (item\<lparr>in_send_now := True\<rparr>)" by (simp add: item_def split: option.split)
  from insert_now_inv [OF s this] s [THEN steering_inv, THEN interjection_inv, of item QueueSource item]
  show ?thesis by (simp add: send_row_now_def Let_def item_def [symmetric])
qed

lemma update_row_inv:
  assumes "session_inv s" and "position P (pending_inputs s) = Some pos"
  shows "session_inv (s\<lparr>pending_inputs := (pending_inputs s)[pos := apply_queued_prompt_edit t e (pending_inputs s ! pos)]\<rparr>)"
proof (rule session_invI [OF assms(1)])
  let ?items = "(pending_inputs s)[pos := apply_queued_prompt_edit t e (pending_inputs s ! pos)]"
  show "front_inv (running_prompt_id s) (pending_inputs (s\<lparr>pending_inputs := ?items\<rparr>))"
    by (simp add: front_inv_update session_invD(1) [OF assms(1)])
  have "ok_item (pending_inputs s ! pos)"
    using session_invD(3) [OF assms(1)] position_nth_mem [OF assms(2)] by simp
  then show "list_all ok_item (pending_inputs (s\<lparr>pending_inputs := ?items\<rparr>))"
    using session_invD(4) [OF assms(1)]
    by (auto simp: list_all_iff dest!: set_update_subset_insert [THEN subsetD])
qed simp_all

lemma send_now_inv:
  assumes "session_inv s"
  shows "session_inv (snd (handle_interject_queued_prompt env i v owner txt s))"
proof -
  have "session_inv (snd (save_row_edit P owner txt s))" for P
    using assms update_row_inv [OF assms] by (auto simp: save_row_edit_def split: option.split)
  then show ?thesis
    using assms send_row_inv [OF assms]
    by (auto simp: handle_interject_queued_prompt_def Let_def case_prod_unfold intro!: broadcast_inv release_hold_inv
        split: option.split)
qed

lemma refill_length:
  assumes "length (filter (\<lambda>x. x = None) slots) = length rows"
  shows "length (refill slots rows) = length slots"
  using assms by (induction slots rows rule: refill.induct) auto

lemma mset_refill:
  assumes "length (filter (\<lambda>x. x = None) slots) = length rows"
  shows "mset (refill slots rows) = mset (List.map_filter (\<lambda>x. x) slots) + mset rows"
  using assms by (induction slots rows rule: refill.induct) (auto simp: List.map_filter_simps)

lemma mset_reorder: "mset (reorder_items running ids items) = mset items"
proof -
  let ?slots = "map (\<lambda>item. if is_queueable running item then None else Some item) items"
  have "length (filter (\<lambda>x. x = None) ?slots) = length (filter (is_queueable running) items)"
    by (induction items) auto
  moreover have "mset (List.map_filter (\<lambda>x. x) ?slots) + mset (filter (is_queueable running) items) = mset items"
    by (induction items) (auto simp: List.map_filter_simps)
  ultimately show ?thesis by (simp add: reorder_items_def mset_refill)
qed

lemma reorder_inv:
  assumes "session_inv s"
  shows "session_inv (snd (handle_reorder_queue ids s))"
proof -
  let ?items = "reorder_items (running_prompt_id s) ids (pending_inputs s)"
  have "set ?items = set (pending_inputs s)" by (rule mset_eq_setD [OF mset_reorder])
  then have ok: "list_all ok_item ?items" using session_invD(4) [OF assms] by (simp add: list_all_iff)
  have "front_inv (running_prompt_id s) ?items"
  proof (cases "pending_inputs s")
    case (Cons x xs)
    then have "running_prompt_id s = Some (in_prompt_id x) \<Longrightarrow> \<not> is_queueable (running_prompt_id s) x"
      using session_invD(3) [OF assms, of x] by (auto simp: is_queueable_def ok_item_def split: option.splits)
    moreover have "running_prompt_id s = None \<or> running_prompt_id s = Some (in_prompt_id x)"
      using session_invD(1) [OF assms] Cons by simp
    ultimately show ?thesis using Cons by (auto simp: reorder_items_def)
  qed (use session_invD(1) [OF assms] in \<open>simp add: reorder_items_def\<close>)
  with ok show ?thesis by (intro session_invI [OF assms]) (simp_all add: handle_reorder_queue_def Let_def)
qed

lemma clear_loop_eq:
  "clear_loop keep kept b items s = (b \<or> list_ex (\<lambda>i. \<not> keep i) items,
     (fold (\<lambda>k. respond_removed_prompt k) (map in_respond (filter (\<lambda>i. \<not> keep i) items)) s)\<lparr>pending_inputs := kept @ filter keep items\<rparr>)"
  by (induction keep kept b items s rule: clear_loop.induct) auto

lemma fold_respond_frame [simp]:
  "running_task (fold (\<lambda>k. respond_removed_prompt k) ks s) = running_task s"
  "finalization_gate (fold (\<lambda>k. respond_removed_prompt k) ks s) = finalization_gate s"
  "message_delivery (fold (\<lambda>k. respond_removed_prompt k) ks s) = message_delivery s"
  by (induction ks arbitrary: s) simp_all

lemma clear_inv:
  assumes "session_inv s"
  shows "session_inv (snd (handle_clear_queue owner s))"
proof -
  have "front_inv (running_prompt_id s) (filter (kept_by_clear (running_prompt_id s) owner) (pending_inputs s))"
    using session_invD(3) [OF assms]
    by (intro front_inv_filter [OF session_invD(1) [OF assms]])
       (auto simp: kept_by_clear_def ok_item_def split: option.split)
  then show ?thesis
    using session_invD(4) [OF assms]
    by (intro session_invI [OF assms]) (auto simp: handle_clear_queue_def clear_loop_eq list_all_iff)
qed

lemma edit_inv:
  assumes "session_inv s"
  shows "session_inv (snd (handle_edit_queued_prompt i txt editor s))"
  using assms update_row_inv [OF assms]
  by (auto simp: handle_edit_queued_prompt_def Let_def broadcast_inv release_hold_inv split: option.split)

lemma drop_stale_eq:
  "drop_stale env items s =
     (fold (\<lambda>k. respond_removed_prompt k) (map in_respond (takeWhile (stale_front env) items)) s)
       \<lparr>pending_inputs := dropWhile (stale_front env) items\<rparr>"
  by (induction env items s rule: drop_stale.induct) auto

lemma stamp_keeps [simp]:
  "in_prompt_id (stamp_combined_display_texts_meta item) = in_prompt_id item"
  "in_respond (stamp_combined_display_texts_meta item) = in_respond item"
  "in_meta (stamp_combined_display_texts_meta item) = in_meta item"
  "ok_item (stamp_combined_display_texts_meta item) = ok_item item"
  by (simp_all add: stamp_combined_display_texts_meta_def split: option.split)

lemma ok_item_map_meta:
  assumes "\<And>m. qm_id (f m) = qm_id m"
  shows "ok_item (item\<lparr>in_meta := map_option f (in_meta item)\<rparr>) = ok_item item"
  using assms by (cases "in_meta item") (auto simp: ok_item_def is_queue_editable_def is_queue_visible_def)

lemma append_text_keeps [simp]:
  "in_prompt_id (append_text_to_prompt extra item) = in_prompt_id item"
  "in_respond (append_text_to_prompt extra item) = in_respond item"
  by (simp_all add: append_text_to_prompt_def Let_def)

lemma append_text_ok [simp]: "ok_item (append_text_to_prompt extra item) = ok_item item"
proof (cases "extra = []")
  case False
  define f where "f = (\<lambda>meta :: queue_entry_meta. meta\<lparr>qm_combined_texts := Some (case qm_combined_texts meta of
    Some segs \<Rightarrow> segs @ [extra] | None \<Rightarrow> [qm_text meta, extra])\<rparr>)"
  define i1 where "i1 = item\<lparr>in_meta := map_option f (in_meta item)\<rparr>"
  define i2 where "i2 = i1\<lparr>in_blocks := append_to_last_text extra (in_blocks i1)\<rparr>"
  define i3 where "i3 = i2\<lparr>in_meta := map_option (\<lambda>meta. meta\<lparr>qm_text := queue_text_from_blocks (in_blocks i2)\<rparr>) (in_meta i2)\<rparr>"
  have "ok_item i1 = ok_item item" unfolding i1_def by (rule ok_item_map_meta) (simp add: f_def)
  moreover have "ok_item i2 = ok_item i1" by (simp add: i2_def)
  moreover have "ok_item i3 = ok_item i2" unfolding i3_def by (rule ok_item_map_meta) simp
  moreover have "append_text_to_prompt extra item = stamp_combined_display_texts_meta i3"
    unfolding append_text_to_prompt_def Let_def i3_def i2_def i1_def f_def using False by (rule if_not_P)
  ultimately show ?thesis by simp
qed (simp add: append_text_to_prompt_def)

lemma combine_loop_eq:
  "combine_loop n front rest s =
     (fold (\<lambda>item. append_text_to_prompt (joined_text_blocks (in_blocks item))) (take n rest) front # drop n rest,
      fold (\<lambda>k. respond_removed_prompt k) (map in_respond (take n rest)) s)"
  by (induction n front rest s rule: combine_loop.induct) simp_all

lemma fold_append_keeps [simp]:
  "in_prompt_id (fold (\<lambda>item. append_text_to_prompt (g item)) items front) = in_prompt_id front"
  "in_respond (fold (\<lambda>item. append_text_to_prompt (g item)) items front) = in_respond front"
  "ok_item (fold (\<lambda>item. append_text_to_prompt (g item)) items front) = ok_item front"
  by (induction items arbitrary: front) simp_all

lemma combine_cases:
  obtains (same) "combine_front_pending_inputs skip s = s"
  | (merged) front rest n where "pending_inputs s = front # rest"
      "Suc n = combine_prefix_len (map combine_gate_of (pending_inputs s)) skip" "0 < n"
      "combine_front_pending_inputs skip s =
        (fold (\<lambda>k. respond_removed_prompt k) (map in_respond (take n rest)) s)\<lparr>pending_inputs :=
          fold (\<lambda>item. append_text_to_prompt (joined_text_blocks (in_blocks item))) (take n rest) front # drop n rest\<rparr>"
proof -
  consider (short) "pending_inputs s = []" | (one) x where "pending_inputs s = [x]"
    | (more) front item rest where "pending_inputs s = front # item # rest"
    by (metis list.exhaust)
  then show ?thesis
  proof cases
    case more
    let ?n = "combine_prefix_len (map combine_gate_of (pending_inputs s)) skip"
    show ?thesis
    proof (cases "?n < 2")
      case False
      then show ?thesis
        using more by (intro merged [of front "item # rest" "?n - 1"])
          (auto simp: combine_front_pending_inputs_def Let_def combine_loop_eq)
    qed (use more in \<open>intro same, simp add: combine_front_pending_inputs_def Let_def\<close>)
  qed (auto intro: same simp: combine_front_pending_inputs_def)
qed

lemma combine_keeps:
  "running_task (combine_front_pending_inputs skip s) = running_task s"
  "finalization_gate (combine_front_pending_inputs skip s) = finalization_gate s"
  "list_all ok_item (pending_inputs s) \<Longrightarrow> list_all ok_item (pending_inputs (combine_front_pending_inputs skip s))"
  by (cases rule: combine_cases [of skip s]; auto simp: list_all_iff dest: in_set_dropD)+

lemma start_front_Cons:
  assumes "pending_inputs s = front # rest"
  shows "pending_inputs (start_front s) = front\<lparr>in_overrides := None\<rparr> # rest"
    and "running_prompt_id (start_front s) = Some (in_prompt_id front)"
    and "finalization_gate (start_front s) = finalization_gate s"
    and "message_delivery (start_front s) = message_delivery s"
  using assms
  by (simp_all add: start_front_def Let_def running_prompt_id_def broadcast_queue_changed_promoting_def
      broadcast_queue_changed_inner_def split: option.split)

lemma start_inv:
  assumes "session_inv s"
  shows "session_inv (maybe_start_running_task env s)"
proof (cases "running_task s \<noteq> None \<or> gate_is_active s \<or> pending_inputs s = [] \<or> hook_block_held s")
  case False
  let ?s1 = "prune_holds (start_now env) (drop_stale env (pending_inputs s) s)"
  let ?s2 = "if combine_queued env then combine_front_pending_inputs (map fst (edit_holds ?s1)) ?s1 else ?s1"
  have idle: "running_task s = None" "finalization_gate ?s1 = finalization_gate s" "running_task ?s1 = None"
    using False by (simp_all add: prune_holds_def drop_stale_eq)
  have ok1: "list_all ok_item (pending_inputs ?s1)"
    using session_invD(4) [OF assms] by (auto simp: prune_holds_def drop_stale_eq list_all_iff dest: set_dropWhileD)
  have s1: "session_inv ?s1"
    using session_invD(2) [OF assms] idle ok1 by (simp add: session_inv_def running_prompt_id_def gate_is_active_def)
  have s2: "list_all ok_item (pending_inputs ?s2)" "finalization_gate ?s2 = finalization_gate s"
    using combine_keeps(2) combine_keeps(3) [OF ok1] ok1 idle by auto
  have "session_inv (start_front ?s2)"
  proof (cases "pending_inputs ?s2")
    case Nil
    then have "start_front ?s2 = ?s2" by (simp add: start_front_def)
    moreover have "running_task ?s2 = None" using combine_keeps(1) idle by simp
    ultimately show ?thesis
      using s2 session_invD(2) [OF assms] by (simp add: session_inv_def running_prompt_id_def gate_is_active_def)
  next
    case (Cons front rest)
    then show ?thesis
      using s2 session_invD(2) [OF assms] start_front_Cons [OF Cons] by (simp add: session_inv_def gate_is_active_def)
  qed
  with s1 False show ?thesis by (simp add: maybe_start_running_task_def Let_def)
qed (auto simp: maybe_start_running_task_def assms)

lemma admit_inv:
  assumes "session_inv s"
  shows "session_inv (snd (admit_parent_agent_message grant op i sender txt k s))"
proof -
  have "session_inv (s\<lparr>message_delivery := d\<rparr>)" for d by (rule session_inv_same [OF assms]) simp_all
  then show ?thesis
    using assms commit_inv [OF assms]
    by (auto simp: admit_parent_agent_message_def Let_def split: option.split operation.split)
qed

lemma drain_inv:
  assumes "session_inv s"
  shows "session_inv (snd (drain_parent_messages_at_safe_point flushed commit s))"
proof -
  have "session_inv (s\<lparr>message_delivery := d\<rparr>)" for d by (rule session_inv_same [OF assms]) simp_all
  then show ?thesis
    using assms by (auto simp: drain_parent_messages_at_safe_point_def split: option.split prod.split sum.split)
qed

subsection \<open>Completion\<close>

lemma settle_frame [simp]:
  "pending_inputs (settle_parent_message_completions ds r s) = pending_inputs s"
  "running_task (settle_parent_message_completions ds r s) = running_task s"
  "finalization_gate (settle_parent_message_completions ds r s) = finalization_gate s"
  "message_delivery (settle_parent_message_completions ds r s) = message_delivery s"
  by (simp_all add: settle_parent_message_completions_def)

definition completed_state :: "rstring \<Rightarrow> u64 \<Rightarrow> turn_result \<Rightarrow> input_item \<Rightarrow> input_item list \<Rightarrow> session_state \<Rightarrow> session_state" where
  \<comment> \<open>the state a completion leaves before it releases the task\<close>
  "completed_state pid ep r front rest s =
     (let ((ds, had_fallbacks), s) = transition_parent_messages (TurnTarget \<lparr>prompt_id = pid, epoch = ep\<rparr>) Completion
            (emit (Reply (in_respond front) r) (s\<lparr>pending_inputs := rest\<rparr>));
          held = length (pending_inputs s);
          notice = (finalizes r \<and> hook_block_held s \<and> pending_inputs s \<noteq> [] \<and> r = TurnOk (Cancelled (Some HookDenied)));
          s = (if in_meta front \<noteq> None \<or> had_fallbacks then broadcast_queue_changed s else s);
          s = settle_parent_message_completions ds r s;
          s = (if notice then emit (HeldRowsNotice held) s else s)
      in if finalizes r then emit (EmitTurnCompleted pid r) s else s)"

lemma completed_state_frame:
  "pending_inputs (completed_state pid ep r front rest s) = rest @ map fallback_input
     (fallbacks (fst (transition (TurnTarget \<lparr>prompt_id = pid, epoch = ep\<rparr>) Completion (message_delivery s))))"
  "running_task (completed_state pid ep r front rest s) = running_task s"
  "finalization_gate (completed_state pid ep r front rest s) = finalization_gate s"
  "message_delivery (completed_state pid ep r front rest s) =
     snd (transition (TurnTarget \<lparr>prompt_id = pid, epoch = ep\<rparr>) Completion (message_delivery s))"
  by (simp_all add: completed_state_def transition_parent_messages_def Let_def case_prod_unfold)

lemma handle_completion_claimed:
  assumes "claim_task_finalization pid ep ident s0 = (Some lease, s)"
    and "pending_inputs s = front # rest" and "in_prompt_id front = pid"
  shows "handle_completion pid ep ident r s0 =
    (case finish_finalization_lease lease (completed_state pid ep r front rest s) of
       (False, s) \<Rightarrow> (False, s) | (True, s) \<Rightarrow> (True, s))"
proof -
  let ?p = "emit (Reply (in_respond front) r) (s\<lparr>pending_inputs := rest\<rparr>)"
  have pop: "pop_completed pid r s = ((True, in_meta front \<noteq> None), ?p)"
    using assms(2,3) by (simp add: pop_completed_def)
  obtain ds hf s1 where t: "transition_parent_messages (TurnTarget \<lparr>prompt_id = pid, epoch = ep\<rparr>) Completion ?p = ((ds, hf), s1)"
    by (metis prod.exhaust)
  show ?thesis
    unfolding handle_completion_def completed_state_def Let_def assms(1) prod.case option.case pop t
    by (simp only: simp_thms)
qed

lemma handle_completion_owned:
  assumes "session_inv s" and "running_task s = Some task"
  obtains front rest where "pending_inputs s = front # rest" "in_prompt_id front = task_prompt_id task"
    "handle_completion (task_prompt_id task) (task_epoch task) (task_identity task) r s =
       (True, (completed_state (task_prompt_id task) (task_epoch task) r front rest
          (s\<lparr>finalization_gate := \<lparr>next_token = next_token (finalization_gate s) + 1,
              gate_active = Some (next_token (finalization_gate s) + 1)\<rparr>\<rparr>))
        \<lparr>running_task := None,
         finalization_gate := \<lparr>next_token = next_token (finalization_gate s) + 1, gate_active = None\<rparr>\<rparr>)"
proof -
  obtain front rest where p: "pending_inputs s = front # rest" "in_prompt_id front = task_prompt_id task"
    using session_invD(1) [OF assms(1)] assms(2) by (cases "pending_inputs s") (auto simp: running_prompt_id_def front_inv_def)
  have g: "gate_active (finalization_gate s) = None" using session_invD(2) [OF assms(1)] by (simp add: gate_is_active_def)
  let ?g = "\<lparr>next_token = next_token (finalization_gate s) + 1, gate_active = Some (next_token (finalization_gate s) + 1)\<rparr>"
  let ?s = "s\<lparr>finalization_gate := ?g\<rparr>"
  let ?lease = "\<lparr>lease_token = next_token (finalization_gate s) + 1,
    lease_binding = BoundTask (task_prompt_id task) (task_epoch task) (task_identity task), lease_finished = False\<rparr>"
  let ?c = "completed_state (task_prompt_id task) (task_epoch task) r front rest ?s"
  have claim: "claim_task_finalization (task_prompt_id task) (task_epoch task) (task_identity task) s = (Some ?lease, ?s)"
    using p g assms(2)
    by (simp add: claim_task_finalization_def front_prompt_id_def task_matches_def gate_claim_def Let_def)
  have finish: "finish_finalization_lease ?lease ?c = (True, ?c\<lparr>running_task := None, finalization_gate := ?g\<lparr>gate_active := None\<rparr>\<rparr>)"
    using assms(2) completed_state_frame(2,3) [of "task_prompt_id task" "task_epoch task" r front rest ?s]
    by (simp add: finish_finalization_lease_def release_finalizing_task_def finalization_matches_def
        task_matches_def finish_finalization_def)
  have "handle_completion (task_prompt_id task) (task_epoch task) (task_identity task) r s =
      (case finish_finalization_lease ?lease ?c of (False, s) \<Rightarrow> (False, s) | (True, s) \<Rightarrow> (True, s))"
    by (rule handle_completion_claimed [OF claim]) (simp_all add: p)
  with finish that p show ?thesis by simp
qed

lemma handle_completion_stale:
  assumes "\<not> task_matches (BoundTask pid ep ident) s"
  shows "handle_completion pid ep ident r s = (False, s)"
  using assms by (simp add: handle_completion_def claim_task_finalization_def)

lemma completion_inv:
  assumes "session_inv s"
  shows "session_inv (snd (handle_completion pid ep ident r s))"
proof (cases "task_matches (BoundTask pid ep ident) s")
  case True
  then obtain task where task: "running_task s = Some task"
    "pid = task_prompt_id task" "ep = task_epoch task" "ident = task_identity task"
    by (auto simp: task_matches_def split: option.splits)
  from assms task(1) obtain front rest where p: "pending_inputs s = front # rest"
    and h: "handle_completion (task_prompt_id task) (task_epoch task) (task_identity task) r s =
       (True, (completed_state (task_prompt_id task) (task_epoch task) r front rest
          (s\<lparr>finalization_gate := \<lparr>next_token = next_token (finalization_gate s) + 1,
              gate_active = Some (next_token (finalization_gate s) + 1)\<rparr>\<rparr>))
        \<lparr>running_task := None,
         finalization_gate := \<lparr>next_token = next_token (finalization_gate s) + 1, gate_active = None\<rparr>\<rparr>)"
    by (rule handle_completion_owned)
  have "list_all ok_item rest" using session_invD(4) [OF assms] p by simp
  then show ?thesis
    unfolding task(2-4) h
    by (auto simp: session_inv_def running_prompt_id_def gate_is_active_def completed_state_frame list_all_iff)
qed (simp add: handle_completion_stale assms)

end
