(* ===== verification/Session_Cancel.thy ===== *)
theory Session_Cancel
  imports Session_Turns
begin

text \<open>
  Cancelling the running turn (\<open>acp_session_impl/cancel.rs\<close>, with the triggers and options of
  \<open>session/commands.rs\<close>): the two rewind rails, which put a prompt without output back to the
  client, the cancel proper, which holds the finalization lease while it tears the turn down, and
  the variant a send-now uses.  Each lock section of the source is a function of its own.  The
  prompt the session has pinned (\<open>current_prompt_id\<close>) is an argument; the buffer of pending
  notifications, telemetry, usage accounting and the chat history itself are outside this model,
  the calls that change them are effects.
\<close>

section \<open>Triggers and options\<close>

datatype cancel_trigger = Esc | CtrlC | SendNow | TriggerShutdown | SessionClose | SessionDelete | Client rstring

datatype cancel_kind = StopGesture | ReplaceTurn | Teardown

definition from_client :: "rstring \<Rightarrow> cancel_trigger" where
  "from_client t = (if t = lit ''esc'' then Esc else if t = lit ''ctrl_c'' then CtrlC else Client t)"

fun trigger_kind :: "cancel_trigger \<Rightarrow> cancel_kind" where
  "trigger_kind Esc = StopGesture"
| "trigger_kind CtrlC = StopGesture"
| "trigger_kind (Client _) = StopGesture"
| "trigger_kind SendNow = ReplaceTurn"
| "trigger_kind TriggerShutdown = Teardown"
| "trigger_kind SessionClose = Teardown"
| "trigger_kind SessionDelete = Teardown"

fun trigger_as_str :: "cancel_trigger \<Rightarrow> rstring" where
  "trigger_as_str Esc = lit ''esc''"
| "trigger_as_str CtrlC = lit ''ctrl_c''"
| "trigger_as_str SendNow = lit ''send_now''"
| "trigger_as_str TriggerShutdown = lit ''shutdown''"
| "trigger_as_str SessionClose = lit ''session_close''"
| "trigger_as_str SessionDelete = lit ''session_delete''"
| "trigger_as_str (Client t) = t"

datatype history_disposition = Keep | RewindIfNoOutput "rstring option"

record cancel_options =
  co_cancel_subagents :: bool
  co_kill_background_tasks :: bool
  co_history :: history_disposition
  co_trigger :: "cancel_trigger option"
  co_user_initiated :: bool

definition default_options :: cancel_options where
  "default_options = \<lparr>co_cancel_subagents = False, co_kill_background_tasks = False, co_history = Keep,
     co_trigger = None, co_user_initiated = False\<rparr>"

datatype stop_reason = UserInterrupt | PermissionRejectedStop | PermissionCancelledStop | MaxTurnsStop | NoProgress | UnknownStop

definition cancel_reason_for_options :: "cancel_options \<Rightarrow> stop_reason option" where
  "cancel_reason_for_options opts = (case map_option trigger_kind (co_trigger opts) of
     Some StopGesture \<Rightarrow> Some UserInterrupt
   | Some ReplaceTurn \<Rightarrow> None
   | Some Teardown \<Rightarrow> None
   | None \<Rightarrow> if co_user_initiated opts then Some UserInterrupt else None)"

fun cancel_reason_for_completion :: "completion_kind \<Rightarrow> stop_reason option" where
  "cancel_reason_for_completion (Cancelled category) = Some (case category of
     Some PermissionRejected \<Rightarrow> PermissionRejectedStop
   | Some PermissionCancelled \<Rightarrow> PermissionCancelledStop
   | Some MidTurnAbort \<Rightarrow> UserInterrupt
   | Some HookDenied \<Rightarrow> UnknownStop
   | None \<Rightarrow> UnknownStop)"
| "cancel_reason_for_completion (MaxTurnsReached _) = Some MaxTurnsStop"
| "cancel_reason_for_completion StationarityEnded = Some NoProgress"
| "cancel_reason_for_completion Completed = None"
| "cancel_reason_for_completion Rewound = None"
| "cancel_reason_for_completion RemovedFromQueue = None"

datatype wake_barrier = Armed | Clear

record cancel_outcome =
  barrier :: wake_barrier
  turn_stopped :: bool
  settled :: bool

definition noop_outcome :: cancel_outcome where
  "noop_outcome = \<lparr>barrier = Clear, turn_stopped = False, settled = False\<rparr>"

section \<open>The rewind of a named prompt\<close>

definition is_interject_fallback :: "rstring \<Rightarrow> bool" where
  "is_interject_fallback pid = prefix (lit ''interject-fallback-'') pid"

definition front_is_rewind_poppable :: "session_state \<Rightarrow> bool" where
  "front_is_rewind_poppable s = (case pending_inputs s of
     [] \<Rightarrow> False | f # _ \<Rightarrow> in_origin f = User \<and> \<not> is_interject_fallback (in_prompt_id f))"

definition rewind_requested :: "cancel_options \<Rightarrow> bool" where
  "rewind_requested opts \<longleftrightarrow> co_history opts \<noteq> Keep"

definition requested_prompt_id :: "cancel_options \<Rightarrow> rstring option" where
  "requested_prompt_id opts = (case co_history opts of RewindIfNoOutput pid \<Rightarrow> pid | Keep \<Rightarrow> None)"

type_synonym parent_delivery = "(rstring, rstring, parent_message, nat, rstring, u64) owned_delivery"

definition pop_front :: "session_state \<Rightarrow> input_item option \<times> session_state" where
  "pop_front s = (case pending_inputs s of [] \<Rightarrow> (None, s) | x # xs \<Rightarrow> (Some x, s\<lparr>pending_inputs := xs\<rparr>))"

definition claim_rewind :: "rstring \<Rightarrow> session_state \<Rightarrow> (input_item \<times> parent_delivery list) option \<times> session_state" where
  \<comment> \<open>the front is the requested prompt; it is claimed when its window is open and it is a user's row\<close>
  "claim_rewind requested s0 =
     (if \<not> (rewindable s0 \<and> front_is_rewind_poppable s0) then (None, s0)
      else
        let ep = turn_epoch s0;
            s = (case running_task s0 of
                   None \<Rightarrow> s0
                 | Some task \<Rightarrow> if task_prompt_id task = requested
                     then emit (AbortTurnTask requested ep) (s0\<lparr>running_task := None\<rparr>) else s0);
            s = s\<lparr>notifications_suppressed := False, rewindable := False\<rparr>;
            ((owed, had_fallbacks), s) =
              transition_parent_messages (TurnTarget \<lparr>prompt_id = requested, epoch = ep\<rparr>) Rewind s;
            (front, s) = pop_front s
        in (map_option (\<lambda>input. (input, owed)) front,
            if had_fallbacks then broadcast_queue_changed s else s))"

definition finish_rewound_cancel :: "input_item \<Rightarrow> bool \<Rightarrow> session_state \<Rightarrow> cancel_outcome \<times> session_state" where
  "finish_rewound_cancel input stopped s =
     (\<lparr>barrier = Clear, turn_stopped = stopped, settled = True\<rparr>,
      emit (Reply (in_respond input) (TurnOk Rewound)) (emit TruncateHistory s))"

section \<open>The teardown\<close>

definition arm_wake_barrier :: "session_state \<Rightarrow> session_state" where
  "arm_wake_barrier s = s\<lparr>notifications_suppressed := True\<rparr>"

definition suppresses_wakes :: "cancel_options \<Rightarrow> bool" where
  "suppresses_wakes opts \<longleftrightarrow> map_option trigger_kind (co_trigger opts) = Some StopGesture"

definition lease_epoch :: "finalization_lease option \<Rightarrow> u64 option" where
  "lease_epoch lease = (case lease of
     None \<Rightarrow> None
   | Some l \<Rightarrow> (case lease_binding l of BoundTask _ ep _ \<Rightarrow> Some ep | NoTask _ \<Rightarrow> None))"

definition cancel_before_lock :: "cancel_options \<Rightarrow> finalization_lease option \<Rightarrow> session_state \<Rightarrow> session_state" where
  "cancel_before_lock opts lease s0 =
     (let s = emit CancelCompaction s0;
          s = (if suppresses_wakes opts then arm_wake_barrier s else s);
          s = (case (co_cancel_subagents opts, lease_epoch lease, running_task s) of
                 (True, Some ep, Some task) \<Rightarrow> emit (AbortTurnTask (task_prompt_id task) ep) s | _ \<Rightarrow> s);
          s = (if co_cancel_subagents opts then emit CancelSessionSubagents s else s);
          s = (if co_user_initiated opts \<and> \<not> rewind_requested opts then emit RecordCancellation s else s);
          s = (if co_trigger opts = Some SendNow then s else emit KillForegroundCommands s)
      in if co_kill_background_tasks opts then emit KillBackgroundTasks s else s)"

definition completion_wake :: "prompt_origin \<Rightarrow> bool" where
  "completion_wake origin = (case origin of TaskCompleted _ \<Rightarrow> True | WorkflowCompleted _ \<Rightarrow> True | _ \<Rightarrow> False)"

fun sweep_behind :: "bool \<Rightarrow> input_item list \<Rightarrow> session_state \<Rightarrow> session_state" where
  \<comment> \<open>the rows behind the cancelled front, in order; a stop drops the completion wakes\<close>
  "sweep_behind suppress [] s = s"
| "sweep_behind suppress (item # items) s =
     (if suppress \<and> completion_wake (in_origin item)
      then sweep_behind suppress items (respond_removed_prompt (in_respond item) s)
      else sweep_behind suppress items (s\<lparr>pending_inputs := pending_inputs s @ [item]\<rparr>))"

definition take_cancelled :: "cancel_options \<Rightarrow> session_state \<Rightarrow> input_item list \<times> session_state" where
  "take_cancelled opts s =
     (if co_kill_background_tasks opts then (pending_inputs s, s\<lparr>pending_inputs := []\<rparr>)
      else case pending_inputs s of
        [] \<Rightarrow> ([], s)
      | front # rest \<Rightarrow> ([front], sweep_behind (suppresses_wakes opts) rest (s\<lparr>pending_inputs := []\<rparr>)))"

record teardown =
  td_prompt_id :: "rstring option"
  td_cancelled :: "input_item list"
  td_rewound :: "input_item option"
  td_epoch :: "u64 option"
  td_completions :: "parent_delivery list"

definition legacy_rewind :: "session_state \<Rightarrow> u64 \<Rightarrow> (input_item option \<times> rstring option) \<times> session_state" where
  \<comment> \<open>the rewind of a client that names no prompt\<close>
  "legacy_rewind s0 ep =
     (let s = (case running_task s0 of
                 None \<Rightarrow> s0
               | Some task \<Rightarrow> emit (AbortTurnTask (task_prompt_id task) ep) (s0\<lparr>running_task := None\<rparr>));
          (front, s) = pop_front (s\<lparr>notifications_suppressed := False, rewindable := False\<rparr>)
      in ((front, map_option task_prompt_id (running_task s0)), s))"

definition abort_running :: "bool \<Rightarrow> u64 option \<Rightarrow> session_state \<Rightarrow> agent_task option \<times> session_state" where
  \<comment> \<open>with a lease the task stays in its slot until the lease is finished\<close>
  "abort_running leased ep s = (case running_task s of
     None \<Rightarrow> (None, s)
   | Some task \<Rightarrow>
       let s = (case ep of None \<Rightarrow> s | Some e \<Rightarrow> emit (AbortTurnTask (task_prompt_id task) e) s)
       in (Some task, if leased then s else s\<lparr>running_task := None\<rparr>))"

definition end_cause :: "cancel_options \<Rightarrow> input_item option \<Rightarrow> terminal_cause" where
  "end_cause opts rewound = (if co_kill_background_tasks opts then HardTeardown
     else if rewound \<noteq> None then Rewind else SoftCancel)"

definition end_target :: "terminal_cause \<Rightarrow> agent_task option \<Rightarrow> (rstring, u64) terminal_target" where
  "end_target cause aborted = (if cause = HardTeardown then AllTurns
     else case aborted of None \<Rightarrow> AllTurns | Some task \<Rightarrow> TurnTarget (task_binding task))"

definition hand_over ::
  "cancel_options \<Rightarrow> agent_task option \<Rightarrow> input_item option \<Rightarrow> session_state \<Rightarrow>
     (input_item list \<times> parent_delivery list) \<times> session_state" where
  \<comment> \<open>the messages of the parent go where the cause of the end sends them, then the rows that end
      with the turn leave the queue\<close>
  "hand_over opts aborted rewound s0 =
     (let cause = end_cause opts rewound;
          ((owed, had_fallbacks), s) = transition_parent_messages (end_target cause aborted) cause s0;
          (cancelled, s) = (if rewound = None then take_cancelled opts s else ([], s))
      in ((cancelled, owed), if had_fallbacks then broadcast_queue_changed s else s))"

definition teardown_under_lock ::
  "cancel_options \<Rightarrow> finalization_lease option \<Rightarrow> session_state \<Rightarrow> teardown option \<times> session_state" where
  \<comment> \<open>\<open>None\<close>: the cancel turned out not to own the front and changes nothing\<close>
  "teardown_under_lock opts lease s0 =
     (let give_up = (if suppresses_wakes opts then s0\<lparr>notifications_suppressed := False\<rparr> else s0);
          requested = requested_prompt_id opts;
          ep = (case lease_epoch lease of Some e \<Rightarrow> Some e
                | None \<Rightarrow> if rewind_requested opts then Some (turn_epoch s0) else None)
      in if (case lease of None \<Rightarrow> False | Some l \<Rightarrow> \<not> finalization_binding_is_current l s0) then (None, give_up)
         else if (case requested of None \<Rightarrow> False | Some pid \<Rightarrow> front_prompt_id s0 \<noteq> Some pid) then (None, give_up)
         else if rewind_requested opts \<and> requested = None \<and> rewindable s0 \<and> front_is_rewind_poppable s0 then
           let ((rewound, rewound_task), s) = legacy_rewind s0 (turn_epoch s0);
               ((cancelled, owed), s) = hand_over opts None rewound s
           in (Some \<lparr>td_prompt_id = rewound_task, td_cancelled = cancelled, td_rewound = rewound, td_epoch = ep,
                 td_completions = owed\<rparr>, s)
         else
           let (aborted, s) = abort_running (lease \<noteq> None) ep s0;
               ((cancelled, owed), s) = hand_over opts aborted None s
           in (Some \<lparr>td_prompt_id = map_option task_prompt_id aborted, td_cancelled = cancelled, td_rewound = None,
                 td_epoch = ep, td_completions = owed\<rparr>, s))"

fun reply_cancelled :: "bool \<Rightarrow> input_item list \<Rightarrow> session_state \<Rightarrow> session_state" where
  \<comment> \<open>the first row is the turn that ran when a task was torn down\<close>
  "reply_cancelled running [] s = s"
| "reply_cancelled running (input # inputs) s =
     reply_cancelled False inputs
       (emit (Reply (in_respond input) (TurnOk (Cancelled (if running then Some MidTurnAbort else None))))
         (case completion_id (in_origin input) of None \<Rightarrow> s | Some i \<Rightarrow> emit (ReleaseReservation i) s))"

definition pinned_front :: "finalization_lease option \<Rightarrow> rstring option \<Rightarrow> rstring option" where
  "pinned_front lease pinned = (case map_option lease_binding lease of
     Some (NoTask (Some pid)) \<Rightarrow> if pinned = Some pid then Some pid else None | _ \<Rightarrow> None)"

definition report_teardown :: "cancel_options \<Rightarrow> teardown \<Rightarrow> session_state \<Rightarrow> session_state" where
  \<comment> \<open>what follows the lock: the repair of the history and the report of the turn\<close>
  "report_teardown opts td s0 =
     (let kept = (td_rewound td = None);
          s = (if kept \<and> td_prompt_id td \<noteq> None then emit RepairDanglingCalls s0 else s0);
          s = (case (td_prompt_id td, td_epoch td, cancel_reason_for_options opts) of
                 (Some pid, Some ep, Some _) \<Rightarrow> if kept then emit (ReportCancelledTurn pid ep) s else s | _ \<Rightarrow> s)
      in if co_trigger opts = Some SendNow then emit MoveCommandsToBackground s else s)"

definition emit_cancelled_terminal ::
  "finalization_lease option \<Rightarrow> rstring option \<Rightarrow> teardown \<Rightarrow> session_state \<Rightarrow> session_state" where
  \<comment> \<open>the durable end of the turn, also for a pinned front whose task is not in its slot\<close>
  "emit_cancelled_terminal lease pinned td s =
     (case (case td_prompt_id td of Some pid \<Rightarrow> Some pid | None \<Rightarrow> pinned_front lease pinned) of
        Some pid \<Rightarrow> if td_rewound td = None
          then emit (EmitTurnCompleted pid (TurnOk (Cancelled
                 (if td_prompt_id td = None then None else Some MidTurnAbort)))) s
          else s
      | None \<Rightarrow> s)"

definition finish_teardown ::
  "cancel_options \<Rightarrow> finalization_lease option \<Rightarrow> teardown \<Rightarrow> session_state \<Rightarrow> cancel_outcome \<times> session_state" where
  "finish_teardown opts lease td s0 =
     (let stopped = (td_prompt_id td \<noteq> None \<and> cancel_reason_for_options opts \<noteq> None)
      in case td_rewound td of
        Some input \<Rightarrow> finish_rewound_cancel input stopped
          (settle_parent_message_completions (td_completions td) (TurnOk Rewound) s0)
      | None \<Rightarrow>
          let s = settle_parent_message_completions (td_completions td) (TurnOk (Cancelled (Some MidTurnAbort))) s0;
              s = reply_cancelled (td_prompt_id td \<noteq> None) (td_cancelled td) s;
              (done, s) = (case lease of None \<Rightarrow> (False, s) | Some l \<Rightarrow> finish_finalization_lease l s)
          in (\<lparr>barrier = (if suppresses_wakes opts then Armed else Clear), turn_stopped = stopped, settled = done\<rparr>, s))"

definition tear_down ::
  "cancel_options \<Rightarrow> rstring option \<Rightarrow> finalization_lease option \<Rightarrow> session_state \<Rightarrow> cancel_outcome \<times> session_state" where
  "tear_down opts pinned lease s =
     (case teardown_under_lock opts lease (cancel_before_lock opts lease s) of
        (None, s) \<Rightarrow> (noop_outcome, s)
      | (Some td, s) \<Rightarrow> finish_teardown opts lease td
          (emit_cancelled_terminal lease pinned td (report_teardown opts td s)))"

definition cancel_generic :: "cancel_options \<Rightarrow> rstring option \<Rightarrow> session_state \<Rightarrow> cancel_outcome \<times> session_state" where
  "cancel_generic opts pinned s =
     (if rewind_requested opts then tear_down opts pinned None s
      else case claim_cancel_finalization s of
        (None, s) \<Rightarrow> (noop_outcome, s)
      | (Some lease, s) \<Rightarrow> tear_down opts pinned (Some lease) s)"

definition cancel_running_task :: "cancel_options \<Rightarrow> rstring option \<Rightarrow> session_state \<Rightarrow> cancel_outcome \<times> session_state" where
  "cancel_running_task opts pinned s = (case requested_prompt_id opts of
     None \<Rightarrow> cancel_generic opts pinned s
   | Some requested \<Rightarrow>
       if front_prompt_id s \<noteq> Some requested then (noop_outcome, s)
       else (case claim_rewind requested s of
          (Some (input, owed), s) \<Rightarrow>
            finish_rewound_cancel input (cancel_reason_for_options opts \<noteq> None)
              (settle_parent_message_completions owed (TurnOk Rewound) s)
        | (None, s) \<Rightarrow> cancel_generic opts pinned s))"

definition cancel_turn_for_send_now ::
  "(rstring \<times> nat) list \<Rightarrow> rstring option \<Rightarrow> session_state \<Rightarrow> cancel_outcome \<times> session_state" where
  "cancel_turn_for_send_now fresh pinned s0 =
     (let s = snd (flush_stranded_interjections fresh s0);
          (outcome, s) = cancel_running_task (default_options\<lparr>co_trigger := Some SendNow\<rparr>) pinned s
      in if \<not> settled outcome then (outcome, s)
         else (outcome, snd (take_hook_block_hold (s\<lparr>notifications_suppressed := False\<rparr>))))"

definition settle_all_parent_messages :: "terminal_cause \<Rightarrow> session_state \<Rightarrow> session_state" where
  "settle_all_parent_messages cause s = (case transition_parent_messages AllTurns cause s of
     ((owed, _), s) \<Rightarrow> settle_parent_message_completions owed
       (TurnErr (lit ''active-message owner ended before delivery completed'')) s)"

definition drop_pending_synthetic_items :: "session_state \<Rightarrow> session_state" where
  "drop_pending_synthetic_items s =
     fold (\<lambda>i. emit (ReleaseReservation i))
       (List.map_filter (\<lambda>input. completion_id (in_origin input))
         (filter (\<lambda>input. is_preemptible_runtime_wake (in_origin input)) (pending_inputs s)))
       (s\<lparr>pending_inputs := filter (\<lambda>input. \<not> is_preemptible_runtime_wake (in_origin input)) (pending_inputs s)\<rparr>)"

definition user_intake :: "prompt_origin \<Rightarrow> session_state \<Rightarrow> session_state" where
  \<comment> \<open>a prompt that is not synthetic re-engages the session\<close>
  "user_intake origin s =
     (if is_synthetic origin then s
      else snd (take_hook_block_hold ((emit ClearWakeSuppression s)\<lparr>notifications_suppressed := False\<rparr>)))"

end
