(* ===== verification/Cancel_Invariants.thy ===== *)
theory Cancel_Invariants
  imports Session_Invariants Session_Cancel
begin

text \<open>
  Cancelling keeps the session invariant: whichever rail a cancel takes, the task it tears down
  leaves its slot together with its row, and the finalization gate is open again afterwards.
\<close>

section \<open>Frames\<close>

lemma respond_update: "respond_removed_prompt k (s\<lparr>pending_inputs := xs\<rparr>) = (respond_removed_prompt k s)\<lparr>pending_inputs := xs\<rparr>"
  by (simp add: respond_removed_prompt_def emit_def)

lemma fold_respond_update:
  "fold (\<lambda>k. respond_removed_prompt k) ks (s\<lparr>pending_inputs := xs\<rparr>) =
     (fold (\<lambda>k. respond_removed_prompt k) ks s)\<lparr>pending_inputs := xs\<rparr>"
  by (induction ks arbitrary: s) (simp_all add: respond_update)

lemma sweep_behind_eq:
  "sweep_behind suppress items s =
     (fold (\<lambda>k. respond_removed_prompt k)
       (map in_respond (filter (\<lambda>i. suppress \<and> completion_wake (in_origin i)) items)) s)
     \<lparr>pending_inputs := pending_inputs s @ filter (\<lambda>i. \<not> (suppress \<and> completion_wake (in_origin i))) items\<rparr>"
  by (induction suppress items s rule: sweep_behind.induct) (auto simp: fold_respond_update)

lemma reply_cancelled_frame [simp]:
  "pending_inputs (reply_cancelled b items s) = pending_inputs s"
  "running_task (reply_cancelled b items s) = running_task s"
  "finalization_gate (reply_cancelled b items s) = finalization_gate s"
  "message_delivery (reply_cancelled b items s) = message_delivery s"
  by (induction b items s rule: reply_cancelled.induct) (simp_all split: option.split)

lemma cancel_before_lock_frame [simp]:
  "pending_inputs (cancel_before_lock opts lease s) = pending_inputs s"
  "running_task (cancel_before_lock opts lease s) = running_task s"
  "finalization_gate (cancel_before_lock opts lease s) = finalization_gate s"
  "message_delivery (cancel_before_lock opts lease s) = message_delivery s"
  "rewindable (cancel_before_lock opts lease s) = rewindable s"
  "turn_epoch (cancel_before_lock opts lease s) = turn_epoch s"
  by (simp_all add: cancel_before_lock_def arm_wake_barrier_def emit_def Let_def split: bool.split option.split)

lemma report_teardown_frame [simp]:
  "pending_inputs (report_teardown opts td s) = pending_inputs s"
  "running_task (report_teardown opts td s) = running_task s"
  "finalization_gate (report_teardown opts td s) = finalization_gate s"
  "message_delivery (report_teardown opts td s) = message_delivery s"
  "pending_inputs (emit_cancelled_terminal lease pinned td s) = pending_inputs s"
  "running_task (emit_cancelled_terminal lease pinned td s) = running_task s"
  "finalization_gate (emit_cancelled_terminal lease pinned td s) = finalization_gate s"
  "message_delivery (emit_cancelled_terminal lease pinned td s) = message_delivery s"
  by (simp_all add: report_teardown_def emit_cancelled_terminal_def Let_def split: option.split)

lemma transition_parent_frame:
  assumes "transition_parent_messages tgt cause s = ((ds, b), s')"
  shows "running_task s' = running_task s" "finalization_gate s' = finalization_gate s"
    "\<exists>fs. pending_inputs s' = pending_inputs s @ map fallback_input fs"
  using assms by (auto simp: transition_parent_messages_def split: prod.splits)

lemma take_cancelled_eq:
  "snd (take_cancelled opts s) =
     (if co_kill_background_tasks opts then s\<lparr>pending_inputs := []\<rparr>
      else (fold (\<lambda>k. respond_removed_prompt k) (map in_respond
             (filter (\<lambda>i. suppresses_wakes opts \<and> completion_wake (in_origin i)) (tl (pending_inputs s)))) s)
           \<lparr>pending_inputs := filter (\<lambda>i. \<not> (suppresses_wakes opts \<and> completion_wake (in_origin i))) (tl (pending_inputs s))\<rparr>)"
  "fst (take_cancelled opts s) = (if co_kill_background_tasks opts then pending_inputs s else take 1 (pending_inputs s))"
  by (cases "pending_inputs s"; simp add: take_cancelled_def sweep_behind_eq fold_respond_update)+

lemma set_tl_subset: "set (tl xs) \<subseteq> set xs"
  by (cases xs) auto

lemma take_cancelled_frame:
  "running_task (snd (take_cancelled opts s)) = running_task s"
  "finalization_gate (snd (take_cancelled opts s)) = finalization_gate s"
  "message_delivery (snd (take_cancelled opts s)) = message_delivery s"
  "set (pending_inputs (snd (take_cancelled opts s))) \<subseteq> set (pending_inputs s)"
  using set_tl_subset [of "pending_inputs s"] by (auto simp: take_cancelled_eq)

lemma legacy_rewind_eq:
  "snd (legacy_rewind s ep) = (case running_task s of
      None \<Rightarrow> s
    | Some task \<Rightarrow> emit (AbortTurnTask (task_prompt_id task) ep) (s\<lparr>running_task := None\<rparr>))
    \<lparr>notifications_suppressed := False, rewindable := False, pending_inputs := tl (pending_inputs s)\<rparr>"
  "fst (legacy_rewind s ep) = (case pending_inputs s of [] \<Rightarrow> None | x # _ \<Rightarrow> Some x, map_option task_prompt_id (running_task s))"
  by (cases "pending_inputs s"; simp add: legacy_rewind_def pop_front_def Let_def split: option.split)+

lemma abort_running_eq:
  "fst (abort_running leased ep s) = running_task s"
  "snd (abort_running leased ep s) = (case running_task s of
      None \<Rightarrow> s
    | Some task \<Rightarrow> (case ep of None \<Rightarrow> s | Some e \<Rightarrow> emit (AbortTurnTask (task_prompt_id task) e) s)
        \<lparr>running_task := if leased then Some task else None\<rparr>)"
  by (auto simp: abort_running_def Let_def emit_def split: option.split)

lemma abort_running_frame [simp]:
  "pending_inputs (snd (abort_running leased ep s)) = pending_inputs s"
  "finalization_gate (snd (abort_running leased ep s)) = finalization_gate s"
  "message_delivery (snd (abort_running leased ep s)) = message_delivery s"
  "running_task (snd (abort_running leased ep s)) = (if leased then running_task s else None)"
  by (simp_all add: abort_running_eq split: option.split)

section \<open>The teardown\<close>

definition torn_down :: "finalization_lease option \<Rightarrow> session_state \<Rightarrow> session_state \<Rightarrow> bool" where
  \<comment> \<open>without a lease the task is gone, with one it waits for the lease to be finished\<close>
  "torn_down lease s s' \<longleftrightarrow> finalization_gate s' = finalization_gate s \<and>
     running_task s' = (if lease = None then None else running_task s) \<and>
     (\<exists>fs. set (pending_inputs s') \<subseteq> set (pending_inputs s) \<union> fallback_input ` fs)"

lemma hand_over_eq:
  assumes "transition_parent_messages (end_target (end_cause opts rewound) aborted) (end_cause opts rewound) s = ((ds, b), s1)"
  defines "s2 \<equiv> (if rewound = None then snd (take_cancelled opts s1) else s1)"
  shows "hand_over opts aborted rewound s =
    ((if rewound = None then fst (take_cancelled opts s1) else [], ds), if b then broadcast_queue_changed s2 else s2)"
  unfolding hand_over_def Let_def assms(1) prod.case s2_def by (cases rewound) (simp_all add: case_prod_unfold)

lemma hand_over_frame:
  "running_task (snd (hand_over opts aborted rewound s)) = running_task s"
  "finalization_gate (snd (hand_over opts aborted rewound s)) = finalization_gate s"
  "\<exists>fs. set (pending_inputs (snd (hand_over opts aborted rewound s))) \<subseteq> set (pending_inputs s) \<union> fallback_input ` fs"
proof -
  obtain ds b s1 where
    t: "transition_parent_messages (end_target (end_cause opts rewound) aborted) (end_cause opts rewound) s = ((ds, b), s1)"
    by (metis prod.exhaust)
  note h = hand_over_eq [OF t]
  show "running_task (snd (hand_over opts aborted rewound s)) = running_task s"
    "finalization_gate (snd (hand_over opts aborted rewound s)) = finalization_gate s"
    using transition_parent_frame [OF t] by (simp_all add: h take_cancelled_frame)
  from transition_parent_frame(3) [OF t] obtain fs where "pending_inputs s1 = pending_inputs s @ map fallback_input fs" by blast
  with take_cancelled_frame(4) [of opts s1]
  show "\<exists>fs. set (pending_inputs (snd (hand_over opts aborted rewound s))) \<subseteq> set (pending_inputs s) \<union> fallback_input ` fs"
    by (intro exI [of _ "set fs"]) (auto simp: h)
qed

lemma teardown_some:
  assumes "teardown_under_lock opts lease s = (Some td, s')" and "lease = None \<longleftrightarrow> rewind_requested opts"
  shows "torn_down lease s s'"
proof -
  have legacy: "torn_down lease s (snd (hand_over opts None (fst (fst (legacy_rewind s ep))) (snd (legacy_rewind s ep))))"
    if "lease = None" for ep
    using hand_over_frame [of opts None "fst (fst (legacy_rewind s ep))" "snd (legacy_rewind s ep)"] that
      set_tl_subset [of "pending_inputs s"]
    by (auto simp: torn_down_def legacy_rewind_eq split: option.splits)
  have abort: "torn_down lease s (snd (hand_over opts aborted None (snd (abort_running (lease \<noteq> None) ep s))))" for ep aborted
    using hand_over_frame [of opts aborted None "snd (abort_running (lease \<noteq> None) ep s)"]
    by (auto simp: torn_down_def abort_running_eq split: option.splits if_splits)
  show ?thesis
    using assms legacy abort
    by (auto simp: teardown_under_lock_def Let_def case_prod_unfold split: if_splits)
qed

lemma teardown_some_cases:
  assumes "teardown_under_lock opts lease s = (Some td, s')"
  obtains (rewound) front rest where "pending_inputs s = front # rest" "td_rewound td = Some front"
      "hand_over opts None (Some front) (snd (legacy_rewind s (turn_epoch s))) = ((td_cancelled td, td_completions td), s')"
  | (aborted) leased ep where "td_rewound td = None"
      "hand_over opts (running_task s) None (snd (abort_running leased ep s)) = ((td_cancelled td, td_completions td), s')"
proof (cases "rewind_requested opts \<and> requested_prompt_id opts = None \<and> rewindable s \<and> front_is_rewind_poppable s")
  case True
  then obtain front rest where p: "pending_inputs s = front # rest"
    by (auto simp: front_is_rewind_poppable_def split: list.splits)
  with True assms show ?thesis
    by (intro rewound [of front rest])
       (auto simp: teardown_under_lock_def legacy_rewind_eq(2) Let_def case_prod_unfold split: if_splits)
next
  case False
  let ?ep = "case lease_epoch lease of Some e \<Rightarrow> Some e | None \<Rightarrow> if rewind_requested opts then Some (turn_epoch s) else None"
  from False assms show ?thesis
    by (intro aborted [of "lease \<noteq> None" ?ep]) (auto simp: teardown_under_lock_def abort_running_eq(1) Let_def case_prod_unfold simp del: abort_running_frame split: if_splits)
qed

lemma teardown_none:
  assumes "teardown_under_lock opts lease s = (None, s')"
  shows "s' = (if suppresses_wakes opts then s\<lparr>notifications_suppressed := False\<rparr> else s)"
  using assms by (auto simp: teardown_under_lock_def Let_def case_prod_unfold split: if_splits)

section \<open>The rails\<close>

lemma front_of_running:
  assumes "session_inv s" and "running_task s = Some task"
  shows "front_prompt_id s = Some (task_prompt_id task)"
  using session_invD(1) [OF assms(1)] assms(2)
  by (cases "pending_inputs s") (auto simp: running_prompt_id_def front_inv_def front_prompt_id_def)

definition granted :: "session_state \<Rightarrow> finalization_gate" where
  \<comment> \<open>the gate after the next claim\<close>
  "granted s = \<lparr>next_token = next_token (finalization_gate s) + 1, gate_active = Some (next_token (finalization_gate s) + 1)\<rparr>"

definition cancel_lease :: "session_state \<Rightarrow> finalization_lease" where
  "cancel_lease s = \<lparr>lease_token = next_token (finalization_gate s) + 1,
     lease_binding = (case running_task s of
        None \<Rightarrow> NoTask (front_prompt_id s)
      | Some task \<Rightarrow> BoundTask (task_prompt_id task) (task_epoch task) (task_identity task)),
     lease_finished = False\<rparr>"

lemma claim_cancel_granted:
  assumes "session_inv s"
  shows "claim_cancel_finalization s = (Some (cancel_lease s), s\<lparr>finalization_gate := granted s\<rparr>)"
  using session_invD(2) [OF assms] front_of_running [OF assms]
  by (auto simp: claim_cancel_finalization_def gate_claim_def gate_is_active_def cancel_lease_def granted_def Let_def
      split: option.split)

lemma cancel_lease_current:
  assumes "session_inv s" and "finalization_gate s' = granted s" and "running_task s' = running_task s"
    and "pending_inputs s' = pending_inputs s"
  shows "finalization_binding_is_current (cancel_lease s) s'"
  using assms(2-4) front_of_running [OF assms(1)]
  by (auto simp: finalization_binding_is_current_def finalization_matches_def cancel_lease_def granted_def
      task_matches_def front_prompt_id_def split: option.split)

lemma finish_cancel_lease:
  assumes "finalization_gate s' = granted s" and "running_task s' = running_task s"
  shows "finish_finalization_lease (cancel_lease s) s' =
    (True, s'\<lparr>running_task := None, finalization_gate := (granted s)\<lparr>gate_active := None\<rparr>\<rparr>)"
  using assms
  by (auto simp: finish_finalization_lease_def cancel_lease_def release_finalizing_task_def finalization_matches_def
      task_matches_def finish_finalization_def granted_def split: option.split)

lemma finish_teardown_frame:
  assumes "td_rewound td = None \<Longrightarrow> lease = None"
  shows "pending_inputs (snd (finish_teardown opts lease td s)) = pending_inputs s"
    "running_task (snd (finish_teardown opts lease td s)) = running_task s"
    "finalization_gate (snd (finish_teardown opts lease td s)) = finalization_gate s"
    "message_delivery (snd (finish_teardown opts lease td s)) = message_delivery s"
  using assms by (auto simp: finish_teardown_def finish_rewound_cancel_def Let_def split: option.split)

lemma ok_rows:
  assumes "list_all ok_item (pending_inputs s)"
    and "set (pending_inputs s') \<subseteq> set (pending_inputs s) \<union> fallback_input ` fs"
  shows "list_all ok_item (pending_inputs s')"
  using assms by (fastforce simp: list_all_iff)

lemma tear_down_rewind_inv:
  assumes "session_inv s" and "rewind_requested opts"
  shows "session_inv (snd (tear_down opts pinned None s))"
proof (cases "teardown_under_lock opts None (cancel_before_lock opts None s)")
  case (Pair res s')
  let ?s = "cancel_before_lock opts None s"
  show ?thesis
  proof (cases res)
    case None
    then show ?thesis
      using teardown_none [of opts None ?s s'] Pair by (auto simp: tear_down_def intro: session_inv_same [OF assms(1)])
  next
    case (Some td)
    then have "torn_down None ?s s'" using teardown_some [of opts None ?s td s'] Pair assms(2) by simp
    then obtain fs where d: "finalization_gate s' = finalization_gate s" "running_task s' = None"
      "set (pending_inputs s') \<subseteq> set (pending_inputs s) \<union> fallback_input ` fs"
      by (auto simp: torn_down_def)
    from ok_rows [OF session_invD(4) [OF assms(1)] d(3)] session_invD(2) [OF assms(1)] show ?thesis
      by (simp add: tear_down_def Pair Some session_inv_def finish_teardown_frame d gate_is_active_def running_prompt_id_def)
  qed
qed

definition cancelled_core :: "cancel_options \<Rightarrow> session_state \<Rightarrow> (input_item list \<times> parent_delivery list) \<times> session_state" where
  \<comment> \<open>what the lock section of a cancel with a lease does to a session that satisfies the invariant\<close>
  "cancelled_core opts s = hand_over opts (running_task s) None
     (snd (abort_running True (map_option task_epoch (running_task s))
       (cancel_before_lock opts (Some (cancel_lease s)) (s\<lparr>finalization_gate := granted s\<rparr>))))"

definition kept_teardown :: "session_state \<Rightarrow> input_item list \<Rightarrow> parent_delivery list \<Rightarrow> teardown" where
  "kept_teardown s cancelled owed = \<lparr>td_prompt_id = running_prompt_id s, td_cancelled = cancelled, td_rewound = None,
     td_epoch = map_option task_epoch (running_task s), td_completions = owed\<rparr>"

definition cancelled_state :: "cancel_options \<Rightarrow> rstring option \<Rightarrow> session_state \<Rightarrow> session_state" where
  "cancelled_state opts pinned s = (case cancelled_core opts s of ((cancelled, owed), s2) \<Rightarrow>
     (reply_cancelled (running_task s \<noteq> None) cancelled
       (settle_parent_message_completions owed (TurnOk (Cancelled (Some MidTurnAbort)))
         (emit_cancelled_terminal (Some (cancel_lease s)) pinned (kept_teardown s cancelled owed)
           (report_teardown opts (kept_teardown s cancelled owed) s2))))
     \<lparr>running_task := None, finalization_gate := (granted s)\<lparr>gate_active := None\<rparr>\<rparr>)"

lemma cancel_lease_epoch: "lease_epoch (Some (cancel_lease s)) = map_option task_epoch (running_task s)"
  by (simp add: lease_epoch_def cancel_lease_def split: option.split)

lemma cancelled_core_frame:
  "running_task (snd (cancelled_core opts s)) = running_task s"
  "finalization_gate (snd (cancelled_core opts s)) = granted s"
  "\<exists>fs. set (pending_inputs (snd (cancelled_core opts s))) \<subseteq> set (pending_inputs s) \<union> fallback_input ` fs"
  using hand_over_frame [of opts "running_task s" None "snd (abort_running True (map_option task_epoch (running_task s))
       (cancel_before_lock opts (Some (cancel_lease s)) (s\<lparr>finalization_gate := granted s\<rparr>)))"]
  unfolding cancelled_core_def by simp_all

lemma some_case: "(case x of None \<Rightarrow> None | Some y \<Rightarrow> (Some \<circ> f) y) = map_option f x"
  by (cases x) simp_all

lemma cancel_keep_result:
  assumes "session_inv s" and "co_history opts = Keep"
  shows "cancel_running_task opts pinned s =
    (\<lparr>barrier = (if suppresses_wakes opts then Armed else Clear),
      turn_stopped = (running_task s \<noteq> None \<and> cancel_reason_for_options opts \<noteq> None), settled = True\<rparr>,
     cancelled_state opts pinned s)"
proof -
  let ?s = "s\<lparr>finalization_gate := granted s\<rparr>" and ?l = "Some (cancel_lease s)"
  obtain cancelled owed s2 where core: "cancelled_core opts s = ((cancelled, owed), s2)" by (metis prod.exhaust)
  let ?td = "\<lparr>td_prompt_id = running_prompt_id s, td_cancelled = cancelled, td_rewound = None,
            td_epoch = map_option task_epoch (running_task s), td_completions = owed\<rparr>"
  have s2: "running_task s2 = running_task s" "finalization_gate s2 = granted s"
    using cancelled_core_frame [of opts s] by (simp_all add: core)
  have "finalization_binding_is_current (cancel_lease s) (cancel_before_lock opts ?l ?s)"
    by (rule cancel_lease_current [OF assms(1)]) simp_all
  then have lock: "teardown_under_lock opts ?l (cancel_before_lock opts ?l ?s) = (Some ?td, s2)"
    using core assms(2)
    by (simp add: teardown_under_lock_def requested_prompt_id_def rewind_requested_def cancel_lease_epoch some_case
        cancelled_core_def abort_running_eq(1) running_prompt_id_def Let_def case_prod_unfold)
  show ?thesis
    using assms s2
    by (simp add: cancel_running_task_def requested_prompt_id_def cancel_generic_def rewind_requested_def
        claim_cancel_granted tear_down_def lock finish_teardown_def finish_cancel_lease cancelled_state_def kept_teardown_def core
        running_prompt_id_def Let_def)
qed

lemma cancelled_state_inv:
  assumes "session_inv s"
  shows "session_inv (cancelled_state opts pinned s)"
proof -
  obtain fs where "set (pending_inputs (snd (cancelled_core opts s))) \<subseteq> set (pending_inputs s) \<union> fallback_input ` fs"
    using cancelled_core_frame(3) by blast
  from ok_rows [OF session_invD(4) [OF assms] this] show ?thesis
    by (simp add: cancelled_state_def session_inv_def running_prompt_id_def gate_is_active_def case_prod_unfold)
qed

lemma claim_rewind_eq:
  assumes "rewindable s" and "front_is_rewind_poppable s" and "pending_inputs s = front # rest"
    and "transition (TurnTarget \<lparr>prompt_id = requested, epoch = turn_epoch s\<rparr>) Rewind (message_delivery s) = (tr, slots)"
  shows "fst (claim_rewind requested s) = Some (front, completions tr)"
    "pending_inputs (snd (claim_rewind requested s)) = rest @ map fallback_input (fallbacks tr)"
    "finalization_gate (snd (claim_rewind requested s)) = finalization_gate s"
    "message_delivery (snd (claim_rewind requested s)) = slots"
    "running_task (snd (claim_rewind requested s)) =
       (if running_prompt_id s = Some requested then None else running_task s)"
  using assms
  by (simp_all add: claim_rewind_def transition_parent_messages_def pop_front_def running_prompt_id_def Let_def
      split: option.split)

lemma claim_rewind_inv:
  assumes "session_inv s" and "front_prompt_id s = Some requested"
  shows "session_inv (snd (claim_rewind requested s))"
proof (cases "rewindable s \<and> front_is_rewind_poppable s")
  case True
  obtain front rest where p: "pending_inputs s = front # rest" "in_prompt_id front = requested"
    using assms(2) by (cases "pending_inputs s") (auto simp: front_prompt_id_def)
  obtain tr slots where t: "transition (TurnTarget \<lparr>prompt_id = requested, epoch = turn_epoch s\<rparr>) Rewind (message_delivery s) = (tr, slots)"
    by fastforce
  have "running_prompt_id s = None \<or> running_prompt_id s = Some requested"
    using session_invD(1) [OF assms(1)] p by (auto simp: front_inv_def split: option.splits)
  moreover have "list_all ok_item rest" using session_invD(4) [OF assms(1)] p by simp
  ultimately show ?thesis
    using claim_rewind_eq [of s front rest requested tr slots] True p t session_invD(2) [OF assms(1)]
    by (auto simp: session_inv_def gate_is_active_def running_prompt_id_def list_all_iff)
qed (use assms in \<open>simp add: claim_rewind_def\<close>)

lemma generic_inv:
  assumes "session_inv s" and "rewind_requested opts \<or> co_history opts = Keep"
  shows "session_inv (snd (cancel_generic opts pinned s))"
proof (cases "rewind_requested opts")
  case False
  then have "cancel_generic opts pinned s = cancel_running_task opts pinned s"
    using assms(2) by (simp add: cancel_running_task_def requested_prompt_id_def)
  then show ?thesis using cancel_keep_result [OF assms(1)] cancelled_state_inv [OF assms(1)] False assms(2) by simp
qed (simp add: cancel_generic_def tear_down_rewind_inv assms(1))

lemma finish_rewound_inv:
  "session_inv s \<Longrightarrow> session_inv (snd (finish_rewound_cancel input b (settle_parent_message_completions ds r s)))"
  by (erule session_inv_same) (simp_all add: finish_rewound_cancel_def)

lemma cancel_inv:
  assumes "session_inv s"
  shows "session_inv (snd (cancel_running_task opts pinned s))"
proof -
  have "session_inv (snd (case claim_rewind pid s of
      (Some (input, owed), s) \<Rightarrow> finish_rewound_cancel input b (settle_parent_message_completions owed (TurnOk Rewound) s)
    | (None, s) \<Rightarrow> cancel_generic opts pinned s))"
    if "front_prompt_id s = Some pid" and "rewind_requested opts" for pid b
    using claim_rewind_inv [OF assms that(1)] that(2) finish_rewound_inv generic_inv
    by (cases "claim_rewind pid s") (auto split: option.split)
  moreover have "session_inv (snd (cancel_generic opts pinned s))"
    using generic_inv [OF assms] by (auto simp: rewind_requested_def)
  ultimately show ?thesis
    by (auto simp: cancel_running_task_def requested_prompt_id_def rewind_requested_def assms
        split: history_disposition.splits option.splits)
qed

lemma cancel_for_send_now_inv:
  assumes "session_inv s"
  shows "session_inv (snd (cancel_turn_for_send_now fresh pinned s))"
proof -
  have "session_inv (snd (cancel_running_task opts pinned (snd (flush_stranded_interjections fresh s))))" for opts
    by (intro cancel_inv flush_inv assms)
  moreover have "session_inv (s\<lparr>notifications_suppressed := b, hook_block_held := b'\<rparr>)" if "session_inv s" for s b b'
    using that by (rule session_inv_same) simp_all
  ultimately show ?thesis
    by (simp add: cancel_turn_for_send_now_def take_hook_block_hold_def Let_def case_prod_unfold)
qed

end
