(* ===== verification/Session_Loop.thy ===== *)
theory Session_Loop
  imports Session_Cancel
begin

text \<open>
  The arms of the session's command loop (\<open>acp_session_impl/run_loop.rs\<close>) that move the queue:
  each handles one command, releases the hold of a blocking hook when a person acted on the
  queue, and starts the next turn.  What the arms do besides (replay buffer, model switches, the
  goal loop, idle notifications) is outside this model.
\<close>

record loop_env =
  le_queue :: queue_env
  le_start :: start_env
  le_pinned :: "rstring option"
  le_fresh :: "(rstring \<times> nat) list"

definition cancel_if_needed :: "loop_env \<Rightarrow> bool \<Rightarrow> session_state \<Rightarrow> bool \<times> session_state" where
  \<comment> \<open>whether the queue may be kicked: an unsettled cancel leaves that to the owner of the turn\<close>
  "cancel_if_needed env needed s =
     (if needed then (case cancel_turn_for_send_now (le_fresh env) (le_pinned env) s of (outcome, s) \<Rightarrow> (settled outcome, s))
      else (True, s))"

definition loop_prompt :: "loop_env \<Rightarrow> queue_input_request \<Rightarrow> session_state \<Rightarrow> session_state" where
  "loop_prompt env rq s0 =
     (let s = user_intake (rq_origin rq) s0;
          (cancel_for_send_now, s) = queue_input (le_queue env) rq s;
          (ok, s) = cancel_if_needed env cancel_for_send_now s
      in if ok then maybe_start_running_task (le_start env) s else s)"

definition after_mutation :: "loop_env \<Rightarrow> bool \<times> session_state \<Rightarrow> session_state" where
  "after_mutation env = (\<lambda>(changed, s).
     maybe_start_running_task (le_start env) (if changed then release_hook_block_hold s else s))"

definition loop_remove :: "loop_env \<Rightarrow> rstring \<Rightarrow> u64 \<Rightarrow> rstring option \<Rightarrow> session_state \<Rightarrow> session_state" where
  "loop_remove env i expected_version owner s = after_mutation env (handle_remove_queued_prompt i expected_version owner s)"

definition loop_reorder :: "loop_env \<Rightarrow> rstring list \<Rightarrow> session_state \<Rightarrow> session_state" where
  "loop_reorder env ordered_ids s = after_mutation env (handle_reorder_queue ordered_ids s)"

definition loop_clear :: "loop_env \<Rightarrow> rstring option \<Rightarrow> session_state \<Rightarrow> session_state" where
  "loop_clear env owner s = after_mutation env (handle_clear_queue owner s)"

definition loop_edit :: "loop_env \<Rightarrow> rstring \<Rightarrow> rstring \<Rightarrow> rstring option \<Rightarrow> session_state \<Rightarrow> session_state" where
  "loop_edit env i new_text editor s = after_mutation env (handle_edit_queued_prompt i new_text editor s)"

definition loop_release_edit :: "loop_env \<Rightarrow> rstring \<Rightarrow> session_state \<Rightarrow> session_state" where
  "loop_release_edit env i s = maybe_start_running_task (le_start env) (handle_release_edit i s)"

definition loop_interject_queued ::
  "loop_env \<Rightarrow> rstring \<Rightarrow> u64 \<Rightarrow> rstring option \<Rightarrow> rstring option \<Rightarrow> session_state \<Rightarrow> session_state" where
  "loop_interject_queued env i expected_version owner new_text s0 =
     (let (send_now, s) = handle_interject_queued_prompt (le_queue env) i expected_version owner new_text s0;
          (ok, s) = cancel_if_needed env (cancel_running_turn send_now) s;
          s = (if ok \<and> mutated send_now then release_hook_block_hold s else s)
      in if ok then maybe_start_running_task (le_start env) s else s)"

definition loop_cancel :: "loop_env \<Rightarrow> cancel_options \<Rightarrow> session_state \<Rightarrow> session_state" where
  \<comment> \<open>interjections are cleared, not turned into prompts: the user stopped the model\<close>
  "loop_cancel env opts s0 =
     (let s = s0\<lparr>pending_interjections := queue_clear (pending_interjections s0)\<rparr>;
          (outcome, s) = cancel_running_task opts (le_pinned env) s
      in if settled outcome \<or> rewind_requested opts then maybe_start_running_task (le_start env) s else s)"

definition push_interjection :: "rstring \<Rightarrow> rstring option \<Rightarrow> rstring list \<Rightarrow> session_state \<Rightarrow> session_state" where
  "push_interjection t i images s0 =
     (let s = emit (BroadcastInterjection t i) s0;
          s = emit (EmitInterjected DirectSource (of_nat (length images))) s
      in s\<lparr>pending_interjections := queue_push \<lparr>ij_text = t, ij_attachments = images\<rparr> (pending_interjections s)\<rparr>)"

definition loop_interject ::
  "loop_env \<Rightarrow> rstring \<Rightarrow> rstring option \<Rightarrow> rstring list \<Rightarrow> rstring \<Rightarrow> nat \<Rightarrow> session_state \<Rightarrow> session_state" where
  \<comment> \<open>merged into the running turn when there is one, its own prompt otherwise\<close>
  "loop_interject env t i images uuid respond s0 =
     (if le_pinned env \<noteq> None then push_interjection t i images s0
      else
        let s = emit (BroadcastInterjection t i) s0;
            s = emit (EmitInterjected DirectSource (of_nat (length images))) s;
            s = queue_interjection_fallback_prompt uuid respond t images True s
        in maybe_start_running_task (le_start env) s)"

definition loop_completion :: "loop_env \<Rightarrow> rstring \<Rightarrow> u64 \<Rightarrow> nat \<Rightarrow> turn_result \<Rightarrow> session_state \<Rightarrow> session_state" where
  "loop_completion env pid ep ident r s =
     (case handle_completion pid ep ident r s of
        (False, s) \<Rightarrow> s
      | (True, s) \<Rightarrow> (case flush_stranded_interjections (le_fresh env) s of
          (_, s) \<Rightarrow> maybe_start_running_task (le_start env) s))"

end
