(* ===== verification/Session_Reachable.thy ===== *)
theory Session_Reachable
  imports Cancel_Invariants Session_Loop
begin

text \<open>
  The sessions that commands can lead to, and what holds of all of them.
\<close>

section \<open>Commands\<close>

datatype command =
    QueueInput queue_env queue_input_request
  | FallbackPrompt rstring nat rstring "rstring list" bool
  | FlushStranded "(rstring \<times> nat) list"
  | PromoteQueued queue_env
  | RemoveQueued rstring u64 "rstring option"
  | SendQueuedNow queue_env rstring u64 "rstring option" "rstring option"
  | ReorderQueue "rstring list"
  | ClearQueue "rstring option"
  | EditQueued rstring rstring "rstring option"
  | HoldEdit instant rstring
  | ReleaseEdit rstring
  | ArmHookHold
  | ReleaseHookHold
  | MarkCommitted
  | StartTurn start_env
  | AdmitParent bool operation rstring rstring rstring nat
  | DrainParent bool bool
  | CompleteTurn rstring u64 nat turn_result
  | CancelTurn cancel_options "rstring option"
  | CancelForSendNow "(rstring \<times> nat) list" "rstring option"
  | ClearInterjections
  | UserIntake prompt_origin
  | PushInterjection rstring "rstring option" "rstring list"

fun run_command :: "command \<Rightarrow> session_state \<Rightarrow> session_state" where
  "run_command (QueueInput env rq) s = snd (queue_input env rq s)"
| "run_command (FallbackPrompt uuid k txt images front) s = queue_interjection_fallback_prompt uuid k txt images front s"
| "run_command (FlushStranded fresh) s = snd (flush_stranded_interjections fresh s)"
| "run_command (PromoteQueued env) s = promote_queued_as_interjections env s"
| "run_command (RemoveQueued i v owner) s = snd (handle_remove_queued_prompt i v owner s)"
| "run_command (SendQueuedNow env i v owner txt) s = snd (handle_interject_queued_prompt env i v owner txt s)"
| "run_command (ReorderQueue ids) s = snd (handle_reorder_queue ids s)"
| "run_command (ClearQueue owner) s = snd (handle_clear_queue owner s)"
| "run_command (EditQueued i txt editor) s = snd (handle_edit_queued_prompt i txt editor s)"
| "run_command (HoldEdit now i) s = handle_hold_edit now i s"
| "run_command (ReleaseEdit i) s = handle_release_edit i s"
| "run_command ArmHookHold s = s\<lparr>hook_block_held := True\<rparr>"
| "run_command ReleaseHookHold s = release_hook_block_hold s"
| "run_command MarkCommitted s = mark_front_message_committed s"
| "run_command (StartTurn env) s = maybe_start_running_task env s"
| "run_command (AdmitParent grant op i sender txt k) s = snd (admit_parent_agent_message grant op i sender txt k s)"
| "run_command (DrainParent flushed ok) s =
     snd (drain_parent_messages_at_safe_point flushed (\<lambda>_. if ok then Inr () else Inl ()) s)"
| "run_command (CompleteTurn pid ep ident r) s = snd (handle_completion pid ep ident r s)"
| "run_command (CancelTurn opts pinned) s = snd (cancel_running_task opts pinned s)"
| "run_command (CancelForSendNow fresh pinned) s = snd (cancel_turn_for_send_now fresh pinned s)"
| "run_command ClearInterjections s = s\<lparr>pending_interjections := queue_clear (pending_interjections s)\<rparr>"
| "run_command (UserIntake origin) s = user_intake origin s"
| "run_command (PushInterjection t i images) s = push_interjection t i images s"

definition initial_session :: "rstring \<Rightarrow> session_state" where
  "initial_session sid = \<lparr>session_id = sid, running_task = None,
     finalization_gate = \<lparr>next_token = 0, gate_active = None\<rparr>, message_delivery = lifecycle_default,
     pending_inputs = [], edit_holds = [], notifications_suppressed = False, hook_block_held = False,
     rewindable = False, front_message_committed = False, turn_epoch = 0, next_identity = 0,
     pending_interjections = queue_new, outbox = []\<rparr>"

inductive reachable :: "session_state \<Rightarrow> bool" where
  start: "reachable (initial_session sid)"
| command: "reachable s \<Longrightarrow> reachable (run_command c s)"

section \<open>The invariant of reachable sessions\<close>

lemma session_inv_command: "session_inv s \<Longrightarrow> session_inv (run_command c s)"
proof (cases c)
  case (HoldEdit now i)
  moreover assume "session_inv s"
  ultimately show ?thesis by (auto simp: handle_hold_edit_def intro: session_inv_same)
next
  case (ReleaseEdit i)
  moreover assume "session_inv s"
  ultimately show ?thesis by (auto simp: handle_release_edit_def intro: session_inv_same)
next
  case ArmHookHold
  moreover assume "session_inv s"
  ultimately show ?thesis by (auto intro: session_inv_same)
next
  case ReleaseHookHold
  moreover assume "session_inv s"
  ultimately show ?thesis
    by (auto simp: release_hook_block_hold_def take_hook_block_hold_def intro: session_inv_same)
next
  case ClearInterjections
  moreover assume "session_inv s"
  ultimately show ?thesis by (auto intro: session_inv_same)
next
  case (UserIntake origin)
  moreover assume "session_inv s"
  ultimately show ?thesis by (auto simp: user_intake_def take_hook_block_hold_def intro: session_inv_same)
next
  case (PushInterjection t i images)
  moreover assume "session_inv s"
  ultimately show ?thesis by (auto simp: push_interjection_def Let_def intro: session_inv_same)
next
  case MarkCommitted
  moreover assume "session_inv s"
  ultimately show ?thesis by (auto simp: mark_front_message_committed_def intro: session_inv_same)
qed (simp_all add: queue_input_inv fallback_prompt_inv flush_inv promote_inv remove_inv send_now_inv reorder_inv
    clear_inv edit_inv start_inv admit_inv drain_inv completion_inv cancel_inv cancel_for_send_now_inv)

lemma reachable_inv: "reachable s \<Longrightarrow> session_inv s"
proof (induction rule: reachable.induct)
  case (start sid)
  show ?case by (simp add: session_inv_def initial_session_def running_prompt_id_def gate_is_active_def)
qed (rule session_inv_command)

lemma outbox_grows:
  "e \<in> set (outbox s) \<Longrightarrow> e \<in> set (outbox (broadcast_queue_changed s))"
  "e \<in> set (outbox s) \<Longrightarrow> e \<in> set (outbox (settle_parent_message_completions ds r s))"
proof -
  show "e \<in> set (outbox (settle_parent_message_completions ds r s))" if "e \<in> set (outbox s)"
    using that unfolding settle_parent_message_completions_def by (induction ds arbitrary: s) simp_all
qed (simp add: broadcast_queue_changed_def broadcast_queue_changed_inner_def)

lemma completed_state_replies: "Reply (in_respond front) r \<in> set (outbox (completed_state pid ep r front rest s))"
  by (simp add: completed_state_def transition_parent_messages_def Let_def case_prod_unfold outbox_grows)

text \<open>
  C5. Whatever commands a session has handled, the turn that runs owns the front of the queue: its
  completion is accepted, answers that row, clears the task, reopens the finalization gate and
  keeps every other row in its place; a completion that does not name exactly the running task
  changes nothing.
\<close>

theorem running_turn_owns_front:
  assumes "reachable s"
  shows "(case running_task s of
      None \<Rightarrow> True
    | Some task \<Rightarrow> \<exists>front rest s'. pending_inputs s = front # rest \<and> in_prompt_id front = task_prompt_id task \<and>
        handle_completion (task_prompt_id task) (task_epoch task) (task_identity task) r s = (True, s') \<and>
        Reply (in_respond front) r \<in> set (outbox s') \<and>
        running_task s' = None \<and> \<not> gate_is_active s' \<and> prefix rest (pending_inputs s')) \<and>
    (task_matches (BoundTask pid ep ident) s \<or> handle_completion pid ep ident r s = (False, s))"
    (is "?owned \<and> _")
proof -
  have inv: "session_inv s" using assms by (rule reachable_inv)
  have "?owned"
  proof (cases "running_task s")
    case (Some task)
    with inv obtain front rest s' where "pending_inputs s = front # rest" "in_prompt_id front = task_prompt_id task"
      "handle_completion (task_prompt_id task) (task_epoch task) (task_identity task) r s = (True, s')"
      "Reply (in_respond front) r \<in> set (outbox s')" "running_task s' = None" "\<not> gate_is_active s'"
      "prefix rest (pending_inputs s')"
      by (rule handle_completion_owned [of s task r])
        (auto simp: completed_state_replies completed_state_frame gate_is_active_def)
    with Some show ?thesis by auto
  qed simp
  moreover have "task_matches (BoundTask pid ep ident) s \<or> handle_completion pid ep ident r s = (False, s)"
    using handle_completion_stale by blast
  ultimately show ?thesis by (rule conjI)
qed

definition sample_session :: session_state where
  "sample_session = run_command (StartTurn \<lparr>goal_loop_active = False, is_unreported_completion = \<lambda>_ _. False,
       combine_queued = False, start_now = 0\<rparr>)
     (run_command (FallbackPrompt (lit ''1'') 7 (lit ''hi'') [] False) (initial_session (lit ''s'')))"

lemma sample_session_reachable: "reachable sample_session"
  unfolding sample_session_def by (intro reachable.intros)

lemma sample_session_running:
  "running_task sample_session =
     Some \<lparr>task_prompt_id = lit ''interject-fallback-'' @ lit ''1'', task_epoch = 1, task_identity = 0\<rparr>"
  by (simp add: sample_session_def initial_session_def queue_interjection_fallback_prompt_def Let_def
      maybe_start_running_task_def gate_is_active_def drop_stale.simps stale_front_def prune_holds_def
      expire_older_than_def front_held_def start_front_def emit_def broadcast_queue_changed_promoting_def
      broadcast_queue_changed_inner_def)

theorem running_turn_owns_front_witness:
  "\<exists>s'. handle_completion (lit ''interject-fallback-'' @ lit ''1'') 1 0 (TurnOk Completed) sample_session = (True, s') \<and>
     running_task s' = None"
  using running_turn_owns_front [OF sample_session_reachable, of "TurnOk Completed" "[]" 0 0]
  by (auto simp: sample_session_running)

end
