(* ===== verification/Prompt_Accounting.thy ===== *)
theory Prompt_Accounting
  imports Session_Reachable
begin

text \<open>
  Who is told what became of a prompt.  Every prompt brings a response channel.  This theory
  accounts for these channels over any sequence of commands: a channel is held by a queued row,
  held by a message on its way into the running turn, or has been answered.
\<close>

section \<open>Channels\<close>

fun reply_channel :: "effect \<Rightarrow> nat option" where
  "reply_channel (Reply k _) = Some k"
| "reply_channel _ = None"

definition replied :: "session_state \<Rightarrow> nat multiset" where
  "replied s = mset (List.map_filter reply_channel (outbox s))"

definition queued_channels :: "session_state \<Rightarrow> nat multiset" where
  "queued_channels s = mset (map in_respond (pending_inputs s))"

definition parent_channels :: "session_state \<Rightarrow> nat multiset" where
  "parent_channels s = mset (map (completion \<circ> owned) (message_delivery s))"

definition new_channels :: "command \<Rightarrow> session_state \<Rightarrow> nat list" where
  "new_channels c s = (case c of
     QueueInput env rq \<Rightarrow> [rq_respond rq]
   | FallbackPrompt uuid k txt images front \<Rightarrow> [k]
   | FlushStranded fresh \<Rightarrow> map snd (take (length (fst (queue_drain_all (pending_interjections s)))) fresh)
   | CancelForSendNow fresh pinned \<Rightarrow> map snd (take (length (fst (queue_drain_all (pending_interjections s)))) fresh)
   | AdmitParent grant op i sender txt k \<Rightarrow>
       (if fst (admit_parent_agent_message grant op i sender txt k s) = Admitted then [k] else [])
   | _ \<Rightarrow> [])"

definition preempted :: "command \<Rightarrow> session_state \<Rightarrow> input_item list" where
  \<comment> \<open>the rows a person's prompt makes obsolete; they are dropped unanswered\<close>
  "preempted c s = (case c of
     QueueInput env rq \<Rightarrow>
       (if is_human_intent (authority (origin_policy (rq_origin rq))) \<and> preempt_armed s
        then fst (sweep_pending_inputs (\<lambda>i. is_preemptible_runtime_wake (in_origin i)) s) else [])
   | _ \<Rightarrow> [])"

fun accepted :: "command list \<Rightarrow> session_state \<Rightarrow> nat list" where
  "accepted [] s = []"
| "accepted (c # cs) s = new_channels c s @ accepted cs (run_command c s)"

fun all_preempted :: "command list \<Rightarrow> session_state \<Rightarrow> input_item list" where
  "all_preempted [] s = []"
| "all_preempted (c # cs) s = preempted c s @ all_preempted cs (run_command c s)"

section \<open>What an operation does to the channels\<close>

lemma replied_emit [simp]:
  "replied (emit e s) = replied s + (case reply_channel e of None \<Rightarrow> {#} | Some k \<Rightarrow> {#k#})"
  by (simp add: replied_def emit_def List.map_filter_def split: option.split)

lemma replied_update [simp]:
  "replied (s\<lparr>pending_inputs := items\<rparr>) = replied s" "replied (s\<lparr>pending_interjections := q\<rparr>) = replied s"
  "replied (s\<lparr>message_delivery := d\<rparr>) = replied s" "replied (s\<lparr>running_task := t\<rparr>) = replied s"
  "replied (s\<lparr>finalization_gate := g\<rparr>) = replied s" "replied (s\<lparr>edit_holds := h\<rparr>) = replied s"
  "replied (s\<lparr>hook_block_held := b\<rparr>) = replied s" "replied (s\<lparr>front_message_committed := b\<rparr>) = replied s"
  "replied (s\<lparr>notifications_suppressed := b\<rparr>) = replied s" "replied (s\<lparr>rewindable := b\<rparr>) = replied s"
  "replied (s\<lparr>turn_epoch := ep\<rparr>) = replied s" "replied (s\<lparr>next_identity := i\<rparr>) = replied s"
  by (simp_all add: replied_def)

lemma replied_frame [simp]:
  "replied (broadcast_queue_changed s) = replied s"
  "replied (release_hold i s) = replied s"
  "replied (enqueue_prompt_as_planner_steering item s) = replied s"
  "replied (enqueue_prompt_as_interjection item src s) = replied s + {#in_respond item#}"
  "replied (respond_removed_prompt k s) = replied s + {#k#}"
  "replied (announce_input env rq s) = replied s"
  by (simp_all add: broadcast_queue_changed_def broadcast_queue_changed_inner_def release_hold_def
      enqueue_prompt_as_planner_steering_def enqueue_prompt_as_interjection_def respond_removed_prompt_def
      announce_input_def Let_def split: prompt_origin.split)

lemma replied_folds [simp]:
  "replied (fold (\<lambda>k. respond_removed_prompt k) ks s) = replied s + mset ks"
  "replied (fold (\<lambda>i. emit (ReleaseReservation i)) is s) = replied s"
  "replied (fold (\<lambda>item s. enqueue_prompt_as_interjection item src
      (if g then enqueue_prompt_as_planner_steering item s else s)) items s) = replied s + mset (map in_respond items)"
  "replied (settle_parent_message_completions ds r s) = replied s + mset (map completion ds)"
  subgoal by (induction ks arbitrary: s) simp_all
  subgoal by (induction "is" arbitrary: s) simp_all
  subgoal by (induction items arbitrary: s) simp_all
  subgoal unfolding settle_parent_message_completions_def by (induction ds arbitrary: s) simp_all
  done

lemma queued_update [simp]: "queued_channels (s\<lparr>pending_inputs := items\<rparr>) = mset (map in_respond items)"
  by (simp add: queued_channels_def)

lemma mset_insert_at: "mset (insert_at i x xs) = add_mset x (mset xs)"
  by (simp add: insert_at_def) (metis append_take_drop_id mset_append union_mset_add_mset_right)

lemma queued_insert_at: "mset (map in_respond (insert_at i item xs)) = mset (map in_respond xs) + {#in_respond item#}"
  by (simp add: mset_insert_at)

lemma queued_remove_at:
  assumes "position P xs = Some i"
  shows "mset (map in_respond (remove_at i xs)) + {#in_respond (xs ! i)#} = mset (map in_respond xs)"
  using assms by (rule position_Some_split) auto

lemma filter_channels:
  "mset (map in_respond (filter P xs)) + mset (map in_respond (filter (\<lambda>i. \<not> P i) xs)) = mset (map in_respond xs)"
  by (induction xs) auto

definition balanced :: "nat multiset \<Rightarrow> nat multiset \<Rightarrow> session_state \<Rightarrow> session_state \<Rightarrow> bool" where
  \<comment> \<open>from one state to the next, channels came in and channels were dropped\<close>
  "balanced new gone s s' \<longleftrightarrow> queued_channels s' + parent_channels s' + replied s' + gone =
     queued_channels s + parent_channels s + replied s + new"

lemma balanced_same:
  assumes "pending_inputs s' = pending_inputs s" and "message_delivery s' = message_delivery s" and "replied s' = replied s"
  shows "balanced {#} {#} s s'"
  using assms by (simp add: balanced_def queued_channels_def parent_channels_def)

lemma balanced_trans:
  assumes "balanced n1 g1 s s'" and "balanced n2 g2 s' s''"
  shows "balanced (n1 + n2) (g1 + g2) s s''"
  using assms unfolding balanced_def by (metis (no_types, lifting) add.assoc add.commute)

lemma balancedI:
  assumes "message_delivery s' = message_delivery s"
    and "mset (map in_respond (pending_inputs s')) + replied s' + gone =
         mset (map in_respond (pending_inputs s)) + replied s + new"
  shows "balanced new gone s s'"
  using assms by (simp add: balanced_def queued_channels_def parent_channels_def ac_simps)

section \<open>Every command balances\<close>

lemma preempt_balanced:
  "balanced {#} (if preempt_armed s
     then mset (map in_respond (fst (sweep_pending_inputs (\<lambda>i. is_preemptible_runtime_wake (in_origin i)) s))) else {#})
     s (preempt_runtime_wakes s)"
proof (rule balancedI)
  let ?P = "\<lambda>i. running_prompt_id s \<noteq> Some (in_prompt_id i) \<and> is_preemptible_runtime_wake (in_origin i)"
  from filter_channels [of ?P "pending_inputs s"] show "mset (map in_respond (pending_inputs (preempt_runtime_wakes s))) + replied (preempt_runtime_wakes s) +
      (if preempt_armed s
       then mset (map in_respond (fst (sweep_pending_inputs (\<lambda>i. is_preemptible_runtime_wake (in_origin i)) s))) else {#}) =
      mset (map in_respond (pending_inputs s)) + replied s + {#}"
    by (simp add: preempt_runtime_wakes_def sweep_pending_inputs_def Let_def ac_simps del: mset_map)
qed simp

lemma announce_balanced: "balanced {#} {#} s (announce_input env rq s)"
  by (rule balanced_same) simp_all

lemma insert_balanced:
  "balanced {#in_respond item#} {#} s (s\<lparr>pending_inputs := insert_at i item (pending_inputs s)\<rparr>)"
  "balanced {#in_respond item#} {#} s (s\<lparr>pending_inputs := pending_inputs s @ [item]\<rparr>)"
  by (rule balancedI; simp add: queued_insert_at del: mset_map)+

lemma broadcast_balanced: "balanced new gone s s' \<Longrightarrow> balanced new gone s (broadcast_queue_changed s')"
  by (simp add: balanced_def queued_channels_def parent_channels_def)

lemma interjection_balanced: "balanced {#in_respond item#} {#} s (enqueue_prompt_as_interjection item src s)"
  by (rule balancedI) simp_all

lemma steering_balanced: "balanced {#} {#} s (enqueue_prompt_as_planner_steering item s)"
  by (rule balanced_same) simp_all

lemma queue_input_balanced:
  "balanced {#rq_respond rq#} (mset (map in_respond (preempted (QueueInput env rq) s))) s (snd (queue_input env rq s))"
proof -
  define s1 where "s1 = (let s = announce_input env rq s in
    if is_human_intent (authority (origin_policy (rq_origin rq))) then preempt_runtime_wakes s else s)"
  have armed: "preempt_armed (announce_input env rq s) = preempt_armed s"
    "fst (sweep_pending_inputs P (announce_input env rq s)) = fst (sweep_pending_inputs P s)" for P
    by (simp_all add: preempt_armed_def sweep_pending_inputs_def running_prompt_id_def)
  have first: "balanced {#} (mset (map in_respond (preempted (QueueInput env rq) s))) s s1"
    using balanced_trans [OF announce_balanced [of s env rq] preempt_balanced] announce_balanced [of s env rq]
    by (auto simp: s1_def preempted_def armed Let_def simp del: mset_map split: if_splits)
  let ?item = "item_of_request rq"
  have k: "in_respond ?item = rq_respond rq" by (simp add: item_of_request_def Let_def)
  have "balanced {#rq_respond rq#} {#} s1 (snd (queue_input env rq s))"
    using balanced_trans [OF steering_balanced [of s1 ?item] interjection_balanced [of ?item _ DirectSource]]
      insert_balanced(1) [of "?item\<lparr>in_send_now := True\<rparr>" s1] insert_balanced(2) [of ?item s1] k
    unfolding queue_input_def Let_def s1_def [unfolded Let_def, symmetric]
    by (simp add: broadcast_balanced commit_queued_delivery_def)
  from balanced_trans [OF first this] show ?thesis by simp
qed

lemma fallback_balanced:
  "balanced {#k#} {#} s (queue_interjection_fallback_prompt uuid k txt images front s)"
proof (rule balancedI)
  show "mset (map in_respond (pending_inputs (queue_interjection_fallback_prompt uuid k txt images front s))) +
      replied (queue_interjection_fallback_prompt uuid k txt images front s) + {#} =
      mset (map in_respond (pending_inputs s)) + replied s + {#k#}"
    by (cases front) (simp_all add: queue_interjection_fallback_prompt_def Let_def queued_insert_at del: mset_map)
qed (simp add: queue_interjection_fallback_prompt_def Let_def)

lemma flush_balanced:
  "balanced (mset (map snd (take (length (fst (queue_drain_all (pending_interjections s)))) fresh))) {#} s
     (snd (flush_stranded_interjections fresh s))"
proof -
  let ?f = "\<lambda>(entry :: rstring interjection, uuid, respond). queue_interjection_fallback_prompt uuid respond
     (ij_text entry) (ij_attachments entry) True"
  have fold: "balanced (mset (map (\<lambda>(_, _, k). k) es)) {#} s (fold ?f es s)" for es s
  proof (induction es arbitrary: s)
    case (Cons e es)
    obtain entry uuid k where e: "e = (entry, uuid, k)" by (cases e)
    from balanced_trans [OF fallback_balanced Cons] show ?case by (simp add: e)
  qed (simp add: balanced_same)
  have zip: "map (\<lambda>(_, _, k). k) (zip xs fresh) = map snd (take (length xs) fresh)" for xs :: "rstring interjection list"
    by (induction xs fresh rule: list_induct2') auto
  have "balanced {#} {#} s (s\<lparr>pending_interjections := q\<rparr>)" for q
    by (rule balanced_same) simp_all
  from balanced_trans [OF this fold] have "balanced (mset (map (\<lambda>(_, _, k). k) (zip xs fresh))) {#} s
      (fold ?f (zip xs fresh) (s\<lparr>pending_interjections := q\<rparr>))" for xs q by simp
  then show ?thesis
    unfolding zip flush_stranded_interjections_def by (metis (no_types, lifting) length_rev prod.case_eq_if snd_conv)
qed

lemma promote_balanced: "balanced {#} {#} s (promote_queued_as_interjections env s)"
proof -
  from promote_eq [of s env] obtain promoted rest where m: "mset promoted + mset rest = mset (pending_inputs s)"
    and e: "promote_queued_as_interjections env s = s \<or>
      promote_queued_as_interjections env s = broadcast_queue_changed (fold (\<lambda>item s.
        enqueue_prompt_as_interjection item QueueSource
          (if goal_active env then enqueue_prompt_as_planner_steering item s else s)) promoted (s\<lparr>pending_inputs := rest\<rparr>))"
    by blast
  have "mset (map in_respond promoted) + mset (map in_respond rest) = mset (map in_respond (pending_inputs s))"
    using m by (metis image_mset_union mset_map)
  with e show ?thesis
    by (auto simp: balanced_same ac_simps simp del: mset_map intro!: balancedI)
qed


lemma remove_balanced: "balanced {#} {#} s (snd (handle_remove_queued_prompt i v owner s))"
proof -
  have "balanced {#} {#} s (release_hold i (respond_removed_prompt (in_respond (pending_inputs s ! pos))
      (s\<lparr>pending_inputs := remove_at pos (pending_inputs s)\<rparr>)))"
    if "position P (pending_inputs s) = Some pos" for pos P
    using queued_remove_at [OF that] by (intro balancedI) (simp_all add: ac_simps del: mset_map)
  moreover have "balanced {#} {#} s (release_hold i s)" by (rule balanced_same) simp_all
  ultimately show ?thesis
    by (auto simp: handle_remove_queued_prompt_def Let_def broadcast_balanced split: option.split)
qed

lemma edit_balanced:
  "balanced {#} {#} s (s\<lparr>pending_inputs := (pending_inputs s)[pos := apply_queued_prompt_edit t e (pending_inputs s ! pos)]\<rparr>)"
proof -
  have "map in_respond (xs[pos := apply_queued_prompt_edit t e (xs ! pos)]) = map in_respond xs" for xs
    by (metis edit_prompt_id(2) list_update_beyond list_update_id map_update not_le)
  then show ?thesis by (intro balancedI) (simp_all del: mset_map)
qed

lemma release_balanced: "balanced new gone s s' \<Longrightarrow> balanced new gone s (release_hold i s')"
  by (simp add: balanced_def queued_channels_def parent_channels_def)

lemma send_row_balanced:
  assumes "position P (pending_inputs s) = Some pos"
  shows "balanced {#} {#} s (snd (send_row_now env owner txt pos s))"
proof -
  let ?s = "s\<lparr>pending_inputs := remove_at pos (pending_inputs s)\<rparr>"
  define item where "item = (case non_blank txt of
      Some t \<Rightarrow> apply_queued_prompt_edit t owner (pending_inputs s ! pos) | None \<Rightarrow> pending_inputs s ! pos)"
  have k: "in_respond item = in_respond (pending_inputs s ! pos)" by (simp add: item_def split: option.split)
  have out: "balanced {#} {#in_respond item#} s ?s"
    using queued_remove_at [OF assms] by (intro balancedI) (simp_all add: k ac_simps del: mset_map)
  have again: "balanced {#} {#} s s'" if "balanced {#in_respond item#} {#} ?s s'" for s'
    using balanced_trans [OF out that] by (simp add: balanced_def)
  show ?thesis
    using again [OF insert_balanced(1) [of "item\<lparr>in_send_now := True\<rparr>" ?s, simplified]]
      again [OF balanced_trans [OF steering_balanced [of ?s item] interjection_balanced [of item _ QueueSource], simplified]]
    by (simp add: send_row_now_def Let_def item_def [symmetric])
qed

lemma send_now_balanced: "balanced {#} {#} s (snd (handle_interject_queued_prompt env i v owner txt s))"
proof -
  have "balanced {#} {#} s s" by (rule balanced_same) simp_all
  moreover have "balanced {#} {#} s (snd (save_row_edit P owner txt s))" for P
    using edit_balanced \<open>balanced {#} {#} s s\<close> by (auto simp: save_row_edit_def split: option.split)
  ultimately show ?thesis
    using send_row_balanced [of _ s]
    by (auto simp: handle_interject_queued_prompt_def Let_def case_prod_unfold intro!: broadcast_balanced release_balanced
        split: option.split)
qed

lemma reorder_balanced: "balanced {#} {#} s (snd (handle_reorder_queue ids s))"
proof -
  have "mset (map in_respond (reorder_items running ids items)) = mset (map in_respond items)" for running items
    using mset_reorder by (metis mset_map)
  then show ?thesis by (intro balancedI) (simp_all add: handle_reorder_queue_def Let_def del: mset_map)
qed

lemma clear_balanced: "balanced {#} {#} s (snd (handle_clear_queue owner s))"
  using filter_channels [of "kept_by_clear (running_prompt_id s) owner" "pending_inputs s"]
  by (intro balancedI) (simp_all add: handle_clear_queue_def clear_loop_eq ac_simps del: mset_map)

lemma edit_queued_balanced: "balanced {#} {#} s (snd (handle_edit_queued_prompt i txt editor s))"
proof -
  have "balanced {#} {#} s (release_hold i s)" by (rule balanced_same) simp_all
  then show ?thesis
    using edit_balanced
    by (auto simp: handle_edit_queued_prompt_def Let_def intro!: broadcast_balanced release_balanced split: option.split)
qed


lemma combine_balanced: "balanced {#} {#} s (combine_front_pending_inputs skip s)"
proof (cases rule: combine_cases [of skip s])
  case (merged front rest n)
  have "mset (map in_respond (take n rest)) + mset (map in_respond (drop n rest)) = mset (map in_respond rest)"
    by (metis append_take_drop_id map_append mset_append)
  then show ?thesis
    unfolding merged(4) by (intro balancedI) (simp_all add: merged(1) ac_simps del: mset_map)
qed (simp add: balanced_same)

lemma drop_stale_balanced: "balanced {#} {#} s (prune_holds now (drop_stale env (pending_inputs s) s))"
proof -
  have "mset (map in_respond (takeWhile P xs)) + mset (map in_respond (dropWhile P xs)) = mset (map in_respond xs)" for P xs
    by (metis map_append mset_append takeWhile_dropWhile_id)
  then show ?thesis by (intro balancedI) (simp_all add: prune_holds_def drop_stale_eq ac_simps del: mset_map)
qed

lemma start_front_balanced: "balanced {#} {#} s (start_front s)"
proof (cases "pending_inputs s")
  case (Cons front rest)
  have "replied (start_front s) = replied s"
    by (simp add: start_front_def Let_def broadcast_queue_changed_promoting_def broadcast_queue_changed_inner_def
        split: list.split option.split)
  then show ?thesis using start_front_Cons [OF Cons] by (intro balancedI) (simp_all add: Cons)
qed (simp add: start_front_def balanced_same)

lemma start_balanced: "balanced {#} {#} s (maybe_start_running_task env s)"
proof -
  have "balanced {#} {#} s s" by (rule balanced_same) simp_all
  moreover note drop_stale_balanced [of s "start_now env" env]
    balanced_trans [OF drop_stale_balanced [of s "start_now env" env] start_front_balanced]
    balanced_trans [OF drop_stale_balanced [of s "start_now env" env] balanced_trans [OF combine_balanced start_front_balanced]]
  ultimately show ?thesis by (simp add: maybe_start_running_task_def Let_def)
qed

lemma admit_balanced:
  "balanced (mset (new_channels (AdmitParent grant op i sender txt k) s)) {#} s
     (snd (admit_parent_agent_message grant op i sender txt k s))"
proof (cases "fst (admit_parent_agent_message grant op i sender txt k s)")
  case Rejected
  then have "snd (admit_parent_agent_message grant op i sender txt k s) = s"
    by (auto simp: admit_parent_agent_message_def Let_def split: if_splits)
  with Rejected show ?thesis by (simp add: new_channels_def balanced_same)
next
  case Admitted
  then have fresh: "\<not> contains_identity i (message_delivery s)"
    by (auto simp: admit_parent_agent_message_def Let_def split: if_splits)
  let ?item = "parent_input sender \<lparr>pm_prompt_id = lit ''parent-message-'' @ i, pm_message_id = i, pm_text = txt\<rparr> k"
  have q: "balanced {#k#} {#} s (commit_queued_delivery ?item s)"
    using insert_balanced(2) [of ?item s] by (simp add: commit_queued_delivery_def broadcast_balanced parent_input_def Let_def)
  have "balanced {#k#} {#} s (s\<lparr>message_delivery := snd (admit_pending bd \<lparr>identity = i, source = sender, content = m\<rparr> k
      (message_delivery s))\<rparr>)" for bd m
    using fresh by (simp add: balanced_def queued_channels_def parent_channels_def admit_pending_def contains_identity_def)
  with Admitted q show ?thesis
    by (auto simp: new_channels_def admit_parent_agent_message_def Let_def split: if_splits option.split operation.split)
qed

lemma drain_balanced: "balanced {#} {#} s (snd (drain_parent_messages_at_safe_point flushed commit s))"
proof -
  have b: "map (completion \<circ> owned) (snd (begin_delivery bd d)) = map (completion \<circ> owned) d" for bd d
    by (simp add: begin_delivery_eq)
  have f: "map (completion \<circ> owned) (snd (finish_delivery bd commit d)) = map (completion \<circ> owned) d" for bd d
    by (simp add: finish_delivery_def Let_def split: sum.split)
  have keep: "balanced {#} {#} s (s\<lparr>message_delivery := d\<rparr>)"
    if "map (completion \<circ> owned) d = map (completion \<circ> owned) (message_delivery s)" for d
    using that by (simp add: balanced_def queued_channels_def parent_channels_def del: mset_map)
  show ?thesis
  proof (cases "running_task s")
    case (Some task)
    obtain msgs slots where d1: "begin_delivery (task_binding task) (message_delivery s) = (msgs, slots)" by fastforce
    obtain res slots' where d2: "finish_delivery (task_binding task) commit slots = (res, slots')" by fastforce
    have "map (completion \<circ> owned) slots = map (completion \<circ> owned) (message_delivery s)"
      "map (completion \<circ> owned) slots' = map (completion \<circ> owned) (message_delivery s)"
      using b [of "task_binding task" "message_delivery s"] f [of "task_binding task" slots] by (simp_all add: d1 d2)
    then show ?thesis by (simp add: drain_parent_messages_at_safe_point_def Some d1 d2 keep split: sum.split)
  qed (simp add: drain_parent_messages_at_safe_point_def balanced_same)
qed

lemma completed_balanced:
  assumes "pending_inputs s = front # rest"
  shows "balanced {#} {#} s (completed_state pid ep r front rest s)"
proof -
  obtain tr d where tr: "transition (TurnTarget \<lparr>prompt_id = pid, epoch = ep\<rparr>) Completion (message_delivery s) = (tr, d)"
    by fastforce
  have "mset (map completion (map owned (message_delivery s))) =
      mset (map completion (map owned d)) + mset (map completion (fallbacks tr)) + mset (map completion (completions tr))"
    by (subst mset_map, subst mset_transition [OF tr]) (simp add: image_mset.compositionality)
  moreover have "in_respond \<circ> fallback_input = completion" by (simp add: fun_eq_iff fallback_input_def parent_input_def Let_def)
  moreover have "replied (completed_state pid ep r front rest s) =
      replied s + {#in_respond front#} + mset (map completion (completions tr))"
    by (simp add: completed_state_def transition_parent_messages_def Let_def tr del: mset_map)
  ultimately show ?thesis
    by (simp add: balanced_def queued_channels_def parent_channels_def completed_state_frame tr assms ac_simps del: mset_map)
qed


lemma completion_balanced:
  assumes "session_inv s"
  shows "balanced {#} {#} s (snd (handle_completion pid ep ident r s))"
proof (cases "task_matches (BoundTask pid ep ident) s")
  case True
  then obtain task where task: "running_task s = Some task"
    "pid = task_prompt_id task" "ep = task_epoch task" "ident = task_identity task"
    by (auto simp: task_matches_def split: option.splits)
  let ?g = "\<lparr>next_token = next_token (finalization_gate s) + 1, gate_active = Some (next_token (finalization_gate s) + 1)\<rparr>"
  from assms task(1) obtain front rest where p: "pending_inputs s = front # rest"
    and h: "handle_completion (task_prompt_id task) (task_epoch task) (task_identity task) r s =
       (True, (completed_state (task_prompt_id task) (task_epoch task) r front rest (s\<lparr>finalization_gate := ?g\<rparr>))
        \<lparr>running_task := None, finalization_gate := ?g\<lparr>gate_active := None\<rparr>\<rparr>)"
    by (rule handle_completion_owned) simp
  from p completed_balanced [of "s\<lparr>finalization_gate := ?g\<rparr>" front rest pid ep r]
  show ?thesis unfolding task(2-4) h by (simp add: balanced_def queued_channels_def parent_channels_def)
qed (simp add: handle_completion_stale balanced_same)

subsection \<open>Cancelling\<close>

lemma balanced_answer:
  assumes "balanced new gone s s1" and "pending_inputs s2 = pending_inputs s1" and "message_delivery s2 = message_delivery s1"
    and "replied s2 = replied s1 + gone"
  shows "balanced new {#} s s2"
  using assms by (simp add: balanced_def queued_channels_def parent_channels_def ac_simps)

lemma balanced_keep:
  assumes "balanced new gone s s1" and "pending_inputs s2 = pending_inputs s1" and "message_delivery s2 = message_delivery s1"
    and "replied s2 = replied s1"
  shows "balanced new gone s s2"
  using assms by (simp add: balanced_def queued_channels_def parent_channels_def)

lemma replied_reply_cancelled [simp]:
  "replied (reply_cancelled b items s) = replied s + mset (map in_respond items)"
  by (induction b items s rule: reply_cancelled.induct) (simp_all split: option.split)

lemma replied_cancel_frame [simp]:
  "replied (cancel_before_lock opts lease s) = replied s"
  "replied (report_teardown opts td s) = replied s"
  "replied (emit_cancelled_terminal lease pinned td s) = replied s"
  "replied (snd (abort_running leased ep s)) = replied s"
  "replied (snd (legacy_rewind s e)) = replied s"
  by (simp_all add: cancel_before_lock_def arm_wake_barrier_def report_teardown_def emit_cancelled_terminal_def abort_running_eq legacy_rewind_eq Let_def
      split: bool.split option.split)

lemma transition_balanced:
  assumes "transition_parent_messages tgt cause s = ((ds, b), s')"
  shows "balanced {#} (mset (map completion ds)) s s'"
proof -
  obtain tr d where tr: "transition tgt cause (message_delivery s) = (tr, d)" by fastforce
  have "mset (map completion (map owned (message_delivery s))) =
      mset (map completion (map owned d)) + mset (map completion (fallbacks tr)) + mset (map completion (completions tr))"
    by (subst mset_map, subst mset_transition [OF tr]) (simp add: image_mset.compositionality)
  moreover have "in_respond \<circ> fallback_input = completion" by (simp add: fun_eq_iff fallback_input_def parent_input_def Let_def)
  ultimately show ?thesis
    using assms tr
    by (auto simp: transition_parent_messages_def balanced_def queued_channels_def parent_channels_def ac_simps simp del: mset_map)
qed

lemma take_cancelled_balanced:
  "balanced {#} (mset (map in_respond (fst (take_cancelled opts s)))) s (snd (take_cancelled opts s))"
  using filter_channels [of "\<lambda>i. suppresses_wakes opts \<and> completion_wake (in_origin i)" "tl (pending_inputs s)"]
  by (intro balancedI; cases "pending_inputs s") (auto simp: take_cancelled_eq take_cancelled_frame ac_simps simp del: mset_map)

lemma hand_over_balanced:
  assumes "hand_over opts aborted rewound s = ((cancelled, owed), s')"
  shows "balanced {#} (mset (map completion owed) + mset (map in_respond cancelled)) s s'"
proof -
  obtain ds b s1 where
    t: "transition_parent_messages (end_target (end_cause opts rewound) aborted) (end_cause opts rewound) s = ((ds, b), s1)"
    by (metis prod.exhaust)
  have "balanced {#} (mset (map in_respond cancelled)) s1 s'" "ds = owed"
    using assms take_cancelled_balanced [of opts s1] balanced_same [of s1 s1]
    by (auto simp: hand_over_eq [OF t] intro!: broadcast_balanced split: if_splits)
  with balanced_trans [OF transition_balanced [OF t]] show ?thesis by fastforce
qed

lemma cancelled_state_balanced: "balanced {#} {#} s (cancelled_state opts pinned s)"
proof -
  obtain cancelled owed s2 where core: "cancelled_core opts s = ((cancelled, owed), s2)" by (metis prod.exhaust)
  let ?s1 = "snd (abort_running True (map_option task_epoch (running_task s))
       (cancel_before_lock opts (Some (cancel_lease s)) (s\<lparr>finalization_gate := granted s\<rparr>)))"
  have "balanced {#} {#} s ?s1" by (rule balanced_same) simp_all
  from balanced_trans [OF this hand_over_balanced [OF core [unfolded cancelled_core_def]]]
  have "balanced {#} (mset (map completion owed) + mset (map in_respond cancelled)) s s2" by simp
  then show ?thesis by (rule balanced_answer) (simp_all add: cancelled_state_def core del: mset_map)
qed

lemma legacy_rewind_balanced:
  assumes "pending_inputs s = front # rest"
  shows "balanced {#} {#in_respond front#} s (snd (legacy_rewind s ep))"
  by (rule balancedI) (simp_all add: legacy_rewind_eq assms split: option.split)

lemma teardown_balanced:
  assumes "teardown_under_lock opts lease s = (Some td, s')"
  shows "balanced {#} (mset (map completion (td_completions td)) + mset (map in_respond (td_cancelled td)) +
      (case td_rewound td of None \<Rightarrow> {#} | Some input \<Rightarrow> {#in_respond input#})) s s'"
    and "td_rewound td = None \<or> td_cancelled td = []"
proof -
  from assms have "balanced {#} (mset (map completion (td_completions td)) + mset (map in_respond (td_cancelled td)) +
      (case td_rewound td of None \<Rightarrow> {#} | Some input \<Rightarrow> {#in_respond input#})) s s' \<and>
      (td_rewound td = None \<or> td_cancelled td = [])"
  proof (cases rule: teardown_some_cases)
    case (rewound front rest)
    then show ?thesis
      using balanced_trans [OF legacy_rewind_balanced [OF rewound(1)] hand_over_balanced [OF rewound(3)]]
      by (auto simp: ac_simps hand_over_def Let_def simp del: mset_map split: prod.splits)
  next
    case (aborted leased ep)
    from balanced_trans [OF balanced_same hand_over_balanced [OF aborted(2)], of s] aborted(1)
    show ?thesis by simp
  qed
  then show "balanced {#} (mset (map completion (td_completions td)) + mset (map in_respond (td_cancelled td)) +
      (case td_rewound td of None \<Rightarrow> {#} | Some input \<Rightarrow> {#in_respond input#})) s s'"
    "td_rewound td = None \<or> td_cancelled td = []" by simp_all
qed

lemma tear_down_rewind_balanced: "balanced {#} {#} s (snd (tear_down opts pinned None s))"
proof (cases "teardown_under_lock opts None (cancel_before_lock opts None s)")
  case (Pair res s')
  let ?s = "cancel_before_lock opts None s"
  have b: "balanced {#} {#} s ?s" by (rule balanced_same) simp_all
  show ?thesis
  proof (cases res)
    case None
    with teardown_none [of opts None ?s s'] Pair show ?thesis
      by (auto simp: tear_down_def intro!: balanced_same)
  next
    case (Some td)
    from Pair Some have t: "teardown_under_lock opts None ?s = (Some td, s')" by simp
    from balanced_trans [OF b teardown_balanced(1) [OF t]]
    have "balanced {#} (mset (map completion (td_completions td)) + mset (map in_respond (td_cancelled td)) +
      (case td_rewound td of None \<Rightarrow> {#} | Some input \<Rightarrow> {#in_respond input#})) s s'" by simp
    then have "balanced {#} {#} s (snd (finish_teardown opts None td 
      (emit_cancelled_terminal None pinned td (report_teardown opts td s'))))"
      using teardown_balanced(2) [OF t]
      by (elim balanced_answer)
         (auto simp: finish_teardown_def finish_rewound_cancel_def Let_def simp del: mset_map split: option.split)
    with t show ?thesis by (simp add: tear_down_def)
  qed
qed

lemma claim_rewind_balanced:
  assumes "claim_rewind requested s = (Some (input, owed), s')"
  shows "balanced {#} ({#in_respond input#} + mset (map completion owed)) s s'"
proof -
  have c: "rewindable s \<and> front_is_rewind_poppable s" using assms by (auto simp: claim_rewind_def split: if_splits)
  then obtain front rest where p: "pending_inputs s = front # rest"
    by (auto simp: front_is_rewind_poppable_def split: list.splits)
  obtain tr slots where t: "transition (TurnTarget \<lparr>prompt_id = requested, epoch = turn_epoch s\<rparr>) Rewind (message_delivery s) = (tr, slots)"
    by fastforce
  note e = claim_rewind_eq [OF conjunct1 [OF c] conjunct2 [OF c] p t]
  have "replied (snd (claim_rewind requested s)) = replied s"
    using c p t by (simp add: claim_rewind_def transition_parent_messages_def pop_front_def Let_def split: option.split)
  moreover have "mset (map completion (map owned (message_delivery s))) =
      mset (map completion (map owned slots)) + mset (map completion (fallbacks tr)) + mset (map completion (completions tr))"
    by (subst mset_map, subst mset_transition [OF t]) (simp add: image_mset.compositionality)
  moreover have "in_respond \<circ> fallback_input = completion" by (simp add: fun_eq_iff fallback_input_def parent_input_def Let_def)
  ultimately show ?thesis
    using e p assms by (simp add: balanced_def queued_channels_def parent_channels_def ac_simps del: mset_map)
qed

lemma cancel_generic_balanced:
  assumes "session_inv s"
  shows "balanced {#} {#} s (snd (cancel_generic opts pinned s))"
proof (cases "rewind_requested opts")
  case False
  then have "cancel_generic opts pinned s = cancel_running_task opts pinned s" "co_history opts = Keep"
    by (simp_all add: cancel_running_task_def requested_prompt_id_def rewind_requested_def)
  then show ?thesis by (simp add: cancel_keep_result [OF assms] cancelled_state_balanced)
qed (simp add: cancel_generic_def tear_down_rewind_balanced)

lemma cancel_balanced:
  assumes "session_inv s"
  shows "balanced {#} {#} s (snd (cancel_running_task opts pinned s))"
proof -
  have "balanced {#} {#} s (snd (case claim_rewind pid s of
      (Some (input, owed), s) \<Rightarrow> finish_rewound_cancel input b (settle_parent_message_completions owed (TurnOk Rewound) s)
    | (None, s) \<Rightarrow> cancel_generic opts pinned s))"  for pid b
  proof (cases "fst (claim_rewind pid s)")
    case None
    then have "claim_rewind pid s = (None, s)"
      by (auto simp: claim_rewind_def transition_parent_messages_def pop_front_def front_is_rewind_poppable_def Let_def
          split: if_splits list.splits prod.splits option.splits)
    then show ?thesis by (simp add: cancel_generic_balanced [OF assms])
  next
    case (Some res)
    then obtain input owed s' where c: "claim_rewind pid s = (Some (input, owed), s')"
      by (metis prod.exhaust prod.collapse)
    from claim_rewind_balanced [OF c] have "balanced {#} {#} s
        (snd (finish_rewound_cancel input b (settle_parent_message_completions owed (TurnOk Rewound) s')))"
      by (rule balanced_answer) (simp_all add: finish_rewound_cancel_def ac_simps del: mset_map)
    with c show ?thesis by simp
  qed
  then show ?thesis
    using cancel_generic_balanced [OF assms] balanced_same [of s s]
    by (auto simp: cancel_running_task_def split: option.split)
qed

lemma cancel_for_send_now_balanced:
  assumes "session_inv s"
  shows "balanced (mset (map snd (take (length (fst (queue_drain_all (pending_interjections s)))) fresh))) {#} s
    (snd (cancel_turn_for_send_now fresh pinned s))"
proof -
  let ?s = "snd (flush_stranded_interjections fresh s)"
  let ?c = "cancel_running_task (default_options\<lparr>co_trigger := Some SendNow\<rparr>) pinned ?s"
  from balanced_trans [OF flush_balanced cancel_balanced [OF flush_inv [OF assms]]]
  have "balanced (mset (map snd (take (length (fst (queue_drain_all (pending_interjections s)))) fresh))) {#} s (snd ?c)"
    by simp
  then have "balanced (mset (map snd (take (length (fst (queue_drain_all (pending_interjections s)))) fresh))) {#} s
      (if settled (fst ?c) then snd (take_hook_block_hold (snd ?c\<lparr>notifications_suppressed := False\<rparr>)) else snd ?c)"
    by (rule balanced_keep) (simp_all add: take_hook_block_hold_def)
  then show ?thesis by (simp add: cancel_turn_for_send_now_def Let_def case_prod_unfold split: if_splits del: mset_map)
qed

lemma command_balanced:
  assumes "session_inv s"
  shows "balanced (mset (new_channels c s)) (mset (map in_respond (preempted c s))) s (run_command c s)"
proof (cases c)
  case (QueueInput env rq)
  then show ?thesis using queue_input_balanced [of rq env s] by (simp add: new_channels_def del: mset_map)
next
  case (AdmitParent grant opn i sender t k)
  then show ?thesis using admit_balanced by (simp add: preempted_def)
next
  case (CancelForSendNow fresh pinned)
  then show ?thesis using cancel_for_send_now_balanced [OF assms] by (simp add: new_channels_def preempted_def)
next
  case (FlushStranded fresh)
  then show ?thesis using flush_balanced by (simp add: new_channels_def preempted_def)
next
  case (FallbackPrompt uuid k t images front)
  then show ?thesis by (simp add: new_channels_def preempted_def fallback_balanced)
next
  case (HoldEdit now i)
  then show ?thesis by (simp add: new_channels_def preempted_def handle_hold_edit_def balanced_same)
next
  case (ReleaseEdit i)
  then show ?thesis by (simp add: new_channels_def preempted_def handle_release_edit_def balanced_same)
next
  case ReleaseHookHold
  then show ?thesis
    by (simp add: new_channels_def preempted_def release_hook_block_hold_def take_hook_block_hold_def balanced_same)
next
  case (UserIntake origin)
  then show ?thesis by (simp add: new_channels_def preempted_def user_intake_def take_hook_block_hold_def balanced_same)
next
  case (PushInterjection t i images)
  then show ?thesis by (simp add: new_channels_def preempted_def push_interjection_def Let_def balanced_same)
next
  case MarkCommitted
  then show ?thesis by (simp add: new_channels_def preempted_def mark_front_message_committed_def balanced_same)
qed (simp_all add: new_channels_def preempted_def balanced_same promote_balanced remove_balanced send_now_balanced
    reorder_balanced clear_balanced edit_queued_balanced start_balanced drain_balanced completion_balanced
    cancel_balanced assms)

lemma run_balanced:
  assumes "session_inv s"
  shows "balanced (mset (accepted cs s)) (mset (map in_respond (all_preempted cs s))) s (fold run_command cs s)"
  using assms
proof (induction cs arbitrary: s)
  case (Cons c cs)
  then show ?case
    using balanced_trans [OF command_balanced [of s c] Cons.IH [OF session_inv_command]] by simp
qed (simp add: balanced_same)

lemma all_preempted_wakes: "list_all (\<lambda>i. is_preemptible_runtime_wake (in_origin i)) (all_preempted cs s)"
  by (induction cs arbitrary: s)
     (auto simp: preempted_def sweep_pending_inputs_def Let_def list_all_iff split: command.split)


end
