(* ===== verification/Parent_Turns.thy ===== *)
theory Parent_Turns
  imports Session_Reachable
begin

text \<open>
  Messages of the parent agent belong to the turn they were sent into: while it runs every held
  message is bound to it, and when it ends, by completing or by a cancel, none is left behind.
\<close>

section \<open>What most commands do not touch\<close>

definition core :: "session_state \<Rightarrow> agent_task option \<times> parent_lifecycle \<times> u64" where
  "core s = (running_task s, message_delivery s, turn_epoch s)"

lemma core_update [simp]:
  "core (s\<lparr>pending_inputs := items\<rparr>) = core s" "core (s\<lparr>pending_interjections := q\<rparr>) = core s"
  "core (s\<lparr>finalization_gate := g\<rparr>) = core s" "core (s\<lparr>edit_holds := h\<rparr>) = core s"
  "core (s\<lparr>hook_block_held := b\<rparr>) = core s" "core (s\<lparr>front_message_committed := b\<rparr>) = core s"
  "core (s\<lparr>notifications_suppressed := b\<rparr>) = core s" "core (s\<lparr>rewindable := b\<rparr>) = core s"
  "core (emit e s) = core s"
  by (simp_all add: core_def emit_def)

lemma core_fold_emit [simp]: "core (fold (\<lambda>x. emit (f x)) xs s) = core s"
  by (induction xs arbitrary: s) simp_all

lemma core_frame [simp]:
  "core (broadcast_queue_changed s) = core s" "core (release_hold i s) = core s"
  "core (enqueue_prompt_as_planner_steering item s) = core s"
  "core (enqueue_prompt_as_interjection item src s) = core s"
  "core (respond_removed_prompt k s) = core s" "core (announce_input env rq s) = core s"
  "core (preempt_runtime_wakes s) = core s" "core (commit_queued_delivery item s) = core s"
  "core (queue_interjection_fallback_prompt uuid k t images front s) = core s"
  "core (settle_parent_message_completions ds r s) = core s"
  by (simp_all add: broadcast_queue_changed_def broadcast_queue_changed_inner_def release_hold_def
      enqueue_prompt_as_planner_steering_def enqueue_prompt_as_interjection_def respond_removed_prompt_def
      announce_input_def preempt_runtime_wakes_def sweep_pending_inputs_def commit_queued_delivery_def
      queue_interjection_fallback_prompt_def settle_parent_message_completions_def Let_def split: prompt_origin.split)

lemma core_folds [simp]:
  "core (fold (\<lambda>k. respond_removed_prompt k) ks s) = core s"
  "core (fold (\<lambda>item s. enqueue_prompt_as_interjection item src
      (if g then enqueue_prompt_as_planner_steering item s else s)) items s) = core s"
  "core (fold (\<lambda>(entry, uuid, respond). queue_interjection_fallback_prompt uuid respond (ij_text entry)
      (ij_attachments entry) True) es s) = core s"
  subgoal by (induction ks arbitrary: s) simp_all
  subgoal by (induction items arbitrary: s) simp_all
  subgoal by (induction es arbitrary: s) (auto simp: case_prod_unfold)
  done

lemma core_commands [simp]:
  "core (snd (queue_input env rq s)) = core s"
  "core (snd (flush_stranded_interjections fresh s)) = core s"
  "core (promote_queued_as_interjections env s) = core s"
  "core (snd (handle_remove_queued_prompt i v owner s)) = core s"
  "core (snd (handle_interject_queued_prompt env i v owner t s)) = core s"
  "core (snd (handle_reorder_queue ids s)) = core s"
  "core (snd (handle_clear_queue owner s)) = core s"
  "core (snd (handle_edit_queued_prompt i t' editor s)) = core s"
  "core (handle_hold_edit now i s) = core s" "core (handle_release_edit i s) = core s"
  "core (release_hook_block_hold s) = core s" "core (mark_front_message_committed s) = core s"
  "core (combine_front_pending_inputs skip s) = core s"
  "core (prune_holds now (drop_stale senv items s)) = core s"
  subgoal by (simp add: queue_input_def Let_def)
  subgoal by (simp add: flush_stranded_interjections_def queue_drain_all_def)
  subgoal by (simp add: promote_queued_as_interjections_def Let_def case_prod_unfold split: option.split)
  subgoal by (simp add: handle_remove_queued_prompt_def Let_def split: option.split)
  subgoal by (simp add: handle_interject_queued_prompt_def send_row_now_def save_row_edit_def Let_def case_prod_unfold split: option.split)
  subgoal by (simp add: handle_reorder_queue_def Let_def)
  subgoal by (simp add: handle_clear_queue_def clear_loop_eq)
  subgoal by (simp add: handle_edit_queued_prompt_def Let_def split: option.split)
  subgoal by (simp add: handle_hold_edit_def)
  subgoal by (simp add: handle_release_edit_def)
  subgoal by (simp add: release_hook_block_hold_def take_hook_block_hold_def)
  subgoal by (simp add: mark_front_message_committed_def)
  subgoal by (cases rule: combine_cases [of skip s]) simp_all
  subgoal by (simp add: prune_holds_def drop_stale_eq)
  done

section \<open>The invariant\<close>

definition slot_inv :: "session_state \<Rightarrow> bool" where
  "slot_inv s \<longleftrightarrow> (case running_task s of
     None \<Rightarrow> message_delivery s = []
   | Some task \<Rightarrow> task_epoch task = turn_epoch s \<and>
       list_all (\<lambda>slot. binding (owned slot) = task_binding task) (message_delivery s))"

lemma slot_inv_core: "core s' = core s \<Longrightarrow> slot_inv s' = slot_inv s"
  by (auto simp: core_def slot_inv_def split: option.split)

lemma transition_all [simp]: "snd (transition AllTurns cause slots) = []"
  by (simp add: transition_spec target_matches_def)

lemma transition_bound:
  assumes "list_all (\<lambda>slot. binding (owned slot) = bd) slots"
  shows "snd (transition (TurnTarget bd) cause slots) = []"
  using assms by (simp add: transition_spec target_matches_def list_all_iff filter_empty_conv)

lemma slot_inv_idle: "running_task s = None \<Longrightarrow> slot_inv s \<longleftrightarrow> message_delivery s = []"
  by (simp add: slot_inv_def)

lemma start_slots:
  assumes "slot_inv s"
  shows "slot_inv (maybe_start_running_task env s)"
proof -
  have front: "slot_inv (start_front s')" if "core s' = core s" "running_task s = None" for s'
  proof -
    have "message_delivery s' = []" using that assms by (simp add: core_def slot_inv_def)
    then show ?thesis
    proof (cases "pending_inputs s'")
      case Nil
      then show ?thesis using that assms by (simp add: start_front_def slot_inv_core [OF that(1)])
    next
      case (Cons front rest)
      with \<open>message_delivery s' = []\<close> show ?thesis
        by (simp add: start_front_def slot_inv_def Let_def broadcast_queue_changed_promoting_def
            broadcast_queue_changed_inner_def split: option.split)
    qed
  qed
  show ?thesis
    using assms slot_inv_core [OF core_commands(14)]
    by (auto simp: maybe_start_running_task_def Let_def intro!: front)
qed

lemma admit_slots:
  assumes "slot_inv s"
  shows "slot_inv (snd (admit_parent_agent_message grant opn i sender t k s))"
proof -
  have "slot_inv (commit_queued_delivery item s)" for item using assms slot_inv_core [OF core_frame(8)] by simp
  moreover have "slot_inv (s\<lparr>message_delivery := snd (admit_pending (task_binding task) m k (message_delivery s))\<rparr>)"
    if "running_task s = Some task" for task m
    using that assms by (simp add: slot_inv_def admit_pending_def)
  ultimately show ?thesis
    using assms by (auto simp: admit_parent_agent_message_def Let_def split: option.split operation.split)
qed

lemma drain_slots:
  assumes "slot_inv s"
  shows "slot_inv (snd (drain_parent_messages_at_safe_point flushed commit s))"
proof (cases "running_task s")
  case (Some task)
  obtain msgs slots where d1: "begin_delivery (task_binding task) (message_delivery s) = (msgs, slots)" by fastforce
  obtain res slots' where d2: "finish_delivery (task_binding task) commit slots = (res, slots')" by fastforce
  have bd: "map owned slots = map owned (message_delivery s)" "map owned slots' = map owned (message_delivery s)"
    using begin_delivery_eq [of "task_binding task" "message_delivery s"] d1 d2
    by (auto simp: finish_delivery_def Let_def split: sum.splits if_splits)
  have "slot_inv (s\<lparr>message_delivery := d\<rparr>)" if "map owned d = map owned (message_delivery s)" for d
  proof -
    have "list_all (\<lambda>x. binding x = task_binding task) (map owned d)"
      using assms Some unfolding that by (simp add: slot_inv_def list.pred_map comp_def)
    then show ?thesis using assms Some by (simp add: slot_inv_def list.pred_map comp_def)
  qed
  then show ?thesis using bd by (simp add: drain_parent_messages_at_safe_point_def Some d1 d2 split: sum.split)
qed (simp add: drain_parent_messages_at_safe_point_def assms)

lemma completion_slots:
  assumes "session_inv s" and "slot_inv s"
  shows "slot_inv (snd (handle_completion pid ep ident r s))"
    and "task_matches (BoundTask pid ep ident) s \<Longrightarrow> message_delivery (snd (handle_completion pid ep ident r s)) = []"
proof -
  have "message_delivery (snd (handle_completion pid ep ident r s)) = [] \<and>
      running_task (snd (handle_completion pid ep ident r s)) = None" if m: "task_matches (BoundTask pid ep ident) s"
  proof -
    from m obtain task where task: "running_task s = Some task"
      "pid = task_prompt_id task" "ep = task_epoch task" "ident = task_identity task"
      by (auto simp: task_matches_def split: option.splits)
    then have "snd (transition (TurnTarget \<lparr>prompt_id = pid, epoch = ep\<rparr>) Completion (message_delivery s)) = []"
      using assms(2) by (intro transition_bound) (auto simp: slot_inv_def task_binding_def)
    with task show ?thesis
      by (auto simp: completed_state_frame intro: handle_completion_owned [OF assms(1) task(1), of r])
  qed
  then show "slot_inv (snd (handle_completion pid ep ident r s))"
    "task_matches (BoundTask pid ep ident) s \<Longrightarrow> message_delivery (snd (handle_completion pid ep ident r s)) = []"
    using assms(2) handle_completion_stale by (auto simp: slot_inv_idle) (metis slot_inv_idle snd_conv)
qed

section \<open>Cancelling\<close>

lemma hand_over_slots:
  assumes "aborted = None \<or> (\<exists>task. aborted = Some task \<and>
    list_all (\<lambda>slot. binding (owned slot) = task_binding task) (message_delivery s))"
  shows "message_delivery (snd (hand_over opts aborted rewound s)) = []"
proof -
  obtain ds b s1 where
    t: "transition_parent_messages (end_target (end_cause opts rewound) aborted) (end_cause opts rewound) s = ((ds, b), s1)"
    by (metis prod.exhaust)
  then have "message_delivery s1 = snd (transition (end_target (end_cause opts rewound) aborted) (end_cause opts rewound) (message_delivery s))"
    by (auto simp: transition_parent_messages_def split: prod.splits)
  also have "\<dots> = []" using assms transition_bound by (auto simp: end_target_def)
  finally show ?thesis by (simp add: hand_over_eq [OF t] take_cancelled_frame)
qed

lemma core_cancel_frame [simp]:
  "core (cancel_before_lock opts lease s) = core s"
  "core (report_teardown opts td s) = core s"
  "core (emit_cancelled_terminal lease pinned td s) = core s"
  "core (reply_cancelled b items s) = core s"
  by (simp_all add: cancel_before_lock_def arm_wake_barrier_def report_teardown_def emit_cancelled_terminal_def Let_def split: bool.split option.split)
     (induction b items s rule: reply_cancelled.induct; simp split: option.split)

lemma message_delivery_core: "core s' = core s \<Longrightarrow> message_delivery s' = message_delivery s"
  by (simp add: core_def)

lemma cancelled_state_slots:
  assumes "slot_inv s"
  shows "message_delivery (cancelled_state opts pinned s) = []" "running_task (cancelled_state opts pinned s) = None"
proof -
  obtain cancelled owed s2 where core: "cancelled_core opts s = ((cancelled, owed), s2)" by (metis prod.exhaust)
  have "message_delivery (snd (cancelled_core opts s)) = []"
    unfolding cancelled_core_def
    by (rule hand_over_slots) (use assms in \<open>auto simp: slot_inv_def split: option.splits\<close>)
  then show "message_delivery (cancelled_state opts pinned s) = []" "running_task (cancelled_state opts pinned s) = None"
    by (simp_all add: cancelled_state_def core)
qed

lemma tear_down_slots:
  assumes "slot_inv s" and "rewind_requested opts"
  shows "slot_inv (snd (tear_down opts pinned None s))"
proof (cases "teardown_under_lock opts None (cancel_before_lock opts None s)")
  case (Pair res s')
  let ?s = "cancel_before_lock opts None s"
  have inv: "slot_inv ?s" using assms(1) slot_inv_core [OF core_cancel_frame(1)] by simp
  show ?thesis
  proof (cases res)
    case None
    then show ?thesis
      using teardown_none [of opts None ?s s'] Pair inv slot_inv_core [OF core_update(7) [of False ?s]]
      by (auto simp: tear_down_def)
  next
    case (Some td)
    from Pair Some have t: "teardown_under_lock opts None ?s = (Some td, s')" by simp
    then have "message_delivery s' = []"
    proof (cases rule: teardown_some_cases)
      case (rewound front rest)
      with hand_over_slots [of None "snd (legacy_rewind ?s (turn_epoch ?s))" opts "Some front"] show ?thesis by simp
    next
      case (aborted leased ep)
      have "message_delivery (snd (hand_over opts (running_task ?s) None (snd (abort_running leased ep ?s)))) = []"
        by (rule hand_over_slots) (use inv in \<open>auto simp: slot_inv_def split: option.splits\<close>)
      with aborted show ?thesis by simp
    qed
    moreover have "running_task s' = None"
      using teardown_some [of opts None ?s td s'] Pair Some assms(2) by (simp add: torn_down_def)
    ultimately show ?thesis
      by (simp add: tear_down_def Pair Some slot_inv_idle finish_teardown_frame)
  qed
qed

lemma claim_rewind_slots:
  assumes "session_inv s" and "slot_inv s" and "front_prompt_id s = Some requested"
  shows "slot_inv (snd (claim_rewind requested s))"
proof (cases "rewindable s \<and> front_is_rewind_poppable s")
  case True
  obtain front rest where p: "pending_inputs s = front # rest" "in_prompt_id front = requested"
    using assms(3) by (cases "pending_inputs s") (auto simp: front_prompt_id_def)
  obtain tr slots where t: "transition (TurnTarget \<lparr>prompt_id = requested, epoch = turn_epoch s\<rparr>) Rewind (message_delivery s) = (tr, slots)"
    by fastforce
  note e = claim_rewind_eq [OF conjunct1 [OF True] conjunct2 [OF True] p(1) t]
  have r: "running_prompt_id s = None \<or> running_prompt_id s = Some requested"
    using session_invD(1) [OF assms(1)] p by (auto simp: front_inv_def split: option.splits)
  then have idle: "running_task (snd (claim_rewind requested s)) = None"
    by (auto simp: e(5) running_prompt_id_def)
  have "list_all (\<lambda>slot. binding (owned slot) = \<lparr>prompt_id = requested, epoch = turn_epoch s\<rparr>) (message_delivery s)"
    using assms(2) r by (auto simp: slot_inv_def running_prompt_id_def task_binding_def split: option.splits)
  from transition_bound [OF this, of Rewind] have "slots = []" by (simp add: t)
  with idle show ?thesis by (simp add: slot_inv_idle e(4))
qed (use assms in \<open>simp add: claim_rewind_def\<close>)

lemma generic_slots:
  assumes "session_inv s" and "slot_inv s"
  shows "slot_inv (snd (cancel_generic opts pinned s))"
proof (cases "rewind_requested opts")
  case False
  then have "cancel_generic opts pinned s = cancel_running_task opts pinned s" "co_history opts = Keep"
    by (simp_all add: cancel_running_task_def requested_prompt_id_def rewind_requested_def)
  then show ?thesis by (simp add: cancel_keep_result [OF assms(1)] slot_inv_idle cancelled_state_slots [OF assms(2)])
qed (simp add: cancel_generic_def tear_down_slots assms(2))

lemma finish_rewound_core [simp]: "core (snd (finish_rewound_cancel input b s)) = core s"
  by (simp add: finish_rewound_cancel_def)

lemma cancel_slots:
  assumes "session_inv s" and "slot_inv s"
  shows "slot_inv (snd (cancel_running_task opts pinned s))"
proof -
  have "slot_inv (snd (case claim_rewind pid s of
      (Some (input, owed), s) \<Rightarrow> finish_rewound_cancel input b (settle_parent_message_completions owed (TurnOk Rewound) s)
    | (None, s) \<Rightarrow> cancel_generic opts pinned s))"
    if "front_prompt_id s = Some pid" for pid b
    using claim_rewind_slots [OF assms that] claim_rewind_inv [OF assms(1) that] generic_slots
    by (cases "claim_rewind pid s")
       (auto simp: slot_inv_core [OF trans [OF finish_rewound_core core_frame(10)]] split: option.split)
  with generic_slots [OF assms] show ?thesis
    by (auto simp: cancel_running_task_def assms split: option.split)
qed

lemma cancel_for_send_now_slots:
  assumes "session_inv s" and "slot_inv s"
  shows "slot_inv (snd (cancel_turn_for_send_now fresh pinned s))"
proof -
  have "slot_inv (snd (flush_stranded_interjections fresh s))" using assms(2) slot_inv_core [OF core_commands(2)] by simp
  from cancel_slots [OF flush_inv [OF assms(1)] this]
  have "slot_inv (snd (cancel_running_task opts pinned (snd (flush_stranded_interjections fresh s))))" for opts .
  moreover have "slot_inv (s\<lparr>notifications_suppressed := b, hook_block_held := b'\<rparr>) = slot_inv s" for s b b'
    by (rule slot_inv_core) simp
  ultimately show ?thesis
    by (simp add: cancel_turn_for_send_now_def take_hook_block_hold_def Let_def case_prod_unfold)
qed

lemma core_loop [simp]: "core (user_intake origin s) = core s" "core (push_interjection t i images s) = core s"
  by (simp_all add: user_intake_def take_hook_block_hold_def push_interjection_def Let_def)

lemma slot_inv_command:
  assumes "session_inv s" and "slot_inv s"
  shows "slot_inv (run_command c s)"
proof -
  have "slot_inv s'" if "core s' = core s" for s' using slot_inv_core [OF that] assms(2) by simp
  then show ?thesis
    using assms
    by (cases c) (simp_all add: start_slots admit_slots drain_slots completion_slots cancel_slots cancel_for_send_now_slots)
qed

lemma reachable_slots: "reachable s \<Longrightarrow> slot_inv s"
proof (induction rule: reachable.induct)
  case (command s c)
  then show ?case by (intro slot_inv_command reachable_inv)
qed (simp add: slot_inv_def initial_session_def lifecycle_default_def)

section \<open>What a cancel leaves\<close>

lemma completion_wake_fallback [simp]: "\<not> completion_wake (in_origin (fallback_input d))"
  by (simp add: fallback_input_def parent_input_def completion_wake_def Let_def)

lemma cancelled_state_pending:
  "pending_inputs (cancelled_state opts pinned s) = pending_inputs (snd (cancelled_core opts s))"
  by (simp add: cancelled_state_def case_prod_unfold)

lemma cancelled_queue:
  assumes "session_inv s" and "slot_inv s"
  shows "pending_inputs (cancelled_state opts pinned s) =
    (if co_kill_background_tasks opts then []
     else filter (\<lambda>i. \<not> (suppresses_wakes opts \<and> completion_wake (in_origin i))) (tl (pending_inputs s)) @
       map (fallback_input \<circ> owned) (filter is_pending (message_delivery s)))"
proof -
  let ?s = "snd (abort_running True (map_option task_epoch (running_task s))
       (cancel_before_lock opts (Some (cancel_lease s)) (s\<lparr>finalization_gate := granted s\<rparr>)))"
  let ?c = "end_cause opts None" and ?t = "end_target (end_cause opts None) (running_task s)"
  obtain ds b s1 where t: "transition_parent_messages ?t ?c ?s = ((ds, b), s1)" by (metis prod.exhaust)
  then have p: "pending_inputs s1 = pending_inputs s @ map fallback_input (fallbacks (fst (transition ?t ?c (message_delivery s))))"
    by (auto simp: transition_parent_messages_def split: prod.splits)
  have "pending_inputs (cancelled_state opts pinned s) = pending_inputs (snd (take_cancelled opts s1))"
    unfolding cancelled_state_pending cancelled_core_def by (simp add: hand_over_eq [OF t])
  also have "\<dots> = (if co_kill_background_tasks opts then []
      else filter (\<lambda>i. \<not> (suppresses_wakes opts \<and> completion_wake (in_origin i))) (tl (pending_inputs s1)))"
    by (simp add: take_cancelled_eq)
  finally have e: "pending_inputs (cancelled_state opts pinned s) = (if co_kill_background_tasks opts then []
      else filter (\<lambda>i. \<not> (suppresses_wakes opts \<and> completion_wake (in_origin i))) (tl (pending_inputs s1)))" .
  have "tl (pending_inputs s1) = tl (pending_inputs s) @
      map (fallback_input \<circ> owned) (filter is_pending (message_delivery s))" if "\<not> co_kill_background_tasks opts"
  proof (cases "running_task s")
    case None
    then show ?thesis using assms(2) by (simp add: p slot_inv_idle transition_spec)
  next
    case (Some task)
    then have "pending_inputs s \<noteq> []" using front_of_running [OF assms(1)] by (auto simp: front_prompt_id_def)
    moreover have "filter (goes_back ?t ?c) (message_delivery s) = filter is_pending (message_delivery s)"
      using assms(2) Some that
      by (intro filter_cong)
         (auto simp: slot_inv_def list_all_iff goes_back_def end_target_def end_cause_def target_matches_def falls_back_def)
    ultimately show ?thesis by (simp add: p transition_spec)
  qed
  then show ?thesis by (auto simp: e filter_id_conv)
qed



text \<open>
  In every reachable session the messages of the parent agent belong to the turn that runs:
  an idle session holds none, and the end of the turn leaves none.
\<close>

theorem parent_messages_end_with_turn:
  assumes "reachable s"
  shows "case running_task s of
      None \<Rightarrow> message_delivery s = []
    | Some task \<Rightarrow> list_all (\<lambda>slot. binding (owned slot) = task_binding task) (message_delivery s) \<and>
        message_delivery (snd (handle_completion (task_prompt_id task) (task_epoch task) (task_identity task) r s)) = []"
proof (cases "running_task s")
  case None
  then show ?thesis using reachable_slots [OF assms] by (simp add: slot_inv_idle)
next
  case (Some task)
  have "message_delivery (snd (handle_completion (task_prompt_id task) (task_epoch task) (task_identity task) r s)) = []"
    by (rule completion_slots(2) [OF reachable_inv [OF assms] reachable_slots [OF assms]]) (simp add: Some task_matches_def)
  with reachable_slots [OF assms] Some show ?thesis by (simp add: slot_inv_def)
qed

theorem parent_messages_end_with_turn_witness:
  "message_delivery (snd (handle_completion (lit ''interject-fallback-'' @ lit ''1'') 1 0 (TurnOk Completed) sample_session)) = []"
  using parent_messages_end_with_turn [OF sample_session_reachable, of "TurnOk Completed"]
  by (simp add: sample_session_running)

end
