(* ===== verification/Send_Now.thy ===== *)
theory Send_Now
  imports Parent_Turns
begin

text \<open>
  Sending a prompt now: the composition of the queue, the cancel and the start of a turn in one
  arm of the command loop.
\<close>

section \<open>The loop stays within reachable sessions\<close>

lemma reachable_command: "reachable s \<Longrightarrow> run_command c s = s' \<Longrightarrow> reachable s'"
  using reachable.command by blast

lemma reachable_steps:
  assumes "reachable s"
  shows "reachable (user_intake origin s)" "reachable (snd (queue_input qenv rq s))"
    "reachable (maybe_start_running_task senv s)" "reachable (snd (cancel_turn_for_send_now fresh pinned s))"
    "reachable (snd (cancel_running_task opts pinned s))" "reachable (snd (handle_completion pid ep ident r s))"
    "reachable (snd (flush_stranded_interjections fresh s))" "reachable (release_hook_block_hold s)"
    "reachable (snd (handle_remove_queued_prompt i v owner s))" "reachable (snd (handle_reorder_queue ids s))"
    "reachable (snd (handle_clear_queue owner s))" "reachable (snd (handle_edit_queued_prompt i t editor s))"
    "reachable (handle_release_edit i s)" "reachable (snd (handle_interject_queued_prompt qenv i v owner txt' s))"
    "reachable (s\<lparr>pending_interjections := queue_clear (pending_interjections s)\<rparr>)"
  using assms [THEN reachable_command, of "UserIntake origin"] assms [THEN reachable_command, of "QueueInput qenv rq"]
    assms [THEN reachable_command, of "StartTurn senv"] assms [THEN reachable_command, of "CancelForSendNow fresh pinned"]
    assms [THEN reachable_command, of "CancelTurn opts pinned"] assms [THEN reachable_command, of "CompleteTurn pid ep ident r"]
    assms [THEN reachable_command, of "FlushStranded fresh"] assms [THEN reachable_command, of ReleaseHookHold]
    assms [THEN reachable_command, of "RemoveQueued i v owner"] assms [THEN reachable_command, of "ReorderQueue ids"]
    assms [THEN reachable_command, of "ClearQueue owner"] assms [THEN reachable_command, of "EditQueued i t editor"]
    assms [THEN reachable_command, of "ReleaseEdit i"] assms [THEN reachable_command, of "SendQueuedNow qenv i v owner txt'"]
    assms [THEN reachable_command, of ClearInterjections]
  by simp_all

lemma after_mutation_reachable: "reachable (snd res) \<Longrightarrow> reachable (after_mutation env res)"
  by (auto simp: after_mutation_def case_prod_unfold intro!: reachable_steps)

lemma loop_reachable:
  assumes "reachable s"
  shows "reachable (loop_prompt env rq s)" "reachable (loop_remove env i v owner s)" "reachable (loop_reorder env ids s)"
    "reachable (loop_clear env owner s)" "reachable (loop_edit env i t editor s)" "reachable (loop_release_edit env i s)"
    "reachable (loop_interject_queued env i v owner txt' s)" "reachable (loop_cancel env opts s)"
    "reachable (loop_completion env pid ep ident r s)"
proof -
  show "reachable (loop_completion env pid ep ident r s)"
    using reachable_steps(6) [OF assms, of pid ep ident r] reachable_steps(3,7)
    by (simp add: loop_completion_def case_prod_unfold split: bool.split)
qed (simp_all add: loop_prompt_def loop_remove_def loop_reorder_def loop_clear_def loop_edit_def loop_release_edit_def
    loop_interject_queued_def loop_cancel_def cancel_if_needed_def after_mutation_reachable reachable_steps assms
    Let_def case_prod_unfold)

section \<open>Frames\<close>

lemma announce_keeps [simp]:
  "front_message_committed (announce_input env rq s) = front_message_committed s"
  "edit_holds (announce_input env rq s) = edit_holds s"
  by (simp_all add: announce_input_def emit_def Let_def split: prompt_origin.split)

lemma fold_release_keeps [simp]:
  "front_message_committed (fold (\<lambda>i. emit (ReleaseReservation i)) is s) = front_message_committed s"
  "edit_holds (fold (\<lambda>i. emit (ReleaseReservation i)) is s) = edit_holds s"
  by (induction "is" arbitrary: s) (simp_all add: emit_def)

lemma preempt_keeps [simp]:
  "front_message_committed (preempt_runtime_wakes s) = front_message_committed s"
  "edit_holds (preempt_runtime_wakes s) = edit_holds s"
  "pending_interjections (preempt_runtime_wakes s) = pending_interjections s"
  by (simp_all add: preempt_runtime_wakes_def sweep_pending_inputs_def Let_def)

lemma broadcast_holds [simp]: "edit_holds (broadcast_queue_changed s) = edit_holds s"
  by (simp add: broadcast_queue_changed_def broadcast_queue_changed_inner_def)

lemma fold_respond_holds [simp]: "edit_holds (fold (\<lambda>k. respond_removed_prompt k) ks s) = edit_holds s"
  by (induction ks arbitrary: s) (simp_all add: respond_removed_prompt_def)

lemma reply_cancelled_holds [simp]: "edit_holds (reply_cancelled b items s) = edit_holds s"
  by (induction b items s rule: reply_cancelled.induct) (simp_all split: option.split)

lemma settle_holds [simp]: "edit_holds (settle_parent_message_completions ds r s) = edit_holds s"
  unfolding settle_parent_message_completions_def by (induction ds arbitrary: s) simp_all

lemma cancelled_state_holds: "edit_holds (cancelled_state opts pinned s) = edit_holds s"
proof -
  let ?s = "snd (abort_running True (map_option task_epoch (running_task s))
       (cancel_before_lock opts (Some (cancel_lease s)) (s\<lparr>finalization_gate := granted s\<rparr>)))"
  obtain ds b s1 where t: "transition_parent_messages (end_target (end_cause opts None) (running_task s)) (end_cause opts None) ?s = ((ds, b), s1)"
    by (metis prod.exhaust)
  have "edit_holds ?s = edit_holds s"
    by (simp add: abort_running_eq cancel_before_lock_def arm_wake_barrier_def Let_def split: option.split bool.split)
  then have "edit_holds s1 = edit_holds s" using t by (auto simp: transition_parent_messages_def split: prod.splits)
  then have "edit_holds (snd (cancelled_core opts s)) = edit_holds s"
    unfolding cancelled_core_def by (simp add: hand_over_eq [OF t] take_cancelled_eq)
  then show ?thesis
    by (simp add: cancelled_state_def report_teardown_def emit_cancelled_terminal_def Let_def case_prod_unfold split: option.split)
qed

section \<open>The next turn\<close>

lemma sent_row_enters_behind_front:
  assumes inv: "session_inv s" and running: "running_prompt_id s = Some pid"
    and rq: "rq_origin rq = User" "rq_send_now rq" and env: "\<not> goal_active qenv"
    and committed: "front_message_committed s" and first: "list_all (\<lambda>i. \<not> in_send_now i) (pending_inputs s)"
  shows "fst (queue_input qenv rq s)"
    and "\<exists>front rest. pending_inputs s = front # tl (pending_inputs s) \<and>
      pending_inputs (snd (queue_input qenv rq s)) = front # (item_of_request rq)\<lparr>in_send_now := True\<rparr> # rest"
    and "edit_holds (snd (queue_input qenv rq s)) = edit_holds s"
    and "pending_interjections (snd (queue_input qenv rq s)) = pending_interjections s"
proof -
  define s1 where "s1 = preempt_runtime_wakes (announce_input qenv rq s)"
  have r1: "running_prompt_id s1 = Some pid"
    using running by (simp add: s1_def running_prompt_id_def)
  have human: "is_human_intent (authority (origin_policy (rq_origin rq)))" by (simp add: rq)
  have ed: "is_queue_editable (item_of_request rq)"
    by (simp add: item_of_request_def is_queue_editable_def from_input_origin_def rq Let_def)
  obtain front rest where p: "pending_inputs s = front # rest" "in_prompt_id front = pid"
    using session_invD(1) [OF inv] running by (cases "pending_inputs s") (auto simp: front_inv_def)
  then obtain rest' where p1: "pending_inputs s1 = front # rest'" "list_all (\<lambda>i. \<not> in_send_now i) rest'"
    using running first
    by (auto simp: s1_def preempt_pending running_prompt_id_def list_all_iff)
  have "send_now_insert_index s1 (Some pid) = 1"
    using p p1 by (cases rest') (auto simp: send_now_insert_index_def front_is_running_def Let_def)
  moreover have "send_now_cancels_running_turn s1 False"
    using committed r1 by (simp add: send_now_cancels_running_turn_def front_awaiting_commit_def s1_def)
  ultimately have "queue_input qenv rq s = (True, broadcast_queue_changed (s1\<lparr>pending_inputs :=
      front # (item_of_request rq)\<lparr>in_send_now := True\<rparr> # rest'\<rparr>))"
    using r1 ed env rq p1 human unfolding queue_input_def Let_def s1_def [symmetric]
    by (simp add: insert_at_def)
  then show "fst (queue_input qenv rq s)"
    "\<exists>front rest. pending_inputs s = front # tl (pending_inputs s) \<and>
      pending_inputs (snd (queue_input qenv rq s)) = front # (item_of_request rq)\<lparr>in_send_now := True\<rparr> # rest"
    "edit_holds (snd (queue_input qenv rq s)) = edit_holds s"
    "pending_interjections (snd (queue_input qenv rq s)) = pending_interjections s"
    using p by (simp_all add: s1_def)
qed

lemma start_runs_front:
  assumes "running_task s = None" and "\<not> gate_is_active s" and "\<not> hook_block_held s" and "\<not> combine_queued env"
    and "pending_inputs s = item # rest" and "in_origin item = User" and "in_prompt_id item \<notin> fst ` set (edit_holds s)"
  shows "running_prompt_id (maybe_start_running_task env s) = Some (in_prompt_id item)"
proof -
  have "\<not> stale_front env item" using assms(6) by (simp add: stale_front_def)
  then have d: "drop_stale env (pending_inputs s) s = s" using assms(5) by simp
  have held: "\<not> front_held (prune_holds (start_now env) s)"
    using assms(5,7) by (auto simp: front_held_def prune_holds_def expire_older_than_def)
  have "pending_inputs (prune_holds (start_now env) s) = item # rest" using assms(5) by (simp add: prune_holds_def)
  from start_front_Cons(2) [OF this] show ?thesis
    using assms(1-5) held d by (simp add: maybe_start_running_task_def Let_def)
qed

lemma no_interjections_flush:
  "fst (queue_drain_all (pending_interjections s)) = [] \<Longrightarrow>
     snd (flush_stranded_interjections fresh s) = s\<lparr>pending_interjections := snd (queue_drain_all (pending_interjections s))\<rparr>"
  by (simp add: flush_stranded_interjections_def case_prod_unfold)


definition committed_session :: session_state where
  "committed_session = run_command MarkCommitted sample_session"

lemma committed_session_facts:
  "reachable committed_session" "running_task committed_session \<noteq> None" "front_message_committed committed_session"
  "list_all (\<lambda>i. \<not> in_send_now i) (pending_inputs committed_session)"
  "fst (queue_drain_all (pending_interjections committed_session)) = []" "edit_holds committed_session = []"
proof -
  show "reachable committed_session" unfolding committed_session_def by (rule reachable.command [OF sample_session_reachable])
qed (simp_all add: committed_session_def mark_front_message_committed_def sample_session_def initial_session_def
    queue_interjection_fallback_prompt_def Let_def maybe_start_running_task_def gate_is_active_def drop_stale.simps
    stale_front_def prune_holds_def expire_older_than_def front_held_def start_front_def emit_def
    broadcast_queue_changed_promoting_def broadcast_queue_changed_inner_def queue_drain_all_def queue_new_def)


end
