(* ===== verification/Queue_View.thy ===== *)
theory Queue_View
  imports Session_Reachable
begin

text \<open>
  What clients see of the queue, and that their commands act on exactly that.  The shared queue of
  a session is, for a client, a list of rows, each with the right to change it or without.  An
  abstract specification says what every client command does to that list; the locale
  \<open>queue_refinement\<close> is the contract that an implementation keeps it, and the handlers of the
  session are shown to fulfil the contract.
\<close>

section \<open>The abstract queue\<close>

type_synonym row = "queue_entry_meta \<times> bool"

datatype client_command =
    ClientRemove rstring u64 "rstring option"
  | ClientEdit rstring rstring "rstring option"
  | ClientClear "rstring option"
  | ClientReorder "rstring list"
  | ClientHold instant rstring
  | ClientRelease rstring

definition abs_remove :: "rstring \<Rightarrow> u64 \<Rightarrow> rstring option \<Rightarrow> row list \<Rightarrow> row list" where
  "abs_remove i v owner rows =
     (case position (\<lambda>(m, editable). editable \<and> qm_id m = i \<and> qm_version m = v \<and> (owner = None \<or> qm_owner m = owner)) rows of
        None \<Rightarrow> rows | Some pos \<Rightarrow> remove_at pos rows)"

definition abs_edit_meta :: "rstring \<Rightarrow> rstring option \<Rightarrow> queue_entry_meta \<Rightarrow> queue_entry_meta" where
  "abs_edit_meta t editor m = m\<lparr>qm_text := t, qm_combined_texts := None, qm_version := saturating_inc (qm_version m),
     qm_last_editor := editor\<rparr>"

definition abs_edit :: "rstring \<Rightarrow> rstring \<Rightarrow> rstring option \<Rightarrow> row list \<Rightarrow> row list" where
  "abs_edit i t editor rows =
     (if trim t = [] then rows
      else case position (\<lambda>(m, editable). editable \<and> qm_id m = i) rows of
        None \<Rightarrow> rows | Some pos \<Rightarrow> rows[pos := (abs_edit_meta t editor (fst (rows ! pos)), True)])"

definition abs_clear :: "rstring option \<Rightarrow> row list \<Rightarrow> row list" where
  "abs_clear owner rows = filter (\<lambda>(m, editable). \<not> editable \<or> (owner \<noteq> None \<and> qm_owner m \<noteq> owner)) rows"

definition abs_key :: "rstring list \<Rightarrow> row \<Rightarrow> nat" where
  "abs_key ids r = (case position (\<lambda>x. x = qm_id (fst r)) ids of Some k \<Rightarrow> k | None \<Rightarrow> u64_max)"

definition abs_reorder :: "rstring list \<Rightarrow> row list \<Rightarrow> row list" where
  "abs_reorder ids rows =
     refill (map (\<lambda>r. if snd r then None else Some r) rows) (sort_key (abs_key ids) (filter snd rows))"

fun abs_step :: "client_command \<Rightarrow> row list \<Rightarrow> row list" where
  "abs_step (ClientRemove i v owner) rows = abs_remove i v owner rows"
| "abs_step (ClientEdit i t editor) rows = abs_edit i t editor rows"
| "abs_step (ClientClear owner) rows = abs_clear owner rows"
| "abs_step (ClientReorder ids) rows = abs_reorder ids rows"
| "abs_step (ClientHold _ _) rows = rows"
| "abs_step (ClientRelease _) rows = rows"

lemma refill_snd:
  assumes "length (filter snd rows) = length new" and "list_all snd new"
  shows "filter (\<lambda>r. \<not> snd r) (refill (map (\<lambda>r. if snd r then None else Some r) rows) new) = filter (\<lambda>r. \<not> snd r) rows"
  using assms
proof (induction rows arbitrary: new)
  case (Cons r rows)
  then show ?case by (cases new) auto
qed simp

lemma abs_step_protected: "filter (\<lambda>r. \<not> snd r) (abs_step c rows) = filter (\<lambda>r. \<not> snd r) rows"
proof (cases c)
  case (ClientRemove i v owner)
  then show ?thesis
    by (auto simp: abs_remove_def case_prod_unfold split: option.split elim!: position_Some_split)
next
  case (ClientEdit i t editor)
  then show ?thesis
    by (auto simp: abs_edit_def case_prod_unfold nth_append list_update_append split: option.split elim!: position_Some_split)
next
  case (ClientClear owner)
  then show ?thesis by (auto simp: abs_clear_def intro!: filter_cong)
next
  case (ClientReorder ids)
  then show ?thesis by (simp add: abs_reorder_def refill_snd list_all_iff)
qed simp_all

section \<open>The contract\<close>

locale queue_refinement =
  fixes inv :: "'s \<Rightarrow> bool" and view :: "'s \<Rightarrow> row list" and step :: "client_command \<Rightarrow> 's \<Rightarrow> 's"
  assumes step_inv: "inv s \<Longrightarrow> inv (step c s)"
    and step_view: "inv s \<Longrightarrow> view (step c s) = abs_step c (view s)"
begin

lemma run_inv: "inv s \<Longrightarrow> inv (fold step cs s)"
  by (induction cs arbitrary: s) (simp_all add: step_inv)

lemma run_view: "inv s \<Longrightarrow> view (fold step cs s) = fold abs_step cs (view s)"
  by (induction cs arbitrary: s) (simp_all add: step_inv step_view)

lemma protected_rows: "inv s \<Longrightarrow> filter (\<lambda>r. \<not> snd r) (view (fold step cs s)) = filter (\<lambda>r. \<not> snd r) (view s)"
  by (induction cs arbitrary: s) (simp_all add: step_inv step_view abs_step_protected)

end

section \<open>The view of a session\<close>

definition row_of :: "rstring option \<Rightarrow> input_item \<Rightarrow> row option" where
  "row_of running item = map_option (\<lambda>m. (m, is_queue_editable item)) (listed running item)"

definition queue_view :: "session_state \<Rightarrow> row list" where
  "queue_view s = List.map_filter (row_of (running_prompt_id s)) (pending_inputs s)"

fun client_step :: "client_command \<Rightarrow> session_state \<Rightarrow> session_state" where
  "client_step (ClientRemove i v owner) s = snd (handle_remove_queued_prompt i v owner s)"
| "client_step (ClientEdit i t editor) s = snd (handle_edit_queued_prompt i t editor s)"
| "client_step (ClientClear owner) s = snd (handle_clear_queue owner s)"
| "client_step (ClientReorder ids) s = snd (handle_reorder_queue ids s)"
| "client_step (ClientHold now i) s = handle_hold_edit now i s"
| "client_step (ClientRelease i) s = handle_release_edit i s"

lemma view_remove_first:
  assumes "\<And>x. x \<in> set xs \<Longrightarrow> P x \<longleftrightarrow> (\<exists>r. f x = Some r \<and> Q r)"
  shows "List.map_filter f (case position P xs of None \<Rightarrow> xs | Some i \<Rightarrow> remove_at i xs) =
    (case position Q (List.map_filter f xs) of None \<Rightarrow> List.map_filter f xs | Some i \<Rightarrow> remove_at i (List.map_filter f xs))"
  using assms
proof (induction xs)
  case (Cons x xs)
  then show ?case
    by (cases "f x"; cases "position P xs"; cases "position Q (List.map_filter f xs)")
       (force simp: List.map_filter_simps remove_at_def)+
qed (simp add: List.map_filter_simps)

lemma view_update_first:
  assumes "\<And>x. x \<in> set xs \<Longrightarrow> P x \<longleftrightarrow> (\<exists>r. f x = Some r \<and> Q r)"
    and "\<And>x r. x \<in> set xs \<Longrightarrow> f x = Some r \<Longrightarrow> Q r \<Longrightarrow> f (g x) = Some (h r)"
  shows "List.map_filter f (case position P xs of None \<Rightarrow> xs | Some i \<Rightarrow> xs[i := g (xs ! i)]) =
    (case position Q (List.map_filter f xs) of None \<Rightarrow> List.map_filter f xs
     | Some i \<Rightarrow> (List.map_filter f xs)[i := h (List.map_filter f xs ! i)])"
  using assms
proof (induction xs)
  case (Cons x xs)
  then show ?case
    by (cases "f x"; cases "position P xs"; cases "position Q (List.map_filter f xs)")
       (force simp: List.map_filter_simps)+
qed (simp add: List.map_filter_simps)

lemma view_refill:
  assumes "\<And>x. x \<in> set xs \<Longrightarrow> Q x \<longleftrightarrow> (\<exists>r. f x = Some r \<and> E r)"
    and "length (filter Q xs) = length new" and "list_all (\<lambda>x. f x \<noteq> None) new"
  shows "List.map_filter f (refill (map (\<lambda>x. if Q x then None else Some x) xs) new) =
    refill (map (\<lambda>r. if E r then None else Some r) (List.map_filter f xs)) (map (\<lambda>x. the (f x)) new)"
  using assms
proof (induction xs arbitrary: new)
  case (Cons x xs)
  have Q: "Q x \<longleftrightarrow> (\<exists>r. f x = Some r \<and> E r)" using Cons.prems(1) by simp
  have IH: "List.map_filter f (refill (map (\<lambda>x. if Q x then None else Some x) xs) new') =
      refill (map (\<lambda>r. if E r then None else Some r) (List.map_filter f xs)) (map (\<lambda>x. the (f x)) new')"
    if "length (filter Q xs) = length new'" "list_all (\<lambda>x. f x \<noteq> None) new'" for new'
    using that Cons.prems(1) by (intro Cons.IH) auto
  show ?case
  proof (cases "Q x")
    case True
    with Cons.prems obtain y new' where "new = y # new'" "f y \<noteq> None" by (cases new) auto
    with True Q Cons.prems IH [of new'] show ?thesis by (auto simp: List.map_filter_simps)
  next
    case False
    with Q Cons.prems IH [of new] show ?thesis by (cases "f x") (auto simp: List.map_filter_simps)
  qed
qed (simp add: List.map_filter_simps)

lemma insort_key_map: "map g (insort_key (\<lambda>x. k (g x)) x xs) = insort_key k (g x) (map g xs)"
  by (induction xs) auto

lemma sort_key_map: "map g (sort_key (\<lambda>x. k (g x)) xs) = sort_key k (map g xs)"
  by (induction xs) (simp_all add: insort_key_map)

lemma sort_key_cong: "(\<And>x. x \<in> set xs \<Longrightarrow> k x = k' x) \<Longrightarrow> sort_key k xs = sort_key k' xs"
proof (induction xs)
  case (Cons x xs)
  have "insort_key k x ys = insort_key k' x ys" if "\<And>y. y \<in> set (x # ys) \<Longrightarrow> k y = k' y" for ys
    using that by (induction ys) auto
  from this [of "sort_key k' xs"] Cons show ?case by auto
qed simp

lemma map_filter_filter: "map (\<lambda>x. the (f x)) (filter Q xs) = filter E (List.map_filter f xs)"
  if "\<And>x. x \<in> set xs \<Longrightarrow> Q x \<longleftrightarrow> (\<exists>r. f x = Some r \<and> E r)"
  using that by (induction xs) (auto simp: List.map_filter_simps split: option.split)

lemma row_of_simps:
  assumes "ok_item item"
  shows "row_of running item = Some r \<and> snd r \<longleftrightarrow>
    is_queue_editable item \<and> (\<exists>m. in_meta item = Some m \<and> r = (m, True) \<and> running \<noteq> Some (qm_id m))"
  using assms by (auto simp: row_of_def listed_def ok_item_def split: if_splits option.splits)

lemma ok_rows_iff:
  assumes "session_inv s" and "item \<in> set (pending_inputs s)"
    and "\<And>m. P m \<Longrightarrow> running_prompt_id s \<noteq> Some (qm_id m)"
  shows "(is_queue_editable item \<and> (\<exists>m. in_meta item = Some m \<and> P m)) \<longleftrightarrow>
    (\<exists>r. row_of (running_prompt_id s) item = Some r \<and> (case r of (m, editable) \<Rightarrow> editable \<and> P m))"
  using row_of_simps [OF session_invD(3) [OF assms(1,2)], of "running_prompt_id s"] assms(3)
  by (fastforce simp: row_of_def listed_def split: if_splits option.splits)

lemma view_frame:
  assumes "running_task s' = running_task s" and "pending_inputs s' = pending_inputs s"
  shows "queue_view s' = queue_view s"
  using assms by (simp add: queue_view_def running_prompt_id_def)

lemma view_of:
  "running_task s' = running_task s \<Longrightarrow> queue_view s' = List.map_filter (row_of (running_prompt_id s)) (pending_inputs s')"
  by (simp add: queue_view_def running_prompt_id_def)

lemma view_broadcast [simp]: "queue_view (broadcast_queue_changed s) = queue_view s" "queue_view (release_hold i s) = queue_view s"
  by (rule view_frame; simp)+

lemma view_remove:
  assumes "session_inv s"
  shows "queue_view (snd (handle_remove_queued_prompt i v owner s)) = abs_remove i v owner (queue_view s)"
proof (cases "running_prompt_id s = Some i")
  case True
  have "position (\<lambda>(m, editable). editable \<and> qm_id m = i \<and> qm_version m = v \<and> (owner = None \<or> qm_owner m = owner)) (queue_view s) = None"
    unfolding position_None_iff
    by (auto simp: queue_view_def filter_map_map_filter row_of_def listed_def True split: if_splits option.splits)
  then show ?thesis by (simp add: abs_remove_def handle_remove_queued_prompt_def is_running_prompt_def True)
next
  case False
  let ?P = "editable_queue_meta_matches i v owner" and ?Q = "\<lambda>m. qm_id m = i \<and> qm_version m = v \<and> (owner = None \<or> qm_owner m = owner)"
  have "?P item \<longleftrightarrow> (\<exists>r. row_of (running_prompt_id s) item = Some r \<and> (case r of (m, editable) \<Rightarrow> editable \<and> ?Q m))"
    if "item \<in> set (pending_inputs s)" for item
    using ok_rows_iff [OF assms that, of ?Q] False
    by (auto simp: editable_queue_meta_matches_def split: option.splits)
  then have "List.map_filter (row_of (running_prompt_id s))
      (case position ?P (pending_inputs s) of None \<Rightarrow> pending_inputs s | Some pos \<Rightarrow> remove_at pos (pending_inputs s)) =
      abs_remove i v owner (queue_view s)"
    unfolding abs_remove_def queue_view_def by (rule view_remove_first)
  then show ?thesis
    using False
    by (subst view_of [of _ s]) (auto simp: handle_remove_queued_prompt_def is_running_prompt_def Let_def split: option.splits)
qed

lemma edit_row:
  assumes "row_of running item = Some (m, True)"
  shows "row_of running (apply_queued_prompt_edit t editor item) = Some (abs_edit_meta t editor m, True)"
  using assms
  by (auto simp: row_of_def listed_def apply_queued_prompt_edit_def abs_edit_meta_def is_queue_visible_def is_queue_editable_def
      split: if_splits option.splits)

lemma view_edit:
  assumes "session_inv s"
  shows "queue_view (snd (handle_edit_queued_prompt i t editor s)) = abs_edit i t editor (queue_view s)"
proof (cases "trim t = [] \<or> running_prompt_id s = Some i")
  case True
  have "position (\<lambda>(m, editable). editable \<and> qm_id m = i) (queue_view s) = None" if "running_prompt_id s = Some i"
    unfolding position_None_iff
    by (auto simp: queue_view_def filter_map_map_filter row_of_def listed_def that split: if_splits option.splits)
  then show ?thesis using True by (auto simp: abs_edit_def handle_edit_queued_prompt_def is_running_prompt_def)
next
  case False
  let ?P = "\<lambda>item. is_queue_editable item \<and> has_queue_id i item" and ?Q = "\<lambda>m. qm_id m = i"
  let ?g = "apply_queued_prompt_edit t editor"
  have iff: "?P item \<longleftrightarrow> (\<exists>r. row_of (running_prompt_id s) item = Some r \<and> (case r of (m, editable) \<Rightarrow> editable \<and> ?Q m))"
    if "item \<in> set (pending_inputs s)" for item
    using ok_rows_iff [OF assms that, of ?Q] False by (auto simp: has_queue_id_def split: option.splits)
  have "trim t \<noteq> []" using False by simp
  have "List.map_filter (row_of (running_prompt_id s))
      (case position ?P (pending_inputs s) of None \<Rightarrow> pending_inputs s
       | Some pos \<Rightarrow> (pending_inputs s)[pos := ?g (pending_inputs s ! pos)]) = abs_edit i t editor (queue_view s)"
    unfolding abs_edit_def queue_view_def if_not_P [OF \<open>trim t \<noteq> []\<close>]
    by (rule view_update_first [where h = "\<lambda>r. (abs_edit_meta t editor (fst r), True)"]) (auto simp: iff edit_row)
  then show ?thesis
    using False
    by (subst view_of [of _ s]) (auto simp: handle_edit_queued_prompt_def is_running_prompt_def Let_def split: option.splits)
qed

lemma view_clear:
  assumes "session_inv s"
  shows "queue_view (snd (handle_clear_queue owner s)) = abs_clear owner (queue_view s)"
proof -
  let ?r = "running_prompt_id s"
  have "List.map_filter (row_of ?r) (filter (kept_by_clear ?r owner) xs) = abs_clear owner (List.map_filter (row_of ?r) xs)"
    if "\<And>x. x \<in> set xs \<Longrightarrow> ok_item x" for xs
    using that
  proof (induction xs)
    case (Cons x xs)
    have "kept_by_clear ?r owner x \<longleftrightarrow> (case row_of ?r x of None \<Rightarrow> kept_by_clear ?r owner x
        | Some (m, editable) \<Rightarrow> \<not> editable \<or> (owner \<noteq> None \<and> qm_owner m \<noteq> owner))"
      by (auto simp: kept_by_clear_def row_of_def listed_def split: option.splits if_splits)
    with Cons show ?case by (auto simp: List.map_filter_simps abs_clear_def split: option.splits)
  qed (simp add: List.map_filter_simps abs_clear_def)
  from this [OF session_invD(3) [OF assms]] show ?thesis
    by (subst view_of [of _ s]) (auto simp: handle_clear_queue_def clear_loop_eq queue_view_def)
qed

lemma view_reorder:
  assumes "session_inv s"
  shows "queue_view (snd (handle_reorder_queue ids s)) = abs_reorder ids (queue_view s)"
proof -
  let ?r = "running_prompt_id s" and ?xs = "pending_inputs s"
  let ?f = "row_of ?r" and ?Q = "is_queueable (running_prompt_id s)"
  have Q: "?Q x \<longleftrightarrow> (\<exists>r. ?f x = Some r \<and> snd r)" if "x \<in> set ?xs" for x
    using row_of_simps [OF session_invD(3) [OF assms that], of ?r] by (auto simp: is_queueable_def split: option.splits)
  let ?rows = "sort_key (order_key ids) (filter ?Q ?xs)"
  have key: "order_key ids x = abs_key ids (the (?f x))" if "x \<in> set (filter ?Q ?xs)" for x
    using that Q by (auto simp: order_key_def abs_key_def row_of_def listed_def split: if_splits option.splits)
  have "?rows = sort_key (\<lambda>x. abs_key ids (the (?f x))) (filter ?Q ?xs)"
    by (rule sort_key_cong) (rule key)
  then have "map (\<lambda>x. the (?f x)) ?rows = map (\<lambda>x. the (?f x)) (sort_key (\<lambda>x. abs_key ids (the (?f x))) (filter ?Q ?xs))"
    by simp
  also have "\<dots> = sort_key (abs_key ids) (map (\<lambda>x. the (?f x)) (filter ?Q ?xs))" by (rule sort_key_map)
  also have "map (\<lambda>x. the (?f x)) (filter ?Q ?xs) = filter snd (queue_view s)"
    unfolding queue_view_def by (rule map_filter_filter) (rule Q)
  finally have sorted: "map (\<lambda>x. the (?f x)) ?rows = sort_key (abs_key ids) (filter snd (queue_view s))" .
  have "list_all (\<lambda>x. ?f x \<noteq> None) ?rows"
  proof (unfold list_all_iff, rule ballI)
    fix x
    assume "x \<in> set ?rows"
    then have "x \<in> set ?xs" "?Q x" by simp_all
    then obtain r where "?f x = Some r" using Q by blast
    then show "?f x \<noteq> None" by simp
  qed
  then have "List.map_filter ?f (reorder_items ?r ids ?xs) = abs_reorder ids (queue_view s)"
    unfolding reorder_items_def abs_reorder_def sorted [symmetric] unfolding queue_view_def
    by (intro view_refill Q) simp_all
  then show ?thesis by (subst view_of [of _ s]) (simp_all add: handle_reorder_queue_def Let_def)
qed

interpretation session_view: queue_refinement session_inv queue_view client_step
proof
  fix s c
  assume "session_inv s"
  then show "session_inv (client_step c s)"
    by (cases c) (auto simp: remove_inv edit_inv clear_inv reorder_inv handle_hold_edit_def handle_release_edit_def intro: session_inv_same)
  show "queue_view (client_step c s) = abs_step c (queue_view s)"
    using \<open>session_inv s\<close>
    by (cases c) (auto simp: view_remove view_edit view_clear view_reorder handle_hold_edit_def handle_release_edit_def intro: view_frame)
qed

section \<open>What clients can rely on\<close>

lemma wire_loop_eq:
  "wire_loop running out items =
     out @ map (\<lambda>(i, m). wire_entry m i) (enumerate (length out) (List.map_filter (listed running) items))"
proof (induction running out items rule: wire_loop.induct)
  case (2 running out item items)
  then show ?case by (cases "listed running item") (simp_all add: List.map_filter_simps)
qed (simp add: List.map_filter_simps)

lemma map_filter_row: "map fst (List.map_filter (row_of running) items) = List.map_filter (listed running) items"
  by (induction items) (auto simp: List.map_filter_simps row_of_def split: option.split)

lemma wire_view: "build_queue_wire s = map (\<lambda>(i, m, editable). wire_entry m i) (enumerate 0 (queue_view s))"
proof -
  have "map (\<lambda>(i, m). wire_entry m i) (enumerate n (map fst rows)) = map (\<lambda>(i, m, editable). wire_entry m i) (enumerate n rows)"
    for n and rows :: "row list"
    by (induction rows arbitrary: n) auto
  then show ?thesis by (simp add: build_queue_wire_def wire_loop_eq queue_view_def flip: map_filter_row)
qed

lemma view_not_running: "r \<in> set (queue_view s) \<Longrightarrow> running_prompt_id s \<noteq> Some (qm_id (fst r))"
  by (auto simp: queue_view_def filter_map_map_filter row_of_def listed_def split: if_splits option.splits)

lemma wire_not_running: "e \<in> set (build_queue_wire s) \<Longrightarrow> running_prompt_id s \<noteq> Some (qw_id e)"
proof -
  assume "e \<in> set (build_queue_wire s)"
  then obtain i m editable where "(i, m, editable) \<in> set (enumerate 0 (queue_view s))" and e: "e = wire_entry m i"
    by (auto simp: wire_view)
  then have "(m, editable) \<in> set (queue_view s)" by (metis enumerate_eq_zip set_zip_rightD)
  from view_not_running [OF this] show ?thesis by (simp add: e wire_entry_def)
qed

lemma renumber_wire: "renumber (build_queue_wire s) = build_queue_wire s"
proof -
  have "map (\<lambda>(i, e). e\<lparr>qw_position := i\<rparr>) (enumerate n (map (\<lambda>(i, m, editable). wire_entry m i) (enumerate n rows))) =
      map (\<lambda>(i, m, editable). wire_entry m i) (enumerate n rows)" for n and rows :: "row list"
    by (induction rows arbitrary: n) (auto simp: wire_entry_def)
  then show ?thesis by (simp add: renumber_def wire_view)
qed

text \<open>
  A broadcast tells clients exactly their view of the queue: the visible rows except the
  running one, in queue order, numbered from zero.
\<close>

theorem broadcast_shows_the_view:
  "\<exists>p. outbox (broadcast_queue_changed s) = outbox s @ [Broadcast p] \<and>
     qc_entries p = map (\<lambda>(i, m, editable). wire_entry m i) (enumerate 0 (queue_view s))"
proof -
  have "qc_entries (queue_changed_payload s running) = build_queue_wire s"
    if "running = None \<or> (\<exists>r. running = Some r \<and> running_prompt_id s = Some (rd_id r))" for running
  proof (cases running)
    case (Some r)
    with that have "filter (\<lambda>e. qw_id e \<noteq> rd_id r) (build_queue_wire s) = build_queue_wire s"
      using wire_not_running [of _ s] by (fastforce simp: filter_id_conv)
    with Some show ?thesis by (simp add: queue_changed_payload_def renumber_wire)
  qed (simp add: queue_changed_payload_def)
  moreover have "running = None \<or> (\<exists>r. running = Some r \<and> running_prompt_id s = Some (rd_id r))"
    if "running = Option.bind (running_prompt_id s) (\<lambda>pid.
        map_option running_display_from_item (find (\<lambda>i. in_prompt_id i = pid) (pending_inputs s)))" for running
  proof (cases running)
    case (Some r)
    have "Option.bind (running_prompt_id s) (\<lambda>pid. map_option running_display_from_item
        (find (\<lambda>i. in_prompt_id i = pid) (pending_inputs s))) = Some r" using Some that by simp
    then obtain pid item where "running_prompt_id s = Some pid" "r = running_display_from_item item"
      "find (\<lambda>i. in_prompt_id i = pid) (pending_inputs s) = Some item"
      by (auto simp: bind_eq_Some_conv)
    then show ?thesis using Some by (auto simp: running_display_from_item_def find_Some_iff)
  qed simp
  ultimately show ?thesis
    by (auto simp: broadcast_queue_changed_def broadcast_queue_changed_inner_def wire_view)
qed



end
