(* ===== verification/Queue_Order.thy ===== *)
theory Queue_Order
  imports Session_Invariants
begin

text \<open>
  What reordering and combining do to the rows of the queue.
\<close>

section \<open>Reordering\<close>

lemma refill_hide:
  assumes "length (filter (\<lambda>x. x = None) slots) = length rows"
    and "\<And>x. Some x \<in> set slots \<Longrightarrow> \<not> Q x" and "\<And>x. x \<in> set rows \<Longrightarrow> Q x"
  shows "map (\<lambda>x. if Q x then None else Some x) (refill slots rows) = slots" "filter Q (refill slots rows) = rows"
  using assms by (induction slots rows rule: refill.induct) auto

definition hide_row :: "rstring option \<Rightarrow> input_item \<Rightarrow> input_item option" where
  "hide_row running = (\<lambda>item. if is_queueable running item then None else Some item)"

lemma count_slots:
  "length (filter (\<lambda>x. x = None) (map (\<lambda>x. if Q x then None else Some x) xs)) = length (filter Q xs)"
  by (induction xs) auto

lemma reorder_facts:
  "map (hide_row running) (reorder_items running ids items) = map (hide_row running) items"
  "filter (is_queueable running) (reorder_items running ids items) =
     sort_key (order_key ids) (filter (is_queueable running) items)"
proof -
  have n: "length (filter (\<lambda>x. x = None) (map (hide_row running) items)) =
      length (sort_key (order_key ids) (filter (is_queueable running) items))"
    unfolding hide_row_def count_slots by simp
  have r: "map (\<lambda>x. if is_queueable running x then None else Some x) (reorder_items running ids items) =
        map (hide_row running) items"
      "filter (is_queueable running) (reorder_items running ids items) =
        sort_key (order_key ids) (filter (is_queueable running) items)"
    unfolding reorder_items_def hide_row_def [symmetric]
    by (rule refill_hide [OF n, of "is_queueable running", folded hide_row_def]; force simp: hide_row_def split: if_splits)+
  then show "map (hide_row running) (reorder_items running ids items) = map (hide_row running) items"
    "filter (is_queueable running) (reorder_items running ids items) =
     sort_key (order_key ids) (filter (is_queueable running) items)"
    by (simp_all add: hide_row_def)
qed

lemma reorder_idem: "reorder_items running ids (reorder_items running ids items) = reorder_items running ids items"
  unfolding reorder_items_def [of running ids "reorder_items running ids items"] reorder_facts(2)
    hide_row_def [symmetric] reorder_facts(1)
  by (simp add: sort_key_id_if_sorted reorder_items_def hide_row_def)

text \<open>
  Reordering the queue only permutes the rows clients may move: every other row, the running
  one included, keeps its slot; the movable rows come out stably sorted by the requested order,
  nothing is lost or duplicated, and repeating the command changes nothing more.  The rest of the
  session stays as it was.
\<close>

theorem reorder_moves_only_movable_rows:
  "let running = running_prompt_id s; items = pending_inputs s; s' = snd (handle_reorder_queue ids s) in
     map (hide_row running) (pending_inputs s') = map (hide_row running) items \<and>
     filter (is_queueable running) (pending_inputs s') = sort_key (order_key ids) (filter (is_queueable running) items) \<and>
     mset (pending_inputs s') = mset items \<and>
     pending_inputs (snd (handle_reorder_queue ids s')) = pending_inputs s' \<and>
     running_task s' = running_task s \<and> message_delivery s' = message_delivery s"
  by (simp add: handle_reorder_queue_def Let_def reorder_facts mset_reorder reorder_idem)

section \<open>Combining\<close>

lemma join_Nil_iff: "join sep (filter (\<lambda>t. t \<noteq> []) ts) = [] \<longleftrightarrow> filter (\<lambda>t. t \<noteq> []) ts = []"
proof (induction ts)
  case (Cons t ts)
  then show ?case by (cases "filter (\<lambda>t. t \<noteq> []) ts") auto
qed simp

definition glue :: "rstring \<Rightarrow> rstring \<Rightarrow> rstring" where
  "glue a b = (if a = [] then b else if b = [] then a else a @ TEXT_SEPARATOR @ b)"

lemma glue_Nil [simp]: "glue [] b = b" "glue a [] = a"
  by (simp_all add: glue_def)

lemma glue_assoc: "glue (glue a b) c = glue a (glue b c)"
  by (simp add: glue_def)

lemma join_texts_Cons: "join_texts (t # ts) = glue t (join_texts ts)"
  unfolding join_texts_def glue_def using join_Nil_iff [of TEXT_SEPARATOR ts]
  by (cases "filter (\<lambda>t. t \<noteq> []) ts") (auto simp: join_Cons)

lemma join_texts_Nil [simp]: "join_texts [] = []"
  by (simp add: join_texts_def)

lemma join_texts_append: "join_texts (ts @ us) = glue (join_texts ts) (join_texts us)"
  by (induction ts) (simp_all add: join_texts_Cons glue_assoc)

lemma block_texts_simps [simp]:
  "block_texts [] = []" "block_texts (TextBlock t m # bs) = t # block_texts bs"
  "block_texts (ImageBlock i # bs) = block_texts bs" "block_texts (OtherBlock i # bs) = block_texts bs"
  "block_texts (bs @ cs) = block_texts bs @ block_texts cs"
  by (simp_all add: block_texts_def List.map_filter_def)

lemma block_texts_rev: "block_texts (rev bs) = rev (block_texts bs)"
  by (simp add: block_texts_def List.map_filter_def rev_filter rev_map)

lemma append_first_texts:
  "block_texts bs \<noteq> [] \<Longrightarrow> extra \<noteq> [] \<Longrightarrow>
     block_texts (append_to_first_text extra bs) = glue (hd (block_texts bs)) extra # tl (block_texts bs)"
  by (induction extra bs rule: append_to_first_text.induct) (auto simp: glue_def)

lemma append_first_no_texts: "block_texts bs = [] \<Longrightarrow> append_to_first_text extra bs = bs"
  by (induction extra bs rule: append_to_first_text.induct) auto

lemma append_last_texts:
  assumes "block_texts bs \<noteq> []" and "extra \<noteq> []"
  shows "joined_text_blocks (append_to_last_text extra bs) = glue (joined_text_blocks bs) extra"
proof -
  have "block_texts (append_to_last_text extra bs) = butlast (block_texts bs) @ [glue (last (block_texts bs)) extra]"
    using append_first_texts [of "rev bs" extra] butlast_rev [of "rev (block_texts bs)"] assms
    by (simp add: append_to_last_text_def block_texts_rev hd_rev)
  then have "joined_text_blocks (append_to_last_text extra bs) =
      glue (glue (join_texts (butlast (block_texts bs))) (last (block_texts bs))) extra"
    by (simp add: joined_text_blocks_def join_texts_append join_texts_Cons glue_assoc)
  also have "glue (join_texts (butlast (block_texts bs))) (last (block_texts bs)) = joined_text_blocks bs"
    using join_texts_append [of "butlast (block_texts bs)" "[last (block_texts bs)]"] assms(1)
    by (simp add: joined_text_blocks_def join_texts_Cons)
  finally show ?thesis .
qed

lemma stamp_first_texts: "block_texts (stamp_first_text segs bs) = block_texts bs"
  by (induction segs bs rule: stamp_first_text.induct) auto

lemma stamp_joined: "block_texts (in_blocks (stamp_combined_display_texts_meta item)) = block_texts (in_blocks item)"
  by (simp add: stamp_combined_display_texts_meta_def stamp_first_texts split: option.split)

lemma append_text_joined:
  assumes "block_texts (in_blocks item) \<noteq> []"
  shows "joined_text_blocks (in_blocks (append_text_to_prompt extra item)) = glue (joined_text_blocks (in_blocks item)) extra"
    "block_texts (in_blocks (append_text_to_prompt extra item)) \<noteq> []"
proof -
  have len: "length (block_texts (append_to_last_text extra bs)) = length (block_texts bs)" if "extra \<noteq> []" for bs
    using append_first_texts [of "rev bs" extra] that
    by (cases "block_texts bs = []")
       (auto simp: append_to_last_text_def block_texts_rev append_first_no_texts)
  show "joined_text_blocks (in_blocks (append_text_to_prompt extra item)) = glue (joined_text_blocks (in_blocks item)) extra"
    using append_last_texts [OF assms]
    by (simp add: append_text_to_prompt_def Let_def joined_text_blocks_def stamp_joined)
  have "length (block_texts (in_blocks (append_text_to_prompt extra item))) = length (block_texts (in_blocks item))"
    by (simp add: append_text_to_prompt_def Let_def stamp_joined len)
  with assms show "block_texts (in_blocks (append_text_to_prompt extra item)) \<noteq> []" by (metis length_0_conv)
qed

lemma fold_append_joined:
  assumes "block_texts (in_blocks front) \<noteq> []"
  shows "joined_text_blocks (in_blocks (fold (\<lambda>item. append_text_to_prompt (joined_text_blocks (in_blocks item))) items front)) =
    join_texts (map (\<lambda>item. joined_text_blocks (in_blocks item)) (front # items))"
  using assms
  by (induction items arbitrary: front) (simp_all add: append_text_joined join_texts_Cons glue_assoc)

lemma plain_gate_texts: "can_merge_front (combine_gate_of item) \<Longrightarrow> block_texts (in_blocks item) \<noteq> []"
  by (auto simp: can_merge_front_def combine_gate_of_def Let_def)

text \<open>
  C36. Combining the queued prompts at the front loses none of what was typed: the front becomes
  one row whose text is the texts of the merged rows in their order, separated by a blank line;
  exactly the merged rows leave the queue, each answered as removed, and the rows behind keep their order.
\<close>

theorem combine_keeps_the_texts:
  "let items = pending_inputs s; n = combine_prefix_len (map combine_gate_of items) skip;
       s' = combine_front_pending_inputs skip s in
     if n < 2 then s' = s
     else pending_inputs s' \<noteq> [] \<and> tl (pending_inputs s') = drop n items \<and>
       in_prompt_id (hd (pending_inputs s')) = in_prompt_id (hd items) \<and>
       joined_text_blocks (in_blocks (hd (pending_inputs s'))) =
         join_texts (map (\<lambda>item. joined_text_blocks (in_blocks item)) (take n items)) \<and>
       outbox s' = outbox s @ map (\<lambda>item. Reply (in_respond item) (TurnOk RemovedFromQueue)) (tl (take n items))"
proof -
  let ?n = "combine_prefix_len (map combine_gate_of (pending_inputs s)) skip"
  have out: "outbox (fold (\<lambda>k. respond_removed_prompt k) ks s) = outbox s @ map (\<lambda>k. Reply k (TurnOk RemovedFromQueue)) ks" for ks s
    by (induction ks arbitrary: s) (simp_all add: respond_removed_prompt_def)
  show ?thesis
  proof (cases "?n < 2")
    case True
    then show ?thesis
      by (auto simp: combine_front_pending_inputs_def Let_def split: list.split)
  next
    case False
    then obtain front item rest where p: "pending_inputs s = front # item # rest"
      using combine_prefix_len_le [of "map combine_gate_of (pending_inputs s)" skip]
      by (cases "pending_inputs s"; cases "tl (pending_inputs s)") auto
    have "can_merge_front (combine_gate_of front)"
      using combine_prefix_members(1) [of "map combine_gate_of (pending_inputs s)" skip] False p by simp
    then have texts: "block_texts (in_blocks front) \<noteq> []" by (rule plain_gate_texts)
    obtain m where m: "?n = Suc m" "0 < m" using False by (cases ?n) auto
    then have e: "combine_front_pending_inputs skip s =
        (fold (\<lambda>k. respond_removed_prompt k) (map in_respond (take m (item # rest))) s)\<lparr>pending_inputs :=
          fold (\<lambda>item. append_text_to_prompt (joined_text_blocks (in_blocks item))) (take m (item # rest)) front # drop m (item # rest)\<rparr>"
      using p by (simp add: combine_front_pending_inputs_def Let_def combine_loop_eq)
    show ?thesis
      unfolding Let_def e using m by (simp add: p out fold_append_joined [OF texts])
  qed
qed

end
