(* ===== verification/Spec2Isabelle.thy ===== *)
theory Spec2Isabelle
  imports
    Token_Estimation Circuit_Breaker Retry_Policy Message_Delivery Interjection
    Seek_Sequence Patch_Printing Patch_Tool
    Symlink_Walk Peel_Limits Manager_System Shell_Manager Soft_Breaks Classifier_Safety Resolution_Safety Search_Replace_Safety
    Prompt_Accounting Send_Now Queue_View Queue_Order
begin

text \<open>
  Polycode is a terminal coding agent written in Rust.  A session actor takes prompts from several
  clients into a shared queue, runs one turn at a time against a language model, asks a permission
  policy before a tool runs, edits files by patches and by string replacement, and protects its network calls by retries and
  circuit breakers.  This development models the parts that carry that logic, as functions on
  explicit states, and proves what each part promises to the others.

  \<^bold>\<open>Shared theories.\<close>
  \<^item> \<open>Polycode_Prelude\<close>: results of fallible functions and the \<open>?\<close> operator, saturating \<open>u64\<close>
    arithmetic, durations and instants, the search functions of iterators, and the locale
    \<open>invariant_system\<close> for invariants of step functions.
  \<^item> \<open>Float64\<close>: rounding of non-negative \<open>f64\<close> values.  \<open>Rust_Strings\<close>: \<open>str\<close> as lists of scalar
    values.  \<open>Utf8_Text\<close>: bytes, slices by byte offset and searching.  \<open>Paths\<close>: Unix paths and
    \<open>xai-grok-paths\<close>.

  \<^bold>\<open>Permission policy\<close> (\<open>xai-grok-workspace/src/permission\<close>).
  \<^item> \<open>Permission_Rules\<close>: rules and their syntax (\<open>types.rs\<close>, \<open>rules.rs\<close>), with the round trip of
    printing and parsing.
  \<^item> \<open>Command_Words\<close>: peeling wrappers such as \<open>timeout\<close> or \<open>env\<close> from command words
    (\<open>bash_command_splitting.rs\<close>); the locale \<open>peeler\<close> states what a peel step promises and is
    interpreted for both kinds of prefixes.  \<open>Peel_Limits\<close> holds inputs at the limits of the peel.
  \<^item> \<open>Permission_Policy\<close>: compiling and evaluating rules, Bash gates, symlinks (\<open>policy.rs\<close>).
    \<open>Permission_Safety\<close> proves precedence, monotonicity, completeness of the Bash gate and that an
    allow needs every command of a script to be covered; the locale \<open>ranked_join\<close> carries the
    lattice of decisions.  \<open>Symlink_Walk\<close> is about the path that is checked after following links.

  \<^bold>\<open>Shell scripts and the files they touch.\<close>
  \<^item> \<open>Shell_Tree\<close> (\<open>bash_command_splitting.rs\<close>): the syntax tree of a script as tree-sitter gives it,
    and what the code reads from it: plain commands, sequences of words, redirects.  The parser is
    an argument (\<open>shell_parser\<close>).  \<open>Soft_Breaks\<close>: where a long command may be broken for display.
  \<^item> \<open>Shell_File_Access\<close> (\<open>shell_access.rs\<close>): the paths a script reads and writes, by redirects, by
    the operands of its commands, in inline scripts and behind wrappers, and the gate that checks
    them.  \<open>File_Gate_Safety\<close>: every path is checked and what cannot be read asks.

  \<^bold>\<open>Where the policy comes from.\<close>
  \<^item> \<open>Claude_Settings\<close> (\<open>claude_settings.rs\<close>): settings files, their permissions and environment.
    \<open>Permission_Resolution\<close> (\<open>resolution.rs\<close> and the permission part of \<open>spawn.rs\<close>): merging the
    sources into the configuration of a session, default modes, the pin against always-approve.
    \<open>Resolution_Safety\<close>: no restriction is lost, an untrusted folder has no say, a pin leaves no
    blanket allow except an administrator's.  What the loaders read is an argument.

  \<^bold>\<open>Permission manager\<close> (\<open>permission/manager\<close> and what it asks).
  \<^item> \<open>Exec_Risk\<close> (\<open>exec_risk.rs\<close>): options that run programs and configuration a \<open>git\<close> would read.
    \<open>Safe_Commands\<close>: safe and dangerous command words and the scope of an ``always allow''.
    \<open>Protected_Edits\<close> (\<open>shell_access.rs\<close>): targets that need a person.
  \<^item> \<open>Permission_Store\<close> (\<open>state.rs\<close>): what was decided before and the store several sessions share;
    \<open>Web_Domains\<close>: the allowlist of \<open>web_fetch\<close>, which means what its entries say.
  \<^item> \<open>Bash_Evaluation\<close>: one evaluation of a script against grants; \<open>Permission_Grants\<close>: what remembered
    answers decide; \<open>Grant_Replay\<close>: an ``always allow'' that is offered does let the script pass.
  \<^item> \<open>Auto_Mode\<close>: the managed policy of a request (\<open>gate_preflight.rs\<close>) and the fast path
    (\<open>auto_mode/mod.rs\<close>).  \<open>Permission_Manager\<close>: the actor, with all stages of a request in order,
    the answers of a prompt, its commands and its start.
  \<^item> \<open>Heuristic_Classifier\<close> and \<open>Model_Classifier\<close> (\<open>auto_mode\<close>): the verdict without a model, the
    request to the classifier model and the reading of its answer; \<open>Classifier_Safety\<close>: an allow has
    evidence, launchers hide nothing from the heuristic, recorded text forges no section of the
    request.  The side query, the JSON parser and the system prompt are arguments.
  \<^item> \<open>Shell_Manager\<close>: the manager with the gates of the syntax tree put in (\<open>tree_manager_env\<close>), and
    that a managed denial of a file holds for every script that touches it.
  \<^item> \<open>Manager_Safety\<close>: managed denials, hooks and protected targets cannot be bypassed in any mode.
    \<open>Manager_History\<close>: remembered denials hold and remembered grants carry over.  \<open>Manager_System\<close>:
    handles, actor and other sessions in any order, and the invariant of every reachable system.

  \<^bold>\<open>Patches\<close> (\<open>xai-grok-tools/src/implementations/codex/apply_patch\<close>).
  \<^item> \<open>Patch_Parser\<close> (\<open>parser.rs\<close>) and \<open>Patch_Printing\<close> (its round trip), \<open>Seek_Sequence\<close> (the four
    line searches, related by the locale \<open>looser_key\<close>), \<open>Patch_Apply\<close> (replacements), \<open>Patch_Tool\<close>
    (the run over a file store, an interface given by the locale \<open>file_store\<close>).

  \<^bold>\<open>String replacement\<close> (\<open>xai-grok-tools/src/implementations/grok_build/search_replace\<close>).
  \<^item> \<open>Confusables\<close> (\<open>util/unicode_confusables.rs\<close>, \<open>helpers.rs\<close>): typography that reads as ASCII,
    matches through it, replacement at byte offsets and snippets; a slice off a character boundary
    is a panic, the value \<open>None\<close>.  \<open>Text_Edits\<close>: these are exchanges of spans between pieces.
  \<^item> \<open>Path_Hints\<close> (\<open>util\<close>): file-name fallback, hints, ignored files.  \<open>Search_Replace\<close>: the tool with
    its legacy and concise variants.  \<open>Search_Replace_Safety\<close>: a run never panics, touches one file,
    exchanges exactly the matches and keeps the line endings of the file; the locale \<open>byte_store\<close>
    is its file system.
  \<^item> \<open>Text_Truncation\<close> (\<open>xai-grok-tools/src/util/truncate.rs\<close>): cutting text for the model on character
    boundaries and within budgets.

  \<^bold>\<open>Resilience\<close>.
  \<^item> \<open>Sliding_Window\<close>, \<open>Circuit_Breaker\<close>, \<open>Retry_Policy\<close> (\<open>xai-circuit-breaker\<close>),
    \<open>Token_Estimation\<close> (\<open>xai-token-estimation\<close>): invariants of every reachable breaker, recovery,
    the exact trip condition, agreement of the integer and floating-point gates.

  \<^bold>\<open>Session\<close> (\<open>xai-grok-shell/src/session\<close>).
  \<^item> \<open>Message_Delivery\<close> (\<open>xai-message-delivery-core\<close>), \<open>Interjection\<close> (\<open>xai-interjection-core\<close>)
    and \<open>Prompt_Queue\<close> (\<open>xai-prompt-queue\<close>) are the crates the session builds on;
    \<open>Prompt_Origin\<close> says what each origin of a prompt may do.
  \<^item> \<open>Session_Queue\<close>: the state of the queue and the intake of prompts; \<open>Queue_Commands\<close>: the client
    commands on the queue (both \<open>prompt_queue.rs\<close>).
  \<^item> \<open>Session_Turns\<close>: starting a turn, the finalization gate, completion, parent messages;
    \<open>Session_Cancel\<close>: all rails of a cancel (\<open>cancel.rs\<close>); \<open>Session_Loop\<close>: the arms of the command
    loop (\<open>run_loop.rs\<close>) that compose them.
  \<^item> \<open>Session_Invariants\<close>, \<open>Cancel_Invariants\<close>: each operation keeps the session invariant.
    \<open>Session_Reachable\<close>: the inductive set of sessions that commands can lead to, and that the
    running turn owns the front of the queue in all of them.  \<open>Prompt_Accounting\<close>: every response
    channel is queued, held or answered exactly once.  \<open>Parent_Turns\<close>: parent messages and cancels.
    \<open>Send_Now\<close>: one whole arm of the loop, from the prompt to the new turn.
  \<^item> \<open>Queue_View\<close>: the abstract queue clients see, the locale \<open>queue_refinement\<close> and the proof that
    the handlers implement it; \<open>Queue_Order\<close>: reordering and combining of rows.

  \<^bold>\<open>How code becomes definitions.\<close>  A handler that runs under a lock is a function from the state
  to the state, with its result; what it sends (replies, broadcasts, calls into other subsystems)
  is appended to the \<open>outbox\<close> of the session in order.  Handlers of one actor do not interleave, so
  a command is one step; a cancel awaits between its two lock sections, and the second one checks
  the lease it claimed, which is modelled although no other step comes between them here.
  Machine integers are words, response channels and task identities are numbers.

  \<^bold>\<open>Parameters.\<close>  Code outside the repository is an argument: the Bash parser, the glob matcher, the
  URL parser and the file system of \<open>policy_env\<close>, what walks the syntax tree of a script
  (\<open>shell_env\<close>, instantiated from the tree by \<open>tree_shell_env\<close>), the template renderer and the host of a
  file tool (\<open>edit_env\<close>, \<open>path_host\<close>), repositories (\<open>git_env\<close>), fresh identifiers, the clock, the outcome of persistence,
  the classifier and the person at a prompt (\<open>request_world\<close>).  What a session reads from subsystems that are not modelled is a field of
  \<open>queue_env\<close>, \<open>start_env\<close> or \<open>loop_env\<close>: whether a goal is active, whether a tool blocks the
  turn, the prompt pinned by the turn, which completions are still unreported.

  \<^bold>\<open>Bounds.\<close>  The recursion into inline scripts, the peeling rounds and the symlink walk carry the
  bounds of the source as fuel (\<open>MAX_INLINE_SHELL_DEPTH\<close>, \<open>MAX_WRAPPER_DEPTH\<close>,
  \<open>MAX_SYMLINK_DEPTH\<close>); reaching them is a branch of the model, as in the code.  All other loops are
  structural or have a termination proof, so every operation is total.

  \<^bold>\<open>Not modelled.\<close>  The user interface, the model client, tools other than \<open>apply_patch\<close> and
  \<open>search_replace\<close>, configuration outside permissions, compaction and storage: they are input and
  output around third-party protocols, terminals and processes.  Of the session actor, the run of a
  turn (sampling, tool calls), the goal loop, idle notifications and their buffer, usage accounting,
  plan mode and telemetry are left out; calls into them from modelled code are effects.  Of the
  permission module, the managed MCP and marketplace lists, the text of the classifier's system
  prompt and the rendering of prompts are left out.  Of the file tools, schemas, descriptions and
  telemetry are left out, and output fields that are always empty.
\<close>

end
